(* ===== verification/Prelude.thy ===== *)
theory Prelude
  imports Complex_Main "HOL-Library.Word" "HOL-Library.List_Lexorder" "HOL-Library.Multiset"
begin

text \<open>
  What the other theories of the development share: the type of JavaScript strings (sequences of
  UTF-16 code units) with ASCII literals, bytes, the two result monads (\<open>'e + 'a\<close> for
  code that throws, \<open>'w \<Rightarrow> ('e + 'a) \<times> 'w\<close> for code that throws and talks to its
  environment), the collections of rewrite rules, and a few generic facts on lists.
\<close>

section \<open>Collections\<close>

named_theorems js_eval \<open>equations that evaluate a model on concrete input\<close>
named_theorems run_simps \<open>equations that run the result and environment monads\<close>
named_theorems run_iffs \<open>when a run of the environment monad ends in a given result\<close>

section \<open>Strings and bytes\<close>

text \<open>A JavaScript string is a finite sequence of 16-bit code units; a byte array is a list of
  bytes. \<open>js\<close> writes an ASCII literal.\<close>

type_synonym jsunit = "16 word"
type_synonym jsstr = "jsunit list"
type_synonym byte = "8 word"
type_synonym bytes = "byte list"

definition js :: "string \<Rightarrow> jsstr" where
  "js s = map of_char s"

definition jc :: "char \<Rightarrow> jsunit" where
  "jc c = of_char c"

lemma of_char_word16_inj: "(of_char c :: 16 word) = of_char d \<longleftrightarrow> c = d"
proof
  assume "(of_char c :: 16 word) = of_char d"
  then have "(of_nat (of_char c) :: 16 word) = of_nat (of_char d)"
    by (simp only: of_nat_of_char)
  then have "take_bit 16 (of_char c :: nat) = take_bit 16 (of_char d)"
    by (simp add: word_of_nat_eq_iff del: of_nat_of_char)
  moreover have "(of_char c :: nat) < 2 ^ 16" "(of_char d :: nat) < 2 ^ 16"
    by (rule less_trans [OF nat_of_char_less_256]; simp)+
  ultimately have "(of_char c :: nat) = of_char d"
    by (simp add: take_bit_nat_eq_self)
  then show "c = d" by simp
qed simp

lemma js_eq_iff [simp]: "js s = js t \<longleftrightarrow> s = t"
proof
  assume "js s = js t"
  then show "s = t"
    by (auto simp: js_def inj_on_def of_char_word16_inj intro: map_inj_on)
qed simp

lemma js_Nil [simp]: "js [] = []"
  by (simp add: js_def)

lemma js_Cons: "js (c # s) = jc c # js s"
  by (simp add: js_def jc_def)

lemma js_append: "js (s @ t) = js s @ js t"
  by (simp add: js_def)

lemma length_js [simp]: "length (js s) = length s"
  by (simp add: js_def)

lemma js_eq_Nil_iff [simp]: "js s = [] \<longleftrightarrow> s = []" "[] = js s \<longleftrightarrow> s = []"
  by (auto simp: js_def)

section \<open>Code that throws\<close>

text \<open>A computation that may throw is a value of \<open>'e + 'a\<close>: \<open>Inl\<close> the thrown error,
  \<open>Inr\<close> the result.\<close>

fun bindE :: "'e + 'a \<Rightarrow> ('a \<Rightarrow> 'e + 'b) \<Rightarrow> 'e + 'b" where
  "bindE (Inl e) f = Inl e"
| "bindE (Inr x) f = f x"

definition guardE :: "bool \<Rightarrow> 'e \<Rightarrow> 'e + unit" where
  "guardE b e = (if b then Inr () else Inl e)"

definition ofOption :: "'e \<Rightarrow> 'a option \<Rightarrow> 'e + 'a" where
  "ofOption e x = (case x of None \<Rightarrow> Inl e | Some y \<Rightarrow> Inr y)"

lemma bindE_eq_Inr_iff [simp]: "bindE m f = Inr y \<longleftrightarrow> (\<exists>x. m = Inr x \<and> f x = Inr y)"
  by (cases m) auto

lemma bindE_eq_Inl_iff: "bindE m f = Inl e \<longleftrightarrow> m = Inl e \<or> (\<exists>x. m = Inr x \<and> f x = Inl e)"
  by (cases m) auto

lemma bindE_assoc: "bindE (bindE m f) g = bindE m (\<lambda>x. bindE (f x) g)"
  by (cases m) auto

lemma guardE_simps [simp]:
  "guardE True e = Inr ()" "guardE False e = Inl e"
  "guardE b e = Inr u \<longleftrightarrow> b" "guardE b e = Inl e' \<longleftrightarrow> \<not> b \<and> e' = e"
  by (auto simp: guardE_def)

lemma ofOption_simps [simp]:
  "ofOption e None = Inl e" "ofOption e (Some x) = Inr x"
  "ofOption e m = Inr x \<longleftrightarrow> m = Some x" "ofOption e m = Inl e' \<longleftrightarrow> m = None \<and> e' = e"
  by (auto simp: ofOption_def split: option.splits)

fun mapE :: "('a \<Rightarrow> 'e + 'b) \<Rightarrow> 'a list \<Rightarrow> 'e + 'b list" where
  "mapE f [] = Inr []"
| "mapE f (x # xs) = bindE (f x) (\<lambda>y. bindE (mapE f xs) (\<lambda>ys. Inr (y # ys)))"

lemma mapE_Inr_iff: "mapE f xs = Inr ys \<longleftrightarrow> list_all2 (\<lambda>x y. f x = Inr y) xs ys"
  by (induction xs arbitrary: ys) (auto simp: list_all2_Cons1)

lemma mapE_eq_map: "(\<And>x. x \<in> set xs \<Longrightarrow> f x = Inr (g x)) \<Longrightarrow> mapE f xs = Inr (map g xs)"
  by (induction xs) auto

fun mapO :: "('a \<Rightarrow> 'b option) \<Rightarrow> 'a list \<Rightarrow> 'b list option" where
  "mapO f [] = Some []"
| "mapO f (x # xs) = (case f x of None \<Rightarrow> None
     | Some y \<Rightarrow> (case mapO f xs of None \<Rightarrow> None | Some ys \<Rightarrow> Some (y # ys)))"

lemma mapO_eq_map: "(\<And>x. x \<in> set xs \<Longrightarrow> f x = Some (g x)) \<Longrightarrow> mapO f xs = Some (map g xs)"
  by (induction xs) auto

lemma mapO_length: "mapO f xs = Some ys \<Longrightarrow> length ys = length xs"
  by (induction xs arbitrary: ys) (auto split: option.splits)

section \<open>Code that throws and talks to its environment\<close>

text \<open>An asynchronous operation is run to completion: it takes the environment and returns its
  outcome with the environment after it. \<open>catchM\<close> is \<open>try/catch\<close>.\<close>

type_synonym ('w, 'e, 'a) act = "'w \<Rightarrow> ('e + 'a) \<times> 'w"

definition retM :: "'a \<Rightarrow> ('w, 'e, 'a) act" where
  "retM x = (\<lambda>w. (Inr x, w))"

definition throwM :: "'e \<Rightarrow> ('w, 'e, 'a) act" where
  "throwM e = (\<lambda>w. (Inl e, w))"

definition liftM :: "'e + 'a \<Rightarrow> ('w, 'e, 'a) act" where
  "liftM r = (\<lambda>w. (r, w))"

definition bindM :: "('w, 'e, 'a) act \<Rightarrow> ('a \<Rightarrow> ('w, 'e, 'b) act) \<Rightarrow> ('w, 'e, 'b) act" where
  "bindM m f = (\<lambda>w. case m w of (Inl e, w') \<Rightarrow> (Inl e, w') | (Inr x, w') \<Rightarrow> f x w')"

definition catchM :: "('w, 'e, 'a) act \<Rightarrow> ('e \<Rightarrow> ('w, 'e, 'a) act) \<Rightarrow> ('w, 'e, 'a) act" where
  "catchM m h = (\<lambda>w. case m w of (Inl e, w') \<Rightarrow> h e w' | (Inr x, w') \<Rightarrow> (Inr x, w'))"

lemma retM_run [run_simps]: "retM x w = (Inr x, w)"
  by (simp add: retM_def)

lemma throwM_run [run_simps]: "throwM e w = (Inl e, w)"
  by (simp add: throwM_def)

lemma liftM_run [run_simps]: "liftM r w = (r, w)"
  by (simp add: liftM_def)

lemma bindM_run [run_simps]:
  "bindM m f w = (case m w of (Inl e, w') \<Rightarrow> (Inl e, w') | (Inr x, w') \<Rightarrow> f x w')"
  by (simp add: bindM_def)

lemma catchM_run [run_simps]:
  "catchM m h w = (case m w of (Inl e, w') \<Rightarrow> h e w' | (Inr x, w') \<Rightarrow> (Inr x, w'))"
  by (simp add: catchM_def)

lemma run_Inr_iffs [run_iffs]:
  "bindM m f w = (Inr y, w') \<longleftrightarrow> (\<exists>x w1. m w = (Inr x, w1) \<and> f x w1 = (Inr y, w'))"
  "retM x w = (Inr y, w') \<longleftrightarrow> x = y \<and> w = w'"
  "liftM r w = (Inr y, w') \<longleftrightarrow> r = Inr y \<and> w = w'"
  "throwM e w = (Inr y, w') \<longleftrightarrow> False"
  by (auto simp: bindM_def retM_def liftM_def throwM_def split: prod.splits sum.splits)

lemma run_Inl_iffs [run_iffs]:
  "bindM m f w = (Inl e, w') \<longleftrightarrow> m w = (Inl e, w') \<or> (\<exists>x w1. m w = (Inr x, w1) \<and> f x w1 = (Inl e, w'))"
  "retM x w = (Inl e, w') \<longleftrightarrow> False"
  "liftM r w = (Inl e, w') \<longleftrightarrow> r = Inl e \<and> w = w'"
  "throwM d w = (Inl e, w') \<longleftrightarrow> d = e \<and> w = w'"
  by (auto simp: bindM_def retM_def liftM_def throwM_def split: prod.splits sum.splits)

lemma bindM_InrE:
  assumes "bindM m f w = (Inr y, w2)"
  obtains x w1 where "m w = (Inr x, w1)" and "f x w1 = (Inr y, w2)"
  using assms by (auto simp: bindM_def split: prod.splits sum.splits)

lemma bindM_InlE:
  assumes "bindM m f w = (Inl e, w2)"
  obtains (first) "m w = (Inl e, w2)"
    | (second) x w1 where "m w = (Inr x, w1)" and "f x w1 = (Inl e, w2)"
  using assms by (auto simp: bindM_def split: prod.splits sum.splits)

section \<open>Lists\<close>

fun intersperse :: "'a list \<Rightarrow> 'a list list \<Rightarrow> 'a list" where
  "intersperse sep [] = []"
| "intersperse sep [x] = x"
| "intersperse sep (x # y # zs) = x @ sep @ intersperse sep (y # zs)"

text \<open>\<open>split_on\<close> is \<open>String.prototype.split\<close> at a single code unit.\<close>

fun split_on :: "'a \<Rightarrow> 'a list \<Rightarrow> 'a list list" where
  "split_on c [] = [[]]"
| "split_on c (x # xs) =
     (if x = c then [] # split_on c xs
      else case split_on c xs of [] \<Rightarrow> [[x]] | y # ys \<Rightarrow> (x # y) # ys)"

lemma split_on_nonempty [simp]: "split_on c xs \<noteq> []"
  by (induction xs) (auto split: list.splits)

lemma intersperse_Cons: "xs \<noteq> [] \<Longrightarrow> intersperse sep (x # xs) = x @ sep @ intersperse sep xs"
  by (cases xs) auto

lemma intersperse_split_on: "intersperse [c] (split_on c xs) = xs"
proof (induction xs)
  case (Cons x xs)
  then show ?case
    by (cases "split_on c xs") (auto simp: intersperse_Cons split: list.splits, cases "tl (split_on c xs)", auto)
qed simp

lemma distinct_map_mset: "mset xs = mset ys \<Longrightarrow> distinct (map f xs) \<longleftrightarrow> distinct (map f ys)"
proof -
  assume "mset xs = mset ys"
  then have "mset (map f xs) = mset (map f ys)" by simp
  then show ?thesis by (rule mset_eq_imp_distinct_iff)
qed

text \<open>Sorting by a key that is injective on the list forgets the order of the list.\<close>

lemma sort_key_permute:
  assumes "mset xs = mset ys" "distinct (map f xs)"
  shows "sort_key f xs = sort_key f ys"
proof (rule map_sorted_distinct_set_unique [of f])
  show "inj_on f (set (sort_key f xs) \<union> set (sort_key f ys))"
    using assms mset_eq_setD [OF assms(1)] by (simp add: distinct_map)
  show "set (sort_key f xs) = set (sort_key f ys)"
    using mset_eq_setD [OF assms(1)] by simp
  show "distinct (map f (sort_key f xs))"
    using assms(2) distinct_map_mset [of "sort_key f xs" xs f] by simp
  show "distinct (map f (sort_key f ys))"
    using assms distinct_map_mset [of "sort_key f ys" xs f] by simp
qed simp_all

lemma sort_key_map_key:
  assumes "\<And>x. g (h x) = f x"
  shows "sort_key g (map h xs) = map h (sort_key f xs)"
proof -
  have "insort_key g (h x) (map h ys) = map h (insort_key f x ys)" for x ys
    using assms by (induction ys) auto
  then show ?thesis by (induction xs) auto
qed

lemma map_of_sort_key:
  assumes "distinct (map fst kvs)"
  shows "map_of (sort_key f kvs) = map_of kvs"
  using assms distinct_map_mset [of "sort_key f kvs" kvs fst]
  by (intro map_of_inject_set [THEN iffD2]) auto

section \<open>State machines\<close>

text \<open>The states a labelled transition relation reaches from an initial state. The locale is the
  contract of an invariant: it holds at the start and every step keeps it.\<close>

inductive reach :: "('s \<Rightarrow> bool) \<Rightarrow> ('s \<Rightarrow> 'l \<Rightarrow> 's \<Rightarrow> bool) \<Rightarrow> 's \<Rightarrow> bool" for start step where
  reach_start: "start s \<Longrightarrow> reach start step s"
| reach_step: "reach start step s \<Longrightarrow> step s l t \<Longrightarrow> reach start step t"

locale state_machine =
  fixes start :: "'s \<Rightarrow> bool" and step :: "'s \<Rightarrow> 'l \<Rightarrow> 's \<Rightarrow> bool" and inv :: "'s \<Rightarrow> bool"
  assumes inv_start: "start s \<Longrightarrow> inv s"
    and inv_step: "inv s \<Longrightarrow> step s l t \<Longrightarrow> inv t"
begin

lemma reach_inv: "reach start step s \<Longrightarrow> inv s"
  by (induction rule: reach.induct) (auto intro: inv_start inv_step)

inductive run :: "'s \<Rightarrow> 'l list \<Rightarrow> 's \<Rightarrow> bool" where
  run_nil: "run s [] s"
| run_cons: "step s l t \<Longrightarrow> run t ls u \<Longrightarrow> run s (l # ls) u"

lemma run_inv: "run s ls t \<Longrightarrow> inv s \<Longrightarrow> inv t"
  by (induction rule: run.induct) (auto intro: inv_step)

lemma run_reach: "run s ls t \<Longrightarrow> reach start step s \<Longrightarrow> reach start step t"
  by (induction rule: run.induct) (auto intro: reach.intros)

end

text \<open>The contract of a refinement: the abstraction of every step is a step of the specification or
  changes nothing, so that what is reached is what the specification reaches.\<close>

locale refinement = state_machine start step inv
  for start :: "'s \<Rightarrow> bool" and step :: "'s \<Rightarrow> 'l \<Rightarrow> 's \<Rightarrow> bool" and inv :: "'s \<Rightarrow> bool" +
  fixes abs_of :: "'s \<Rightarrow> 'a" and spec_start :: "'a \<Rightarrow> bool" and spec_step :: "'a \<Rightarrow> 'b \<Rightarrow> 'a \<Rightarrow> bool"
    and label :: "'s \<Rightarrow> 'l \<Rightarrow> 'b option"
  assumes abs_start: "start s \<Longrightarrow> spec_start (abs_of s)"
    and abs_step: "inv s \<Longrightarrow> step s l t \<Longrightarrow> label s l = Some b \<Longrightarrow> spec_step (abs_of s) b (abs_of t)"
    and abs_stutter: "inv s \<Longrightarrow> step s l t \<Longrightarrow> label s l = None \<Longrightarrow> abs_of t = abs_of s"
begin

lemma reach_spec: "reach start step s \<Longrightarrow> reach spec_start spec_step (abs_of s)"
proof (induction rule: reach.induct)
  case (reach_step s l t)
  have i: "inv s" using reach_step.hyps(1) by (rule reach_inv)
  show ?case
  proof (cases "label s l")
    case None
    then show ?thesis using reach_step.IH abs_stutter [OF i reach_step.hyps(2)] by simp
  next
    case (Some b)
    then show ?thesis using reach.reach_step [OF reach_step.IH] abs_step [OF i reach_step.hyps(2)] by blast
  qed
qed (auto intro: reach.reach_start abs_start)

lemma step_spec:
  assumes "reach start step s" "step s l t"
  shows "case label s l of None \<Rightarrow> abs_of t = abs_of s | Some b \<Rightarrow> spec_step (abs_of s) b (abs_of t)"
  using reach_inv [OF assms(1)] abs_step abs_stutter assms(2) by (auto split: option.split)

end

end
