(* ===== verification/Regex.thy ===== *)
theory Regex
  imports Prelude
begin

text \<open>
  The regular expressions of the program. A literal \<open>/^...$/\<close> of the source is transcribed
  as a term of type \<open>re\<close>; \<open>re_test\<close> decides membership by Brzozowski derivatives and is
  proved to decide the language \<open>re_lang\<close>, so that a definition that uses a regular
  expression evaluates on a concrete string and a proof about it can reason on the language.
  None of the patterns has the \<open>m\<close> flag: \<open>^\<close> and \<open>$\<close> are the ends of the whole
  string. A class is a list of ranges; the \<open>i\<close> flag is transcribed by listing both cases.
\<close>

datatype re =
    RNone
  | REps
  | RCls "(jsunit \<times> jsunit) list"
  | RSeq re re
  | RAlt re re
  | RStar re

subsection \<open>The language\<close>

definition in_cls :: "(jsunit \<times> jsunit) list \<Rightarrow> jsunit \<Rightarrow> bool" where
  "in_cls rs c = list_ex (\<lambda>(a, b). a \<le> c \<and> c \<le> b) rs"

inductive re_lang :: "re \<Rightarrow> jsstr \<Rightarrow> bool" where
  eps: "re_lang REps []"
| cls: "in_cls rs c \<Longrightarrow> re_lang (RCls rs) [c]"
| sq: "re_lang r s \<Longrightarrow> re_lang q t \<Longrightarrow> re_lang (RSeq r q) (s @ t)"
| alt1: "re_lang r s \<Longrightarrow> re_lang (RAlt r q) s"
| alt2: "re_lang q s \<Longrightarrow> re_lang (RAlt r q) s"
| star0: "re_lang (RStar r) []"
| star1: "re_lang r s \<Longrightarrow> re_lang (RStar r) t \<Longrightarrow> re_lang (RStar r) (s @ t)"

inductive_simps re_lang_None [simp]: "re_lang RNone s"
inductive_simps re_lang_Eps [simp]: "re_lang REps s"
inductive_simps re_lang_Cls: "re_lang (RCls rs) s"
inductive_simps re_lang_Seq: "re_lang (RSeq r q) s"
inductive_simps re_lang_Alt [simp]: "re_lang (RAlt r q) s"

subsection \<open>Derivatives\<close>

fun nullable :: "re \<Rightarrow> bool" where
  "nullable RNone = False"
| "nullable REps = True"
| "nullable (RCls rs) = False"
| "nullable (RSeq r q) = (nullable r \<and> nullable q)"
| "nullable (RAlt r q) = (nullable r \<or> nullable q)"
| "nullable (RStar r) = True"

fun mk_seq :: "re \<Rightarrow> re \<Rightarrow> re" where
  "mk_seq RNone q = RNone"
| "mk_seq REps q = q"
| "mk_seq r q = RSeq r q"

fun mk_alt :: "re \<Rightarrow> re \<Rightarrow> re" where
  "mk_alt RNone q = q"
| "mk_alt r RNone = r"
| "mk_alt r q = RAlt r q"

fun deriv :: "jsunit \<Rightarrow> re \<Rightarrow> re" where
  "deriv c RNone = RNone"
| "deriv c REps = RNone"
| "deriv c (RCls rs) = (if in_cls rs c then REps else RNone)"
| "deriv c (RSeq r q) =
     (if nullable r then mk_alt (mk_seq (deriv c r) q) (deriv c q) else mk_seq (deriv c r) q)"
| "deriv c (RAlt r q) = mk_alt (deriv c r) (deriv c q)"
| "deriv c (RStar r) = mk_seq (deriv c r) (RStar r)"

fun re_test :: "re \<Rightarrow> jsstr \<Rightarrow> bool" where
  "re_test r [] = nullable r"
| "re_test r (c # s) = (case deriv c r of RNone \<Rightarrow> False | r' \<Rightarrow> re_test r' s)"

lemma nullable_iff: "nullable r \<longleftrightarrow> re_lang r []"
proof (induction r)
  case (RStar r)
  then show ?case by (auto intro: re_lang.star0)
qed (auto simp: re_lang_Cls re_lang_Seq)

lemma re_lang_mk_seq [simp]: "re_lang (mk_seq r q) s \<longleftrightarrow> re_lang (RSeq r q) s"
  by (cases r) (auto simp: re_lang_Seq)

lemma re_lang_mk_alt [simp]: "re_lang (mk_alt r q) s \<longleftrightarrow> re_lang r s \<or> re_lang q s"
  by (cases r; cases q) auto

lemma star_cons:
  assumes "re_lang (RStar r) (c # s)"
  shows "\<exists>t u. s = t @ u \<and> re_lang r (c # t) \<and> re_lang (RStar r) u"
  using assms
proof (induction "RStar r" "c # s" arbitrary: c s rule: re_lang.induct)
  case (star1 s1 t1)
  then show ?case
    by (cases s1) auto
qed

lemma re_lang_Seq_Cons:
  "re_lang (RSeq r q) (c # s) \<longleftrightarrow>
     (\<exists>t u. s = t @ u \<and> re_lang r (c # t) \<and> re_lang q u) \<or> re_lang r [] \<and> re_lang q (c # s)"
  (is "?l \<longleftrightarrow> ?a \<or> ?b")
proof
  assume ?l
  then obtain v w where "c # s = v @ w" "re_lang r v" "re_lang q w"
    by (auto simp: re_lang_Seq)
  then show "?a \<or> ?b" by (cases v) auto
next
  assume "?a \<or> ?b"
  then show ?l
  proof
    assume ?a
    then obtain t u where "s = t @ u" "re_lang r (c # t)" "re_lang q u" by blast
    then show ?l using re_lang.sq [of r "c # t" q u] by simp
  next
    assume ?b
    then show ?l using re_lang.sq [of r "[]" q "c # s"] by simp
  qed
qed

lemma re_lang_deriv: "re_lang (deriv c r) s \<longleftrightarrow> re_lang r (c # s)"
proof (induction r arbitrary: s)
  case (RSeq r q)
  have "re_lang (deriv c (RSeq r q)) s \<longleftrightarrow>
      re_lang (RSeq (deriv c r) q) s \<or> nullable r \<and> re_lang (deriv c q) s"
    by auto
  then show ?case
    unfolding re_lang_Seq_Cons re_lang_Seq [of "deriv c r"] by (simp add: RSeq nullable_iff)
next
  case (RStar r)
  have "re_lang (RStar r) (c # s) \<longleftrightarrow>
      (\<exists>t u. s = t @ u \<and> re_lang r (c # t) \<and> re_lang (RStar r) u)"
    using star_cons [of r c s] re_lang.star1 [of r "c # _"] by fastforce
  then show ?case
    using RStar by (auto simp: re_lang_Seq)
qed (auto simp: re_lang_Cls)

lemma re_test_iff: "re_test r s \<longleftrightarrow> re_lang r s"
proof (induction s arbitrary: r)
  case Nil
  then show ?case by (simp add: nullable_iff)
next
  case (Cons c s)
  have "re_test r (c # s) \<longleftrightarrow> re_lang (deriv c r) s"
    using Cons by (cases "deriv c r") simp_all
  then show ?case by (simp add: re_lang_deriv)
qed

subsection \<open>The constructs the patterns use\<close>

definition r_ch :: "char \<Rightarrow> re" where
  "r_ch c = RCls [(jc c, jc c)]"

definition r_any :: re where
  "r_any = RCls [(0, 9), (11, 12), (14, 0x2027), (0x202A, 0xFFFF)]"
  \<comment> \<open>\<open>.\<close>: every code unit but the line terminators\<close>

definition r_all :: re where
  "r_all = RStar (RCls [(0, 0xFFFF)])"
  \<comment> \<open>what an absent anchor skips\<close>

definition r_digit :: re where
  "r_digit = RCls [(jc CHR ''0'', jc CHR ''9'')]"

definition r_hex :: re where
  "r_hex = RCls [(jc CHR ''0'', jc CHR ''9''), (jc CHR ''a'', jc CHR ''f'')]"

definition r_hexi :: re where
  "r_hexi = RCls [(jc CHR ''0'', jc CHR ''9''), (jc CHR ''a'', jc CHR ''f''), (jc CHR ''A'', jc CHR ''F'')]"

fun r_lit :: "string \<Rightarrow> re" where
  "r_lit [] = REps"
| "r_lit [c] = r_ch c"
| "r_lit (c # d # cs) = RSeq (r_ch c) (r_lit (d # cs))"

fun r_seq :: "re list \<Rightarrow> re" where
  "r_seq [] = REps"
| "r_seq [r] = r"
| "r_seq (r # q # rs) = RSeq r (r_seq (q # rs))"

fun r_alts :: "re list \<Rightarrow> re" where
  "r_alts [] = RNone"
| "r_alts [r] = r"
| "r_alts (r # q # rs) = RAlt r (r_alts (q # rs))"

definition r_opt :: "re \<Rightarrow> re" where
  "r_opt r = RAlt r REps"

definition r_plus :: "re \<Rightarrow> re" where
  "r_plus r = RSeq r (RStar r)"

primrec r_times :: "nat \<Rightarrow> re \<Rightarrow> re" where
  "r_times 0 r = REps"
| "r_times (Suc n) r = RSeq r (r_times n r)"

definition r_atleast :: "nat \<Rightarrow> re \<Rightarrow> re" where
  "r_atleast n r = RSeq (r_times n r) (RStar r)"

primrec r_upto :: "nat \<Rightarrow> re \<Rightarrow> re" where
  "r_upto 0 r = REps"
| "r_upto (Suc n) r = r_opt (RSeq r (r_upto n r))"

definition r_between :: "nat \<Rightarrow> nat \<Rightarrow> re \<Rightarrow> re" where
  "r_between m n r = RSeq (r_times m r) (r_upto (n - m) r)"

lemma r_times_numeral [js_eval]:
  "r_times (numeral k) r = RSeq r (r_times (pred_numeral k) r)"
  "r_upto (numeral k) r = r_opt (RSeq r (r_upto (pred_numeral k) r))"
  by (simp_all add: numeral_eq_Suc)

lemmas r_defs [js_eval] = r_ch_def r_digit_def r_hex_def r_hexi_def r_opt_def r_plus_def
  r_atleast_def r_between_def in_cls_def jc_def js_def

subsection \<open>Character classes of a language\<close>

text \<open>Every string of a language is over the classes the expression mentions; the facts on
  hexadecimal and decimal fields come from this.\<close>

fun re_units :: "re \<Rightarrow> jsunit \<Rightarrow> bool" where
  "re_units RNone c = False"
| "re_units REps c = False"
| "re_units (RCls rs) c = in_cls rs c"
| "re_units (RSeq r q) c = (re_units r c \<or> re_units q c)"
| "re_units (RAlt r q) c = (re_units r c \<or> re_units q c)"
| "re_units (RStar r) c = re_units r c"

lemma re_lang_units: "re_lang r s \<Longrightarrow> c \<in> set s \<Longrightarrow> re_units r c"
  by (induction rule: re_lang.induct) auto

text \<open>A code unit every string of the language has.\<close>

fun re_must :: "re \<Rightarrow> jsunit \<Rightarrow> bool" where
  "re_must RNone c = True"
| "re_must (RCls rs) c = list_all (\<lambda>(a, b). a = c \<and> b = c) rs"
| "re_must (RSeq r q) c = (re_must r c \<or> re_must q c)"
| "re_must (RAlt r q) c = (re_must r c \<and> re_must q c)"
| "re_must _ c = False"

lemma re_lang_must: "re_lang r s \<Longrightarrow> re_must r c \<Longrightarrow> c \<in> set s"
proof (induction rule: re_lang.induct)
  case (cls rs d)
  then show ?case by (auto simp: in_cls_def list_all_iff list_ex_iff)
qed auto

lemma re_units_repeat [simp]:
  "re_units (r_times n r) c \<longleftrightarrow> 0 < n \<and> re_units r c"
  "re_units (r_upto n r) c \<longleftrightarrow> 0 < n \<and> re_units r c"
  "re_must (r_times n r) c \<longleftrightarrow> 0 < n \<and> re_must r c"
  by (induction n) (auto simp: r_opt_def)

lemma re_lang_Star_append:
  assumes "re_lang (RStar r) s" "re_lang (RStar r) t"
  shows "re_lang (RStar r) (s @ t)"
  using assms
proof (induction "RStar r" s rule: re_lang.induct)
  case (star1 u v)
  then show ?case
    using re_lang.star1 [of r u "v @ t"] by simp
qed simp

lemma re_lang_StarCls: "re_lang (RStar (RCls rs)) s \<longleftrightarrow> list_all (in_cls rs) s"
proof
  assume "re_lang (RStar (RCls rs)) s"
  then show "list_all (in_cls rs) s"
    using re_lang_units by (fastforce simp: list_all_iff)
next
  assume "list_all (in_cls rs) s"
  then show "re_lang (RStar (RCls rs)) s"
  proof (induction s)
    case (Cons c s)
    then show ?case
      using re_lang.star1 [of "RCls rs" "[c]" s] by (auto intro: re_lang.cls)
  qed (rule re_lang.star0)
qed

lemma re_lang_SeqCls_Cons:
  "re_lang (RSeq (RCls rs) q) (c # s) \<longleftrightarrow> in_cls rs c \<and> re_lang q s"
  by (auto simp: re_lang_Seq_Cons re_lang_Cls)

lemma re_lang_SeqCls_Nil [simp]: "\<not> re_lang (RSeq (RCls rs) q) []"
  by (auto simp: re_lang_Seq re_lang_Cls)

lemma re_lang_timesCls:
  "re_lang (r_times n (RCls rs)) s \<longleftrightarrow> length s = n \<and> list_all (in_cls rs) s"
proof (induction n arbitrary: s)
  case (Suc n)
  then show ?case by (cases s) (auto simp: re_lang_SeqCls_Cons)
qed auto

lemma re_lang_plusCls:
  "re_lang (r_plus (RCls rs)) s \<longleftrightarrow> s \<noteq> [] \<and> list_all (in_cls rs) s"
  by (cases s) (auto simp: r_plus_def re_lang_SeqCls_Cons re_lang_StarCls)

end
