(* ===== verification/JsString.thy ===== *)
theory JsString
  imports Regex
begin

text \<open>
  The string and byte functions of the JavaScript runtime that the program calls: trimming and
  ASCII case folding, UTF-8 (\<open>Buffer.from(s, "utf8")\<close>, \<open>TextEncoder\<close>,
  \<open>Buffer.toString("utf8")\<close> and \<open>TextDecoder\<close>), base64, hexadecimal, and the two
  percent encodings (\<open>encodeURIComponent\<close> and \<open>URLSearchParams\<close>). The encoders
  come with their round trips.
\<close>

section \<open>Trimming, case, prefixes\<close>

definition is_space :: "jsunit \<Rightarrow> bool" where
  "is_space c = in_cls [(9, 13), (32, 32), (0xA0, 0xA0), (0x1680, 0x1680), (0x2000, 0x200A),
     (0x2028, 0x2029), (0x202F, 0x202F), (0x205F, 0x205F), (0x3000, 0x3000), (0xFEFF, 0xFEFF)] c"

definition js_trim :: "jsstr \<Rightarrow> jsstr" where
  "js_trim s = rev (dropWhile is_space (rev (dropWhile is_space s)))"

definition lower_unit :: "jsunit \<Rightarrow> jsunit" where
  "lower_unit c = (if 65 \<le> c \<and> c \<le> 90 then c + 32 else c)"
  \<comment> \<open>ASCII part of \<open>toLowerCase\<close>\<close>

definition ascii_lower :: "jsstr \<Rightarrow> jsstr" where
  "ascii_lower s = map lower_unit s"

definition starts_with :: "jsstr \<Rightarrow> jsstr \<Rightarrow> bool" where
  "starts_with p s = (take (length p) s = p)"

definition ends_with :: "jsstr \<Rightarrow> jsstr \<Rightarrow> bool" where
  "ends_with p s = (length p \<le> length s \<and> drop (length s - length p) s = p)"

text \<open>\<open>s.replace(/\/$/, "")\<close> drops one trailing slash.\<close>

definition drop_slash :: "jsstr \<Rightarrow> jsstr" where
  "drop_slash s = (if s \<noteq> [] \<and> last s = jc CHR ''/'' then butlast s else s)"

lemma starts_with_append [simp]: "starts_with p (p @ s)"
  by (simp add: starts_with_def)

lemma drop_slash_idem_simp: "drop_slash (s @ js ''/'') = s"
  by (simp add: drop_slash_def js_Cons)

section \<open>UTF-8\<close>

definition is_high :: "jsunit \<Rightarrow> bool" where
  "is_high c = (0xD800 \<le> c \<and> c \<le> 0xDBFF)"

definition is_low :: "jsunit \<Rightarrow> bool" where
  "is_low c = (0xDC00 \<le> c \<and> c \<le> 0xDFFF)"

text \<open>The scalar values of a string; a lone surrogate reads as U+FFFD, as both Node and the
  browser encode it.\<close>

fun code_points :: "jsstr \<Rightarrow> nat list" where
  "code_points [] = []"
| "code_points [c] = [if is_high c \<or> is_low c then 0xFFFD else unat c]"
| "code_points (c # d # s) =
     (if is_high c \<and> is_low d
      then (0x10000 + (unat c - 0xD800) * 0x400 + (unat d - 0xDC00)) # code_points s
      else (if is_high c \<or> is_low c then 0xFFFD else unat c) # code_points (d # s))"

definition units_of :: "nat \<Rightarrow> jsstr" where
  "units_of cp = (if cp < 0x10000 then [of_nat cp]
     else [of_nat (0xD800 + (cp - 0x10000) div 0x400), of_nat (0xDC00 + (cp - 0x10000) mod 0x400)])"

definition utf8_cp :: "nat \<Rightarrow> bytes" where
  "utf8_cp cp =
     (if cp < 0x80 then [of_nat cp]
      else if cp < 0x800 then [of_nat (0xC0 + cp div 0x40), of_nat (0x80 + cp mod 0x40)]
      else if cp < 0x10000 then
        [of_nat (0xE0 + cp div 0x1000), of_nat (0x80 + cp div 0x40 mod 0x40), of_nat (0x80 + cp mod 0x40)]
      else
        [of_nat (0xF0 + cp div 0x40000), of_nat (0x80 + cp div 0x1000 mod 0x40),
         of_nat (0x80 + cp div 0x40 mod 0x40), of_nat (0x80 + cp mod 0x40)])"

definition utf8_encode :: "jsstr \<Rightarrow> bytes" where
  "utf8_encode s = concat (map utf8_cp (code_points s))"

definition byte_length :: "jsstr \<Rightarrow> nat" where
  "byte_length s = length (utf8_encode s)"

text \<open>The WHATWG decoder: \<open>n\<close> continuation bytes are still needed, the next one in
  \<open>lo..hi\<close>, with \<open>cp\<close> read so far. \<open>None\<close> marks a decoding error.\<close>

fun utf8_dec :: "nat \<Rightarrow> nat \<Rightarrow> nat \<Rightarrow> nat \<Rightarrow> bytes \<Rightarrow> nat option list" where
  "utf8_dec 0 lo hi cp [] = []"
| "utf8_dec 0 lo hi cp (b # bs) = (let v = unat b in
     if v < 0x80 then Some v # utf8_dec 0 0 0 0 bs
     else if 0xC2 \<le> v \<and> v \<le> 0xDF then utf8_dec 1 0x80 0xBF (v - 0xC0) bs
     else if v = 0xE0 then utf8_dec 2 0xA0 0xBF 0 bs
     else if v = 0xED then utf8_dec 2 0x80 0x9F 0xD bs
     else if 0xE1 \<le> v \<and> v \<le> 0xEF then utf8_dec 2 0x80 0xBF (v - 0xE0) bs
     else if v = 0xF0 then utf8_dec 3 0x90 0xBF 0 bs
     else if v = 0xF4 then utf8_dec 3 0x80 0x8F 4 bs
     else if 0xF1 \<le> v \<and> v \<le> 0xF3 then utf8_dec 3 0x80 0xBF (v - 0xF0) bs
     else None # utf8_dec 0 0 0 0 bs)"
| "utf8_dec (Suc n) lo hi cp [] = [None]"
| "utf8_dec (Suc n) lo hi cp (b # bs) = (let v = unat b in
     if lo \<le> v \<and> v \<le> hi
     then (let cp' = cp * 0x40 + (v - 0x80) in
       if n = 0 then Some cp' # utf8_dec 0 0 0 0 bs else utf8_dec n 0x80 0xBF cp' bs)
     else None # utf8_dec 0 0 0 0 (b # bs))"

text \<open>\<open>Buffer.toString("utf8")\<close> puts U+FFFD for each error; \<open>TextDecoder\<close> with
  \<open>fatal: true\<close> throws, and drops a leading byte order mark.\<close>

definition utf8_lossy :: "bytes \<Rightarrow> jsstr" where
  "utf8_lossy bs = concat (map (\<lambda>r. case r of None \<Rightarrow> [0xFFFD] | Some cp \<Rightarrow> units_of cp)
     (utf8_dec 0 0 0 0 bs))"

definition drop_bom :: "bytes \<Rightarrow> bytes" where
  "drop_bom bs = (if take 3 bs = [0xEF, 0xBB, 0xBF] then drop 3 bs else bs)"

definition utf8_fatal :: "bytes \<Rightarrow> jsstr option" where
  "utf8_fatal bs = (let r = utf8_dec 0 0 0 0 (drop_bom bs) in
     if None \<in> set r then None else Some (concat (map (units_of \<circ> the) r)))"

definition scalar :: "nat \<Rightarrow> bool" where
  "scalar cp = (cp < 0xD800 \<or> 0xE000 \<le> cp \<and> cp < 0x110000)"

lemma unat_of_nat_byte: "k < 256 \<Longrightarrow> unat (of_nat k :: byte) = k"
  by (simp add: unat_of_nat take_bit_nat_eq_self)

lemma scalar_code_points: "cp \<in> set (code_points s) \<Longrightarrow> scalar cp"
proof (induction s rule: code_points.induct)
  case (2 c)
  then show ?case
    using unsigned_less [of c, where ?'a = nat]
    by (auto simp: scalar_def is_high_def is_low_def word_le_nat_alt split: if_splits)
next
  case (3 c d s)
  show ?case
  proof (cases "is_high c \<and> is_low d")
    case True
    have "(unat c - 0xD800) * 0x400 + (unat d - 0xDC00) < 0x100000" if "is_high c" "is_low d"
    proof -
      have "unat c - 0xD800 \<le> 0x3FF" "unat d - 0xDC00 \<le> 0x3FF"
        using that by (auto simp: is_high_def is_low_def word_le_nat_alt)
      then show ?thesis by arith
    qed
    with True 3 show ?thesis
      by (auto simp: scalar_def)
  next
    case False
    with 3 show ?thesis
      using unsigned_less [of c, where ?'a = nat]
      by (auto simp: scalar_def is_high_def is_low_def word_le_nat_alt split: if_splits)
  qed
qed simp

lemma cont_byte: "k < 64 \<Longrightarrow> unat (of_nat (128 + k) :: byte) = 128 + k"
  by (rule unat_of_nat_byte) simp

lemma lead_byte: "k < 64 \<Longrightarrow> unat (of_nat (192 + k) :: byte) = 192 + k"
  by (rule unat_of_nat_byte) simp

lemma utf8_dec2:
  assumes "2 \<le> h" "h < 32" "l < 64"
  shows "utf8_dec 0 0 0 0 (of_nat (192 + h) # of_nat (128 + l) # bs) =
    Some (h * 64 + l) # utf8_dec 0 0 0 0 bs"
  using assms lead_byte [of h] cont_byte [of l] by (simp add: Let_def del: of_nat_add)

lemma utf8_dec3:
  assumes "h < 16" "m < 64" "l < 64" "h = 0 \<Longrightarrow> 32 \<le> m" "h = 13 \<Longrightarrow> m < 32"
  shows "utf8_dec 0 0 0 0 (of_nat (224 + h) # of_nat (128 + m) # of_nat (128 + l) # bs) =
    Some ((h * 64 + m) * 64 + l) # utf8_dec 0 0 0 0 bs"
proof -
  have "unat (of_nat (224 + h) :: byte) = 224 + h"
    using lead_byte [of "32 + h"] assms(1) by simp
  then show ?thesis
    using assms cont_byte [of m] cont_byte [of l]
    by (auto simp: Let_def numeral_2_eq_2 simp del: of_nat_add)
qed

lemma utf8_dec4:
  assumes "h \<le> 4" "m < 64" "n < 64" "l < 64" "h = 0 \<Longrightarrow> 16 \<le> m" "h = 4 \<Longrightarrow> m < 16"
  shows "utf8_dec 0 0 0 0
      (of_nat (240 + h) # of_nat (128 + m) # of_nat (128 + n) # of_nat (128 + l) # bs) =
    Some (((h * 64 + m) * 64 + n) * 64 + l) # utf8_dec 0 0 0 0 bs"
proof -
  have "unat (of_nat (240 + h) :: byte) = 240 + h"
    using lead_byte [of "48 + h"] assms(1) by simp
  then show ?thesis
    using assms cont_byte [of m] cont_byte [of n] cont_byte [of l]
    by (auto simp: Let_def numeral_2_eq_2 numeral_3_eq_3 simp del: of_nat_add)
qed

lemma utf8_dec_cp:
  assumes "scalar cp"
  shows "utf8_dec 0 0 0 0 (utf8_cp cp @ bs) = Some cp # utf8_dec 0 0 0 0 bs"
proof -
  consider (a) "cp < 0x80" | (b) "0x80 \<le> cp" "cp < 0x800" | (c) "0x800 \<le> cp" "cp < 0x10000"
    | (d) "0x10000 \<le> cp" "cp < 0x110000"
    using assms by (fastforce simp: scalar_def)
  then show ?thesis
  proof cases
    case a
    then have "unat (of_nat cp :: byte) = cp" by (intro unat_of_nat_byte) simp
    with a show ?thesis by (simp add: utf8_cp_def Let_def)
  next
    case b
    have "cp div 0x40 * 0x40 + cp mod 0x40 = cp" by simp
    moreover have "2 \<le> cp div 0x40" "cp div 0x40 < 32" using b by auto
    ultimately show ?thesis
      using b utf8_dec2 [of "cp div 0x40" "cp mod 0x40" bs]
      by (simp add: utf8_cp_def del: utf8_dec.simps of_nat_add)
  next
    case c
    let ?h = "cp div 0x1000" and ?m = "cp div 0x40 mod 0x40" and ?l = "cp mod 0x40"
    have h16: "?h < 16" using c by auto
    have whole: "(?h * 64 + ?m) * 64 + ?l = cp"
      by (simp add: div_mult2_eq [of cp 64 64, simplified])
    have m0: "?h = 0 \<Longrightarrow> 32 \<le> ?m"
    proof -
      assume "?h = 0"
      then have "cp div 64 < 64" by (simp add: div_eq_0_iff)
      moreover have "32 \<le> cp div 64" using c by auto
      ultimately show "32 \<le> ?m" by simp
    qed
    have mD: "?h = 13 \<Longrightarrow> ?m < 32"
    proof -
      assume h: "?h = 13"
      then have "cp < 0xE000" by auto
      then have "cp < 0xD800" using assms by (auto simp: scalar_def)
      then have "cp div 64 < 864" by auto
      moreover have "cp div 64 = 64 * ?h + ?m"
        by (simp add: div_mult2_eq [of cp 64 64, simplified])
      ultimately show "?m < 32" using h by simp
    qed
    show ?thesis
      using c h16 m0 mD whole utf8_dec3 [of ?h ?m ?l bs]
      by (simp add: utf8_cp_def del: utf8_dec.simps of_nat_add)
  next
    case d
    let ?h = "cp div 0x40000" and ?m = "cp div 0x1000 mod 0x40" and ?n = "cp div 0x40 mod 0x40"
      and ?l = "cp mod 0x40"
    have h4: "?h \<le> 4" using d by auto
    have whole: "((?h * 64 + ?m) * 64 + ?n) * 64 + ?l = cp"
    proof -
      have "cp div 0x1000 = cp div 64 div 64" "?h = cp div 64 div 64 div 64"
        by (simp_all flip: div_mult2_eq)
      moreover have "cp = cp div 64 * 64 + ?l" "cp div 64 = cp div 64 div 64 * 64 + ?n"
        "cp div 64 div 64 = cp div 64 div 64 div 64 * 64 + cp div 64 div 64 mod 64"
        by simp_all
      ultimately show ?thesis by presburger
    qed
    have m0: "?h = 0 \<Longrightarrow> 16 \<le> ?m"
    proof -
      assume "?h = 0"
      then have "cp div 0x1000 < 64" by (auto simp: div_eq_0_iff)
      moreover have "16 \<le> cp div 0x1000" using d by auto
      ultimately show "16 \<le> ?m" by simp
    qed
    have m4: "?h = 4 \<Longrightarrow> ?m < 16"
    proof -
      assume h: "?h = 4"
      have "cp div 0x1000 < 272" using d by auto
      moreover have "cp div 0x1000 = 64 * ?h + ?m"
        by (simp add: div_mult2_eq [of cp 4096 64, simplified])
      ultimately show "?m < 16" using h by simp
    qed
    show ?thesis
      using d h4 m0 m4 whole utf8_dec4 [of ?h ?m ?n ?l bs]
      by (simp add: utf8_cp_def del: utf8_dec.simps of_nat_add)
  qed
qed

lemma utf8_dec_encode: "utf8_dec 0 0 0 0 (utf8_encode s) = map Some (code_points s)"
proof -
  have "\<forall>cp \<in> set cps. scalar cp \<Longrightarrow>
      utf8_dec 0 0 0 0 (concat (map utf8_cp cps)) = map Some cps" for cps
    by (induction cps) (auto simp: utf8_dec_cp)
  then show ?thesis
    using scalar_code_points by (simp add: utf8_encode_def)
qed

text \<open>A well-formed string has no lone surrogate.\<close>

fun well_formed :: "jsstr \<Rightarrow> bool" where
  "well_formed [] = True"
| "well_formed [c] = (\<not> is_high c \<and> \<not> is_low c)"
| "well_formed (c # d # s) =
     (if is_high c \<and> is_low d then well_formed s
      else \<not> is_high c \<and> \<not> is_low c \<and> well_formed (d # s))"

lemma units_of_unit: "units_of (unat (c :: jsunit)) = [c]"
  using unsigned_less [of c, where ?'a = nat] by (simp add: units_of_def)

lemma units_of_pair:
  assumes "is_high c" "is_low d"
  shows "units_of (0x10000 + (unat c - 0xD800) * 0x400 + (unat d - 0xDC00)) = [c, d]"
proof -
  have b: "0xD800 \<le> unat c" "0xDC00 \<le> unat d" "unat d - 0xDC00 < 0x400"
    using assms by (auto simp: is_high_def is_low_def word_le_nat_alt)
  obtain x y where xy: "unat c = 0xD800 + x" "unat d = 0xDC00 + y" "y < 0x400"
    using b by (metis le_add_diff_inverse)
  have "(x * 0x400 + y) div 0x400 = x" "(x * 0x400 + y) mod 0x400 = y"
    using xy(3) by simp_all
  then show ?thesis
    by (simp add: units_of_def xy(1,2) del: of_nat_add) (simp flip: xy(1,2) del: of_nat_add)
qed

lemma units_of_code_points: "well_formed s \<Longrightarrow> concat (map units_of (code_points s)) = s"
  by (induction s rule: code_points.induct) (auto simp: units_of_unit units_of_pair)

theorem utf8_lossy_encode: "well_formed s \<Longrightarrow> utf8_lossy (utf8_encode s) = s"
  by (simp add: utf8_lossy_def utf8_dec_encode comp_def units_of_code_points)

lemma utf8_fatal_encode:
  assumes "well_formed s" "take 3 (utf8_encode s) \<noteq> [0xEF, 0xBB, 0xBF]"
  shows "utf8_fatal (utf8_encode s) = Some s"
  using assms by (auto simp: utf8_fatal_def drop_bom_def utf8_dec_encode comp_def units_of_code_points)

text \<open>On ASCII text UTF-8 is the identity.\<close>

definition ascii :: "jsstr \<Rightarrow> bool" where
  "ascii s = list_all (\<lambda>c. c < 0x80) s"

lemma ascii_simps [simp]:
  "ascii []" "ascii (c # s) \<longleftrightarrow> c < 0x80 \<and> ascii s" "ascii (s @ t) \<longleftrightarrow> ascii s \<and> ascii t"
  by (auto simp: ascii_def)

lemma ascii_not_surrogate:
  assumes "c < 0x80" shows "\<not> is_high c" "\<not> is_low c"
  using assms by (simp_all add: is_high_def is_low_def) (unat_arith, unat_arith)

lemma ascii_well_formed: "ascii s \<Longrightarrow> well_formed s"
  by (induction s rule: well_formed.induct) (auto simp: ascii_not_surrogate)

lemma ascii_code_points: "ascii s \<Longrightarrow> code_points s = map unat s"
  by (induction s rule: code_points.induct) (auto simp: ascii_not_surrogate)

lemma utf8_encode_ascii: "ascii s \<Longrightarrow> utf8_encode s = map ucast s"
proof (induction s)
  case (Cons c s)
  then have "unat c < 128" by (simp add: unat_arith_simps)
  moreover have "utf8_encode s = concat (map utf8_cp (map unat s))"
    using Cons.prems by (simp add: utf8_encode_def ascii_code_points)
  moreover have "utf8_encode (c # s) = concat (map utf8_cp (map unat (c # s)))"
    using Cons.prems ascii_code_points [of "c # s"] by (simp add: utf8_encode_def)
  ultimately show ?case
    using Cons by (simp add: utf8_cp_def)
qed (simp add: utf8_encode_def)

lemma ascii_js: "list_all (\<lambda>c. of_char c < (128 :: nat)) s \<Longrightarrow> ascii (js s)"
proof (induction s)
  case (Cons c s)
  have "jc c = of_nat (of_char c)" by (simp only: jc_def of_nat_of_char)
  then have "jc c < 0x80"
    using Cons.prems nat_of_char_less_256 [of c]
    by (simp add: word_less_nat_alt unat_of_nat take_bit_nat_eq_self del: of_nat_of_char)
  with Cons show ?case by (simp add: js_Cons)
qed simp

section \<open>Base64\<close>

definition b64_char :: "nat \<Rightarrow> jsunit" where
  "b64_char n = (if n < 26 then of_nat (65 + n) else if n < 52 then of_nat (71 + n)
     else if n < 62 then of_nat (n - 4) else if n = 62 then 43 else 47)"

definition b64_val :: "jsunit \<Rightarrow> nat option" where
  "b64_val c = (let n = unat c in
     if 65 \<le> n \<and> n \<le> 90 then Some (n - 65) else if 97 \<le> n \<and> n \<le> 122 then Some (n - 71)
     else if 48 \<le> n \<and> n \<le> 57 then Some (n + 4) else if n = 43 then Some 62
     else if n = 47 then Some 63 else None)"

fun b64_encode :: "bytes \<Rightarrow> jsstr" where
  "b64_encode [] = []"
| "b64_encode [a] = (let n = unat a in [b64_char (n div 4), b64_char (n mod 4 * 16), 61, 61])"
| "b64_encode [a, b] = (let n = unat a * 256 + unat b in
     [b64_char (n div 1024), b64_char (n div 16 mod 64), b64_char (n mod 16 * 4), 61])"
| "b64_encode (a # b # c # bs) = (let n = unat a * 65536 + unat b * 256 + unat c in
     [b64_char (n div 262144), b64_char (n div 4096 mod 64), b64_char (n div 64 mod 64), b64_char (n mod 64)]
     @ b64_encode bs)"

text \<open>Decoding of padded base64 in groups of four; the unused bits of the last group are
  ignored, as the platform decoders do. \<open>None\<close> is text that is not of this form.\<close>

fun b64_decode :: "jsstr \<Rightarrow> bytes option" where
  "b64_decode [] = Some []"
| "b64_decode (p # q # r # s # t) =
     (case (b64_val p, b64_val q) of
       (Some x, Some y) \<Rightarrow>
         (case (b64_val r, b64_val s) of
           (Some z, Some v) \<Rightarrow>
             (let n = x * 262144 + y * 4096 + z * 64 + v in
              map_option (\<lambda>bs. of_nat (n div 65536) # of_nat (n div 256 mod 256) # of_nat (n mod 256) # bs)
                (b64_decode t))
         | (Some z, None) \<Rightarrow>
             if s = 61 \<and> t = []
             then (let n = x * 1024 + y * 16 + z div 4 in Some [of_nat (n div 256), of_nat (n mod 256)])
             else None
         | (None, _) \<Rightarrow>
             if r = 61 \<and> s = 61 \<and> t = [] then Some [of_nat (x * 4 + y div 16)] else None)
     | _ \<Rightarrow> None)"
| "b64_decode _ = None"

definition re_base64 :: re where
  "re_base64 = (let c = RCls [(jc CHR ''A'', jc CHR ''Z''), (jc CHR ''a'', jc CHR ''z''),
        (jc CHR ''0'', jc CHR ''9''), (jc CHR ''+'', jc CHR ''+''), (jc CHR ''/'', jc CHR ''/'')] in
     RSeq (RStar (r_times 4 c))
       (r_opt (RAlt (RSeq (r_times 2 c) (r_lit ''=='')) (RSeq (r_times 3 c) (r_lit ''='')))))"

lemma b64_val_char: "n < 64 \<Longrightarrow> b64_val (b64_char n) = Some n"
proof -
  have "list_all (\<lambda>n. b64_val (b64_char n) = Some n) [0..<64]" by code_simp
  then show "n < 64 \<Longrightarrow> b64_val (b64_char n) = Some n" by (simp add: list_all_iff)
qed

lemma sextets:
  "(n :: nat) div 262144 * 262144 + n div 4096 mod 64 * 4096 + n div 64 mod 64 * 64 + n mod 64 = n"
proof -
  have "n mod 4096 = 64 * (n div 64 mod 64) + n mod 64"
    using mod_mult2_eq [of n 64 64] by simp
  moreover have "n mod 262144 = 4096 * (n div 4096 mod 64) + n mod 4096"
    using mod_mult2_eq [of n 4096 64] by simp
  moreover have "n div 262144 * 262144 + n mod 262144 = n"
    by (rule div_mult_mod_eq)
  ultimately show ?thesis by (simp only: add.assoc mult.commute)
qed

lemma b64_val_pad [simp]: "b64_val 61 = None"
  by (simp add: b64_val_def Let_def)

lemma unat_byte: "unat (x :: byte) < 256"
  using unsigned_less [of x, where ?'a = nat] by simp

theorem b64_decode_encode: "b64_decode (b64_encode bs) = Some bs"
proof (induction bs rule: b64_encode.induct)
  case (2 a)
  have "unat a div 4 < 64" "unat a mod 4 * 16 < 64" using unat_byte [of a] by auto
  then show ?case by (simp add: Let_def b64_val_char)
next
  case (3 a b)
  define n where "n = unat a * 256 + unat b"
  have n: "n < 65536" using unat_byte [of a] unat_byte [of b] by (simp add: n_def)
  then have v: "n div 1024 < 64" "n div 16 mod 64 < 64" "n mod 16 * 4 < 64" by auto
  have "n mod 1024 = 16 * (n div 16 mod 64) + n mod 16"
    using mod_mult2_eq [of n 16 64] by simp
  then have "n div 1024 * 1024 + n div 16 mod 64 * 16 + n mod 16 = n"
    using div_mult_mod_eq [of n 1024] by simp
  moreover have "n div 256 = unat a" "n mod 256 = unat b"
    using unat_byte [of b] by (simp_all add: n_def)
  ultimately show ?case
    using v by (simp add: n_def [symmetric] b64_val_char)
next
  case (4 a b c bs)
  define n where "n = unat a * 65536 + unat b * 256 + unat c"
  have n: "n < 16777216"
    using unat_byte [of a] unat_byte [of b] unat_byte [of c] by (simp add: n_def)
  have v: "n div 262144 < 64" "n div 4096 mod 64 < 64" "n div 64 mod 64 < 64" "n mod 64 < 64"
    using n by auto
  have w: "n div 262144 * 262144 + n div 4096 mod 64 * 4096 + n div 64 mod 64 * 64 + n mod 64 = n"
    by (rule sextets)
  have n2: "n = unat c + (unat b + unat a * 256) * 256"
    by (simp add: n_def)
  have "n mod 256 = unat c"
    using unat_byte [of c] by (simp only: n2 mod_mult_self1) simp
  moreover have d: "n div 256 = unat b + unat a * 256"
    using unat_byte [of c] by (simp only: n2) simp
  moreover have "n div 256 mod 256 = unat b"
    using unat_byte [of b] by (simp add: d)
  moreover have "n div 256 div 256 = unat a"
    using unat_byte [of b] by (simp add: d)
  then have "n div 65536 = unat a"
    by (simp flip: div_mult2_eq)
  ultimately have "n div 65536 = unat a" "n div 256 mod 256 = unat b" "n mod 256 = unat c"
    by simp_all
  then show ?case
    using v w 4 by (simp add: n_def [symmetric] b64_val_char)
qed simp

lemma b64_char_cls: "n < 64 \<Longrightarrow>
  in_cls [(jc CHR ''A'', jc CHR ''Z''), (jc CHR ''a'', jc CHR ''z''), (jc CHR ''0'', jc CHR ''9''),
    (jc CHR ''+'', jc CHR ''+''), (jc CHR ''/'', jc CHR ''/'')] (b64_char n)"
proof -
  have "list_all (\<lambda>n. in_cls [(jc CHR ''A'', jc CHR ''Z''), (jc CHR ''a'', jc CHR ''z''),
      (jc CHR ''0'', jc CHR ''9''), (jc CHR ''+'', jc CHR ''+''), (jc CHR ''/'', jc CHR ''/'')]
      (b64_char n)) [0..<64]" by code_simp
  then show "n < 64 \<Longrightarrow> ?thesis" by (simp add: list_all_iff)
qed

lemma b64_encode_re: "re_lang re_base64 (b64_encode bs)"
proof -
  let ?c = "RCls [(jc CHR ''A'', jc CHR ''Z''), (jc CHR ''a'', jc CHR ''z''),
        (jc CHR ''0'', jc CHR ''9''), (jc CHR ''+'', jc CHR ''+''), (jc CHR ''/'', jc CHR ''/'')]"
  let ?tail = "r_opt (RAlt (RSeq (r_times 2 ?c) (r_lit ''=='')) (RSeq (r_times 3 ?c) (r_lit ''='')))"
  have pad: "re_lang (r_lit ''='') [61]" "re_lang (r_lit ''=='') [61, 61]"
    by (simp_all add: r_ch_def re_lang_Cls re_lang_SeqCls_Cons in_cls_def jc_def)
  have nil: "re_lang ?tail w \<Longrightarrow> \<exists>u v. w = u @ v \<and> re_lang (RStar (r_times 4 ?c)) u \<and> re_lang ?tail v" for w
    using re_lang.star0 by (intro exI [of _ "[]"] exI [of _ w]) simp
  have "\<exists>u v. b64_encode bs = u @ v \<and> re_lang (RStar (r_times 4 ?c)) u \<and> re_lang ?tail v"
  proof (induction bs rule: b64_encode.induct)
    case 1
    show ?case by (rule nil) (simp add: r_opt_def)
  next
    case (2 a)
    have "unat a div 4 < 64" "unat a mod 4 * 16 < 64" using unat_byte [of a] by auto
    then have "re_lang (RSeq (r_times 2 ?c) (r_lit ''==''))
        ([b64_char (unat a div 4), b64_char (unat a mod 4 * 16)] @ [61, 61])"
      by (intro re_lang.sq pad) (simp add: re_lang_timesCls b64_char_cls del: r_times.simps)
    then have "re_lang ?tail (b64_encode [a])"
      unfolding r_opt_def by (intro re_lang.alt1) (simp add: Let_def del: r_times.simps r_lit.simps)
    with nil show ?case by blast
  next
    case (3 a b)
    define n where "n = unat a * 256 + unat b"
    have "n < 65536" using unat_byte [of a] unat_byte [of b] by (simp add: n_def)
    then have "n div 1024 < 64" "n div 16 mod 64 < 64" "n mod 16 * 4 < 64" by auto
    then have "re_lang (RSeq (r_times 3 ?c) (r_lit ''=''))
        ([b64_char (n div 1024), b64_char (n div 16 mod 64), b64_char (n mod 16 * 4)] @ [61])"
      by (intro re_lang.sq pad) (simp add: re_lang_timesCls b64_char_cls del: r_times.simps)
    then have "re_lang (RSeq (r_times 3 ?c) (r_lit ''='')) (b64_encode [a, b])"
      by (simp add: Let_def n_def [symmetric] del: r_times.simps r_lit.simps)
    then have "re_lang ?tail (b64_encode [a, b])"
      unfolding r_opt_def by (rule re_lang.alt1 [OF re_lang.alt2])
    with nil show ?case by blast
  next
    case (4 a b c bs)
    define n where "n = unat a * 65536 + unat b * 256 + unat c"
    have "n < 16777216"
      using unat_byte [of a] unat_byte [of b] unat_byte [of c] by (simp add: n_def)
    then have v: "n div 262144 < 64" "n div 4096 mod 64 < 64" "n div 64 mod 64 < 64" "n mod 64 < 64"
      by auto
    obtain u w where uw: "b64_encode bs = u @ w" "re_lang (RStar (r_times 4 ?c)) u" "re_lang ?tail w"
      using 4 by blast
    let ?g = "[b64_char (n div 262144), b64_char (n div 4096 mod 64),
      b64_char (n div 64 mod 64), b64_char (n mod 64)]"
    have "re_lang (r_times 4 ?c) ?g"
      using v by (simp add: re_lang_timesCls b64_char_cls del: r_times.simps)
    then have "re_lang (RStar (r_times 4 ?c)) (?g @ u)"
      using uw(2) by (rule re_lang.star1)
    with uw show ?case
      by (intro exI [of _ "?g @ u"] exI [of _ w]) (simp add: Let_def n_def [symmetric])
  qed
  then show ?thesis
    by (auto simp: re_base64_def Let_def intro: re_lang.sq)
qed

section \<open>Hexadecimal\<close>

definition hex_digit :: "nat \<Rightarrow> jsunit" where
  "hex_digit n = (if n < 10 then of_nat (48 + n) else of_nat (87 + n))"

definition hex_val :: "jsunit \<Rightarrow> nat option" where
  "hex_val c = (let n = unat c in
     if 48 \<le> n \<and> n \<le> 57 then Some (n - 48) else if 97 \<le> n \<and> n \<le> 102 then Some (n - 87)
     else if 65 \<le> n \<and> n \<le> 70 then Some (n - 55) else None)"

definition hex_byte :: "byte \<Rightarrow> jsstr" where
  "hex_byte b = [hex_digit (unat b div 16), hex_digit (unat b mod 16)]"

text \<open>\<open>digest("hex")\<close>, and \<open>byte.toString(16).padStart(2, "0")\<close> joined.\<close>

definition hex_encode :: "bytes \<Rightarrow> jsstr" where
  "hex_encode bs = concat (map hex_byte bs)"

text \<open>\<open>Buffer.from(s, "hex")\<close> reads pairs of digits and stops at the first that is not one;
  on strings of the patterns it is called with, it reads them all.\<close>

fun hex_decode :: "jsstr \<Rightarrow> bytes" where
  "hex_decode (c # d # s) = (case (hex_val c, hex_val d) of
     (Some x, Some y) \<Rightarrow> of_nat (x * 16 + y) # hex_decode s | _ \<Rightarrow> [])"
| "hex_decode _ = []"

lemma hex_val_digit: "n < 16 \<Longrightarrow> hex_val (hex_digit n) = Some n"
proof -
  have "list_all (\<lambda>n. hex_val (hex_digit n) = Some n) [0..<16]" by code_simp
  then show "n < 16 \<Longrightarrow> ?thesis" by (simp add: list_all_iff)
qed

lemma hex_decode_encode: "hex_decode (hex_encode bs) = bs"
proof (induction bs)
  case (Cons b bs)
  have "unat b div 16 < 16" "unat b mod 16 < 16" using unat_byte [of b] by auto
  with Cons show ?case
    by (simp add: hex_encode_def hex_byte_def hex_val_digit)
qed (simp add: hex_encode_def)

lemma hex_encode_eq_iff [simp]: "hex_encode bs = hex_encode cs \<longleftrightarrow> bs = cs"
  by (metis hex_decode_encode)

lemma length_hex_encode: "length (hex_encode bs) = 2 * length bs"
  by (induction bs) (auto simp: hex_encode_def hex_byte_def)

lemma hex_digit_cls: "n < 16 \<Longrightarrow> in_cls [(jc CHR ''0'', jc CHR ''9''), (jc CHR ''a'', jc CHR ''f'')] (hex_digit n)"
proof -
  have "list_all (\<lambda>n. in_cls [(jc CHR ''0'', jc CHR ''9''), (jc CHR ''a'', jc CHR ''f'')] (hex_digit n)) [0..<16]"
    by code_simp
  then show "n < 16 \<Longrightarrow> ?thesis" by (simp add: list_all_iff)
qed

lemma hex_encode_cls:
  "list_all (in_cls [(jc CHR ''0'', jc CHR ''9''), (jc CHR ''a'', jc CHR ''f'')]) (hex_encode bs)"
proof (induction bs)
  case (Cons b bs)
  have "unat b div 16 < 16" "unat b mod 16 < 16" using unat_byte [of b] by auto
  with Cons show ?case by (simp add: hex_encode_def hex_byte_def hex_digit_cls)
qed (simp add: hex_encode_def)

lemma hex_digit_ascii: "n < 16 \<Longrightarrow> hex_digit n < 0x80"
proof -
  have "list_all (\<lambda>n. hex_digit n < 0x80) [0..<16]" by code_simp
  then show "n < 16 \<Longrightarrow> ?thesis" by (simp add: list_all_iff)
qed

lemma hex_encode_ascii: "ascii (hex_encode bs)"
proof (induction bs)
  case (Cons b bs)
  have "unat b div 16 < 16" "unat b mod 16 < 16" using unat_byte [of b] by auto
  with Cons show ?case by (simp add: hex_encode_def hex_byte_def hex_digit_ascii)
qed (simp add: hex_encode_def)

section \<open>Percent encodings\<close>

definition hex_upper :: "nat \<Rightarrow> jsunit" where
  "hex_upper n = (if n < 10 then of_nat (48 + n) else of_nat (55 + n))"

definition percent_byte :: "byte \<Rightarrow> jsstr" where
  "percent_byte b = [37, hex_upper (unat b div 16), hex_upper (unat b mod 16)]"

definition is_alnum :: "jsunit \<Rightarrow> bool" where
  "is_alnum c = in_cls [(48, 57), (65, 90), (97, 122)] c"

text \<open>\<open>encodeURIComponent\<close> keeps letters, digits and \<open>-_.!~*'()\<close>; it throws
  \<open>URIError\<close> on a lone surrogate.\<close>

definition uri_unreserved :: "nat \<Rightarrow> bool" where
  "uri_unreserved cp = (cp < 0x80 \<and> (is_alnum (of_nat cp) \<or> cp \<in> {45, 95, 46, 33, 126, 42, 39, 40, 41}))"

definition encode_uri_component :: "jsstr \<Rightarrow> jsstr option" where
  "encode_uri_component s = (if well_formed s
     then Some (concat (map (\<lambda>cp. if uri_unreserved cp then [of_nat cp]
       else concat (map percent_byte (utf8_cp cp))) (code_points s)))
     else None)"

text \<open>\<open>URLSearchParams.toString()\<close>: the \<open>application/x-www-form-urlencoded\<close> serializer keeps
  letters, digits and \<open>*-._\<close>, and writes a space as a plus sign.\<close>

definition form_unreserved :: "nat \<Rightarrow> bool" where
  "form_unreserved cp = (cp < 0x80 \<and> (is_alnum (of_nat cp) \<or> cp \<in> {42, 45, 46, 95}))"

definition form_encode :: "jsstr \<Rightarrow> jsstr" where
  "form_encode s = concat (map (\<lambda>cp. if cp = 32 then [43] else if form_unreserved cp then [of_nat cp]
     else concat (map percent_byte (utf8_cp cp))) (code_points s))"

definition search_params :: "(jsstr \<times> jsstr) list \<Rightarrow> jsstr" where
  "search_params kvs = intersperse [38] (map (\<lambda>(k, v). form_encode k @ [61] @ form_encode v) kvs)"

lemma hex_upper_alnum: "n < 16 \<Longrightarrow> is_alnum (hex_upper n)"
proof -
  have "list_all (\<lambda>n. is_alnum (hex_upper n)) [0..<16]" by code_simp
  then show "n < 16 \<Longrightarrow> ?thesis" by (simp add: list_all_iff)
qed

text \<open>Neither encoder can produce a slash, a question mark or a hash: an encoded value stays
  inside the segment or the query value it is put in.\<close>

definition uri_safe :: "jsunit \<Rightarrow> bool" where
  "uri_safe c = (c \<notin> {47, 63, 35, 92, 58, 64})"

lemma alnum_safe: "is_alnum c \<Longrightarrow> uri_safe c"
  by (auto simp: is_alnum_def in_cls_def uri_safe_def)

lemma percent_byte_safe: "list_all uri_safe (percent_byte b)"
proof -
  have "unat b div 16 < 16" "unat b mod 16 < 16" using unat_byte [of b] by auto
  then show ?thesis
    by (simp add: percent_byte_def alnum_safe hex_upper_alnum) (simp add: uri_safe_def)
qed

lemma encode_uri_component_safe:
  assumes "encode_uri_component s = Some t"
  shows "list_all uri_safe t"
proof -
  have u: "uri_safe (of_nat cp)" if "uri_unreserved cp" for cp
    using that by (auto simp: uri_unreserved_def intro: alnum_safe) (auto simp: uri_safe_def)
  have p: "\<And>bs. list_all uri_safe (concat (map percent_byte bs))"
    using percent_byte_safe by (induct_tac bs) auto
  have "list_all uri_safe (concat (map (\<lambda>cp. if uri_unreserved cp then [of_nat cp]
       else concat (map percent_byte (utf8_cp cp))) cps))" for cps
    using u p by (induction cps) auto
  with assms show ?thesis
    by (auto simp: encode_uri_component_def split: if_splits)
qed

end
