(* ===== verification/JsNumber.thy ===== *)
theory JsNumber
  imports JsString "HOL-Library.Log_Nat"
begin

text \<open>
  JavaScript numbers: NaN, the infinities and the finite IEEE doubles, represented by their
  rational value (the sign of zero is not observable in this program and is not kept).
  \<open>double_of\<close> rounds an exact value to the nearest double, ties to even; arithmetic, the
  reading of decimal literals and \<open>Number(string)\<close> are the exact operation followed by this
  rounding. On the safe integers the rounding is the identity.
\<close>

datatype jsnum = NaN | PosInf | NegInf | Fin rat

section \<open>Rounding to a double\<close>

definition round_half_even :: "rat \<Rightarrow> int" where
  "round_half_even q = (let f = \<lfloor>q\<rfloor>; d = q - of_int f in
     if d < 1/2 then f else if 1/2 < d then f + 1 else if even f then f else f + 1)"

text \<open>The unit in the last place of \<open>q\<close> is \<open>2 ^ (s - 1074)\<close>, where \<open>s\<close> is what the
  binary expansion of \<open>|q| * 2 ^ 1074\<close> has beyond 53 bits (0 for a subnormal).\<close>

definition double_of :: "rat \<Rightarrow> jsnum" where
  "double_of q = (let s = floorlog 2 (nat \<lfloor>\<bar>q\<bar> * 2 ^ 1074\<rfloor>) - 53;
      u = 2 ^ s / 2 ^ 1074; r = of_int (round_half_even (\<bar>q\<bar> / u)) * u in
    if 2 ^ 1024 \<le> r then (if q < 0 then NegInf else PosInf) else Fin (if q < 0 then - r else r))"

lemma round_half_even_int [simp]: "round_half_even (of_int i) = i"
  by (simp add: round_half_even_def Let_def)

lemma double_of_int:
  assumes "\<bar>i\<bar> < 2 ^ 53"
  shows "double_of (of_int i) = Fin (of_int i)"
proof -
  define m where "m = nat \<bar>i\<bar>"
  have m: "(of_int \<bar>i\<bar> :: rat) = of_nat m" "m < 2 ^ 53"
    using assms by (simp_all add: m_def nat_less_iff)
  have "(of_nat m * 2 ^ 1074 :: rat) = of_nat (m * 2 ^ 1074)"
    by (simp only: of_nat_mult of_nat_power of_nat_numeral)
  then have fl: "nat \<lfloor>of_nat m * 2 ^ 1074 :: rat\<rfloor> = m * 2 ^ 1074"
    by (simp only: floor_of_nat nat_int)
  have "m * 2 ^ 1074 < 2 ^ 53 * 2 ^ 1074"
    using m(2) by (intro mult_strict_right_mono) (simp_all only: zero_less_power zero_less_numeral)
  then have "m * 2 ^ 1074 < 2 ^ (1074 + 53)"
    by (simp only: power_add mult.commute)
  then have "floorlog 2 (m * 2 ^ 1074) \<le> 1074 + 53"
    by (intro floorlog_leI) (simp_all only: one_less_numeral_iff semiring_norm order_refl numeral_One [symmetric])
  then obtain s where s: "floorlog 2 (m * 2 ^ 1074) - 53 = s" "s \<le> 1074" by simp
  obtain d where d: "1074 = s + d" using s(2) le_Suc_ex by blast
  have u: "(2 :: rat) ^ s / 2 ^ 1074 = 1 / 2 ^ d"
    by (simp only: d power_add) simp
  have "(of_nat m :: rat) / (1 / 2 ^ d) = of_int (int (m * 2 ^ d))"
    by simp
  then have r: "of_int (round_half_even ((of_nat m :: rat) / (1 / 2 ^ d))) * (1 / 2 ^ d) = (of_nat m :: rat)"
    by (simp only: round_half_even_int) simp
  have big: "\<not> (2 :: rat) ^ 1024 \<le> of_nat m"
  proof -
    have "(of_nat m :: rat) < of_nat (2 ^ 53)" using m(2) by (simp only: of_nat_less_iff)
    also have "\<dots> = (2 :: rat) ^ 53" by simp
    also have "\<dots> < 2 ^ 1024" by (rule power_strict_increasing) simp_all
    finally show ?thesis by simp
  qed
  have sgn: "(if (of_int i :: rat) < 0 then - of_nat m else of_nat m) = (of_int i :: rat)"
    using m(1) by (auto simp: abs_if split: if_splits)
  show ?thesis
    unfolding double_of_def of_int_abs [symmetric] m(1) fl Let_def s(1) u r if_not_P [OF big] sgn ..
qed

definition safe_int :: "int \<Rightarrow> bool" where
  "safe_int i = (\<bar>i\<bar> < 2 ^ 53)"

lemma double_of_safe [simp]: "safe_int i \<Longrightarrow> double_of (of_int i) = Fin (of_int i)"
  by (simp add: safe_int_def double_of_int)

lemma double_of_nat: "n < 2 ^ 53 \<Longrightarrow> double_of (of_nat n) = Fin (of_nat n)"
  using double_of_int [of "int n"] by simp

lemma double_of_numeral [js_eval]:
  "(numeral n :: int) < 9007199254740992 \<Longrightarrow> double_of (numeral n) = Fin (numeral n)"
  using double_of_int [of "numeral n"] by simp

lemma double_of_01 [js_eval]: "double_of 0 = Fin 0" "double_of 1 = Fin 1"
  using double_of_int [of 0] double_of_int [of 1] by simp_all

section \<open>Classification, comparison, arithmetic\<close>

definition rat_is_int :: "rat \<Rightarrow> bool" where
  "rat_is_int q = (of_int \<lfloor>q\<rfloor> = q)"

fun is_integer :: "jsnum \<Rightarrow> bool" where
  "is_integer (Fin q) = rat_is_int q"
| "is_integer _ = False"

fun is_safe_integer :: "jsnum \<Rightarrow> bool" where
  "is_safe_integer (Fin q) = (rat_is_int q \<and> \<bar>q\<bar> < 9007199254740992)"
| "is_safe_integer _ = False"

fun is_finite :: "jsnum \<Rightarrow> bool" where
  "is_finite (Fin q) = True"
| "is_finite _ = False"

fun num_lt :: "jsnum \<Rightarrow> jsnum \<Rightarrow> bool" where
  "num_lt (Fin p) (Fin q) = (p < q)"
| "num_lt NegInf (Fin q) = True"
| "num_lt NegInf PosInf = True"
| "num_lt (Fin p) PosInf = True"
| "num_lt _ _ = False"

definition num_eq :: "jsnum \<Rightarrow> jsnum \<Rightarrow> bool" where
  "num_eq a b = (a = b \<and> a \<noteq> NaN)"

definition num_le :: "jsnum \<Rightarrow> jsnum \<Rightarrow> bool" where
  "num_le a b = (num_lt a b \<or> num_eq a b)"

fun num_add :: "jsnum \<Rightarrow> jsnum \<Rightarrow> jsnum" where
  "num_add (Fin p) (Fin q) = double_of (p + q)"
| "num_add NaN b = NaN"
| "num_add a NaN = NaN"
| "num_add PosInf NegInf = NaN"
| "num_add NegInf PosInf = NaN"
| "num_add PosInf b = PosInf"
| "num_add NegInf b = NegInf"
| "num_add a b = b"

lemma safe_integerE:
  assumes "is_safe_integer n"
  obtains i where "n = Fin (of_int i)" "safe_int i"
proof (cases n)
  case (Fin q)
  let ?i = "\<lfloor>q\<rfloor>"
  have "q = of_int ?i" using assms unfolding Fin is_safe_integer.simps rat_is_int_def by metis
  moreover have "safe_int ?i"
  proof -
    have "\<bar>of_int ?i :: rat\<bar> < 9007199254740992"
      using assms Fin calculation by simp
    then have "of_int \<bar>?i\<bar> < (of_int 9007199254740992 :: rat)" by simp
    then show ?thesis unfolding of_int_less_iff by (simp add: safe_int_def)
  qed
  ultimately show ?thesis using Fin that by blast
qed (use assms in auto)

lemma is_safe_integer_int [simp]: "is_safe_integer (Fin (of_int i)) \<longleftrightarrow> safe_int i"
proof -
  have "\<bar>of_int i :: rat\<bar> < 9007199254740992 \<longleftrightarrow> \<bar>i\<bar> < 9007199254740992"
    using of_int_less_iff [of "\<bar>i\<bar>" 9007199254740992, where ?'a = rat] by simp
  then show ?thesis by (simp add: rat_is_int_def safe_int_def)
qed

lemma rat_is_int_simps [js_eval]:
  "rat_is_int 0" "rat_is_int 1" "rat_is_int (numeral n)" "rat_is_int (- numeral n)" "rat_is_int (-1)"
  by (simp_all add: rat_is_int_def)

section \<open>Decimal literals\<close>

definition is_digit :: "jsunit \<Rightarrow> bool" where
  "is_digit c = (48 \<le> c \<and> c \<le> 57)"

definition digits_val :: "jsstr \<Rightarrow> nat" where
  "digits_val ds = foldl (\<lambda>n c. n * 10 + (unat c - 48)) 0 ds"

definition dec_value :: "jsstr \<Rightarrow> jsstr \<Rightarrow> int \<Rightarrow> rat" where
  "dec_value ds fs e = of_nat (digits_val (ds @ fs)) * 10 powi (e - int (length fs))"

fun dec_str :: "nat \<Rightarrow> jsstr" where
  "dec_str n = (if n < 10 then [of_nat (48 + n)] else dec_str (n div 10) @ [of_nat (48 + n mod 10)])"

declare dec_str.simps [simp del]

lemma unat_digit: "n < 10 \<Longrightarrow> unat (of_nat (48 + n) :: jsunit) = 48 + n"
  by (subst unat_of_nat) (simp add: take_bit_nat_eq_self)

lemma digit_is_digit: "n < 10 \<Longrightarrow> is_digit (of_nat (48 + n))"
  using unat_digit [of n] by (simp add: is_digit_def word_le_nat_alt del: of_nat_add)

lemma digits_val_snoc: "digits_val (ds @ [c]) = digits_val ds * 10 + (unat c - 48)"
  by (simp add: digits_val_def)

lemma digits_val_dec_str: "digits_val (dec_str n) = n"
proof (induction n rule: dec_str.induct)
  case (1 n)
  show ?case
  proof (cases "n < 10")
    case True
    then show ?thesis
      using unat_digit [of n] by (subst dec_str.simps) (simp add: digits_val_def del: of_nat_add)
  next
    case False
    with 1 have "digits_val (dec_str (n div 10)) = n div 10" by simp
    then show ?thesis
      using False unat_digit [of "n mod 10"]
      by (subst dec_str.simps) (simp add: digits_val_snoc del: of_nat_add)
  qed
qed

lemma dec_str_digits: "list_all is_digit (dec_str n)"
proof (induction n rule: dec_str.induct)
  case (1 n)
  then show ?case
    by (subst dec_str.simps) (auto simp: digit_is_digit simp del: of_nat_add)
qed

lemma dec_str_nonempty [simp]: "dec_str n \<noteq> []"
  by (subst dec_str.simps) simp

lemma dec_str_inj [simp]: "dec_str m = dec_str n \<longleftrightarrow> m = n"
  by (metis digits_val_dec_str)

text \<open>The first digit is zero only for zero itself.\<close>

lemma hd_dec_str: "0 < n \<Longrightarrow> hd (dec_str n) \<noteq> 48"
proof (induction n rule: dec_str.induct)
  case (1 n)
  show ?case
  proof (cases "n < 10")
    case True
    with 1(2) have "unat (of_nat (48 + n) :: jsunit) \<noteq> 48" by (simp add: unat_digit del: of_nat_add)
    then have "(of_nat (48 + n) :: jsunit) \<noteq> 48" by auto
    with True show ?thesis by (subst dec_str.simps) simp
  next
    case False
    with 1 show ?thesis by (subst dec_str.simps) simp
  qed
qed

lemma dec_str_eval [js_eval]:
  "dec_str 0 = [48]" "dec_str 1 = [49]" "dec_str (Suc 0) = [49]"
  "dec_str (numeral n) = (if (numeral n :: nat) < 10 then [of_nat (48 + numeral n)]
     else dec_str (numeral n div 10) @ [of_nat (48 + numeral n mod 10)])"
  by (subst dec_str.simps; simp)+

text \<open>\<open>read_exp\<close> reads an optional exponent part; a letter with no digits after it is not one.\<close>

definition read_exp :: "jsstr \<Rightarrow> int \<times> jsstr" where
  "read_exp s = (case s of
       c # t \<Rightarrow>
         if c = 101 \<or> c = 69
         then (let neg = (t \<noteq> [] \<and> hd t = 45);
                   u = (if t \<noteq> [] \<and> (hd t = 43 \<or> hd t = 45) then tl t else t);
                   ds = takeWhile is_digit u
               in if ds = [] then (0, s)
                  else ((if neg then - int (digits_val ds) else int (digits_val ds)), dropWhile is_digit u))
         else (0, s)
     | [] \<Rightarrow> (0, s))"

text \<open>\<open>StrUnsignedDecimalLiteral\<close>, the whole of the string.\<close>

definition unsigned_decimal :: "jsstr \<Rightarrow> rat option" where
  "unsigned_decimal s = (let ds = takeWhile is_digit s; r = dropWhile is_digit s;
      dot = (r \<noteq> [] \<and> hd r = 46);
      fs = (if dot then takeWhile is_digit (tl r) else []);
      r' = (if dot then dropWhile is_digit (tl r) else r);
      (e, r'') = read_exp r'
    in if ds = [] \<and> fs = [] then None else if r'' = [] then Some (dec_value ds fs e) else None)"

definition radix_value :: "nat \<Rightarrow> jsstr \<Rightarrow> rat option" where
  "radix_value b ds = (let vs = map hex_val ds in
     if ds \<noteq> [] \<and> list_all (\<lambda>v. case v of None \<Rightarrow> False | Some d \<Rightarrow> d < b) vs
     then Some (of_nat (foldl (\<lambda>n v. n * b + the v) 0 vs)) else None)"

text \<open>\<open>Number(s)\<close> for a string.\<close>

definition number_of_str :: "jsstr \<Rightarrow> jsnum" where
  "number_of_str s = (let t = js_trim s; p = take 2 t in
     if t = [] then Fin 0
     else if p = js ''0x'' \<or> p = js ''0X''
       then (case radix_value 16 (drop 2 t) of None \<Rightarrow> NaN | Some q \<Rightarrow> double_of q)
     else if p = js ''0o'' \<or> p = js ''0O''
       then (case radix_value 8 (drop 2 t) of None \<Rightarrow> NaN | Some q \<Rightarrow> double_of q)
     else if p = js ''0b'' \<or> p = js ''0B''
       then (case radix_value 2 (drop 2 t) of None \<Rightarrow> NaN | Some q \<Rightarrow> double_of q)
     else (let neg = (hd t = 45); u = (if hd t = 43 \<or> hd t = 45 then tl t else t) in
       if u = js ''Infinity'' then (if neg then NegInf else PosInf)
       else case unsigned_decimal u of
           None \<Rightarrow> NaN | Some q \<Rightarrow> double_of (if neg then - q else q)))"

lemma takeWhile_digits: "list_all is_digit s \<Longrightarrow> takeWhile is_digit s = s \<and> dropWhile is_digit s = []"
  by (induction s) auto

lemma unsigned_decimal_digits:
  "s \<noteq> [] \<Longrightarrow> list_all is_digit s \<Longrightarrow> unsigned_decimal s = Some (of_nat (digits_val s))"
  by (simp add: unsigned_decimal_def takeWhile_digits read_exp_def dec_value_def)

lemma digit_not_space: "is_digit c \<Longrightarrow> \<not> is_space c"
  by (auto simp: is_digit_def is_space_def in_cls_def word_le_nat_alt)

lemma js_trim_digits: "list_all is_digit s \<Longrightarrow> js_trim s = s"
proof -
  assume d: "list_all is_digit s"
  have "dropWhile is_space t = t" if "list_all is_digit t" for t
    using that digit_not_space by (cases t) auto
  then show ?thesis using d by (simp add: js_trim_def list_all_rev)
qed

lemma is_digit_cases: "is_digit c \<Longrightarrow> c \<noteq> 43 \<and> c \<noteq> 45 \<and> c \<noteq> 73 \<and> c \<noteq> 88 \<and> c \<noteq> 120 \<and> c \<noteq> 79 \<and>
    c \<noteq> 111 \<and> c \<noteq> 66 \<and> c \<noteq> 98 \<and> c \<noteq> 46 \<and> c \<noteq> 101 \<and> c \<noteq> 69"
  by (auto simp: is_digit_def word_le_nat_alt)

lemma number_of_digits:
  assumes "s \<noteq> []" "list_all is_digit s"
  shows "number_of_str s = double_of (of_nat (digits_val s))"
proof -
  obtain c t where s: "s = c # t" using assms(1) by (cases s) auto
  have c: "is_digit c" and t: "list_all is_digit t" using assms(2) s by auto
  have p: "take 2 s \<noteq> js [a, b]" if "\<not> is_digit (jc b)" for a b
    using that t by (cases t) (auto simp: s js_Cons)
  have "\<not> is_digit (jc b)" if "b \<in> set ''xXoObB''" for b
    using that by (auto simp: jc_def is_digit_def)
  with p have "take 2 s \<noteq> js ''0x''" "take 2 s \<noteq> js ''0X''" "take 2 s \<noteq> js ''0o''" "take 2 s \<noteq> js ''0O''"
    "take 2 s \<noteq> js ''0b''" "take 2 s \<noteq> js ''0B''"
    by simp_all
  moreover have "s \<noteq> js ''Infinity''" "hd s \<noteq> 43" "hd s \<noteq> 45"
    using is_digit_cases [OF c] by (auto simp: s js_def)
  ultimately show ?thesis
    using assms by (simp add: number_of_str_def js_trim_digits Let_def unsigned_decimal_digits)
qed

lemma number_of_dec_str [simp]: "n < 2 ^ 53 \<Longrightarrow> number_of_str (dec_str n) = Fin (of_nat n)"
  by (simp add: number_of_digits dec_str_digits digits_val_dec_str double_of_nat)

section \<open>Number to string\<close>

text \<open>
  \<open>Number::toString\<close> writes the shortest decimal that reads back as the same double (the one
  closest to it among those), as digits \<open>s\<close> and the position \<open>n\<close> of the point. Safe integers
  are written as their decimal digits, which is what that rule gives for them.
\<close>

definition dec_exponent :: "rat \<Rightarrow> int" where
  "dec_exponent v = (case find (\<lambda>n. 10 powi (n - 1) \<le> v) (rev [-323..310]) of None \<Rightarrow> 0 | Some n \<Rightarrow> n)"

definition decimal_with :: "nat \<Rightarrow> rat \<Rightarrow> int option" where
  "decimal_with k v = (let p = 10 powi (dec_exponent v - int k); f = \<lfloor>v / p\<rfloor>;
      ok = (\<lambda>s. double_of (of_int s * p) = Fin v) in
    if ok f \<and> ok (f + 1) then Some (if v / p - of_int f \<le> 1/2 then f else f + 1)
    else if ok f then Some f else if ok (f + 1) then Some (f + 1) else None)"

fun shortest_from :: "nat list \<Rightarrow> rat \<Rightarrow> int \<times> nat" where
  "shortest_from [] v = (0, 1)"
| "shortest_from (k # ks) v = (case decimal_with k v of Some s \<Rightarrow> (s, k) | None \<Rightarrow> shortest_from ks v)"

definition decimal_layout :: "jsstr \<Rightarrow> int \<Rightarrow> jsstr" where
  "decimal_layout ds n = (let k = int (length ds) in
     if k \<le> n \<and> n \<le> 21 then ds @ replicate (nat (n - k)) 48
     else if 0 < n \<and> n \<le> 21 then take (nat n) ds @ [46] @ drop (nat n) ds
     else if - 6 < n \<and> n \<le> 0 then [48, 46] @ replicate (nat (- n)) 48 @ ds
     else (let e = n - 1; sgn = (if e < 0 then [45] else [43]) in
       take 1 ds @ (if k = 1 then [] else 46 # tl ds) @ [101] @ sgn @ dec_str (nat \<bar>e\<bar>)))"

definition positive_str :: "rat \<Rightarrow> jsstr" where
  "positive_str v = (let (s, k) = shortest_from [1..<18] v; n = dec_exponent v;
      full = s = 10 ^ k; ds = (if full then [49] else dec_str (nat s)) in
    decimal_layout ds (if full then n + 1 else n))"

fun num_str :: "jsnum \<Rightarrow> jsstr" where
  "num_str NaN = js ''NaN''"
| "num_str PosInf = js ''Infinity''"
| "num_str NegInf = js ''-Infinity''"
| "num_str (Fin q) =
     (if is_safe_integer (Fin q) then (if q < 0 then 45 # dec_str (nat \<lfloor>- q\<rfloor>) else dec_str (nat \<lfloor>q\<rfloor>))
      else if q < 0 then 45 # positive_str (- q) else positive_str q)"

declare num_str.simps(4) [simp del]

lemma num_str_nat [simp]: "n < 2 ^ 53 \<Longrightarrow> num_str (Fin (of_nat n)) = dec_str n"
  using is_safe_integer_int [of "int n"] by (simp add: num_str.simps(4) safe_int_def)

lemma num_str_int:
  assumes "safe_int i"
  shows "num_str (Fin (of_int i)) = (if i < 0 then 45 # dec_str (nat (- i)) else dec_str (nat i))"
proof -
  have "\<lfloor>- (of_int i :: rat)\<rfloor> = - i" by (simp flip: of_int_minus)
  with assms show ?thesis
    by (simp add: num_str.simps(4) del: is_safe_integer.simps)
qed

lemma num_str_numeral [js_eval]:
  "(numeral n :: int) < 9007199254740992 \<Longrightarrow> num_str (Fin (numeral n)) = dec_str (numeral n)"
  using num_str_int [of "numeral n"] by (simp add: safe_int_def)

lemma num_str_01 [js_eval]: "num_str (Fin 0) = [48]" "num_str (Fin 1) = [49]"
  using num_str_int [of 0] num_str_int [of 1] by (simp_all add: safe_int_def js_eval)

section \<open>Division, and a fixed number of decimals\<close>

text \<open>The program divides and multiplies by constants other than zero only.\<close>

fun num_div :: "jsnum \<Rightarrow> rat \<Rightarrow> jsnum" where
  "num_div (Fin p) q = double_of (p / q)"
| "num_div PosInf q = (if q < 0 then NegInf else PosInf)"
| "num_div NegInf q = (if q < 0 then PosInf else NegInf)"
| "num_div NaN q = NaN"

fun num_mul :: "jsnum \<Rightarrow> jsnum \<Rightarrow> jsnum" where
  "num_mul (Fin p) (Fin q) = double_of (p * q)"
| "num_mul NaN b = NaN"
| "num_mul a NaN = NaN"
| "num_mul (Fin p) b = (if p = 0 then NaN else if (0 < p) = (b = PosInf) then PosInf else NegInf)"
| "num_mul a (Fin q) = (if q = 0 then NaN else if (0 < q) = (a = PosInf) then PosInf else NegInf)"
| "num_mul a b = (if a = b then PosInf else NegInf)"

text \<open>\<open>x.toFixed(d)\<close>: the nearest decimal with \<open>d\<close> digits after the point, of two the larger in absolute
  value.\<close>

definition fixed_digits :: "nat \<Rightarrow> nat \<Rightarrow> jsstr" where
  "fixed_digits d n = (let s = dec_str n; t = replicate (Suc d - length s) 48 @ s; k = length t - d in
     if d = 0 then s else take k t @ [46] @ drop k t)"

definition to_fixed :: "nat \<Rightarrow> jsnum \<Rightarrow> jsstr" where
  "to_fixed d x = (case x of
       Fin q \<Rightarrow> if \<bar>q\<bar> < 10 ^ 21
         then (if q < 0 then [45] else []) @ fixed_digits d (nat \<lfloor>\<bar>q\<bar> * 10 ^ d + 1 / 2\<rfloor>)
         else num_str x
     | _ \<Rightarrow> num_str x)"

end
