(* ===== verification/JsValue.thy ===== *)
theory JsValue
  imports JsNumber
begin

text \<open>
  The JavaScript values the program handles: what \<open>JSON.parse\<close> returns, \<open>undefined\<close>, and
  objects built from them. An object is the list of its own properties in creation order, with
  distinct keys (\<open>wf_val\<close>); \<open>own_entries\<close> gives the order in which the language enumerates
  them. Property reads, truthiness, \<open>String(v)\<close>, \<open>===\<close> and \<open>JSON.stringify\<close> follow
  ECMA-262. No property name the program reads lives on a built-in prototype, so a read is a
  read of an own property.
\<close>

datatype jsval =
    Undef
  | Null
  | Bool bool
  | Num jsnum
  | Str jsstr
  | Arr "jsval list"
  | Obj "(jsstr \<times> jsval) list"

text \<open>The errors the program throws or lets through. A \<open>VerificationError\<close> carries its code
  and the \<open>retryable\<close> property, a \<open>CodedErr\<close> is an \<open>Error\<close> given a code property; a \<open>PrintwrightError\<close> the status and body of the response.\<close>

datatype js_error =
    TypeErr jsstr
  | RangeErr
  | SyntaxErr
  | UriErr
  | PlainErr jsstr
  | CodedErr jsstr jsstr
  | VerificationError jsstr jsstr "bool option"
  | PrintwrightError jsstr "jsnum option" "jsval option"

section \<open>Reads and tests\<close>

abbreviation jnum :: "nat \<Rightarrow> jsval" where
  "jnum n \<equiv> Num (Fin (of_nat n))"

definition nullish :: "jsval \<Rightarrow> bool" where
  "nullish v = (v = Undef \<or> v = Null)"

fun truthy :: "jsval \<Rightarrow> bool" where
  "truthy Undef = False"
| "truthy Null = False"
| "truthy (Bool b) = b"
| "truthy (Num n) = (n \<noteq> NaN \<and> n \<noteq> Fin 0)"
| "truthy (Str s) = (s \<noteq> [])"
| "truthy (Arr vs) = True"
| "truthy (Obj kvs) = True"

fun plain_object :: "jsval \<Rightarrow> bool" where
  "plain_object (Obj kvs) = True"
| "plain_object _ = False"

definition pget :: "(jsstr \<times> jsval) list \<Rightarrow> jsstr \<Rightarrow> jsval" where
  "pget kvs k = (case map_of kvs k of None \<Rightarrow> Undef | Some v \<Rightarrow> v)"

definition has_own :: "(jsstr \<times> jsval) list \<Rightarrow> jsstr \<Rightarrow> bool" where
  "has_own kvs k = (k \<in> fst ` set kvs)"

text \<open>\<open>typeof v === "object"\<close> for a truthy \<open>v\<close>.\<close>

fun is_object :: "jsval \<Rightarrow> bool" where
  "is_object (Obj kvs) = True"
| "is_object (Arr vs) = True"
| "is_object _ = False"

text \<open>\<open>v?.k\<close>; and \<open>v.k\<close>, which throws on \<open>undefined\<close> and \<open>null\<close>. Only objects have
  the properties the program reads (an array index or length is read by its own function).\<close>

fun opt_prop :: "jsval \<Rightarrow> jsstr \<Rightarrow> jsval" where
  "opt_prop (Obj kvs) k = pget kvs k"
| "opt_prop _ k = Undef"

definition get_prop :: "jsval \<Rightarrow> jsstr \<Rightarrow> js_error + jsval" where
  "get_prop v k = (if nullish v then Inl (TypeErr []) else Inr (opt_prop v k))"

definition or_else :: "jsval \<Rightarrow> jsval \<Rightarrow> jsval" where
  "or_else a b = (if truthy a then a else b)"
  \<comment> \<open>\<open>a || b\<close>\<close>

definition coalesce :: "jsval \<Rightarrow> jsval \<Rightarrow> jsval" where
  "coalesce a b = (if nullish a then b else a)"
  \<comment> \<open>\<open>a ?? b\<close>\<close>

text \<open>\<open>===\<close>. Two objects that are not the same reference are different; the places where the
  same reference meets itself are modelled where they occur.\<close>

fun strict_eq :: "jsval \<Rightarrow> jsval \<Rightarrow> bool" where
  "strict_eq Undef Undef = True"
| "strict_eq Null Null = True"
| "strict_eq (Bool a) (Bool b) = (a = b)"
| "strict_eq (Num a) (Num b) = num_eq a b"
| "strict_eq (Str a) (Str b) = (a = b)"
| "strict_eq _ _ = False"

fun positive_integer :: "jsval \<Rightarrow> bool" where
  "positive_integer (Num n) = (is_safe_integer n \<and> num_lt (Fin 0) n)"
| "positive_integer _ = False"

lemma truthy_not_nullish: "truthy v \<Longrightarrow> \<not> nullish v"
  by (cases v) (auto simp: nullish_def)

lemma strict_eq_Str [simp]: "strict_eq v (Str s) \<longleftrightarrow> v = Str s" "strict_eq (Str s) v \<longleftrightarrow> v = Str s"
  by (cases v; auto)+

lemma strict_eq_Bool [simp]: "strict_eq v (Bool b) \<longleftrightarrow> v = Bool b"
  by (cases v) auto

lemma pget_simps [simp]:
  "pget [] k = Undef" "pget ((k', v) # kvs) k = (if k = k' then v else pget kvs k)"
  by (auto simp: pget_def)

lemma has_own_simps [simp]:
  "has_own [] k = False" "has_own ((k', v) # kvs) k = (k = k' \<or> has_own kvs k)"
  by (auto simp: has_own_def)

lemma has_own_map_of: "has_own kvs k \<longleftrightarrow> map_of kvs k \<noteq> None"
  by (simp add: has_own_def map_of_eq_None_iff)

lemma not_has_own_pget: "\<not> has_own kvs k \<Longrightarrow> pget kvs k = Undef"
  by (auto simp: has_own_map_of pget_def)

lemma get_prop_Inr: "get_prop v k = Inr x \<longleftrightarrow> \<not> nullish v \<and> x = opt_prop v k"
  by (auto simp: get_prop_def)

lemma positive_integerE:
  assumes "positive_integer v"
  obtains n where "v = jnum n" "0 < n" "n < 2 ^ 53"
proof (cases v)
  case (Num x)
  then obtain i where i: "x = Fin (of_int i)" "safe_int i"
    using assms by (auto elim: safe_integerE)
  then have "0 < i" using assms Num by simp
  then obtain n where "i = int n" "0 < n" by (metis zero_less_imp_eq_int)
  with i Num that [of n] show thesis by (simp add: safe_int_def)
qed (use assms in auto)

lemma positive_integer_jnum [simp]: "positive_integer (jnum n) \<longleftrightarrow> 0 < n \<and> n < 2 ^ 53"
  using is_safe_integer_int [of "int n"] by (auto simp: safe_int_def simp del: is_safe_integer.simps)

section \<open>Enumeration order\<close>

text \<open>An array index is the canonical decimal of a number below \<open>2 ^ 32 - 1\<close>; such keys come
  first, in numeric order, the others follow in creation order.\<close>

definition is_array_index :: "jsstr \<Rightarrow> bool" where
  "is_array_index k = (k \<noteq> [] \<and> list_all is_digit k \<and> (hd k \<noteq> 48 \<or> k = [48]) \<and> digits_val k < 4294967295)"

definition own_entries :: "(jsstr \<times> 'a) list \<Rightarrow> (jsstr \<times> 'a) list" where
  "own_entries kvs = sort_key (\<lambda>(k, v). digits_val k) (filter (\<lambda>(k, v). is_array_index k) kvs)
     @ filter (\<lambda>(k, v). \<not> is_array_index k) kvs"

definition sorted_entries :: "(jsstr \<times> 'a) list \<Rightarrow> (jsstr \<times> 'a) list" where
  "sorted_entries kvs = sort_key fst kvs"

lemma mset_own_entries [simp]: "mset (own_entries kvs) = mset kvs"
  by (simp add: own_entries_def case_prod_unfold flip: mset_filter)
    (metis multiset_partition mset_filter)

lemma mset_sorted_entries [simp]: "mset (sorted_entries kvs) = mset kvs"
  by (simp add: sorted_entries_def)

lemma set_own_entries [simp]: "set (own_entries kvs) = set kvs"
  using mset_eq_setD [OF mset_own_entries] .

lemma set_sorted_entries [simp]: "set (sorted_entries kvs) = set kvs"
  by (simp add: sorted_entries_def)

lemma own_entries_no_index:
  "\<forall>k \<in> fst ` set kvs. \<not> is_array_index k \<Longrightarrow> own_entries kvs = kvs"
  by (auto simp: own_entries_def filter_empty_conv case_prod_unfold intro!: filter_True)

lemma sorted_entries_map:
  "sorted_entries (map (\<lambda>(k, v). (k, f v)) kvs) = map (\<lambda>(k, v). (k, f v)) (sorted_entries kvs)"
  unfolding sorted_entries_def by (rule sort_key_map_key) auto

lemma sorted_sorted_entries: "sorted (map fst (sorted_entries kvs))"
  by (simp add: sorted_entries_def)

lemma sorted_entries_idem: "sorted (map fst kvs) \<Longrightarrow> sorted_entries kvs = kvs"
  by (simp add: sorted_entries_def sort_key_id_if_sorted)

section \<open>String conversion\<close>

text \<open>\<open>String(v)\<close>: \<open>None\<close> where it throws, which an own property named \<open>toString\<close>
  makes it do (it is never a function here).\<close>

fun to_str :: "jsval \<Rightarrow> jsstr option" where
  "to_str Undef = Some (js ''undefined'')"
| "to_str Null = Some (js ''null'')"
| "to_str (Bool b) = Some (if b then js ''true'' else js ''false'')"
| "to_str (Num n) = Some (num_str n)"
| "to_str (Str s) = Some s"
| "to_str (Arr vs) = map_option (intersperse (js '',''))
     (mapO (\<lambda>r. r) (map (\<lambda>v. if nullish v then Some [] else to_str v) vs))"
| "to_str (Obj kvs) = (if has_own kvs (js ''toString'') then None else Some (js ''[object Object]''))"

definition string_of :: "jsval \<Rightarrow> js_error + jsstr" where
  "string_of v = ofOption (TypeErr []) (to_str v)"

text \<open>\<open>Number(v)\<close>; and the byte a number becomes in a byte array.\<close>

fun number_of :: "jsval \<Rightarrow> js_error + jsnum" where
  "number_of Undef = Inr NaN"
| "number_of Null = Inr (Fin 0)"
| "number_of (Bool b) = Inr (Fin (if b then 1 else 0))"
| "number_of (Num n) = Inr n"
| "number_of (Str s) = Inr (number_of_str s)"
| "number_of v = bindE (string_of v) (\<lambda>s. Inr (number_of_str s))"

fun to_uint8 :: "jsnum \<Rightarrow> byte" where
  "to_uint8 (Fin q) = of_int (if q < 0 then - floor (- q) else floor q)"
| "to_uint8 _ = 0"

section \<open>JSON.stringify\<close>

definition hex4 :: "jsunit \<Rightarrow> jsstr" where
  "hex4 c = (let n = unat c in
     [hex_digit (n div 4096), hex_digit (n div 256 mod 16), hex_digit (n div 16 mod 16), hex_digit (n mod 16)])"

definition escape_unit :: "jsunit \<Rightarrow> jsstr" where
  "escape_unit c =
     (if c = 8 then [92, 98] else if c = 9 then [92, 116] else if c = 10 then [92, 110]
      else if c = 12 then [92, 102] else if c = 13 then [92, 114]
      else if c = 34 then [92, 34] else if c = 92 then [92, 92]
      else if c < 32 \<or> is_high c \<or> is_low c then [92, 117] @ hex4 c
      else [c])"

fun json_escape :: "jsstr \<Rightarrow> jsstr" where
  "json_escape [] = []"
| "json_escape [c] = escape_unit c"
| "json_escape (c # d # s) =
     (if is_high c \<and> is_low d then c # d # json_escape s else escape_unit c @ json_escape (d # s))"

definition json_quote :: "jsstr \<Rightarrow> jsstr" where
  "json_quote s = [34] @ json_escape s @ [34]"

definition json_num :: "jsnum \<Rightarrow> jsstr" where
  "json_num n = (if is_finite n then num_str n else js ''null'')"

definition json_array :: "jsstr list \<Rightarrow> jsstr" where
  "json_array ss = js ''['' @ intersperse (js '','') ss @ js '']''"

definition json_member :: "jsstr \<times> jsstr \<Rightarrow> jsstr" where
  "json_member kv = json_quote (fst kv) @ js '':'' @ snd kv"

definition json_object :: "(jsstr \<times> jsstr) list \<Rightarrow> jsstr" where
  "json_object ms = js ''{'' @ intersperse (js '','') (map json_member ms) @ js ''}''"

fun stringify :: "jsval \<Rightarrow> jsstr option" where
  "stringify Undef = None"
| "stringify Null = Some (js ''null'')"
| "stringify (Bool b) = Some (if b then js ''true'' else js ''false'')"
| "stringify (Num n) = Some (json_num n)"
| "stringify (Str s) = Some (json_quote s)"
| "stringify (Arr vs) = Some (json_array (map (\<lambda>v. case stringify v of None \<Rightarrow> js ''null'' | Some s \<Rightarrow> s) vs))"
| "stringify (Obj kvs) = Some (json_object (List.map_filter
     (\<lambda>(k, r). case r of None \<Rightarrow> None | Some s \<Rightarrow> Some (k, s))
     (own_entries (map (\<lambda>(k, v). (k, stringify v)) kvs))))"

section \<open>Well-formed values\<close>

fun wf_val :: "jsval \<Rightarrow> bool" where
  "wf_val (Arr vs) = list_all wf_val vs"
| "wf_val (Obj kvs) = (distinct (map fst kvs) \<and> list_all (\<lambda>(k, v). wf_val v) kvs)"
| "wf_val _ = True"

text \<open>A plain JSON value: no \<open>undefined\<close>, and numbers that are safe integers, as in every
  certificate and receipt the marketplace issues.\<close>

fun json_plain :: "jsval \<Rightarrow> bool" where
  "json_plain Undef = False"
| "json_plain (Num n) = is_safe_integer n"
| "json_plain (Arr vs) = list_all json_plain vs"
| "json_plain (Obj kvs) = (distinct (map fst kvs) \<and> list_all (\<lambda>(k, v). json_plain v) kvs)"
| "json_plain _ = True"

lemma json_plain_wf: "json_plain v \<Longrightarrow> wf_val v"
  by (induction v) (auto simp: list_all_iff)

lemma wf_pget: "wf_val (Obj kvs) \<Longrightarrow> pget kvs k = v \<Longrightarrow> wf_val v"
  by (auto simp: pget_def list_all_iff dest: map_of_SomeD split: option.splits)

lemma stringify_Undef_iff: "stringify v = None \<longleftrightarrow> v = Undef"
  by (cases v) auto

lemma own_entries_map:
  "own_entries (map (\<lambda>(k, v). (k, f v)) kvs) = map (\<lambda>(k, v). (k, f v)) (own_entries kvs)"
proof -
  have "sort_key (\<lambda>(k, v). digits_val k) (map (\<lambda>(k, v). (k, f v)) ys) =
      map (\<lambda>(k, v). (k, f v)) (sort_key (\<lambda>(k, v). digits_val k) ys)" for ys
    by (rule sort_key_map_key) auto
  then show ?thesis
    by (simp add: own_entries_def filter_map comp_def case_prod_unfold)
qed

end
