(* ===== verification/JsonText.thy ===== *)
theory JsonText
  imports JsValue
begin

text \<open>
  \<open>JSON.parse\<close>, as a recursive-descent parser on code units (\<open>None\<close> is the
  \<open>SyntaxError\<close>), and its round trip with the texts \<open>JSON.stringify\<close> and the canonical
  forms produce: \<open>emit\<close> writes a value with its entries in list order, and parsing what it
  wrote gives the value back.
\<close>

section \<open>The parser\<close>

definition is_ws :: "jsunit \<Rightarrow> bool" where
  "is_ws c = (c = 32 \<or> c = 9 \<or> c = 10 \<or> c = 13)"

definition skip_ws :: "jsstr \<Rightarrow> jsstr" where
  "skip_ws s = dropWhile is_ws s"

definition unescape :: "jsunit \<Rightarrow> jsunit option" where
  "unescape c = (if c = 34 \<or> c = 92 \<or> c = 47 then Some c else if c = 98 then Some 8
     else if c = 102 then Some 12 else if c = 110 then Some 10 else if c = 114 then Some 13
     else if c = 116 then Some 9 else None)"

definition unhex4 :: "jsunit \<Rightarrow> jsunit \<Rightarrow> jsunit \<Rightarrow> jsunit \<Rightarrow> jsunit option" where
  "unhex4 a b c d = (case (hex_val a, hex_val b, hex_val c, hex_val d) of
     (Some w, Some x, Some y, Some z) \<Rightarrow> Some (of_nat (w * 4096 + x * 256 + y * 16 + z))
   | _ \<Rightarrow> None)"

text \<open>The rest of a string literal, after its opening quote.\<close>

fun json_string :: "jsstr \<Rightarrow> (jsstr \<times> jsstr) option" where
  "json_string [] = None"
| "json_string (c # s) =
     (if c = 34 then Some ([], s)
      else if c < 32 then None
      else if c = 92 then
        (case s of [] \<Rightarrow> None
         | e # t \<Rightarrow>
           if e = 117 then
             (case t of a # b # d # g # u \<Rightarrow>
                (case unhex4 a b d g of None \<Rightarrow> None
                 | Some x \<Rightarrow> map_option (\<lambda>(r, z). (x # r, z)) (json_string u))
              | _ \<Rightarrow> None)
           else (case unescape e of None \<Rightarrow> None
                 | Some x \<Rightarrow> map_option (\<lambda>(r, z). (x # r, z)) (json_string t)))
      else map_option (\<lambda>(r, z). (c # r, z)) (json_string s))"

definition json_number :: "jsstr \<Rightarrow> (jsnum \<times> jsstr) option" where
  "json_number s = (let neg = (s \<noteq> [] \<and> hd s = 45); u = (if neg then tl s else s);
      ds = takeWhile is_digit u; r = dropWhile is_digit u;
      dot = (r \<noteq> [] \<and> hd r = 46);
      fs = (if dot then takeWhile is_digit (tl r) else []);
      r' = (if dot then dropWhile is_digit (tl r) else r);
      (e, r'') = read_exp r'; q = dec_value ds fs e
    in if ds = [] \<or> (hd ds = 48 \<and> tl ds \<noteq> []) \<or> (dot \<and> fs = []) then None
       else Some (double_of (if neg then - q else q), r''))"

text \<open>A repeated key keeps its place and takes the new value.\<close>

fun obj_put :: "(jsstr \<times> jsval) list \<Rightarrow> jsstr \<Rightarrow> jsval \<Rightarrow> (jsstr \<times> jsval) list" where
  "obj_put [] k v = [(k, v)]"
| "obj_put ((k', v') # kvs) k v = (if k' = k then (k, v) # kvs else (k', v') # obj_put kvs k v)"

lemma length_skip_ws [simp]: "length (skip_ws s) \<le> length s"
  by (simp add: skip_ws_def length_dropWhile_le)

text \<open>The tests \<open>length u < length s\<close> hold in every run (each call reads at least one unit);
  they only make the termination of the parser evident.\<close>

function (sequential) json_value :: "jsstr \<Rightarrow> (jsval \<times> jsstr) option"
  and json_elems :: "jsval list \<Rightarrow> jsstr \<Rightarrow> (jsval \<times> jsstr) option"
  and json_members :: "(jsstr \<times> jsval) list \<Rightarrow> jsstr \<Rightarrow> (jsval \<times> jsstr) option" where
  "json_value s = (case skip_ws s of [] \<Rightarrow> None
     | c # t \<Rightarrow>
       if c = 123 then (case skip_ws t of [] \<Rightarrow> None
           | d # u \<Rightarrow> if d = 125 then Some (Obj [], u) else json_members [] (d # u))
       else if c = 91 then (case skip_ws t of [] \<Rightarrow> None
           | d # u \<Rightarrow> if d = 93 then Some (Arr [], u) else json_elems [] (d # u))
       else if c = 34 then map_option (\<lambda>(x, r). (Str x, r)) (json_string t)
       else if starts_with (js ''true'') (c # t) then Some (Bool True, drop 4 (c # t))
       else if starts_with (js ''false'') (c # t) then Some (Bool False, drop 5 (c # t))
       else if starts_with (js ''null'') (c # t) then Some (Null, drop 4 (c # t))
       else map_option (\<lambda>(n, r). (Num n, r)) (json_number (c # t)))"
| "json_elems acc s = (case json_value s of None \<Rightarrow> None
     | Some (v, r) \<Rightarrow> (case skip_ws r of [] \<Rightarrow> None
         | d # u \<Rightarrow> if d = 44 \<and> length u < length s then json_elems (acc @ [v]) u
             else if d = 93 then Some (Arr (acc @ [v]), u) else None))"
| "json_members acc s = (case skip_ws s of [] \<Rightarrow> None
     | c # t \<Rightarrow> if c \<noteq> 34 then None else (case json_string t of None \<Rightarrow> None
         | Some (k, r) \<Rightarrow> (case skip_ws r of [] \<Rightarrow> None
             | d # u \<Rightarrow> if d = 58 \<and> length u < length s then
                 (case json_value u of None \<Rightarrow> None
                  | Some (v, r2) \<Rightarrow> (case skip_ws r2 of [] \<Rightarrow> None
                      | e # w \<Rightarrow> if e = 44 \<and> length w < length s then json_members (obj_put acc k v) w
                          else if e = 125 then Some (Obj (obj_put acc k v), w) else None))
               else None)))"
  by pat_completeness auto
termination
proof (relation "measure (\<lambda>x. case x of Inl s \<Rightarrow> 2 * length s
    | Inr (Inl (acc, s)) \<Rightarrow> 2 * length s + 1 | Inr (Inr (acc, s)) \<Rightarrow> 2 * length s + 1)", goal_cases)
  case (2 s c t d u)
  then have "length (skip_ws s) = Suc (length t)" "length (skip_ws t) = Suc (length u)" by simp_all
  then show ?case using length_skip_ws [of s] length_skip_ws [of t] by simp
next
  case (3 s c t d u)
  then have "length (skip_ws s) = Suc (length t)" "length (skip_ws t) = Suc (length u)" by simp_all
  then show ?case using length_skip_ws [of s] length_skip_ws [of t] by simp
qed auto

declare json_value.simps [simp del] json_elems.simps [simp del] json_members.simps [simp del]

definition json_parse :: "jsstr \<Rightarrow> jsval option" where
  "json_parse s = (case json_value s of None \<Rightarrow> None
     | Some (v, r) \<Rightarrow> if skip_ws r = [] then Some v else None)"

section \<open>Writing in list order\<close>

fun emit :: "jsval \<Rightarrow> jsstr" where
  "emit Undef = js ''undefined''"
| "emit Null = js ''null''"
| "emit (Bool b) = (if b then js ''true'' else js ''false'')"
| "emit (Num n) = json_num n"
| "emit (Str s) = json_quote s"
| "emit (Arr vs) = json_array (map emit vs)"
| "emit (Obj kvs) = json_object (map (\<lambda>(k, v). (k, emit v)) kvs)"

section \<open>Reading back what was written\<close>

definition delimited :: "jsstr \<Rightarrow> bool" where
  "delimited r = (r = [] \<or> \<not> is_digit (hd r) \<and> hd r \<noteq> 46 \<and> hd r \<noteq> 101 \<and> hd r \<noteq> 69)"

lemma skip_ws_Cons: "skip_ws (c # s) = (if is_ws c then skip_ws s else c # s)"
  by (simp add: skip_ws_def)

lemma skip_ws_token [simp]:
  "skip_ws (34 # s) = 34 # s" "skip_ws (44 # s) = 44 # s" "skip_ws (58 # s) = 58 # s"
  "skip_ws (91 # s) = 91 # s" "skip_ws (93 # s) = 93 # s" "skip_ws (123 # s) = 123 # s"
  "skip_ws (125 # s) = 125 # s"
  by (simp_all add: skip_ws_Cons is_ws_def)

lemma unat_unit: "unat (c :: jsunit) < 65536"
  using unsigned_less [of c, where ?'a = nat] by simp

lemma unhex4_hex4: "unhex4 (hex_digit (unat c div 4096)) (hex_digit (unat c div 256 mod 16))
    (hex_digit (unat c div 16 mod 16)) (hex_digit (unat c mod 16)) = Some c"
proof -
  define n where "n = unat c"
  have d: "n div 4096 < 16" "n div 256 mod 16 < 16" "n div 16 mod 16 < 16" "n mod 16 < 16"
    using unat_unit [of c] by (auto simp: n_def)
  have "n mod 256 = 16 * (n div 16 mod 16) + n mod 16"
    using mod_mult2_eq [of n 16 16] by simp
  moreover have "n mod 4096 = 256 * (n div 256 mod 16) + n mod 256"
    using mod_mult2_eq [of n 256 16] by simp
  moreover have "n div 4096 * 4096 + n mod 4096 = n" by (rule div_mult_mod_eq)
  ultimately have "n div 4096 * 4096 + n div 256 mod 16 * 256 + n div 16 mod 16 * 16 + n mod 16 = n"
    by (simp only: add.assoc mult.commute)
  then show ?thesis
    unfolding n_def [symmetric] unhex4_def
    by (simp add: d hex_val_digit del: of_nat_add of_nat_mult) (simp add: n_def)
qed

lemma json_string_escape_unit:
  "json_string (escape_unit c @ s) = map_option (\<lambda>(r, z). (c # r, z)) (json_string s)"
  by (auto simp: escape_unit_def hex4_def Let_def unhex4_hex4 unescape_def)

lemma json_string_plain_unit:
  assumes "is_high c \<or> is_low c"
  shows "json_string (c # s) = map_option (\<lambda>(r, z). (c # r, z)) (json_string s)"
proof -
  have "c \<noteq> 34" "\<not> c < 32" "c \<noteq> 92"
    using assms by (auto simp: is_high_def is_low_def word_le_nat_alt word_less_nat_alt)
  then show ?thesis by simp
qed

lemma json_string_escape: "json_string (json_escape x @ 34 # s) = Some (x, s)"
proof (induction x rule: json_escape.induct)
  case (2 c)
  then show ?case by (simp add: json_string_escape_unit del: json_string.simps(2)) simp
next
  case (3 c d x)
  then show ?case
    by (auto simp: json_string_plain_unit json_string_escape_unit simp del: json_string.simps(2))
qed simp

lemma read_exp_delimited: "delimited r \<Longrightarrow> read_exp r = (0, r)"
  by (auto simp: delimited_def read_exp_def split: list.splits)

lemma span_digits:
  assumes "list_all is_digit ds" "delimited r"
  shows "takeWhile is_digit (ds @ r) = ds" "dropWhile is_digit (ds @ r) = r"
  using assms by (induction ds) (auto simp: delimited_def intro!: takeWhile_eq_Nil_iff [THEN iffD2]
      dropWhile_eq_self_iff [THEN iffD2])

lemma json_number_digits:
  assumes "delimited r"
  shows "json_number (dec_str n @ r) = Some (double_of (of_nat n), r)"
    and "json_number (45 # dec_str n @ r) = Some (double_of (- of_nat n), r)"
proof -
  let ?ds = "dec_str n"
  have d: "takeWhile is_digit (?ds @ r) = ?ds" "dropWhile is_digit (?ds @ r) = r"
    using span_digits [OF dec_str_digits assms] by auto
  have h: "\<not> (hd ?ds = 48 \<and> tl ?ds \<noteq> [])"
  proof (cases "n = 0")
    case True
    then show ?thesis by (simp add: js_eval)
  qed (simp add: hd_dec_str)
  have dot: "(r \<noteq> [] \<and> hd r = 46) = False" using assms by (auto simp: delimited_def)
  have "is_digit (hd ?ds)"
    using dec_str_digits [of n] by (cases ?ds) auto
  then have m: "hd (?ds @ r) \<noteq> 45" using is_digit_cases by auto
  have v: "dec_value ?ds [] 0 = of_nat n" by (simp add: dec_value_def digits_val_dec_str)
  show "json_number (dec_str n @ r) = Some (double_of (of_nat n), r)"
    using h m
    by (simp add: json_number_def Let_def d dot read_exp_delimited [OF assms] v del: dropWhile_eq_Nil_conv)
  show "json_number (45 # dec_str n @ r) = Some (double_of (- of_nat n), r)"
    using h
    by (simp add: json_number_def Let_def d dot read_exp_delimited [OF assms] v del: dropWhile_eq_Nil_conv)
qed

lemma json_number_emit:
  assumes "is_safe_integer x" "delimited r"
  shows "json_number (json_num x @ r) = Some (x, r)"
proof -
  obtain i where i: "x = Fin (of_int i)" "safe_int i" using assms(1) by (rule safe_integerE)
  show ?thesis
  proof (cases "i < 0")
    case True
    then have "(- of_nat (nat (- i)) :: rat) = of_int i" by simp
    with True i show ?thesis
      using json_number_digits(2) [OF assms(2), of "nat (- i)"]
      by (simp add: json_num_def num_str_int)
  next
    case False
    then have "(of_nat (nat i) :: rat) = of_int i" by simp
    with False i show ?thesis
      using json_number_digits(1) [OF assms(2), of "nat i"]
      by (simp add: json_num_def num_str_int)
  qed
qed

text \<open>Every text \<open>emit\<close> writes for a plain value starts with a unit that is no white space,
  no closing bracket and no separator.\<close>

definition value_start :: "jsunit \<Rightarrow> bool" where
  "value_start c = (\<not> is_ws c \<and> c \<noteq> 125 \<and> c \<noteq> 93 \<and> c \<noteq> 44 \<and> c \<noteq> 58)"

lemma dec_str_Cons: obtains c t where "dec_str n = c # t" "is_digit c"
  using dec_str_digits [of n] dec_str_nonempty [of n] that by (cases "dec_str n") auto

lemma digit_start: "is_digit c \<Longrightarrow> value_start c \<and> c \<noteq> 123 \<and> c \<noteq> 91 \<and> c \<noteq> 34 \<and> c \<noteq> 116 \<and> c \<noteq> 102 \<and> c \<noteq> 110"
  by (auto simp: is_digit_def value_start_def is_ws_def word_le_nat_alt)

lemma json_num_Cons:
  assumes "is_safe_integer x"
  obtains c t where "json_num x = c # t" "value_start c" "c \<noteq> 123" "c \<noteq> 91" "c \<noteq> 34"
    "c \<noteq> 116" "c \<noteq> 102" "c \<noteq> 110"
proof -
  obtain i where i: "x = Fin (of_int i)" "safe_int i" using assms by (rule safe_integerE)
  show thesis
  proof (cases "i < 0")
    case True
    then have "json_num x = 45 # dec_str (nat (- i))" using i by (simp add: json_num_def num_str_int)
    then show thesis using that by (simp add: value_start_def is_ws_def)
  next
    case False
    obtain c t where "dec_str (nat i) = c # t" "is_digit c" by (rule dec_str_Cons)
    moreover from False have "json_num x = dec_str (nat i)" using i by (simp add: json_num_def num_str_int)
    ultimately show thesis using that [of c t] digit_start [of c] by simp
  qed
qed

lemma emit_Cons:
  assumes "json_plain v"
  obtains c t where "emit v = c # t" "value_start c"
proof (cases v)
  case (Num x)
  then show thesis using assms that by (auto elim: json_num_Cons)
next
  case (Bool b)
  then show thesis
    using that by (cases b) (simp_all add: js_Cons jc_def value_start_def is_ws_def)
qed (use assms that in \<open>auto simp: js_Cons jc_def json_quote_def json_array_def json_object_def
      value_start_def is_ws_def split: if_splits\<close>)

lemma skip_ws_start: "value_start c \<Longrightarrow> skip_ws (c # s) = c # s"
  by (simp add: skip_ws_Cons value_start_def)

lemma delimited_sep [simp]: "delimited (44 # s)" "delimited (93 # s)" "delimited (125 # s)" "delimited []"
  by (simp_all add: delimited_def is_digit_def)

lemma obj_put_fresh: "k \<notin> fst ` set kvs \<Longrightarrow> obj_put kvs k v = kvs @ [(k, v)]"
  by (induction kvs) auto

lemma json_elems_emit:
  assumes "vs \<noteq> []" "\<And>v r. v \<in> set vs \<Longrightarrow> delimited r \<Longrightarrow> json_value (emit v @ r) = Some (v, r)"
  shows "json_elems acc (intersperse [44] (map emit vs) @ 93 # r) = Some (Arr (acc @ vs), r)"
  using assms
proof (induction vs arbitrary: acc)
  case (Cons v vs)
  show ?case
  proof (cases "vs = []")
    case True
    then show ?thesis
      using Cons.prems(2) [of v "93 # r"] by (simp add: json_elems.simps)
  next
    case False
    let ?rest = "intersperse [44] (map emit vs) @ 93 # r"
    have "json_value (emit v @ 44 # ?rest) = Some (v, 44 # ?rest)"
      using Cons.prems(2) by simp
    moreover have "json_elems (acc @ [v]) ?rest = Some (Arr ((acc @ [v]) @ vs), r)"
      using False Cons.prems(2) by (intro Cons.IH) auto
    ultimately show ?thesis
      using False
      by (simp add: json_elems.simps [of acc] intersperse_Cons)
  qed
qed simp

lemma json_member_pair: "json_member (k, t) = 34 # json_escape k @ 34 # 58 # t"
  by (simp add: json_member_def json_quote_def js_Cons jc_def)

lemma json_members_emit:
  assumes "kvs \<noteq> []" "distinct (map fst (acc @ kvs))"
    "\<And>k v r. (k, v) \<in> set kvs \<Longrightarrow> delimited r \<Longrightarrow> json_value (emit v @ r) = Some (v, r)"
  shows "json_members acc (intersperse [44] (map json_member (map (\<lambda>(k, v). (k, emit v)) kvs)) @ 125 # r)
    = Some (Obj (acc @ kvs), r)"
  using assms
proof (induction kvs arbitrary: acc)
  case (Cons kv kvs)
  obtain k v where kv: "kv = (k, v)" by (cases kv)
  have fresh: "obj_put acc k v = acc @ [(k, v)]"
    using Cons.prems(2) kv by (intro obj_put_fresh) auto
  show ?case
  proof (cases "kvs = []")
    case True
    have "json_value (emit v @ 125 # r) = Some (v, 125 # r)"
      using Cons.prems(3) [of k v] kv by simp
    with True kv fresh show ?thesis
      by (simp add: json_members.simps [of acc] json_member_pair json_string_escape)
  next
    case False
    let ?rest = "intersperse [44] (map json_member (map (\<lambda>(k, v). (k, emit v)) kvs)) @ 125 # r"
    have "json_value (emit v @ 44 # ?rest) = Some (v, 44 # ?rest)"
      using Cons.prems(3) [of k v] kv by simp
    moreover have "json_members (acc @ [(k, v)]) ?rest = Some (Obj ((acc @ [(k, v)]) @ kvs), r)"
      using False Cons.prems kv by (intro Cons.IH) auto
    ultimately show ?thesis
      using False kv fresh
      by (simp add: json_members.simps [of acc] intersperse_Cons json_member_pair
          json_string_escape)
  qed
qed simp

lemma json_value_emit:
  "json_plain v \<Longrightarrow> delimited r \<Longrightarrow> json_value (emit v @ r) = Some (v, r)"
proof (induction v arbitrary: r)
  case (Num x)
  obtain c t where c: "json_num x = c # t" "value_start c" "c \<noteq> 123" "c \<noteq> 91" "c \<noteq> 34"
    "c \<noteq> 116" "c \<noteq> 102" "c \<noteq> 110"
    using Num.prems(1) by (auto elim: json_num_Cons)
  then show ?case
    using json_number_emit [of x r] Num.prems
    by (simp add: json_value.simps skip_ws_start starts_with_def js_Cons jc_def)
next
  case (Arr vs)
  show ?case
  proof (cases "vs = []")
    case True
    then show ?thesis
      by (simp add: json_array_def js_Cons jc_def json_value.simps)
  next
    case False
    then obtain v vs' where vs: "vs = v # vs'" by (cases vs) auto
    obtain c t where c: "emit v = c # t" "value_start c"
      using Arr.prems vs by (auto elim: emit_Cons)
    have e: "json_elems [] (intersperse [44] (map emit vs) @ 93 # r) = Some (Arr vs, r)"
      using json_elems_emit [OF False, of "[]" r] Arr by (auto simp: list_all_iff)
    obtain t' where "intersperse [44] (map emit vs) @ 93 # r = c # t'"
      using c vs by (cases vs') auto
    with e c(2) show ?thesis
      by (simp add: json_array_def js_Cons jc_def json_value.simps skip_ws_start)
        (simp add: value_start_def)
  qed
next
  case (Obj kvs)
  show ?case
  proof (cases "kvs = []")
    case True
    then show ?thesis
      by (simp add: json_object_def js_Cons jc_def json_value.simps)
  next
    case False
    then obtain kv kvs' where kvs: "kvs = kv # kvs'" by (cases kvs) auto
    let ?body = "intersperse [44] (map json_member (map (\<lambda>(k, v). (k, emit v)) kvs)) @ 125 # r"
    have IH: "json_value (emit v @ r) = Some (v, r)" if "(k, v) \<in> set kvs" "delimited r" for k v r
    proof (rule Obj.IH [OF that(1) _ _ that(2)])
      show "v \<in> Basic_BNFs.snds (k, v)" by simp
      show "json_plain v" using Obj.prems(1) that(1) by (auto simp: list_all_iff)
    qed
    have e: "json_members [] ?body = Some (Obj kvs, r)"
      using json_members_emit [OF False, of "[]" r] Obj.prems(1) IH by simp
    obtain t' where "?body = 34 # t'"
      using kvs by (cases kvs') (auto simp: json_member_def json_quote_def)
    with e show ?thesis
      by (simp add: json_object_def js_Cons jc_def json_value.simps)
  qed
next
  case (Str x)
  then show ?case
    by (simp add: json_quote_def json_value.simps json_string_escape)
qed (simp_all add: json_value.simps js_Cons jc_def skip_ws_Cons is_ws_def starts_with_def)

theorem json_parse_emit: "json_plain v \<Longrightarrow> json_parse (emit v) = Some v"
  using json_value_emit [of v "[]"] by (simp add: json_parse_def skip_ws_def)

theorem emit_inject:
  assumes "json_plain v" "json_plain w" "emit v = emit w"
  shows "v = w"
  using assms json_parse_emit by (metis option.inject)

end
