(* ===== verification/Canonical.thy ===== *)
theory Canonical
  imports JsonText
begin

text \<open>
  The three canonicalizers of the repository: \<open>canonicalize\<close> of \<open>verifier/index.js\<close> (and, line for
  line, of \<open>public/printwright-verify-widget.js\<close>), \<open>canonical\<close> of \<open>wallet/payment.js\<close> and
  \<open>conformance/suite.mjs\<close>, and \<open>canonical\<close> of \<open>client/index.js\<close>, which goes through
  \<open>JSON.stringify\<close> with a replacer. The locale \<open>canonical_json\<close> states what they promise
  (the text of the key-sorted value) and derives once that the text depends on the value up to the
  order of keys, and determines it; each is an interpretation on the values it handles that way.
\<close>

section \<open>The code\<close>

definition template :: "jsstr option \<Rightarrow> jsstr" where
  "template r = (case r of None \<Rightarrow> js ''undefined'' | Some s \<Rightarrow> s)"
  \<comment> \<open>a template literal with the result of \<open>JSON.stringify\<close>\<close>

definition joined :: "jsstr option \<Rightarrow> jsstr" where
  "joined r = (case r of None \<Rightarrow> [] | Some s \<Rightarrow> s)"
  \<comment> \<open>an element under \<open>Array.prototype.join\<close>\<close>

fun canonicalize :: "jsval \<Rightarrow> jsstr option" where
  "canonicalize (Arr vs) = Some (json_array (map (\<lambda>v. joined (canonicalize v)) vs))"
| "canonicalize (Obj kvs) =
     (if \<not> nullish (pget kvs (js ''toJSON'')) then stringify (Obj kvs)
      else Some (json_object (sorted_entries (map (\<lambda>(k, v). (k, template (canonicalize v))) kvs))))"
| "canonicalize v = stringify v"

fun canonical_wallet :: "jsval \<Rightarrow> jsstr option" where
  "canonical_wallet (Arr vs) = Some (json_array (map (\<lambda>v. joined (canonical_wallet v)) vs))"
| "canonical_wallet (Obj kvs) =
     Some (json_object (sorted_entries (map (\<lambda>(k, v). (k, template (canonical_wallet v))) kvs)))"
| "canonical_wallet v = stringify v"

text \<open>The replacer rebuilds every object with its keys sorted (\<open>sort_deep\<close>);
  \<open>JSON.stringify\<close> then enumerates the rebuilt objects in the order of the language.\<close>

fun sort_deep :: "jsval \<Rightarrow> jsval" where
  "sort_deep (Arr vs) = Arr (map sort_deep vs)"
| "sort_deep (Obj kvs) = Obj (sorted_entries (map (\<lambda>(k, v). (k, sort_deep v)) kvs))"
| "sort_deep v = v"

definition canonical_client :: "jsval \<Rightarrow> jsstr option" where
  "canonical_client v = stringify (sort_deep v)"

section \<open>The contract\<close>

text \<open>\<open>same_json v w\<close>: the same value up to the order of the keys of its objects.\<close>

definition same_json :: "jsval \<Rightarrow> jsval \<Rightarrow> bool" where
  "same_json v w = (sort_deep v = sort_deep w)"

lemma json_plain_sort_deep: "json_plain v \<Longrightarrow> json_plain (sort_deep v)"
proof (induction v)
  case (Obj kvs)
  have "distinct (map fst (sorted_entries (map (\<lambda>(k, v). (k, sort_deep v)) kvs)))"
    using Obj.prems distinct_map_mset [OF mset_sorted_entries, of fst "map (\<lambda>(k, v). (k, sort_deep v)) kvs"]
    by (simp add: comp_def case_prod_unfold)
  moreover have "json_plain (sort_deep v)" if "(k, v) \<in> set kvs" for k v
    using Obj.prems that by (intro Obj.IH [OF that]) (auto simp: list_all_iff)
  ultimately show ?case by (auto simp: list_all_iff)
qed (auto simp: list_all_iff)

lemma sort_deep_Obj: "sort_deep (Obj kvs) = Obj (map (\<lambda>(k, v). (k, sort_deep v)) (sorted_entries kvs))"
  by (simp only: sort_deep.simps sorted_entries_map)

lemma map_snd_cong:
  assumes "\<And>k v. (k, v) \<in> set kvs \<Longrightarrow> f v = g v"
  shows "map (\<lambda>(k, v). (k, f v)) kvs = map (\<lambda>(k, v). (k, g v)) kvs"
  using assms by auto

lemma map_map_snd:
  "map (\<lambda>(k, v). (k, f v)) (map (\<lambda>(k, v). (k, g v)) kvs) = map (\<lambda>(k, v). (k, f (g v))) kvs"
  by auto

lemma sort_deep_idem: "sort_deep (sort_deep v) = sort_deep v"
proof (induction v)
  case (Obj kvs)
  let ?s = "map (\<lambda>(k, v). (k, sort_deep v)) (sorted_entries kvs)"
  have "map fst ?s = map fst (sorted_entries kvs)" by auto
  then have "sorted (map fst ?s)" by (simp only: sorted_sorted_entries)
  then have "sort_deep (Obj ?s) = Obj (map (\<lambda>(k, v). (k, sort_deep (sort_deep v))) (sorted_entries kvs))"
    by (simp only: sort_deep_Obj sorted_entries_idem map_map_snd)
  also have "\<dots> = Obj ?s"
    using Obj.IH by (intro arg_cong [where f = Obj] map_snd_cong) (force intro: snds.intros)
  finally show ?case by (simp only: sort_deep_Obj)
qed simp_all

lemma sort_deep_permute:
  assumes "mset kvs = mset kvs'" "distinct (map fst kvs)"
  shows "sort_deep (Obj kvs) = sort_deep (Obj kvs')"
  using assms unfolding sort_deep.simps sorted_entries_def
  by (intro arg_cong [where f = Obj] sort_key_permute) (simp_all add: comp_def case_prod_unfold)

lemma same_json_permute:
  "mset kvs = mset kvs' \<Longrightarrow> distinct (map fst kvs) \<Longrightarrow> same_json (Obj kvs) (Obj kvs')"
  unfolding same_json_def by (rule sort_deep_permute)

locale canonical_json =
  fixes canon :: "jsval \<Rightarrow> jsstr option"
    and handles :: "jsval \<Rightarrow> bool"
  assumes handles_plain: "handles v \<Longrightarrow> json_plain v"
    and canon_sorted: "handles v \<Longrightarrow> canon v = Some (emit (sort_deep v))"
begin

lemma canon_same: "handles v \<Longrightarrow> handles w \<Longrightarrow> same_json v w \<Longrightarrow> canon v = canon w"
  by (simp add: canon_sorted same_json_def)

lemma canon_parse: "handles v \<Longrightarrow> canon v = Some s \<Longrightarrow> json_parse s = Some (sort_deep v)"
  using json_parse_emit [OF json_plain_sort_deep [OF handles_plain]] by (auto simp: canon_sorted)

lemma canon_determines: "handles v \<Longrightarrow> handles w \<Longrightarrow> canon v = canon w \<Longrightarrow> same_json v w"
  using canon_parse by (metis canon_sorted option.inject same_json_def)

lemma canon_iff: "handles v \<Longrightarrow> handles w \<Longrightarrow> canon v = canon w \<longleftrightarrow> same_json v w"
  using canon_same canon_determines by blast

end

section \<open>The three interpretations\<close>

fun all_keys :: "(jsstr \<Rightarrow> bool) \<Rightarrow> jsval \<Rightarrow> bool" where
  "all_keys P (Arr vs) = list_all (all_keys P) vs"
| "all_keys P (Obj kvs) = list_all (\<lambda>(k, v). P k \<and> all_keys P v) kvs"
| "all_keys P _ = True"

definition no_to_json :: "jsval \<Rightarrow> bool" where
  "no_to_json v = all_keys (\<lambda>k. k \<noteq> js ''toJSON'') v"

definition no_index_keys :: "jsval \<Rightarrow> bool" where
  "no_index_keys v = all_keys (\<lambda>k. \<not> is_array_index k) v"

lemma canonical_wallet_emit: "json_plain v \<Longrightarrow> canonical_wallet v = Some (emit (sort_deep v))"
proof (induction v)
  case (Arr vs)
  have "map (\<lambda>v. joined (canonical_wallet v)) vs = map (\<lambda>v. emit (sort_deep v)) vs"
    using Arr by (intro map_cong refl) (simp add: list_all_iff joined_def)
  then show ?case by (simp only: canonical_wallet.simps sort_deep.simps emit.simps map_map comp_def)
next
  case (Obj kvs)
  have "template (canonical_wallet v) = emit (sort_deep v)" if "(k, v) \<in> set kvs" for k v
    using Obj.IH [OF that, of v] Obj.prems that by (auto simp: list_all_iff template_def)
  then have "map (\<lambda>(k, v). (k, template (canonical_wallet v))) kvs =
      map (\<lambda>(k, v). (k, emit (sort_deep v))) kvs"
    by (rule map_snd_cong)
  then show ?case
    by (simp only: canonical_wallet.simps sort_deep_Obj emit.simps sorted_entries_map map_map_snd)
qed auto

lemma pget_no_key: "list_all (\<lambda>(k, v). k \<noteq> x \<and> Q v) kvs \<Longrightarrow> pget kvs x = Undef"
  by (induction kvs) auto

lemma canonicalize_wallet: "no_to_json v \<Longrightarrow> canonicalize v = canonical_wallet v"
proof (induction v)
  case (Arr vs)
  have "map (\<lambda>v. joined (canonicalize v)) vs = map (\<lambda>v. joined (canonical_wallet v)) vs"
    using Arr by (intro map_cong refl) (simp add: no_to_json_def list_all_iff)
  then show ?case by (simp only: canonical_wallet.simps canonicalize.simps)
next
  case (Obj kvs)
  have "canonicalize v = canonical_wallet v" if "(k, v) \<in> set kvs" for k v
    using Obj.IH [OF that, of v] Obj.prems that by (auto simp: list_all_iff no_to_json_def)
  then have "map (\<lambda>(k, v). (k, template (canonicalize v))) kvs =
      map (\<lambda>(k, v). (k, template (canonical_wallet v))) kvs"
    by (intro map_snd_cong) simp
  moreover have "pget kvs (js ''toJSON'') = Undef"
    using Obj.prems by (intro pget_no_key [where Q = no_to_json]) (simp add: no_to_json_def)
  ultimately show ?case
    by (simp only: canonical_wallet.simps canonicalize.simps nullish_def if_False simp_thms)
qed simp_all

lemma all_keys_sort_deep: "all_keys P v \<Longrightarrow> all_keys P (sort_deep v)"
proof (induction v)
  case (Obj kvs)
  have "P k \<and> all_keys P (sort_deep v)" if "(k, v) \<in> set kvs" for k v
    using Obj.IH [OF that, of v] Obj.prems that by (auto simp: list_all_iff)
  then show ?case by (auto simp: list_all_iff)
qed (auto simp: list_all_iff)

lemma stringify_emit:
  "json_plain v \<Longrightarrow> no_index_keys v \<Longrightarrow> stringify v = Some (emit v)"
proof (induction v)
  case (Arr vs)
  then show ?case by (auto simp: list_all_iff no_index_keys_def cong: map_cong)
next
  case (Obj kvs)
  have s: "stringify v = Some (emit v)" if "(k, v) \<in> set kvs" for k v
    using Obj.IH [OF that, of v] Obj.prems that by (auto simp: list_all_iff no_index_keys_def)
  have "own_entries kvs = kvs"
    using Obj.prems(2) by (intro own_entries_no_index) (auto simp: no_index_keys_def list_all_iff)
  then have "own_entries (map (\<lambda>(k, v). (k, stringify v)) kvs) = map (\<lambda>(k, v). (k, stringify v)) kvs"
    by (simp add: own_entries_map)
  moreover have "List.map_filter (\<lambda>(k, r). case r of None \<Rightarrow> None | Some s \<Rightarrow> Some (k, s))
      (map (\<lambda>(k, v). (k, stringify v)) kvs') = map (\<lambda>(k, v). (k, emit v)) kvs'"
    if "set kvs' \<subseteq> set kvs" for kvs'
    using that s by (induction kvs') (auto simp: List.map_filter_def)
  ultimately show ?case by simp
qed auto

interpretation wallet_canon: canonical_json canonical_wallet json_plain
  by unfold_locales (auto simp: canonical_wallet_emit)

interpretation verifier_canon: canonical_json canonicalize "\<lambda>v. json_plain v \<and> no_to_json v"
  by unfold_locales (auto simp: canonical_wallet_emit canonicalize_wallet)

interpretation client_canon: canonical_json canonical_client "\<lambda>v. json_plain v \<and> no_index_keys v"
  by unfold_locales
    (auto simp: canonical_client_def no_index_keys_def json_plain_sort_deep all_keys_sort_deep
      intro!: stringify_emit)

section \<open>The three canonicalizers together\<close>

text \<open>C13. On plain JSON values without \<open>toJSON\<close> keys and without integer-like keys the
  canonicalizers of the verifier and widget, of the wallet and conformance suite, and of the client
  write the same text, and \<open>JSON.parse\<close> reads it back as the value with its keys sorted.\<close>

theorem canonical_forms_agree:
  assumes "json_plain v" "no_to_json v" "no_index_keys v"
  shows "canonicalize v = canonical_wallet v \<and> canonical_client v = canonical_wallet v \<and>
    (\<exists>s. canonical_wallet v = Some s \<and> json_parse s = Some (sort_deep v))"
  using assms wallet_canon.canon_sorted [of v] verifier_canon.canon_sorted [of v] client_canon.canon_sorted [of v]
    wallet_canon.canon_parse [of v] by simp

text \<open>C14. The verifier's canonical text identifies a value: two plain JSON values without \<open>toJSON\<close>
  keys have the same text exactly when they are equal up to the order of object keys.\<close>

theorem canonicalize_iff_same:
  assumes "json_plain v" "no_to_json v" "json_plain w" "no_to_json w"
  shows "canonicalize v = canonicalize w \<longleftrightarrow> same_json v w"
  using assms by (intro verifier_canon.canon_iff) auto

definition sample_value :: jsval where
  "sample_value = Obj [(js ''b'', Arr [Bool True, Null]), (js ''a'', Str (js ''x''))]"

definition sample_value' :: jsval where
  "sample_value' = Obj [(js ''a'', Str (js ''x'')), (js ''b'', Arr [Bool True, Null])]"

lemma sample_value_plain:
  "json_plain sample_value" "no_to_json sample_value" "no_index_keys sample_value"
  "json_plain sample_value'" "no_to_json sample_value'" "same_json sample_value sample_value'"
proof -
  show "no_index_keys sample_value" by code_simp
  show "same_json sample_value sample_value'"
    unfolding sample_value_def sample_value'_def by (rule same_json_permute) simp_all
qed (simp_all add: sample_value_def sample_value'_def no_to_json_def)

theorem canonical_forms_agree_witness:
  "canonicalize sample_value = canonical_client sample_value \<and> canonicalize sample_value = canonical_wallet sample_value"
  using canonical_forms_agree [OF sample_value_plain(1-3)] by simp

theorem canonicalize_iff_same_witness: "canonicalize sample_value = canonicalize sample_value'"
  using canonicalize_iff_same [OF sample_value_plain(1,2,4,5)] sample_value_plain(6) by blast

text \<open>With integer-like keys the client's text is another one: the rebuilt object is enumerated
  in numeric order, the verifier sorts the keys as text.\<close>

definition index_value :: jsval where
  "index_value = Obj [(js ''9'', Null), (js ''10'', Null)]"

lemma client_index_keys_differ: "canonical_client index_value \<noteq> canonicalize index_value"
proof -
  have i: "is_array_index [57]" "is_array_index [49, 48]"
    by (simp_all add: is_array_index_def is_digit_def digits_val_def)
  have e: "escape_unit 57 = [57]" "escape_unit 49 = [49]" "escape_unit 48 = [48]" "\<not> is_high 49" "\<not> is_high 57" "\<not> is_high 48"
    by (simp_all add: escape_unit_def is_high_def is_low_def)
  show ?thesis
    by (simp add: canonical_client_def index_value_def sorted_entries_def own_entries_def js_Cons jc_def i
        digits_val_def json_object_def json_member_def json_quote_def e List.map_filter_def template_def nullish_def)
qed

text \<open>An object with a \<open>toJSON\<close> key that is data keeps its key order in the verifier's text.\<close>

lemma to_json_key_unsorted:
  "canonicalize (Obj [(js ''toJSON'', Bool True), (js ''a'', Null)]) \<noteq>
   canonicalize (Obj [(js ''a'', Null), (js ''toJSON'', Bool True)])"
  by code_simp

end
