(* ===== verification/Framing.thy ===== *)
theory Framing
  imports Canonical
begin

text \<open>
  The text of a JSON object ends where its brace closes, so it is no proper suffix of another one:
  this is what makes the pair of nonce and certificate recoverable from a commitment's preimage,
  whatever the lengths of the two. The argument is a scanner over the UTF-8 bytes that keeps the
  nesting depth and whether it is inside a string literal.
\<close>

section \<open>UTF-8 of concatenations\<close>

lemma code_points_append: "well_formed s \<Longrightarrow> code_points (s @ t) = code_points s @ code_points t"
proof (induction s rule: well_formed.induct)
  case (2 c)
  then show ?case by (cases t) auto
qed auto

lemma utf8_encode_append:
  "well_formed s \<Longrightarrow> utf8_encode (s @ t) = utf8_encode s @ utf8_encode t"
  by (simp add: utf8_encode_def code_points_append)

lemma well_formed_append: "well_formed s \<Longrightarrow> well_formed t \<Longrightarrow> well_formed (s @ t)"
proof (induction s rule: well_formed.induct)
  case (2 c)
  then show ?case by (cases t) auto
qed (auto split: if_splits)

lemma utf8_encode_inject:
  "well_formed s \<Longrightarrow> well_formed t \<Longrightarrow> utf8_encode s = utf8_encode t \<Longrightarrow> s = t"
  by (metis utf8_lossy_encode)

section \<open>The scanner\<close>

datatype scan_mode = Outside | Inside | Escaped

fun scan_step :: "scan_mode \<Rightarrow> nat \<Rightarrow> byte \<Rightarrow> (scan_mode \<times> nat) option" where
  "scan_step Outside d b =
     (if b = 34 then Some (Inside, d) else if b = 92 then None
      else if b = 123 \<or> b = 91 then Some (Outside, Suc d)
      else if b = 125 \<or> b = 93 then (case d of 0 \<Rightarrow> None | Suc d' \<Rightarrow> Some (Outside, d'))
      else Some (Outside, d))"
| "scan_step Inside d b =
     (if b = 34 then Some (Outside, d) else if b = 92 then Some (Escaped, d) else Some (Inside, d))"
| "scan_step Escaped d b = Some (Inside, d)"

fun scan :: "scan_mode \<Rightarrow> nat \<Rightarrow> bytes \<Rightarrow> (scan_mode \<times> nat) option" where
  "scan m d [] = Some (m, d)"
| "scan m d (b # bs) = (case scan_step m d b of None \<Rightarrow> None | Some (m', d') \<Rightarrow> scan m' d' bs)"

lemma scan_append:
  "scan m d (bs @ cs) = (case scan m d bs of None \<Rightarrow> None | Some (m', d') \<Rightarrow> scan m' d' cs)"
  by (induction bs arbitrary: m d) (auto split: option.splits)

lemma scan_step_shift: "scan_step m d b = Some (m', d') \<Longrightarrow> scan_step m (d + k) b = Some (m', d' + k)"
  by (cases m) (auto split: if_splits nat.splits)

lemma scan_shift: "scan m d bs = Some (m', d') \<Longrightarrow> scan m (d + k) bs = Some (m', d' + k)"
proof (induction bs arbitrary: m d)
  case (Cons b bs)
  then obtain m1 d1 where st: "scan_step m d b = Some (m1, d1)" "scan m1 d1 bs = Some (m', d')"
    by (auto simp del: scan_step.simps split: option.splits)
  show ?case
    using scan_step_shift [OF st(1)] Cons.IH [OF st(2)] by (simp del: scan_step.simps)
qed simp

text \<open>A scan that starts inside a string and one that starts outside never meet.\<close>

lemma scan_complement:
  "scan Outside j bs = Some (m1, d1) \<Longrightarrow> scan Inside k bs = Some (m2, d2) \<Longrightarrow>
     (m1 = Outside \<and> m2 = Inside) \<or> (m1 = Inside \<and> m2 = Outside)"
proof (induction bs arbitrary: j k m1 m2 d1 d2)
  case (Cons b bs)
  consider "b = 34" | "b = 92" | "b \<noteq> 34" "b \<noteq> 92" by blast
  then show ?case
  proof cases
    case 1
    then show ?thesis using Cons.prems Cons.IH [of k m2 d2 j m1 d1] by auto
  next
    case 2
    then show ?thesis using Cons.prems by simp
  next
    case 3
    then obtain j' where "scan Outside j' bs = Some (m1, d1)"
      using Cons.prems(1) by (auto split: if_splits nat.splits)
    moreover have "scan Inside k bs = Some (m2, d2)"
      using Cons.prems(2) 3 by simp
    ultimately show ?thesis by (rule Cons.IH)
  qed
qed auto

definition object_bytes :: "bytes \<Rightarrow> bool" where
  "object_bytes t = (\<exists>b. t = 123 # b @ [125] \<and> scan Outside 0 b = Some (Outside, 0))"

lemma object_bytes_suffix:
  assumes "object_bytes (d @ t)" "object_bytes t"
  shows "d = []"
proof (rule ccontr)
  assume "d \<noteq> []"
  obtain b1 where b1: "d @ t = 123 # b1 @ [125]" "scan Outside 0 b1 = Some (Outside, 0)"
    using assms(1) by (auto simp: object_bytes_def)
  obtain b2 where b2: "t = 123 # b2 @ [125]" "scan Outside 0 b2 = Some (Outside, 0)"
    using assms(2) by (auto simp: object_bytes_def)
  obtain p where "d = 123 # p" using \<open>d \<noteq> []\<close> b1(1) by (cases d) auto
  then have "b1 = p @ 123 # b2" using b1(1) b2(1) by simp
  then obtain m k where m: "scan m k (123 # b2) = Some (Outside, 0)"
    using b1(2) by (auto simp: scan_append split: option.splits)
  show False
  proof (cases m)
    case Outside
    then have "scan Outside (Suc k) b2 = Some (Outside, 0)" using m by simp
    moreover have "scan Outside (Suc k) b2 = Some (Outside, Suc k)"
      using scan_shift [OF b2(2), of "Suc k"] by simp
    ultimately show False by simp
  next
    case Inside
    then show False using m scan_complement [OF b2(2), of k Outside 0] by simp
  next
    case Escaped
    then show False using m scan_complement [OF b2(2), of k Outside 0] by simp
  qed
qed

lemma framing:
  assumes "m @ t = n @ u" "object_bytes t" "object_bytes u"
  shows "m = n \<and> t = u"
proof -
  obtain d where "(m = n @ d \<and> d @ t = u) \<or> (m @ d = n \<and> t = d @ u)"
    using assms(1) by (auto simp: append_eq_append_conv2)
  then show ?thesis
    using object_bytes_suffix [of d t] object_bytes_suffix [of d u] assms(2,3) by auto
qed

section \<open>Emitted text is balanced\<close>

definition neutral :: "jsstr \<Rightarrow> bool" where
  "neutral s = (well_formed s \<and> (\<forall>d. scan Outside d (utf8_encode s) = Some (Outside, d)))"

lemma neutral_Nil [simp]: "neutral []"
  by (simp add: neutral_def utf8_encode_def)

lemma neutral_append: "neutral s \<Longrightarrow> neutral t \<Longrightarrow> neutral (s @ t)"
  by (auto simp: neutral_def well_formed_append utf8_encode_append scan_append)

lemma neutral_intersperse: "list_all neutral ss \<Longrightarrow> neutral sep \<Longrightarrow> neutral (intersperse sep ss)"
  by (induction sep ss rule: intersperse.induct) (auto intro!: neutral_append)

lemma utf8_encode_unit: "c < 128 \<Longrightarrow> utf8_encode [c] = [ucast c]"
  using utf8_encode_ascii [of "[c]"] by simp

lemma ucast_unit_eq [simp]:
  assumes "(c :: jsunit) < 128" "k < 128"
  shows "(ucast c :: byte) = of_nat k \<longleftrightarrow> c = of_nat k"
proof -
  have c: "unat c < 128" using assms(1) by (simp add: word_less_nat_alt)
  then have u: "unat (ucast c :: byte) = unat c"
    by (simp add: unsigned_ucast_eq take_bit_nat_eq_self)
  have "(ucast c :: byte) = of_nat k \<longleftrightarrow> unat (ucast c :: byte) = unat (of_nat k :: byte)"
    by (simp only: word_unat_eq_iff)
  also have "\<dots> \<longleftrightarrow> unat c = unat (of_nat k :: jsunit)"
    using assms(2) u by (simp add: unat_of_nat)
  finally show ?thesis by (simp only: word_unat_eq_iff)
qed

definition quiet :: "jsunit \<Rightarrow> bool" where
  "quiet c = (c < 128 \<and> c \<notin> {34, 92, 123, 91, 125, 93})"

lemma neutral_unit: "quiet c \<Longrightarrow> neutral [c]"
  using ucast_unit_eq [of c 34] ucast_unit_eq [of c 92] ucast_unit_eq [of c 123]
    ucast_unit_eq [of c 91] ucast_unit_eq [of c 125] ucast_unit_eq [of c 93]
  by (simp add: quiet_def neutral_def utf8_encode_unit ascii_not_surrogate)

lemma neutral_quiet: "list_all quiet s \<Longrightarrow> neutral s"
proof (induction s)
  case (Cons c s)
  then show ?case using neutral_append [of "[c]" s] neutral_unit by simp
qed simp

lemma neutral_wrap:
  assumes "neutral s" "(l = 123 \<and> r = 125) \<or> (l = 91 \<and> r = 93)"
  shows "neutral (l # s @ [r])"
proof -
  have lr: "well_formed [l]" "well_formed [r]" "l < 128" "r < 128"
    using assms(2) by (auto simp: is_high_def is_low_def)
  have "utf8_encode (l # s @ [r]) = ucast l # utf8_encode s @ [ucast r]"
    using lr assms(1) utf8_encode_append [of "[l]"] utf8_encode_append [of s "[r]"] utf8_encode_unit
    by (simp add: neutral_def)
  moreover have "well_formed (l # s @ [r])"
    using well_formed_append [of "[l]" "s @ [r]"] well_formed_append [of s "[r]"] lr assms(1)
    by (simp add: neutral_def)
  ultimately show ?thesis
    using assms by (auto simp: neutral_def scan_append)
qed

text \<open>The inside of a string literal.\<close>

definition inner :: "jsstr \<Rightarrow> bool" where
  "inner s = (well_formed s \<and> (\<forall>d. scan Inside d (utf8_encode s) = Some (Inside, d)))"

lemma inner_append: "inner s \<Longrightarrow> inner t \<Longrightarrow> inner (s @ t)"
  by (auto simp: inner_def well_formed_append utf8_encode_append scan_append)

lemma scan_inside: "\<forall>b \<in> set bs. b \<noteq> 34 \<and> b \<noteq> 92 \<Longrightarrow> scan Inside d bs = Some (Inside, d)"
  by (induction bs) auto

lemma byte_high: "128 \<le> n \<Longrightarrow> n < 256 \<Longrightarrow> (of_nat n :: byte) \<noteq> 34 \<and> (of_nat n :: byte) \<noteq> 92"
  using unat_of_nat_byte [of n] by (auto dest: arg_cong [where f = unat])

lemma utf8_cp_high:
  assumes "128 \<le> cp" "scalar cp" "b \<in> set (utf8_cp cp)"
  shows "b \<noteq> 34 \<and> b \<noteq> 92"
proof -
  have m: "\<And>q. 0x80 + q mod 0x40 < (256::nat)" by (simp add: less_imp_add_positive)
  have "cp div 0x40 < 0x20" if "cp < 0x800" using that by (simp add: less_mult_imp_div_less)
  moreover have "cp div 0x1000 < 0x10" if "cp < 0x10000" using that by (simp add: less_mult_imp_div_less)
  moreover have "cp div 0x40000 < 0x5" using assms(2) by (auto simp: scalar_def less_mult_imp_div_less)
  moreover obtain n where "b = of_nat n" and
    "(cp < 0x800 \<and> n = 0xC0 + cp div 0x40) \<or> (cp < 0x10000 \<and> n = 0xE0 + cp div 0x1000) \<or>
     n = 0xF0 + cp div 0x40000 \<or> (\<exists>q. n = 0x80 + q mod 0x40)"
    using assms(1,3) by (auto simp: utf8_cp_def simp del: of_nat_add split: if_splits)
  ultimately show ?thesis using m byte_high [of n] by auto
qed

lemma inner_plain: "list_all (\<lambda>c. c < 128 \<and> c \<noteq> 34 \<and> c \<noteq> 92) s \<Longrightarrow> inner s"
proof (induction s)
  case (Cons c s)
  have "inner [c]"
    using Cons.prems ucast_unit_eq [of c 34] ucast_unit_eq [of c 92]
    by (simp add: inner_def utf8_encode_unit ascii_not_surrogate)
  then show ?case using Cons inner_append [of "[c]" s] by simp
qed (simp add: inner_def utf8_encode_def)

lemma inner_escape: "c < 128 \<Longrightarrow> inner [92, c]"
  using utf8_encode_ascii [of "[92, c]"] ascii_well_formed [of "[92, c]"] by (simp add: inner_def)

lemma inner_high:
  assumes "well_formed s" "code_points s = [cp]" "128 \<le> cp"
  shows "inner s"
proof -
  have "scalar cp" using assms(2) by (intro scalar_code_points [of _ s]) simp
  then show ?thesis
    using assms utf8_cp_high [of cp] scan_inside [of "utf8_cp cp"]
    by (simp add: inner_def utf8_encode_def)
qed

lemma hex4_plain: "list_all (\<lambda>c. c < 128 \<and> c \<noteq> 34 \<and> c \<noteq> 92) (hex4 c)"
proof -
  have h: "hex_digit n < 128 \<and> hex_digit n \<noteq> 34 \<and> hex_digit n \<noteq> 92" if "n < 16" for n
    using that hex_digit_ascii [of n] hex_val_digit [of n] by (auto simp: hex_val_def)
  have "unat c < 65536" using unsigned_less [of c, where ?'a = nat] by simp
  then have "unat c div 4096 < 16" by (simp add: less_mult_imp_div_less)
  with h show ?thesis by (simp add: hex4_def Let_def)
qed

lemma inner_escape_unit: "inner (escape_unit c)"
proof -
  have u: "inner ([92, 117] @ hex4 c)"
    by (rule inner_append [OF inner_escape inner_plain [OF hex4_plain]]) simp
  consider "c < 128" "c \<noteq> 34" "c \<noteq> 92" | "c = 34 \<or> c = 92" | "128 \<le> c" by fastforce
  then show ?thesis
  proof cases
    case 1
    then show ?thesis
      using u inner_escape inner_plain [of "[c]"] unfolding escape_unit_def by simp
  next
    case 2
    then show ?thesis using inner_escape unfolding escape_unit_def by auto
  next
    case 3
    then have "128 \<le> unat c" by (simp add: word_le_nat_alt)
    then show ?thesis
      using u 3 inner_escape inner_high [of "[c]" "unat c"] unfolding escape_unit_def by auto
  qed
qed

lemma inner_json_escape: "inner (json_escape s)"
proof (induction s rule: json_escape.induct)
  case 1
  show ?case by (simp add: inner_plain)
next
  case (2 c)
  show ?case by (simp add: inner_escape_unit)
next
  case (3 c d s)
  show ?case
  proof (cases "is_high c \<and> is_low d")
    case True
    have "inner [c, d]"
      by (rule inner_high [OF _ _ ]) (use True in auto)
    then show ?thesis using True 3 inner_append [of "[c, d]" "json_escape s"] by simp
  next
    case False
    then have "json_escape (c # d # s) = escape_unit c @ json_escape (d # s)" by auto
    then show ?thesis using inner_append [OF inner_escape_unit 3(2) [OF False]] by (simp only:)
  qed
qed

lemma neutral_quote: "neutral (json_quote s)"
proof -
  have i: "well_formed (json_escape s)" "\<And>d. scan Inside d (utf8_encode (json_escape s)) = Some (Inside, d)"
    using inner_json_escape [of s] by (auto simp: inner_def)
  have q: "well_formed [34]" "utf8_encode [34] = [34]"
    using utf8_encode_unit [of 34] by (auto simp: is_high_def is_low_def)
  have "well_formed (json_quote s)"
    unfolding json_quote_def by (intro well_formed_append i q)
  then show ?thesis
    using i q by (simp add: neutral_def json_quote_def utf8_encode_append scan_append del: append.simps)
qed

lemma quiet_digits: "list_all is_digit s \<Longrightarrow> list_all quiet s"
proof -
  have "quiet c" if "is_digit c" for c
    using that by (auto simp: quiet_def is_digit_def intro: le_less_trans [of c 57])
  then show "list_all is_digit s \<Longrightarrow> list_all quiet s" by (simp add: list_all_iff)
qed

lemma neutral_num:
  assumes "is_safe_integer n" shows "neutral (json_num n)"
proof -
  obtain i where "n = Fin (of_int i)" "safe_int i" using assms by (rule safe_integerE)
  then show ?thesis
    using quiet_digits [OF dec_str_digits] neutral_unit [of 45]
    by (auto simp: json_num_def num_str_int safe_int_def quiet_def
        intro!: neutral_quiet)
qed

lemma neutral_member: "neutral t \<Longrightarrow> neutral (json_member (k, t))"
  unfolding json_member_def fst_conv snd_conv
  by (intro neutral_append neutral_quote) (simp_all add: neutral_quiet js_Cons jc_def quiet_def)

lemma neutral_emit: "json_plain v \<Longrightarrow> neutral (emit v)"
proof (induction v)
  case (Arr vs)
  then have "neutral (intersperse [44] (map emit vs))"
    by (intro neutral_intersperse neutral_unit) (auto simp: list_all_iff quiet_def)
  then show ?case
    using neutral_wrap [of "intersperse [44] (map emit vs)" 91 93]
    by (simp add: json_array_def js_Cons jc_def)
next
  case (Obj kvs)
  have "neutral (emit v)" if "(k, v) \<in> set kvs" for k v
    using Obj.IH [OF that, of v] Obj.prems that by (auto simp: list_all_iff)
  then have "neutral (intersperse [44] (map json_member (map (\<lambda>(k, v). (k, emit v)) kvs)))"
    by (intro neutral_intersperse neutral_unit) (auto simp: list_all_iff quiet_def intro!: neutral_member)
  then show ?case
    using neutral_wrap [of "intersperse [44] (map json_member (map (\<lambda>(k, v). (k, emit v)) kvs))" 123 125]
    by (simp add: json_object_def js_Cons jc_def)
next
  case (Num n)
  then show ?case by (simp add: neutral_num)
next
  case (Str s)
  then show ?case by (simp add: neutral_quote)
qed (auto intro!: neutral_quiet simp: js_Cons jc_def quiet_def)

lemma well_formed_emit: "json_plain v \<Longrightarrow> well_formed (emit v)"
  using neutral_emit by (simp add: neutral_def)

lemma object_bytes_emit:
  assumes "json_plain (Obj kvs)"
  shows "object_bytes (utf8_encode (emit (Obj kvs)))"
proof -
  let ?b = "intersperse [44] (map json_member (map (\<lambda>(k, v). (k, emit v)) kvs))"
  have e: "emit (Obj kvs) = [123] @ ?b @ [125]"
    by (simp add: json_object_def js_Cons jc_def)
  have n: "neutral ?b"
    using assms neutral_emit
    by (intro neutral_intersperse neutral_unit)
      (auto simp: list_all_iff quiet_def intro!: neutral_member)
  have w: "well_formed [123]" "utf8_encode [123] = [123]" "utf8_encode [125] = [125]"
    using utf8_encode_unit [of 123] utf8_encode_unit [of 125] by (auto simp: is_high_def is_low_def)
  have "utf8_encode (emit (Obj kvs)) = 123 # utf8_encode ?b @ [125]"
    unfolding e using n w by (simp add: neutral_def utf8_encode_append del: append.simps)
  with n show ?thesis by (auto simp: object_bytes_def neutral_def)
qed

text \<open>So a nonce followed by the text of an object can be taken apart in one way only.\<close>

theorem preimage_unique:
  assumes "json_plain v" "plain_object v" "json_plain w" "plain_object w"
    "m @ utf8_encode (emit v) = n @ utf8_encode (emit w)"
  shows "m = n \<and> v = w"
proof -
  have "m = n \<and> utf8_encode (emit v) = utf8_encode (emit w)"
    using assms by (intro framing) (auto elim!: plain_object.elims intro: object_bytes_emit simp del: emit.simps)
  then show ?thesis
    using assms utf8_encode_inject [OF well_formed_emit well_formed_emit] emit_inject by blast
qed

section \<open>Lengths\<close>

lemma length_utf8_encode_le: "length (utf8_encode s) \<le> 4 * length s"
proof -
  have "length (utf8_cp cp) \<le> 4" for cp by (simp add: utf8_cp_def)
  then have "length (concat (map utf8_cp cps)) \<le> 4 * length cps" for cps
    by (induction cps) (auto intro: add_mono)
  moreover have "length (code_points s) \<le> length s"
    by (induction s rule: code_points.induct) auto
  ultimately show ?thesis
    unfolding utf8_encode_def by (meson le_trans mult_le_mono2)
qed

lemma length_b64_encode_le: "length (b64_encode bs) \<le> 2 * length bs + 4"
  by (induction bs rule: b64_encode.induct) (auto simp: Let_def)

lemma length_json_escape_le: "length (json_escape s) \<le> 6 * length s"
proof -
  have u: "length (escape_unit c) \<le> 6" for c by (simp add: escape_unit_def hex4_def Let_def)
  show ?thesis
  proof (induction s rule: json_escape.induct)
    case (3 c d s)
    then show ?case using u [of c] by (cases "is_high c \<and> is_low d") auto
  qed (use u in auto)
qed

lemma length_emit_strings:
  "length (emit (Obj [(k, Str s)])) \<le> 7 + 6 * (length k + length s)"
  "length (emit (Obj [(k, Str s), (l, Str t)])) \<le> 13 + 6 * (length k + length s + length l + length t)"
  using length_json_escape_le [of k] length_json_escape_le [of s] length_json_escape_le [of l] length_json_escape_le [of t]
  by (simp_all add: json_object_def json_member_def json_quote_def)

end
