(* ===== verification/Commitment.thy ===== *)
theory Commitment
  imports Framing
begin

text \<open>
  The commitment anchored on the ledger: \<open>SHA-256(DOMAIN || nonce || JCS(certificate))\<close>, computed in
  \<open>verifier/index.js\<close>, in the widget and in \<open>client/index.js\<close>. The hash function belongs to
  the platform and is a parameter, so what is proved holds of every hash: equal commitments mean
  the same nonce and certificate, or a collision. The locale \<open>commitment_scheme\<close> proves this once.
\<close>

section \<open>The code\<close>

definition domain_bytes :: bytes where
  "domain_bytes = utf8_encode (js ''printwright:license-certificate:v1'' @ [0])"

definition invalid_input :: "jsstr \<Rightarrow> js_error" where
  "invalid_input m = VerificationError m (js ''invalid_input'') None"

definition re_hex :: re where
  "re_hex = r_plus r_hexi"

definition re_hex_pairs :: re where
  "re_hex_pairs = r_plus (r_seq [r_hexi, r_hexi])"

definition commitment_hash :: "(bytes \<Rightarrow> bytes) \<Rightarrow> bytes \<Rightarrow> jsstr \<Rightarrow> jsstr" where
  "commitment_hash hash nonce text = hex_encode (hash (domain_bytes @ nonce @ utf8_encode text))"

text \<open>\<open>v.length % 2 !== 0\<close>, for what can stand there after the hex test: a string, a number
  (which has no length) or an array.\<close>

fun odd_length :: "jsval \<Rightarrow> bool" where
  "odd_length (Str s) = odd (length s)"
| "odd_length (Arr vs) = odd (length vs)"
| "odd_length _ = True"

definition compute_commitment :: "(bytes \<Rightarrow> bytes) \<Rightarrow> jsval \<Rightarrow> jsval \<Rightarrow> js_error + jsstr" where
  "compute_commitment hash certificate nonce = bindE (string_of nonce) (\<lambda>s.
     if \<not> re_test re_hex s \<or> odd_length nonce then Inl (invalid_input (js ''blinding_nonce must be hex''))
     else bindE (ofOption (TypeErr []) (canonicalize certificate)) (\<lambda>text.
       Inr (commitment_hash hash (hex_decode s) text)))"

definition widget_commitment :: "(bytes \<Rightarrow> bytes) \<Rightarrow> jsval \<Rightarrow> jsval \<Rightarrow> js_error + jsstr" where
  "widget_commitment hash certificate nonce = (case nonce of
     Str s \<Rightarrow>
       if re_test re_hex_pairs s
       then Inr (commitment_hash hash (hex_decode s) (joined (canonicalize certificate)))
       else Inl (invalid_input (js ''blinding_nonce must be hex''))
   | _ \<Rightarrow> Inl (invalid_input (js ''blinding_nonce must be hex'')))"

text \<open>\<open>Buffer.from(nonceHex, "hex")\<close>: the encoding is ignored for an array, and a number is refused.\<close>

definition nonce_buffer :: "jsval \<Rightarrow> js_error + bytes" where
  "nonce_buffer nonce = (case nonce of
     Str s \<Rightarrow> Inr (hex_decode s)
   | Arr vs \<Rightarrow> mapE (\<lambda>v. bindE (number_of v) (\<lambda>n. Inr (to_uint8 n))) vs
   | _ \<Rightarrow> Inl (TypeErr []))"

definition license_commitment :: "(bytes \<Rightarrow> bytes) \<Rightarrow> jsval \<Rightarrow> jsval \<Rightarrow> js_error + jsstr" where
  "license_commitment hash certificate nonce = bindE (string_of (coalesce nonce (Str []))) (\<lambda>s.
     if \<not> re_test re_hex_pairs s
     then Inl (PrintwrightError (js ''proof bundle has no usable blinding_nonce'') None None)
     else bindE (nonce_buffer nonce) (\<lambda>bs. bindE (ofOption (TypeErr []) (canonical_client certificate)) (\<lambda>text.
       Inr (commitment_hash hash bs text))))"

section \<open>Hex nonces\<close>

definition hex_pairs :: "jsstr \<Rightarrow> bool" where
  "hex_pairs s = (s \<noteq> [] \<and> even (length s) \<and> list_all (\<lambda>c. hex_val c \<noteq> None) s)"

lemma hexi_val: "in_cls [(jc CHR ''0'', jc CHR ''9''), (jc CHR ''a'', jc CHR ''f''), (jc CHR ''A'', jc CHR ''F'')] = (\<lambda>c. hex_val c \<noteq> None)"
  by (rule ext) (auto simp: in_cls_def hex_val_def Let_def jc_def word_le_nat_alt)


lemma re_lang_StarPairs:
  "re_lang (RStar (RSeq (RCls rs) (RCls rs))) s \<longleftrightarrow> even (length s) \<and> list_all (in_cls rs) s"
proof
  assume "re_lang (RStar (RSeq (RCls rs) (RCls rs))) s"
  then show "even (length s) \<and> list_all (in_cls rs) s"
  proof (induction "RStar (RSeq (RCls rs) (RCls rs))" s rule: re_lang.induct)
    case (star1 u v)
    then show ?case by (auto simp: re_lang_Seq re_lang_Cls)
  qed simp
next
  assume "even (length s) \<and> list_all (in_cls rs) s"
  then show "re_lang (RStar (RSeq (RCls rs) (RCls rs))) s"
  proof (induction s rule: induct_list012)
    case (3 c d s)
    then have "re_lang (RSeq (RCls rs) (RCls rs)) [c, d]"
      by (simp add: re_lang_SeqCls_Cons re_lang_Cls)
    then show ?case using 3 re_lang.star1 [of _ "[c, d]" s] by simp
  qed (auto intro: re_lang.star0)
qed

lemma re_hex_iff: "re_test re_hex s \<longleftrightarrow> s \<noteq> [] \<and> list_all (\<lambda>c. hex_val c \<noteq> None) s"
  unfolding re_test_iff re_hex_def r_hexi_def re_lang_plusCls hexi_val ..

lemma re_hex_pairs_iff [simp]: "re_test re_hex_pairs s \<longleftrightarrow> hex_pairs s"
proof -
  have "re_lang (r_plus (RSeq (RCls rs) (RCls rs))) s \<longleftrightarrow>
      s \<noteq> [] \<and> even (length s) \<and> list_all (in_cls rs) s" for rs
  proof -
    have "re_lang (r_plus (RSeq (RCls rs) (RCls rs))) s \<longleftrightarrow>
        (\<exists>u v. s = u @ v \<and> re_lang (RSeq (RCls rs) (RCls rs)) u \<and> even (length v) \<and> list_all (in_cls rs) v)"
      by (simp add: r_plus_def re_lang_Seq [of _ "RStar _"] re_lang_StarPairs)
    also have "\<dots> \<longleftrightarrow> s \<noteq> [] \<and> even (length s) \<and> list_all (in_cls rs) s"
    proof (cases "\<exists>c d t. s = c # d # t")
      case True
      then obtain c d t where s: "s = c # d # t" by blast
      show ?thesis
        unfolding s
        by (rule iffI, force simp: re_lang_Seq re_lang_Cls)
          (rule exI [of _ "[c, d]"], rule exI [of _ t], simp add: re_lang_SeqCls_Cons re_lang_Cls)
    next
      case False
      then have "s = [] \<or> length s = 1" by (cases s; cases "tl s") auto
      then show ?thesis by (auto simp: re_lang_Seq re_lang_Cls Cons_eq_append_conv)
    qed
    finally show ?thesis .
  qed
  then show ?thesis
    by (simp only: re_test_iff re_hex_pairs_def r_hexi_def hex_pairs_def r_seq.simps hexi_val)
qed

lemma hex_pairs_hex: "re_test re_hex s \<Longrightarrow> even (length s) \<longleftrightarrow> hex_pairs s"
  by (auto simp: re_hex_iff hex_pairs_def)

lemma re_hex_pairs_hex: "hex_pairs s \<Longrightarrow> re_test re_hex s"
  by (simp add: re_hex_iff hex_pairs_def)

section \<open>What a commitment promises\<close>

locale commitment_scheme = canonical_json canon handles
  for canon :: "jsval \<Rightarrow> jsstr option" and handles :: "jsval \<Rightarrow> bool" +
  fixes hash :: "bytes \<Rightarrow> bytes" and commit :: "jsval \<Rightarrow> jsval \<Rightarrow> js_error + jsstr"
  assumes commit_some: "hex_pairs n \<Longrightarrow> canon c = Some t \<Longrightarrow>
      commit c (Str n) = Inr (commitment_hash hash (hex_decode n) t)"
    and commit_hex: "commit c (Str n) = Inr h \<Longrightarrow> hex_pairs n"
begin

lemma commit_eq: "handles c \<Longrightarrow> hex_pairs n \<Longrightarrow>
    commit c (Str n) = Inr (commitment_hash hash (hex_decode n) (emit (sort_deep c)))"
  by (rule commit_some) (simp_all add: canon_sorted)

lemma commit_same: "handles c \<Longrightarrow> handles d \<Longrightarrow> same_json c d \<Longrightarrow> commit c (Str n) = Inr h \<Longrightarrow>
    commit d (Str n) = Inr h"
  using commit_hex [of c n h] commit_eq [of c n] commit_eq [of d n] by (simp add: same_json_def)

lemma commit_binding:
  assumes "handles c" "handles d" "plain_object c" "plain_object d"
    "commit c (Str m) = Inr h" "commit d (Str n) = Inr h"
  shows "(hex_decode m = hex_decode n \<and> same_json c d) \<or> (\<exists>x y. x \<noteq> y \<and> hash x = hash y)"
proof -
  define x where "x = domain_bytes @ hex_decode m @ utf8_encode (emit (sort_deep c))"
  define y where "y = domain_bytes @ hex_decode n @ utf8_encode (emit (sort_deep d))"
  have h: "hash x = hash y"
    using commit_eq [OF assms(1) commit_hex [OF assms(5)]] commit_eq [OF assms(2) commit_hex [OF assms(6)]]
      assms(5,6) by (simp add: commitment_hash_def x_def y_def)
  have "plain_object (sort_deep c)" "plain_object (sort_deep d)"
    using assms(3,4) by (auto elim!: plain_object.elims)
  then have "hex_decode m = hex_decode n \<and> same_json c d" if "x = y"
    using that preimage_unique [of "sort_deep c" "sort_deep d" "hex_decode m" "hex_decode n"]
      json_plain_sort_deep [OF handles_plain] assms(1,2)
    by (simp add: x_def y_def same_json_def)
  with h show ?thesis by blast
qed

end

lemma compute_commitment_Str: "compute_commitment hash c (Str n) =
    (if hex_pairs n then bindE (ofOption (TypeErr []) (canonicalize c)) (\<lambda>t. Inr (commitment_hash hash (hex_decode n) t))
     else Inl (invalid_input (js ''blinding_nonce must be hex'')))"
  using hex_pairs_hex [of n] re_hex_pairs_hex [of n]
  by (auto simp: compute_commitment_def string_of_def)

lemma license_commitment_Str: "license_commitment hash c (Str n) =
    (if hex_pairs n then bindE (ofOption (TypeErr []) (canonical_client c)) (\<lambda>t. Inr (commitment_hash hash (hex_decode n) t))
     else Inl (PrintwrightError (js ''proof bundle has no usable blinding_nonce'') None None))"
  by (simp add: license_commitment_def string_of_def coalesce_def nullish_def nonce_buffer_def)

interpretation verifier_scheme: commitment_scheme canonicalize "\<lambda>v. json_plain v \<and> no_to_json v"
    hash "compute_commitment hash"
  for hash
  by unfold_locales (auto simp: compute_commitment_Str split: if_splits)

interpretation widget_scheme: commitment_scheme canonicalize "\<lambda>v. json_plain v \<and> no_to_json v"
    hash "widget_commitment hash"
  for hash
  by unfold_locales (auto simp: widget_commitment_def joined_def split: if_splits)

interpretation client_scheme: commitment_scheme canonical_client "\<lambda>v. json_plain v \<and> no_index_keys v"
    hash "license_commitment hash"
  for hash
  by unfold_locales (auto simp: license_commitment_Str split: if_splits)

text \<open>The verifier refuses every nonce that is not a string of whole hex bytes.\<close>

lemma array_not_hex:
  assumes "to_str (Arr vs) = Some s" "re_test re_hex s"
  shows "odd (length vs)"
proof -
  obtain ss where ss: "mapO (\<lambda>r. r) (map (\<lambda>v. if nullish v then Some [] else to_str v) vs) = Some ss"
    "s = intersperse (js '','') ss"
    using assms(1) by auto
  have "length ss = length vs"
    using mapO_length [OF ss(1)] by simp
  moreover have "length ss = 1"
  proof (cases "\<exists>a b xs. ss = a # b # xs")
    case True
    then have "44 \<in> set s" using ss(2) by (auto simp: js_Cons jc_def)
    moreover have "hex_val 44 = None" by (simp add: hex_val_def)
    ultimately show ?thesis using assms(2) by (auto simp: re_hex_iff list_all_iff)
  next
    case False
    moreover have "ss \<noteq> []" using assms(2) ss(2) by (auto simp: re_hex_iff)
    ultimately show ?thesis by (cases ss; cases "tl ss") auto
  qed
  ultimately have "length vs = 1" by simp
  then show ?thesis by simp
qed

lemma commitment_needs_hex:
  assumes "compute_commitment hash c n = Inr h"
  obtains s t where "n = Str s" "hex_pairs s" "canonicalize c = Some t"
    "h = commitment_hash hash (hex_decode s) t"
proof -
  obtain s where s: "to_str n = Some s" "re_test re_hex s" "\<not> odd_length n"
    using assms by (auto simp: compute_commitment_def string_of_def split: if_splits)
  have "n = Str s"
    using s array_not_hex by (cases n) auto
  with assms that show thesis by (auto simp: compute_commitment_Str split: if_splits)
qed

end
