(* ===== verification/Certificate.thy ===== *)
theory Certificate
  imports Commitment
begin

text \<open>
  The certificate schema: \<open>validateCertificate\<close> of \<open>verifier/index.js\<close> and of the widget, which
  differ in how they read \<open>buyer_hint\<close>, with the patterns they test. A certificate without errors
  has exactly the eleven fields; the fields that go through \<open>String(v)\<close> are strings up to that
  conversion.
\<close>

section \<open>Patterns\<close>

definition r_digits :: re where
  "r_digits = r_plus r_digit"

definition re_entity :: re where
  "re_entity = r_seq [r_digits, r_ch (CHR ''.''), r_digits, r_ch (CHR ''.''), r_digits]"

definition re_cert_id :: re where
  "re_cert_id = r_seq [r_opt (r_lit ''sandbox-''), r_lit ''pw-'', r_atleast 16 r_hex]"

definition re_sha256 :: re where
  "re_sha256 = r_seq [r_lit ''sha256:'', r_times 64 r_hex]"

definition re_payment_tx :: re where
  "re_payment_tx = r_alts
     [r_seq [r_lit ''sandbox-tx-'', r_plus r_hex],
      r_seq [r_digits, r_ch (CHR ''.''), r_digits, r_ch (CHR ''.''), r_digits, r_ch (CHR ''@''),
             r_digits, r_ch (CHR ''.''), r_between 1 9 r_digit]]"

definition re_timestamp :: re where
  "re_timestamp = r_seq [r_times 4 r_digit, r_ch (CHR ''-''), r_times 2 r_digit, r_ch (CHR ''-''),
     r_times 2 r_digit, r_ch (CHR ''T''), r_times 2 r_digit, r_ch (CHR '':''), r_times 2 r_digit,
     r_ch (CHR '':''), r_times 2 r_digit, r_opt (RSeq (r_ch (CHR ''.'')) r_digits), r_ch (CHR ''Z'')]"

definition re_buyer_hint :: re where
  "re_buyer_hint = r_alts [r_lit ''bearer'', r_lit ''sandbox-buyer'', re_entity]"

text \<open>\<open>Date.parse\<close> on a text of the form \<open>re_timestamp\<close>: the fields are range-checked one by one
  (the day against 31 in every month), and hour 24 is midnight only.\<close>

definition field :: "nat \<Rightarrow> jsstr \<Rightarrow> nat" where
  "field i s = digits_val (take 2 (drop i s))"

definition date_ok :: "jsstr \<Rightarrow> bool" where
  "date_ok s = (1 \<le> field 5 s \<and> field 5 s \<le> 12 \<and> 1 \<le> field 8 s \<and> field 8 s \<le> 31 \<and>
     (field 11 s \<le> 23 \<and> field 14 s \<le> 59 \<and> field 17 s \<le> 59 \<or>
      field 11 s = 24 \<and> field 14 s = 0 \<and> field 17 s = 0 \<and>
      digits_val (take 3 (takeWhile is_digit (drop 20 s))) = 0))"

section \<open>Validation\<close>

definition certificate_keys :: "jsstr list" where
  "certificate_keys = map js [''v'', ''cert_id'', ''model_id'', ''model_hash'', ''designer'',
     ''license_type'', ''unit_serial'', ''buyer_hint'', ''payment_tx'', ''issued_at'', ''terms_hash'']"

fun is_entity_id :: "jsval \<Rightarrow> bool" where
  "is_entity_id (Str s) = re_test re_entity s"
| "is_entity_id _ = False"

fun is_sha256 :: "jsval \<Rightarrow> bool" where
  "is_sha256 (Str s) = re_test re_sha256 s"
| "is_sha256 _ = False"

fun is_timestamp :: "jsval \<Rightarrow> bool" where
  "is_timestamp (Str s) = (re_test re_timestamp s \<and> date_ok s)"
| "is_timestamp _ = False"

definition err_unless :: "bool \<Rightarrow> string \<Rightarrow> jsstr list" where
  "err_unless b m = (if b then [] else [js m])"

text \<open>\<open>buyer_hint\<close> as the verifier reads it (\<open>String(v)\<close> only after the first two tests fail)
  and as the widget does.\<close>

definition buyer_hint_ok :: "jsval \<Rightarrow> js_error + bool" where
  "buyer_hint_ok v = (if v = Str (js ''bearer'') \<or> is_entity_id v then Inr True
     else bindE (string_of v) (\<lambda>s. Inr (s = js ''sandbox-buyer'')))"

definition widget_buyer_hint_ok :: "jsval \<Rightarrow> js_error + bool" where
  "widget_buyer_hint_ok v = bindE (string_of v) (\<lambda>s. Inr (re_test re_buyer_hint s))"

definition validate_with :: "(jsval \<Rightarrow> js_error + bool) \<Rightarrow> jsval \<Rightarrow> js_error + jsstr list" where
  "validate_with hint_ok certificate = (case certificate of
     Obj c \<Rightarrow>
       (let missing = filter (\<lambda>k. \<not> has_own c k) certificate_keys;
            extra = filter (\<lambda>k. k \<notin> set certificate_keys) (map fst (own_entries c))
        in bindE (string_of (pget c (js ''cert_id''))) (\<lambda>cert_id.
           bindE (hint_ok (pget c (js ''buyer_hint''))) (\<lambda>hint.
           bindE (string_of (pget c (js ''payment_tx''))) (\<lambda>tx. Inr (
             (if missing \<noteq> [] then [js ''missing fields: '' @ intersperse (js '', '') missing] else []) @
             (if extra \<noteq> [] then [js ''unknown fields: '' @ intersperse (js '', '') extra] else []) @
             err_unless (strict_eq (pget c (js ''v'')) (jnum 1)) ''v must equal 1'' @
             err_unless (re_test re_cert_id cert_id) ''cert_id must be an unguessable pw- token'' @
             err_unless (positive_integer (pget c (js ''model_id''))) ''model_id must be a positive integer'' @
             err_unless (is_sha256 (pget c (js ''model_hash''))) ''model_hash must be sha256:<64 lowercase hex>'' @
             err_unless (positive_integer (pget c (js ''designer''))) ''designer must be a positive integer studio id'' @
             err_unless (pget c (js ''license_type'') \<in> {Str (js ''personal''), Str (js ''commercial_unit'')})
               ''license_type must be personal or commercial_unit'' @
             err_unless (positive_integer (pget c (js ''unit_serial''))) ''unit_serial must be a positive integer'' @
             err_unless hint ''buyer_hint must be bearer or a Hedera account id'' @
             err_unless (re_test re_payment_tx tx) ''payment_tx must be a Hedera transaction id'' @
             err_unless (is_timestamp (pget c (js ''issued_at''))) ''issued_at must be an RFC 3339 UTC timestamp'' @
             err_unless (is_sha256 (pget c (js ''terms_hash''))) ''terms_hash must be sha256:<64 lowercase hex>'')))))
   | _ \<Rightarrow> Inr [js ''certificate must be a JSON object''])"

definition validate_certificate :: "jsval \<Rightarrow> js_error + jsstr list" where
  "validate_certificate = validate_with buyer_hint_ok"

definition widget_validate :: "jsval \<Rightarrow> js_error + jsstr list" where
  "widget_validate = validate_with widget_buyer_hint_ok"

section \<open>What a clean certificate is\<close>

definition schema_ok :: "(jsval \<Rightarrow> js_error + bool) \<Rightarrow> (jsstr \<times> jsval) list \<Rightarrow> bool" where
  "schema_ok hint_ok c = (fst ` set c = set certificate_keys \<and>
     strict_eq (pget c (js ''v'')) (jnum 1) \<and>
     (\<exists>s. to_str (pget c (js ''cert_id'')) = Some s \<and> re_test re_cert_id s) \<and>
     positive_integer (pget c (js ''model_id'')) \<and> is_sha256 (pget c (js ''model_hash'')) \<and>
     positive_integer (pget c (js ''designer'')) \<and>
     pget c (js ''license_type'') \<in> {Str (js ''personal''), Str (js ''commercial_unit'')} \<and>
     positive_integer (pget c (js ''unit_serial'')) \<and>
     hint_ok (pget c (js ''buyer_hint'')) = Inr True \<and>
     (\<exists>s. to_str (pget c (js ''payment_tx'')) = Some s \<and> re_test re_payment_tx s) \<and>
     is_timestamp (pget c (js ''issued_at'')) \<and> is_sha256 (pget c (js ''terms_hash'')))"

lemma err_unless_Nil [simp]: "err_unless b m = [] \<longleftrightarrow> b"
  by (simp add: err_unless_def)

lemma no_missing_iff: "filter (\<lambda>k. \<not> has_own c k) certificate_keys = [] \<longleftrightarrow> set certificate_keys \<subseteq> fst ` set c"
  by (auto simp: filter_empty_conv has_own_def)

lemma no_extra_iff: "filter (\<lambda>k. k \<notin> set certificate_keys) (map fst (own_entries c)) = [] \<longleftrightarrow>
    fst ` set c \<subseteq> set certificate_keys"
  by (auto simp: filter_empty_conv)

lemma validate_clean_iff: "validate_with hint_ok (Obj c) = Inr [] \<longleftrightarrow> schema_ok hint_ok c"
  unfolding validate_with_def schema_ok_def jsval.simps Let_def
  by (auto simp: no_missing_iff no_extra_iff string_of_def simp del: set_map)

lemma validate_clean_object: "validate_with hint_ok v = Inr [] \<Longrightarrow> \<exists>c. v = Obj c"
  by (cases v) (auto simp: validate_with_def)

text \<open>Only \<open>String(v)\<close> can throw.\<close>

lemma validate_error: "validate_with hint_ok v = Inl e \<Longrightarrow> (\<And>u d. hint_ok u = Inl d \<Longrightarrow> d = TypeErr []) \<Longrightarrow> e = TypeErr []"
  by (cases v) (auto simp: validate_with_def Let_def bindE_eq_Inl_iff string_of_def)

lemma buyer_hint_errors:
  "buyer_hint_ok v = Inl d \<Longrightarrow> d = TypeErr []" "widget_buyer_hint_ok v = Inl d \<Longrightarrow> d = TypeErr []"
  by (auto simp: buyer_hint_ok_def widget_buyer_hint_ok_def bindE_eq_Inl_iff string_of_def split: if_splits)

lemma r_lit_iff: "re_test (r_lit s) t \<longleftrightarrow> t = js s"
proof -
  have ch: "re_lang (r_ch c) u \<longleftrightarrow> u = [jc c]" for c u
    by (auto simp: r_ch_def re_lang_Cls in_cls_def)
  have "re_lang (r_lit s) t \<longleftrightarrow> t = js s"
    by (induction s arbitrary: t rule: r_lit.induct) (auto simp: ch js_Cons re_lang_Seq)
  then show ?thesis by (simp add: re_test_iff)
qed

lemma buyer_hint_string: "buyer_hint_ok (Str s) = widget_buyer_hint_ok (Str s)"
  using r_lit_iff [of "''bearer''" s] r_lit_iff [of "''sandbox-buyer''" s]
  by (auto simp: buyer_hint_ok_def widget_buyer_hint_ok_def string_of_def re_buyer_hint_def re_test_iff
      simp del: r_lit.simps)

text \<open>On a certificate whose \<open>buyer_hint\<close> is a string the two validators agree.\<close>

lemma validators_agree:
  "pget c (js ''buyer_hint'') = Str s \<Longrightarrow> widget_validate (Obj c) = validate_certificate (Obj c)"
  by (simp add: widget_validate_def validate_certificate_def validate_with_def buyer_hint_string)

section \<open>A clean certificate is a plain value\<close>

text \<open>A value whose \<open>String(v)\<close> has no comma and a unit that no number and no literal name has
  is a string, possibly inside singleton arrays.\<close>

definition letter_mark :: "jsunit \<Rightarrow> bool" where
  "letter_mark c = (c = 119 \<or> c = 64 \<or> c = 120)"

definition unmarked :: "jsstr \<Rightarrow> bool" where
  "unmarked s = list_all (\<lambda>c. \<not> letter_mark c) s"

lemma unmarked_simps [simp]:
  "unmarked []" "unmarked (c # s) \<longleftrightarrow> \<not> letter_mark c \<and> unmarked s"
  "unmarked (s @ t) \<longleftrightarrow> unmarked s \<and> unmarked t"
  by (auto simp: unmarked_def)

lemma unmarked_sub: "unmarked s \<Longrightarrow> unmarked (take k s) \<and> unmarked (drop k s) \<and> unmarked (tl s)"
proof -
  assume "unmarked s"
  moreover have "set (take k s) \<subseteq> set s" "set (drop k s) \<subseteq> set s" "set (tl s) \<subseteq> set s"
    by (auto dest: in_set_takeD in_set_dropD, cases s, auto)
  ultimately show ?thesis unfolding unmarked_def list_all_iff by blast
qed

lemma unmarked_dec_str [simp]: "unmarked (dec_str n)"
  using dec_str_digits [of n] by (auto simp: unmarked_def list_all_iff letter_mark_def is_digit_def)

lemma unmarked_zeros [simp]: "unmarked (replicate k 48)"
  by (induction k) (simp_all add: letter_mark_def)

lemma unmarked_decimal_layout: "unmarked ds \<Longrightarrow> unmarked (decimal_layout ds n)"
  using unmarked_sub [of ds] by (simp add: decimal_layout_def Let_def) (simp add: letter_mark_def)

lemma unmarked_num_str: "unmarked (num_str n)"
proof -
  have p: "unmarked (positive_str q)" for q
    by (auto simp: positive_str_def Let_def letter_mark_def split: prod.splits intro!: unmarked_decimal_layout)
  show ?thesis
    by (cases n) (auto simp: num_str.simps(4) p letter_mark_def js_Cons jc_def)
qed

lemma num_str_not_mark: "c \<in> set (num_str n) \<Longrightarrow> \<not> letter_mark c"
  using unmarked_num_str [of n] by (simp add: unmarked_def list_all_iff)

lemma string_leaf:
  assumes "to_str v = Some s" "c \<in> set s" "letter_mark c" "44 \<notin> set s"
  shows "json_plain v \<and> all_keys P v"
  using assms
proof (induction v arbitrary: s)
  case (Arr vs)
  obtain ss where ss: "mapO (\<lambda>r. r) (map (\<lambda>v. if nullish v then Some [] else to_str v) vs) = Some ss"
    "s = intersperse (js '','') ss"
    using Arr.prems(1) by auto
  have l: "length ss = length vs" using mapO_length [OF ss(1)] by simp
  have "\<nexists>a b xs. ss = a # b # xs"
    using Arr.prems(4) ss(2) by (auto simp: js_Cons jc_def)
  moreover have "ss \<noteq> []" using Arr.prems(2) ss(2) by auto
  ultimately obtain a where "ss = [a]" by (cases ss; cases "tl ss") auto
  with l obtain v where v: "vs = [v]" by (cases vs) auto
  then have "to_str v = Some s"
    using ss \<open>ss = [a]\<close> Arr.prems(2) by (auto split: if_splits option.splits)
  then show ?case using Arr.IH [of v s] Arr.prems(2-4) v by simp
next
  case (Num x)
  then show ?case using num_str_not_mark by auto
qed (auto simp: letter_mark_def js_Cons jc_def split: if_splits)

lemma re_test_leaf:
  assumes "to_str v = Some s" "re_test r s" "re_must r c" "letter_mark c" "\<not> re_units r 44"
  shows "json_plain v \<and> all_keys P v"
  using assms re_lang_must re_lang_units by (intro string_leaf [of v s c]) (auto simp: re_test_iff)

lemma cert_id_leaf:
  assumes "to_str v = Some s" "re_test re_cert_id s"
  shows "json_plain v \<and> all_keys P v"
  by (rule re_test_leaf [OF assms, of 119])
    (simp_all add: re_cert_id_def js_eval letter_mark_def del: r_times.simps)

lemma payment_tx_leaf:
  assumes "to_str v = Some s" "re_test re_payment_tx s"
  shows "json_plain v \<and> all_keys P v"
proof -
  obtain r where r: "r \<in> {r_seq [r_lit ''sandbox-tx-'', r_plus r_hex],
      r_seq [r_digits, r_ch (CHR ''.''), r_digits, r_ch (CHR ''.''), r_digits, r_ch (CHR ''@''),
             r_digits, r_ch (CHR ''.''), r_between 1 9 r_digit]}" "re_test r s"
    using assms(2) by (auto simp: re_test_iff re_payment_tx_def simp del: r_lit.simps r_seq.simps)
  have "re_must r 120 \<or> re_must r 64" "\<not> re_units r 44"
    using r(1) by (auto simp: r_digits_def js_eval)
  then show ?thesis
    using re_test_leaf [OF assms(1) r(2)] by (auto simp: letter_mark_def)
qed

lemma buyer_hint_leaf:
  assumes "buyer_hint_ok v = Inr True"
  shows "json_plain v \<and> all_keys P v"
proof (cases v)
  case (Str s)
  then show ?thesis by simp
next
  case (Arr vs)
  then have "to_str v = Some (js ''sandbox-buyer'')"
    using assms by (auto simp: buyer_hint_ok_def string_of_def split: if_splits)
  then show ?thesis
    by (rule string_leaf [of _ _ 120]) (simp_all add: js_Cons jc_def letter_mark_def)
next
  case (Num x)
  then have "num_str x = js ''sandbox-buyer''"
    using assms by (auto simp: buyer_hint_ok_def string_of_def)
  then have "120 \<in> set (num_str x)" by (simp add: js_Cons jc_def)
  then show ?thesis using num_str_not_mark by (auto simp: letter_mark_def)
qed (use assms in \<open>auto simp: buyer_hint_ok_def string_of_def split: if_splits\<close>)

lemma scalar_plain: "positive_integer v \<or> is_sha256 v \<or> is_timestamp v \<Longrightarrow> json_plain v \<and> all_keys P v"
  by (cases v) auto

lemma schema_ok_field:
  assumes "schema_ok buyer_hint_ok c" "k \<in> set certificate_keys"
  shows "json_plain (pget c k) \<and> all_keys P (pget c k)"
proof -
  have v: "json_plain v \<and> all_keys P v" if "strict_eq v (jnum 1)" for v
    using that by (cases v) (auto simp: num_eq_def js_eval split: jsnum.splits)
  have "pget c k \<in> {Str (js ''personal''), Str (js ''commercial_unit'')} \<or> strict_eq (pget c k) (jnum 1) \<or>
      positive_integer (pget c k) \<or> is_sha256 (pget c k) \<or> is_timestamp (pget c k) \<or>
      buyer_hint_ok (pget c k) = Inr True \<or>
      (\<exists>s. to_str (pget c k) = Some s \<and> (re_test re_cert_id s \<or> re_test re_payment_tx s))"
    using assms(2) by (simp add: certificate_keys_def) (use assms(1) in \<open>auto simp: schema_ok_def\<close>)
  then show ?thesis
    using v scalar_plain cert_id_leaf payment_tx_leaf buyer_hint_leaf by auto
qed

lemma certificate_keys_toJSON: "js ''toJSON'' \<notin> set certificate_keys"
  by (simp add: certificate_keys_def)

lemma schema_ok_plain:
  assumes "schema_ok buyer_hint_ok c" "distinct (map fst c)"
  shows "json_plain (Obj c) \<and> no_to_json (Obj c)"
proof -
  have keys: "fst ` set c = set certificate_keys" using assms(1) by (simp add: schema_ok_def)
  have "json_plain v \<and> all_keys P v" "k \<noteq> js ''toJSON''" if "(k, v) \<in> set c" for k v P
  proof -
    have k: "k \<in> set certificate_keys" using keys that by force
    have "pget c k = v" using that assms(2) by (simp add: pget_def)
    with schema_ok_field [OF assms(1) k] show "json_plain v \<and> all_keys P v" by metis
    show "k \<noteq> js ''toJSON''" using k certificate_keys_toJSON by auto
  qed
  note facts = this
  have "json_plain (Obj c)"
    using assms(2) facts(1) by (auto simp: list_all_iff)
  moreover have "no_to_json (Obj c)"
    unfolding no_to_json_def all_keys.simps list_all_iff using facts by blast
  ultimately show ?thesis by blast
qed

section \<open>A concrete certificate\<close>

definition zeros64 :: jsstr where
  "zeros64 = js ''0000000000000000000000000000000000000000000000000000000000000000''"

definition sample_certificate :: "(jsstr \<times> jsval) list" where
  "sample_certificate = [(js ''v'', jnum 1), (js ''cert_id'', Str (js ''pw-0123456789abcdef'')),
     (js ''model_id'', jnum 7), (js ''model_hash'', Str (js ''sha256:'' @ zeros64)),
     (js ''designer'', jnum 3), (js ''license_type'', Str (js ''personal'')),
     (js ''unit_serial'', jnum 1), (js ''buyer_hint'', Str (js ''bearer'')),
     (js ''payment_tx'', Str (js ''0.0.1234@1700000000.5'')),
     (js ''issued_at'', Str (js ''2026-01-31T12:00:00Z'')),
     (js ''terms_hash'', Str (js ''sha256:'' @ zeros64))]"

lemma sample_patterns:
  "re_test re_cert_id (js ''pw-0123456789abcdef'')" "re_test re_sha256 (js ''sha256:'' @ zeros64)"
  "re_test re_payment_tx (js ''0.0.1234@1700000000.5'')"
  "is_timestamp (Str (js ''2026-01-31T12:00:00Z''))"
  by code_simp+

lemma jnum_1_strict: "strict_eq (jnum 1) (jnum 1)"
  by (simp add: num_eq_def)

lemma sample_schema: "schema_ok buyer_hint_ok sample_certificate"
proof -
  have "fst ` set sample_certificate = set certificate_keys"
    by (simp add: sample_certificate_def certificate_keys_def)
  then show ?thesis
    unfolding schema_ok_def
    using sample_patterns jnum_1_strict positive_integer_jnum [of 7] positive_integer_jnum [of 3] positive_integer_jnum [of 1]
    by (simp add: sample_certificate_def buyer_hint_ok_def del: positive_integer.simps is_timestamp.simps of_nat_1 of_nat_numeral)
qed

lemma sample_plain: "json_plain (Obj sample_certificate)" "no_to_json (Obj sample_certificate)"
proof -
  have "distinct (map fst sample_certificate)"
    by (simp add: sample_certificate_def)
  then show "json_plain (Obj sample_certificate)" "no_to_json (Obj sample_certificate)"
    using schema_ok_plain [OF sample_schema] by blast+
qed

end
