(* ===== verification/Env.thy ===== *)
theory Env
  imports JsonText
begin

text \<open>
  The environment of the programs: \<open>fetch\<close> and timers, run in the monad \<open>act\<close> over a session
  that keeps the state of the outside world (\<open>net\<close>, of any type) and the trace of what the
  program did to it. The behaviour of the world is a parameter (\<open>'w fetcher\<close>); a fetch that
  rejects, a body that cannot be read and a timeout are its error outcomes. The locale
  \<open>bounded_retry\<close> is the contract of the retry loops of the repository.
\<close>

record http_request =
  req_method :: jsstr
  req_url :: jsstr
  req_headers :: "(jsstr \<times> jsstr) list"
  req_body :: "jsstr option"

record http_response =
  res_status :: nat
  res_headers :: "(jsstr \<times> jsstr) list"
  res_url :: jsstr
  res_text :: "js_error + jsstr"

definition res_ok :: "http_response \<Rightarrow> bool" where
  "res_ok r = (200 \<le> res_status r \<and> res_status r < 300)"

text \<open>\<open>Called\<close> is a call of a library that is not under \<open>src/\<close>, with its arguments.\<close>

datatype event =
    Fetched http_request
  | Slept nat
  | Called jsstr "jsval list"

record 'w session =
  net :: 'w
  trace :: "event list"

type_synonym 'w fetcher = "http_request \<Rightarrow> 'w \<Rightarrow> (js_error + http_response) \<times> 'w"
type_synonym ('w, 'a) prog = "('w session, js_error, 'a) act"

definition note_event :: "event \<Rightarrow> 'w session \<Rightarrow> 'w session" where
  "note_event ev s = s\<lparr>trace := trace s @ [ev]\<rparr>"

definition fetchM :: "'w fetcher \<Rightarrow> http_request \<Rightarrow> ('w, http_response) prog" where
  "fetchM f req = (\<lambda>s. case f req (net s) of (r, n) \<Rightarrow>
     (r, s\<lparr>net := n, trace := trace s @ [Fetched req]\<rparr>))"

definition sleepM :: "nat \<Rightarrow> ('w, unit) prog" where
  "sleepM ms = (\<lambda>s. (Inr (), note_event (Slept ms) s))"

definition callM :: "(jsval list \<Rightarrow> 'w \<Rightarrow> (js_error + 'a) \<times> 'w) \<Rightarrow> jsstr \<Rightarrow> jsval list \<Rightarrow> ('w, 'a) prog" where
  "callM f name args = (\<lambda>s. case f args (net s) of (r, n) \<Rightarrow>
     (r, s\<lparr>net := n, trace := trace s @ [Called name args]\<rparr>))"

fun error_message :: "js_error \<Rightarrow> jsstr" where
  "error_message (TypeErr m) = m"
| "error_message (PlainErr m) = m"
| "error_message (CodedErr m c) = m"
| "error_message (VerificationError m c r) = m"
| "error_message (PrintwrightError m st b) = m"
| "error_message RangeErr = js ''range error''"
| "error_message SyntaxErr = js ''syntax error''"
| "error_message UriErr = js ''URI malformed''"

lemma trace_fetchM [simp]: "trace (snd (fetchM f req s)) = trace s @ [Fetched req]"
  by (simp add: fetchM_def split: prod.splits)

lemma fetchM_runE:
  assumes "fetchM f req s = (r, s')"
  obtains n where "f req (net s) = (r, n)" "s' = s\<lparr>net := n, trace := trace s @ [Fetched req]\<rparr>"
  using assms by (auto simp: fetchM_def split: prod.splits)

lemma callM_trace: "callM f name args s = (r, s') \<Longrightarrow> trace s' = trace s @ [Called name args]"
  by (auto simp: callM_def split: prod.splits)

lemma trace_note_event [simp]: "trace (note_event ev s) = trace s @ [ev]"
  by (simp add: note_event_def)

lemma sleepM_run [run_simps]: "sleepM ms s = (Inr (), note_event (Slept ms) s)"
  by (simp add: sleepM_def)

text \<open>An attempt whose result ends the loop.\<close>

definition settle :: "('w, 'e, 'a) act \<Rightarrow> 'w \<Rightarrow> ('e + ('e + 'a)) \<times> 'w" where
  "settle m = (\<lambda>s. case m s of (r, s') \<Rightarrow> (map_sum (\<lambda>e. e) Inr r, s'))"

lemma settle_sel [simp]:
  "snd (settle m s) = snd (m s)" "fst (settle m s) = map_sum (\<lambda>e. e) Inr (fst (m s))"
  by (simp_all add: settle_def split: prod.splits)

lemma settle_eq: "settle m s = (out, s') \<longleftrightarrow> map_sum (\<lambda>e. e) Inr (fst (m s)) = out \<and> snd (m s) = s'"
  by (simp add: prod_eq_iff)

section \<open>The header line \<open>Accept: application/json\<close>\<close>

definition accept_json :: "(jsstr \<times> jsstr) list" where
  "accept_json = [(js ''accept'', js ''application/json'')]"

definition get_request :: "jsstr \<Rightarrow> http_request" where
  "get_request url = \<lparr>req_method = js ''GET'', req_url = url, req_headers = accept_json, req_body = None\<rparr>"

text \<open>\<open>response.json()\<close>\<close>

definition body_json :: "http_response \<Rightarrow> js_error + jsval" where
  "body_json r = bindE (res_text r) (\<lambda>t. ofOption SyntaxErr (json_parse t))"

section \<open>Environment variables\<close>

text \<open>\<open>process.env\<close>, with \<open>env.NAME || other\<close> and the truth of \<open>env.NAME\<close>.\<close>

type_synonym environment = "jsstr \<Rightarrow> jsstr option"

definition env_or :: "environment \<Rightarrow> string \<Rightarrow> jsstr \<Rightarrow> jsstr" where
  "env_or env name other = (case env (js name) of Some (c # cs) \<Rightarrow> c # cs | _ \<Rightarrow> other)"

definition env_set :: "environment \<Rightarrow> string \<Rightarrow> bool" where
  "env_set env name = (env_or env name [] \<noteq> [])"

section \<open>What a program adds to the trace\<close>

text \<open>\<open>emits P p\<close>: every event the program \<open>p\<close> adds satisfies \<open>P\<close>; \<open>at_most Q n p\<close>: at most
  \<open>n\<close> of them satisfy \<open>Q\<close>.\<close>

definition emits :: "(event \<Rightarrow> bool) \<Rightarrow> ('w session, 'e, 'a) act \<Rightarrow> bool" where
  "emits P p = (\<forall>s r s'. p s = (r, s') \<longrightarrow> (\<exists>evs. trace s' = trace s @ evs \<and> (\<forall>e \<in> set evs. P e)))"

definition at_most :: "(event \<Rightarrow> bool) \<Rightarrow> nat \<Rightarrow> ('w session, 'e, 'a) act \<Rightarrow> bool" where
  "at_most Q n p = (\<forall>s r s'. p s = (r, s') \<longrightarrow> (\<exists>evs. trace s' = trace s @ evs \<and> length (filter Q evs) \<le> n))"

named_theorems trace_rules \<open>what each construct adds to the trace\<close>

lemma emitsD:
  assumes "emits P p" "p s = (r, s')"
  obtains evs where "trace s' = trace s @ evs" "\<forall>e \<in> set evs. P e"
  using assms unfolding emits_def by blast

lemma emits_mono: "emits P p \<Longrightarrow> (\<And>e. P e \<Longrightarrow> Q e) \<Longrightarrow> emits Q p"
  unfolding emits_def by blast

lemma emits_quiet [trace_rules]: "emits P (retM x)" "emits P (throwM e)" "emits P (liftM r)"
  by (auto simp: emits_def run_simps)

lemma emits_fetchM [trace_rules]: "P (Fetched req) \<Longrightarrow> emits P (fetchM f req)"
  by (auto simp: emits_def fetchM_def split: prod.splits)

lemma emits_callM [trace_rules]: "P (Called name args) \<Longrightarrow> emits P (callM f name args)"
  by (auto simp: emits_def callM_def split: prod.splits)

lemma emits_bindM:
  assumes "emits P m" "\<And>x s s1. m s = (Inr x, s1) \<Longrightarrow> emits P (f x)"
  shows "emits P (bindM m f)"
  unfolding emits_def
proof (intro allI impI)
  fix s r s'
  assume b: "bindM m f s = (r, s')"
  obtain r1 s1 where m: "m s = (r1, s1)" by (cases "m s")
  obtain evs where evs: "trace s1 = trace s @ evs" "\<forall>e \<in> set evs. P e" by (rule emitsD [OF assms(1) m])
  show "\<exists>evs. trace s' = trace s @ evs \<and> (\<forall>e \<in> set evs. P e)"
  proof (cases r1)
    case (Inl e)
    then show ?thesis using b m evs by (auto simp: bindM_def)
  next
    case (Inr x)
    then have "f x s1 = (r, s')" "emits P (f x)" using b m assms(2) by (auto simp: bindM_def)
    then obtain evs' where "trace s' = trace s1 @ evs'" "\<forall>e \<in> set evs'. P e" by (metis emitsD)
    then show ?thesis using evs by (intro exI [of _ "evs @ evs'"]) auto
  qed
qed

lemma emits_catchM:
  assumes "emits P m" "\<And>e. emits P (h e)"
  shows "emits P (catchM m h)"
  unfolding emits_def
proof (intro allI impI)
  fix s r s'
  assume b: "catchM m h s = (r, s')"
  obtain r1 s1 where m: "m s = (r1, s1)" by (cases "m s")
  obtain evs where evs: "trace s1 = trace s @ evs" "\<forall>e \<in> set evs. P e" by (rule emitsD [OF assms(1) m])
  show "\<exists>evs. trace s' = trace s @ evs \<and> (\<forall>e \<in> set evs. P e)"
  proof (cases r1)
    case (Inr x)
    then show ?thesis using b m evs by (auto simp: catchM_def)
  next
    case (Inl e)
    then have "h e s1 = (r, s')" using b m by (auto simp: catchM_def)
    then obtain evs' where "trace s' = trace s1 @ evs'" "\<forall>e \<in> set evs'. P e"
      using assms(2) by (metis emitsD)
    then show ?thesis using evs by (intro exI [of _ "evs @ evs'"]) auto
  qed
qed

lemma at_most_bindM:
  assumes "at_most Q k m" "\<And>x. at_most Q n (f x)"
  shows "at_most Q (k + n) (bindM m f)"
  unfolding at_most_def
proof (intro allI impI)
  fix s r s'
  assume b: "bindM m f s = (r, s')"
  obtain r1 s1 where m: "m s = (r1, s1)" by (cases "m s")
  obtain evs where evs: "trace s1 = trace s @ evs" "length (filter Q evs) \<le> k"
    using assms(1) m unfolding at_most_def by blast
  show "\<exists>evs. trace s' = trace s @ evs \<and> length (filter Q evs) \<le> k + n"
  proof (cases r1)
    case (Inl e)
    then show ?thesis using b m evs by (auto simp: bindM_def)
  next
    case (Inr x)
    then have "f x s1 = (r, s')" using b m by (auto simp: bindM_def)
    then obtain evs' where "trace s' = trace s1 @ evs'" "length (filter Q evs') \<le> n"
      using assms(2) unfolding at_most_def by blast
    then show ?thesis using evs by (intro exI [of _ "evs @ evs'"]) auto
  qed
qed

lemma at_most_catchM:
  assumes "at_most Q k m" "\<And>e. at_most Q n (h e)"
  shows "at_most Q (k + n) (catchM m h)"
  unfolding at_most_def
proof (intro allI impI)
  fix s r s'
  assume b: "catchM m h s = (r, s')"
  obtain r1 s1 where m: "m s = (r1, s1)" by (cases "m s")
  obtain evs where evs: "trace s1 = trace s @ evs" "length (filter Q evs) \<le> k"
    using assms(1) m unfolding at_most_def by blast
  show "\<exists>evs. trace s' = trace s @ evs \<and> length (filter Q evs) \<le> k + n"
  proof (cases r1)
    case (Inr x)
    then show ?thesis using b m evs by (auto simp: catchM_def)
  next
    case (Inl e)
    then have "h e s1 = (r, s')" using b m by (auto simp: catchM_def)
    then obtain evs' where "trace s' = trace s1 @ evs'" "length (filter Q evs') \<le> n"
      using assms(2) unfolding at_most_def by blast
    then show ?thesis using evs by (intro exI [of _ "evs @ evs'"]) auto
  qed
qed

lemma at_most_mono: "at_most Q k p \<Longrightarrow> k \<le> n \<Longrightarrow> at_most Q n p"
  unfolding at_most_def by (meson order_trans)

lemma emits_at_most: "emits (\<lambda>e. \<not> Q e) p \<Longrightarrow> at_most Q 0 p"
  unfolding emits_def at_most_def by (metis filter_False list.size(3) order_refl)

lemma at_most_callM: "at_most Q 1 (callM f name args)"
  by (auto simp: at_most_def callM_def split: prod.splits)

section \<open>Bounded retry\<close>

text \<open>A loop that makes an attempt, and on an error it may retry pauses and goes round again, up
  to \<open>limit\<close> attempts; then it gives up. \<open>events\<close> is what an observer sees: \<open>attempt_ev\<close> for each
  attempt, \<open>pause_ev n\<close> for the pause after attempt \<open>n\<close>.\<close>

locale bounded_retry =
  fixes once :: "'s \<Rightarrow> ('e + 'r) \<times> 's"
    and pause :: "nat \<Rightarrow> 's \<Rightarrow> 's"
    and again :: "'e \<Rightarrow> bool"
    and give_up :: "'e \<Rightarrow> 'r"
    and limit :: nat
    and run :: "nat \<Rightarrow> 's \<Rightarrow> 'r \<times> 's"
    and events :: "'s \<Rightarrow> 'ev list"
    and attempt_ev :: 'ev
    and pause_ev :: "nat \<Rightarrow> 'ev"
  assumes run_step: "1 \<le> n \<Longrightarrow> n \<le> limit \<Longrightarrow> run n s = (case once s of (Inr r, s') \<Rightarrow> (r, s')
      | (Inl e, s') \<Rightarrow> if again e \<and> n < limit then run (Suc n) (pause n s') else (give_up e, s'))"
    and events_once: "events (snd (once s)) = events s @ [attempt_ev]"
    and events_pause: "events (pause n s) = events s @ [pause_ev n]"
begin

text \<open>\<open>tries n s m o s'\<close>: starting with attempt \<open>n\<close> in state \<open>s\<close>, attempt \<open>m\<close> is the last one; its
  outcome is \<open>o\<close> and every earlier one was an error that may be retried.\<close>

inductive tries :: "nat \<Rightarrow> 's \<Rightarrow> nat \<Rightarrow> ('e + 'r) \<Rightarrow> 's \<Rightarrow> bool" where
  last: "once s = (out, s') \<Longrightarrow> tries n s n out s'"
| more: "once s = (Inl e, s1) \<Longrightarrow> again e \<Longrightarrow> n < limit \<Longrightarrow> tries (Suc n) (pause n s1) m out s' \<Longrightarrow>
    tries n s m out s'"

lemma tries_le: "tries n s m out s' \<Longrightarrow> n \<le> m"
  by (induction rule: tries.induct) auto

lemma run_tries:
  assumes "1 \<le> n" "n \<le> limit"
  obtains m out s' where "tries n s m out s'" "m \<le> limit"
    "run n s = ((case out of Inl e \<Rightarrow> give_up e | Inr r \<Rightarrow> r), s')"
    "\<And>e. out = Inl e \<Longrightarrow> again e \<Longrightarrow> m = limit"
  using assms
proof (induction "limit - n" arbitrary: n s thesis)
  case 0
  obtain out s1 where o: "once s = (out, s1)" by (cases "once s")
  show ?case
    using 0 o tries.last [OF o, of n]
    by (intro 0(2) [of n out s1]) (auto simp: run_step split: sum.splits)
next
  case (Suc k)
  obtain out s1 where o: "once s = (out, s1)" by (cases "once s")
  show ?case
  proof (cases "\<exists>e. out = Inl e \<and> again e \<and> n < limit")
    case True
    then obtain e where e: "out = Inl e" "again e" "n < limit" by blast
    obtain m out' s' where IH: "tries (Suc n) (pause n s1) m out' s'" "m \<le> limit"
      "run (Suc n) (pause n s1) = ((case out' of Inl e \<Rightarrow> give_up e | Inr r \<Rightarrow> r), s')"
      "\<And>e. out' = Inl e \<Longrightarrow> again e \<Longrightarrow> m = limit"
    proof (rule Suc.hyps(1) [of "Suc n" "pause n s1"])
      show "k = limit - Suc n" "1 \<le> Suc n" "Suc n \<le> limit" using Suc.hyps(2) e(3) by auto
    qed blast
    show ?thesis
      using IH o e Suc.prems(2,3) by (intro Suc.prems(1) [of m out' s']) (auto intro: tries.more simp: run_step)
  next
    case False
    show ?thesis
      using False o Suc.prems(2,3) Suc.hyps(2) tries.last [OF o, of n]
      by (intro Suc.prems(1) [of n out s1]) (auto simp: run_step split: sum.splits)
  qed
qed

text \<open>The trace of the loop: an attempt, then a pause before each further attempt.\<close>

definition schedule :: "nat \<Rightarrow> nat \<Rightarrow> 'ev list" where
  "schedule n m = attempt_ev # concat (map (\<lambda>k. [pause_ev k, attempt_ev]) [n..<m])"

lemma tries_events: "tries n s m out s' \<Longrightarrow> events s' = events s @ schedule n m"
proof (induction rule: tries.induct)
  case (last s out s' n)
  then show ?case using events_once [of s] by (simp add: schedule_def)
next
  case (more s e s1 n m out s')
  have "n < m" using tries_le [OF more(4)] by simp
  then show ?case
    using more.IH more.hyps(1) events_once [of s] events_pause [of n s1]
    by (simp add: schedule_def upt_conv_Cons)
qed

lemma tries_outcome: "tries n s m out s' \<Longrightarrow> \<exists>s1. once s1 = (out, s')"
  by (induction rule: tries.induct) auto

lemma run_schedule:
  assumes "1 \<le> limit"
  shows "\<exists>m out. 1 \<le> m \<and> m \<le> limit \<and> events (snd (run 1 s)) = events s @ schedule 1 m \<and>
    fst (run 1 s) = (case out of Inl e \<Rightarrow> give_up e | Inr r \<Rightarrow> r) \<and>
    (\<forall>e. out = Inl e \<longrightarrow> again e \<longrightarrow> m = limit) \<and>
    (\<exists>s1. once s1 = (out, snd (run 1 s)))"
proof -
  obtain m out s' where m: "tries 1 s m out s'" "m \<le> limit"
    "run 1 s = ((case out of Inl e \<Rightarrow> give_up e | Inr r \<Rightarrow> r), s')"
    "\<And>e. out = Inl e \<Longrightarrow> again e \<Longrightarrow> m = limit"
    using run_tries [of 1 s] assms by auto
  show ?thesis
    using m tries_le [OF m(1)] tries_events [OF m(1)] tries_outcome [OF m(1)]
    by (intro exI [of _ m] exI [of _ out]) auto
qed

lemma schedule_attempts: "length (filter ((=) attempt_ev) (schedule n m)) \<le> Suc (2 * (m - n))"
proof -
  have "length (schedule n m) = Suc (2 * (m - n))"
    by (simp add: schedule_def length_concat sum_list_triv comp_def)
  then show ?thesis by (metis length_filter_le)
qed

end

end
