(* ===== verification/Verifier.thy ===== *)
theory Verifier
  imports Certificate Env
begin

text \<open>
  \<open>verifier/index.js\<close>: \<open>verifyBundle\<close> and what it calls. The hash, \<open>new URL\<close> and \<open>fetch\<close> are
  parameters; the request timeout is one of the ways in which the fetch rejects. The proofs show
  that a verified result rests on the ledger's own message, that the mirror host is never taken
  from the bundle, and how often the mirror is asked.
\<close>

section \<open>Constants and small helpers\<close>

definition algorithm_name :: jsstr where
  "algorithm_name = js ''sha256-jcs-v1''"

definition envelope_type :: jsstr where
  "envelope_type = js ''printwright-license-commitment''"

definition mirrors :: "(jsstr \<times> jsstr) list" where
  "mirrors = [(js ''testnet'', js ''https://testnet.mirrornode.hedera.com''),
     (js ''mainnet'', js ''https://mainnet-public.mirrornode.hedera.com'')]"

definition sha256_prefixed :: "(bytes \<Rightarrow> bytes) \<Rightarrow> jsstr \<Rightarrow> jsstr" where
  "sha256_prefixed hash text = js ''sha256:'' @ hex_encode (hash (utf8_encode text))"

record url =
  url_href :: jsstr
  url_protocol :: jsstr
  url_hostname :: jsstr

datatype check = Verified | Failed | Unchecked | Pending | NotProven

record checks =
  bundle_integrity :: check
  certificate_schema :: check
  terms_integrity :: check
  hedera_anchoring :: check
  issuer_assertions :: check

record verify_result =
  vr_verified :: bool
  vr_cert_id :: jsval
  vr_commitment :: jsstr
  vr_checks :: checks
  vr_certificate_errors :: "jsstr list"
  vr_topic_id :: jsval
  vr_sequence_number :: jsval
  vr_consensus_timestamp :: jsval
  vr_mirror_url :: "jsstr option"

definition check_of :: "bool \<Rightarrow> check" where
  "check_of b = (if b then Verified else Failed)"

text \<open>\<open>plainObject(v) ? v : {}\<close>\<close>

fun object_entries :: "jsval \<Rightarrow> (jsstr \<times> jsval) list" where
  "object_entries (Obj kvs) = kvs"
| "object_entries _ = []"

section \<open>The mirror message\<close>

definition safe_url :: "(jsstr \<Rightarrow> url option) \<Rightarrow> jsstr \<Rightarrow> js_error + url" where
  "safe_url new_url s = (case new_url s of
     None \<Rightarrow> Inl (invalid_input (js ''mirror URL is invalid''))
   | Some u \<Rightarrow>
       let loopback = url_hostname u \<in> {js ''localhost'', js ''127.0.0.1'', js ''::1''} in
       if url_protocol u \<noteq> js ''https:'' \<and> \<not> (url_protocol u = js ''http:'' \<and> loopback)
       then Inl (invalid_input (js ''mirror URLs must use HTTPS''))
       else Inr u)"

definition mirror_message_url :: "(jsstr \<times> jsval) list \<Rightarrow> js_error + jsstr" where
  "mirror_message_url hedera =
     bindE (string_of (coalesce (pget hedera (js ''network'')) (Str (js ''testnet'')))) (\<lambda>network.
     case map_of mirrors network of
       None \<Rightarrow> Inl (invalid_input (js ''no public mirror for network \"'' @ network @
         js ''\" - only '' @ intersperse (js '' and '') (map fst mirrors) @ js '' can be verified''))
     | Some mirror \<Rightarrow>
         bindE (string_of (pget hedera (js ''topic_id''))) (\<lambda>topic.
         if \<not> re_test re_entity topic
         then Inl (invalid_input (js ''topic_id must be a Hedera entity id''))
         else if \<not> positive_integer (pget hedera (js ''sequence_number''))
         then Inl (invalid_input (js ''sequence_number must be a positive integer''))
         else bindE (string_of (pget hedera (js ''sequence_number''))) (\<lambda>seq.
           Inr (mirror @ js ''/api/v1/topics/'' @ topic @ js ''/messages/'' @ seq))))"

definition decode_message :: "jsval \<Rightarrow> (jsstr \<times> jsval) list option" where
  "decode_message encoded = (case encoded of
     Str s \<Rightarrow>
       if \<not> re_test re_base64 s then None
       else (case b64_decode s of
           None \<Rightarrow> None
         | Some bs \<Rightarrow>
             if b64_encode bs \<noteq> s then None
             else (case json_parse (utf8_lossy bs) of Some (Obj kvs) \<Rightarrow> Some kvs | _ \<Rightarrow> None))
   | _ \<Rightarrow> None)"

section \<open>Fetching\<close>

definition mirror_attempts :: nat where
  "mirror_attempts = 4"

definition mirror_retry_delay_ms :: nat where
  "mirror_retry_delay_ms = 250"

definition mirror_unavailable :: "jsstr \<Rightarrow> bool \<Rightarrow> js_error" where
  "mirror_unavailable m retryable = VerificationError m (js ''mirror_unavailable'') (Some retryable)"

definition invalid_mirror_response :: "jsstr \<Rightarrow> js_error" where
  "invalid_mirror_response m = VerificationError m (js ''invalid_mirror_response'') None"

definition read_mirror_response :: "http_response \<Rightarrow> js_error + jsval" where
  "read_mirror_response response =
     (if \<not> res_ok response
      then Inl (mirror_unavailable (js ''mirror returned HTTP '' @ dec_str (res_status response))
                  (res_status response = 429 \<or> 500 \<le> res_status response))
      else bindE (res_text response) (\<lambda>text.
        if 1048576 < length text then Inl (invalid_mirror_response (js ''mirror response is too large''))
        else ofOption (invalid_mirror_response (js ''mirror returned invalid JSON'')) (json_parse text)))"

definition fetch_json_once :: "'w fetcher \<Rightarrow> url \<Rightarrow> ('w, jsval) prog" where
  "fetch_json_once f u =
     bindM (catchM (fetchM f (get_request (url_href u)))
        (\<lambda>e. throwM (mirror_unavailable (js ''mirror request failed: '' @ error_message e) True)))
     (\<lambda>response. liftM (read_mirror_response response))"

fun retryable :: "js_error \<Rightarrow> bool" where
  "retryable (VerificationError m c (Some True)) = True"
| "retryable _ = False"

function (sequential) fetch_json_from :: "'w fetcher \<Rightarrow> url \<Rightarrow> nat \<Rightarrow> ('w, jsval) prog" where
  "fetch_json_from f u attempt s =
     (if mirror_attempts < attempt then (Inr Undef, s)
      else case fetch_json_once f u s of
          (Inr v, s') \<Rightarrow> (Inr v, s')
        | (Inl e, s') \<Rightarrow>
            if \<not> retryable e \<or> attempt = mirror_attempts then (Inl e, s')
            else fetch_json_from f u (attempt + 1) (note_event (Slept (mirror_retry_delay_ms * attempt)) s'))"
  by pat_completeness auto
termination
  by (relation "measure (\<lambda>(f, u, attempt, s). 5 - attempt)") (auto simp: mirror_attempts_def)

declare fetch_json_from.simps [simp del]

definition fetch_json :: "'w fetcher option \<Rightarrow> url \<Rightarrow> ('w, jsval) prog" where
  "fetch_json fo u = (case fo of
     None \<Rightarrow> throwM (invalid_input (js ''a fetch implementation is required''))
   | Some f \<Rightarrow> fetch_json_from f u 1)"

definition fetch_mirror_message ::
  "(jsstr \<Rightarrow> url option) \<Rightarrow> 'w fetcher option \<Rightarrow> jsstr \<Rightarrow> ('w, (jsstr \<times> jsval) list) prog" where
  "fetch_mirror_message new_url fo s =
     bindM (liftM (safe_url new_url s)) (\<lambda>u.
     bindM (fetch_json fo u) (\<lambda>envelope. liftM (case envelope of
         Obj kvs \<Rightarrow> Inr kvs
       | _ \<Rightarrow> Inl (invalid_mirror_response (js ''mirror message must be a JSON object'')))))"

section \<open>The verdict\<close>

text \<open>The terms in the bundle, if it carries their text, are what the certificate commits to.\<close>

definition terms_check :: "(bytes \<Rightarrow> bytes) \<Rightarrow> jsval \<Rightarrow> (jsstr \<times> jsval) list \<Rightarrow> check" where
  "terms_check hash terms certificate = (case terms of
     Obj t \<Rightarrow> (case pget t (js ''text'') of
         Str x \<Rightarrow> check_of (strict_eq (Str (sha256_prefixed hash x)) (pget t (js ''hash'')) \<and>
                    strict_eq (pget t (js ''hash'')) (pget certificate (js ''terms_hash'')))
       | _ \<Rightarrow> Unchecked)
   | _ \<Rightarrow> Unchecked)"

text \<open>Step 4: the check, the consensus timestamp and the mirror URL.\<close>

definition anchor_check ::
  "(jsstr \<Rightarrow> url option) \<Rightarrow> 'w fetcher option \<Rightarrow> jsval \<Rightarrow> (jsstr \<times> jsval) list \<Rightarrow> jsstr \<Rightarrow>
     ('w, check \<times> jsval \<times> jsstr option) prog" where
  "anchor_check new_url fo expected hedera recomputed =
     (if pget hedera (js ''status'') = Str (js ''minting'') \<or> \<not> truthy (pget hedera (js ''topic_id''))
      then retM (Pending, Null, None)
      else bindM (liftM (if truthy expected then string_of (pget hedera (js ''topic_id'')) else Inr [])) (\<lambda>topic.
        if truthy expected \<and> \<not> strict_eq (Str topic) expected then retM (Failed, Null, None)
        else bindM (liftM (mirror_message_url hedera)) (\<lambda>mirror_url.
          bindM (fetch_mirror_message new_url fo mirror_url) (\<lambda>envelope.
            case decode_message (pget envelope (js ''message'')) of
              None \<Rightarrow> retM (Failed, Null, Some mirror_url)
            | Some onchain \<Rightarrow>
                if \<not> strict_eq (pget onchain (js ''type'')) (Str envelope_type)
                then retM (Failed, Null, Some mirror_url)
                else retM (check_of (strict_eq (pget onchain (js ''commitment'')) (Str recomputed)),
                       coalesce (pget envelope (js ''consensus_timestamp'')) Null, Some mirror_url)))))"

definition build_result ::
  "(bytes \<Rightarrow> bytes) \<Rightarrow> (jsstr \<times> jsval) list \<Rightarrow> (jsstr \<times> jsval) list \<Rightarrow> jsstr \<Rightarrow> jsstr list \<Rightarrow>
     check \<times> jsval \<times> jsstr option \<Rightarrow> verify_result" where
  "build_result hash b c recomputed errors anchor =
     (let integrity = check_of (strict_eq (Str recomputed) (pget b (js ''commitment'')));
          schema = check_of (errors = []);
          terms = terms_check hash (pget b (js ''terms'')) c;
          hedera = object_entries (pget b (js ''hedera''));
          (anchoring, timestamp, mirror_url) = anchor
      in \<lparr>vr_verified = (integrity = Verified \<and> schema = Verified \<and> anchoring = Verified \<and> terms \<noteq> Failed),
          vr_cert_id = pget c (js ''cert_id''),
          vr_commitment = recomputed,
          vr_checks = \<lparr>bundle_integrity = integrity, certificate_schema = schema,
            terms_integrity = terms, hedera_anchoring = anchoring, issuer_assertions = NotProven\<rparr>,
          vr_certificate_errors = errors,
          vr_topic_id = coalesce (pget hedera (js ''topic_id'')) Null,
          vr_sequence_number = coalesce (pget hedera (js ''sequence_number'')) Null,
          vr_consensus_timestamp = timestamp,
          vr_mirror_url = mirror_url\<rparr>)"

definition verify_bundle ::
  "(bytes \<Rightarrow> bytes) \<Rightarrow> (jsstr \<Rightarrow> url option) \<Rightarrow> 'w fetcher option \<Rightarrow> jsval \<Rightarrow> jsval \<Rightarrow> ('w, verify_result) prog" where
  "verify_bundle hash new_url fo expected bundle = (case bundle of
     Obj b \<Rightarrow>
       if \<not> strict_eq (pget b (js ''algorithm'')) (Str algorithm_name)
       then liftM (bindE (string_of (pget b (js ''algorithm''))) (\<lambda>a.
              Inl (invalid_input (js ''unsupported algorithm: '' @ a))))
       else (case (pget b (js ''certificate''), pget b (js ''blinding_nonce'')) of
         (Obj c, Str nonce) \<Rightarrow>
           bindM (liftM (compute_commitment hash (Obj c) (Str nonce))) (\<lambda>recomputed.
           bindM (liftM (validate_certificate (Obj c))) (\<lambda>errors.
           bindM (anchor_check new_url fo expected (object_entries (pget b (js ''hedera''))) recomputed) (\<lambda>anchor.
             retM (build_result hash b c recomputed errors anchor))))
       | _ \<Rightarrow> throwM (invalid_input (js ''bundle must carry a certificate and blinding_nonce'')))
   | _ \<Rightarrow> throwM (invalid_input (js ''proof bundle must be a JSON object'')))"

section \<open>Bounded retry\<close>

lemma fetch_json_once_run: "fetch_json_once f u s =
    (case fetchM f (get_request (url_href u)) s of
       (Inl e, s') \<Rightarrow> (Inl (mirror_unavailable (js ''mirror request failed: '' @ error_message e) True), s')
     | (Inr response, s') \<Rightarrow> (read_mirror_response response, s'))"
  by (auto simp: fetch_json_once_def run_simps split: prod.splits sum.splits)

lemma trace_fetch_json_once:
  "trace (snd (fetch_json_once f u s)) = trace s @ [Fetched (get_request (url_href u))]"
  by (auto simp: fetch_json_once_run fetchM_def split: prod.splits sum.splits)

interpretation mirror_retry: bounded_retry "settle (fetch_json_once f u)"
    "\<lambda>n. note_event (Slept (mirror_retry_delay_ms * n))" retryable Inl mirror_attempts
    "fetch_json_from f u" trace "Fetched (get_request (url_href u))"
    "\<lambda>n. Slept (mirror_retry_delay_ms * n)"
  for f u
proof
  show "fetch_json_from f u n s =
      (case settle (fetch_json_once f u) s of
         (Inl e, s') \<Rightarrow> if retryable e \<and> n < mirror_attempts
           then fetch_json_from f u (Suc n) (note_event (Slept (mirror_retry_delay_ms * n)) s') else (Inl e, s')
       | (Inr r, s') \<Rightarrow> (r, s'))" if "1 \<le> n" "n \<le> mirror_attempts" for n s
    using that fetch_json_from.simps [of f u n s]
    by (auto simp: settle_def split: prod.splits sum.splits)
  show "trace (snd (settle (fetch_json_once f u) s)) = trace s @ [Fetched (get_request (url_href u))]" for s
    by (simp add: trace_fetch_json_once)
qed simp

definition mirror_events :: "url \<Rightarrow> nat \<Rightarrow> event list" where
  "mirror_events u m = Fetched (get_request (url_href u)) #
     concat (map (\<lambda>k. [Slept (mirror_retry_delay_ms * k), Fetched (get_request (url_href u))]) [1..<m])"

lemma fetch_json_runE:
  assumes "fetch_json (Some f) u s = (r, s')"
  obtains m s1 where "1 \<le> m" "m \<le> mirror_attempts" "trace s' = trace s @ mirror_events u m"
    "fetch_json_once f u s1 = (r, s')" "\<forall>e. r = Inl e \<longrightarrow> retryable e \<longrightarrow> m = mirror_attempts"
proof -
  have "1 \<le> mirror_attempts" by (simp add: mirror_attempts_def)
  then obtain m out where m: "1 \<le> m" "m \<le> mirror_attempts"
    "trace (snd (fetch_json_from f u 1 s)) = trace s @ mirror_retry.schedule u 1 m"
    "fst (fetch_json_from f u 1 s) = (case out of Inl e \<Rightarrow> Inl e | Inr r \<Rightarrow> r)"
    "\<And>e. out = Inl e \<Longrightarrow> retryable e \<Longrightarrow> m = mirror_attempts"
    "\<exists>s1. settle (fetch_json_once f u) s1 = (out, snd (fetch_json_from f u 1 s))"
    using mirror_retry.run_schedule [of f u s] by blast
  have r: "fetch_json_from f u 1 s = (r, s')" using assms by (simp add: fetch_json_def)
  obtain s1 where s1: "map_sum (\<lambda>e. e) Inr (fst (fetch_json_once f u s1)) = out" "snd (fetch_json_once f u s1) = s'"
    using m(6) r by (auto simp: settle_eq)
  obtain r1 where "fetch_json_once f u s1 = (r1, s')" "map_sum (\<lambda>e. e) Inr r1 = out"
    using s1 by (cases "fetch_json_once f u s1") auto
  with m r show thesis
    by (intro that [of m s1])
      (auto simp: mirror_events_def mirror_retry.schedule_def map_sum_def split: sum.splits)
qed

text \<open>However the mirror answers, \<open>fetchJson\<close> asks it between one and four times, always for the
  same URL, and waits 250, 500 and 750 ms before the second, third and fourth request; it only
  ends with a retryable error after the fourth.\<close>

theorem mirror_requests_bounded:
  assumes "fetch_json (Some f) u s = (r, s')"
  shows "\<exists>m. 1 \<le> m \<and> m \<le> 4 \<and> trace s' = trace s @ mirror_events u m \<and>
    (\<forall>e. r = Inl e \<longrightarrow> retryable e \<longrightarrow> m = 4)"
proof -
  obtain m s1 where "1 \<le> m" "m \<le> mirror_attempts" "trace s' = trace s @ mirror_events u m"
    "fetch_json_once f u s1 = (r, s')" "\<forall>e. r = Inl e \<longrightarrow> retryable e \<longrightarrow> m = mirror_attempts"
    by (rule fetch_json_runE [OF assms])
  then show ?thesis unfolding mirror_attempts_def by (intro exI [of _ m]) simp
qed

section \<open>The mirror URL\<close>

lemma mirror_message_urlE:
  assumes "mirror_message_url hedera = Inr u"
  obtains mirror topic n where "mirror \<in> snd ` set mirrors" "to_str (pget hedera (js ''topic_id'')) = Some topic"
    "re_test re_entity topic" "pget hedera (js ''sequence_number'') = jnum n" "0 < n"
    "u = mirror @ js ''/api/v1/topics/'' @ topic @ js ''/messages/'' @ dec_str n"
proof -
  obtain network mirror topic where m: "map_of mirrors network = Some mirror"
    "to_str (pget hedera (js ''topic_id'')) = Some topic" "re_test re_entity topic"
    "positive_integer (pget hedera (js ''sequence_number''))"
    "u = mirror @ js ''/api/v1/topics/'' @ topic @ js ''/messages/'' @
       the (to_str (pget hedera (js ''sequence_number'')))"
    using assms by (auto simp: mirror_message_url_def string_of_def split: option.splits if_splits)
  obtain n where n: "pget hedera (js ''sequence_number'') = jnum n" "0 < n" "n < 2 ^ 53"
    using m(4) by (rule positive_integerE)
  have "mirror \<in> snd ` set mirrors"
    using map_of_SomeD [OF m(1)] by force
  then show thesis
    using that [of mirror topic n] m n by simp
qed

lemma mirror_message_urlI:
  assumes "to_str (coalesce (pget hedera (js ''network'')) (Str (js ''testnet''))) = Some network"
    "map_of mirrors network = Some mirror" "pget hedera (js ''topic_id'') = Str topic"
    "re_test re_entity topic" "pget hedera (js ''sequence_number'') = jnum n" "0 < n" "n < 2 ^ 53"
  shows "mirror_message_url hedera = Inr (mirror @ js ''/api/v1/topics/'' @ topic @ js ''/messages/'' @ dec_str n)"
  using assms positive_integer_jnum [of n] num_str_nat [of n]
  by (simp add: mirror_message_url_def string_of_def del: positive_integer.simps positive_integer_jnum)

lemma in_mirrors: "mirror \<in> snd ` set mirrors \<longleftrightarrow>
    mirror \<in> {js ''https://testnet.mirrornode.hedera.com'', js ''https://mainnet-public.mirrornode.hedera.com''}"
  by (simp add: mirrors_def)

section \<open>The anchoring step\<close>

lemma fetch_mirror_messageE:
  assumes "fetch_mirror_message new_url (Some f) mu s = (Inr envelope, s')"
  obtains u w1 response body where "safe_url new_url mu = Inr u"
    "f (get_request (url_href u)) w1 = (Inr response, net s')"
    "res_ok response" "res_text response = Inr body" "json_parse body = Some (Obj envelope)"
    "\<exists>m \<le> 4. trace s' = trace s @ mirror_events u m"
proof -
  obtain u where u: "safe_url new_url mu = Inr u" "fetch_json (Some f) u s = (Inr (Obj envelope), s')"
    using assms by (auto simp: fetch_mirror_message_def run_simps split: sum.splits prod.splits jsval.splits)
  obtain m s1 where m: "m \<le> mirror_attempts" "trace s' = trace s @ mirror_events u m"
    "fetch_json_once f u s1 = (Inr (Obj envelope), s')"
    by (rule fetch_json_runE [OF u(2)])
  obtain response w1 where r: "f (get_request (url_href u)) w1 = (Inr response, net s')"
    "read_mirror_response response = Inr (Obj envelope)"
    using m(3) by (auto simp: fetch_json_once_run fetchM_def split: prod.splits sum.splits)
  then obtain body where b: "res_ok response" "res_text response = Inr body" "json_parse body = Some (Obj envelope)"
    by (auto simp: read_mirror_response_def split: if_splits)
  have "\<exists>m \<le> 4. trace s' = trace s @ mirror_events u m"
    using m(1,2) by (auto simp: mirror_attempts_def)
  then show thesis by (rule that [OF u(1) r(1) b])
qed

lemma check_of_Verified [simp]: "check_of b = Verified \<longleftrightarrow> b" "check_of b = Failed \<longleftrightarrow> \<not> b"
  by (simp_all add: check_of_def)

lemma anchor_verifiedE:
  assumes "anchor_check new_url (Some f) expected hedera h s = (Inr (Verified, ts, mu), s')"
  obtains u w1 response body envelope onchain m url where
    "pget hedera (js ''status'') \<noteq> Str (js ''minting'')"
    "truthy expected \<longrightarrow> (\<exists>t. expected = Str t \<and> to_str (pget hedera (js ''topic_id'')) = Some t)"
    "mirror_message_url hedera = Inr url" "mu = Some url" "safe_url new_url url = Inr u"
    "f (get_request (url_href u)) w1 = (Inr response, net s')"
    "res_ok response" "res_text response = Inr body" "json_parse body = Some (Obj envelope)"
    "decode_message (pget envelope (js ''message'')) = Some onchain"
    "pget onchain (js ''type'') = Str envelope_type" "pget onchain (js ''commitment'') = Str h"
    "ts = coalesce (pget envelope (js ''consensus_timestamp'')) Null"
    "m \<le> 4" "trace s' = trace s @ mirror_events u m"
proof -
  obtain url envelope onchain where e: "pget hedera (js ''status'') \<noteq> Str (js ''minting'')"
    "truthy expected \<longrightarrow> (\<exists>t. expected = Str t \<and> to_str (pget hedera (js ''topic_id'')) = Some t)"
    "mirror_message_url hedera = Inr url" "mu = Some url"
    "fetch_mirror_message new_url (Some f) url s = (Inr envelope, s')"
    "decode_message (pget envelope (js ''message'')) = Some onchain"
    "pget onchain (js ''type'') = Str envelope_type" "pget onchain (js ''commitment'') = Str h"
    "ts = coalesce (pget envelope (js ''consensus_timestamp'')) Null"
    using assms
    by (auto simp: anchor_check_def run_iffs string_of_def
        split: if_splits option.splits)
  obtain u w1 response body where m: "safe_url new_url url = Inr u"
    "f (get_request (url_href u)) w1 = (Inr response, net s')"
    "res_ok response" "res_text response = Inr body" "json_parse body = Some (Obj envelope)"
    "\<exists>m \<le> 4. trace s' = trace s @ mirror_events u m"
    by (rule fetch_mirror_messageE [OF e(5)])
  obtain k where k: "k \<le> 4" "trace s' = trace s @ mirror_events u k"
    using m(6) by blast
  show thesis
    by (rule that [OF e(1,2,3,4) m(1-5) e(6-9) k])
qed

section \<open>Soundness\<close>

definition ledger_message :: "'w fetcher \<Rightarrow> url \<Rightarrow> 'w \<Rightarrow> 'w \<Rightarrow> (jsstr \<times> jsval) list \<Rightarrow> bool" where
  "ledger_message f u w w' envelope = (\<exists>response body. f (get_request (url_href u)) w = (Inr response, w') \<and>
     res_ok response \<and> res_text response = Inr body \<and> json_parse body = Some (Obj envelope))"

lemma verify_bundleE:
  assumes "verify_bundle hash new_url fo expected bundle s = (Inr r, s')"
  obtains b c nonce h errors anchor where
    "bundle = Obj b" "pget b (js ''algorithm'') = Str algorithm_name"
    "pget b (js ''certificate'') = Obj c" "pget b (js ''blinding_nonce'') = Str nonce"
    "compute_commitment hash (Obj c) (Str nonce) = Inr h" "validate_certificate (Obj c) = Inr errors"
    "anchor_check new_url fo expected (object_entries (pget b (js ''hedera''))) h s = (Inr anchor, s')"
    "r = build_result hash b c h errors anchor"
  using assms
  by (auto simp: verify_bundle_def run_iffs split: jsval.splits if_splits)

lemma build_result_sel [simp]:
  "vr_commitment (build_result hash b c h errors anchor) = h"
  "vr_verified (build_result hash b c h errors anchor) \<longleftrightarrow>
     pget b (js ''commitment'') = Str h \<and> errors = [] \<and> fst anchor = Verified \<and>
     terms_check hash (pget b (js ''terms'')) c \<noteq> Failed"
  "vr_mirror_url (build_result hash b c h errors anchor) = snd (snd anchor)"
  "hedera_anchoring (vr_checks (build_result hash b c h errors anchor)) = fst anchor"
  by (auto simp: build_result_def Let_def split: prod.splits)

lemma terms_check_ok:
  assumes "terms_check hash terms c \<noteq> Failed" "terms = Obj t" "pget t (js ''text'') = Str x"
  shows "pget t (js ''hash'') = Str (sha256_prefixed hash x) \<and> pget c (js ''terms_hash'') = Str (sha256_prefixed hash x)"
  using assms by (auto simp: terms_check_def)

text \<open>C2. A verified result rests on the ledger: the bundle carries a certificate with a clean
  schema and a hex nonce, the commitment in the bundle is the hash of the domain, the nonce and the
  canonical certificate, the terms text (if present) hashes to the certificate's \<open>terms_hash\<close>, and
  the last answer of the mirror, a 2xx response for the URL derived from topic and sequence number,
  is an envelope of the right type that carries exactly this commitment; a pinned topic is the one
  of the bundle.\<close>

theorem verify_bundle_sound:
  assumes "verify_bundle hash new_url (Some f) expected bundle s = (Inr r, s')" "vr_verified r"
  shows "\<exists>b c nonce ct url u w envelope onchain.
    bundle = Obj b \<and> pget b (js ''certificate'') = Obj c \<and> pget b (js ''blinding_nonce'') = Str nonce \<and>
    hex_pairs nonce \<and> canonicalize (Obj c) = Some ct \<and>
    vr_commitment r = commitment_hash hash (hex_decode nonce) ct \<and>
    pget b (js ''commitment'') = Str (vr_commitment r) \<and> schema_ok buyer_hint_ok c \<and>
    (\<forall>t x. pget b (js ''terms'') = Obj t \<longrightarrow> pget t (js ''text'') = Str x \<longrightarrow>
       pget c (js ''terms_hash'') = Str (sha256_prefixed hash x)) \<and>
    mirror_message_url (object_entries (pget b (js ''hedera''))) = Inr url \<and> new_url url = Some u \<and>
    ledger_message f u w (net s') envelope \<and>
    decode_message (pget envelope (js ''message'')) = Some onchain \<and>
    pget onchain (js ''type'') = Str envelope_type \<and> pget onchain (js ''commitment'') = Str (vr_commitment r) \<and>
    (truthy expected \<longrightarrow> (\<exists>t. expected = Str t \<and>
       to_str (pget (object_entries (pget b (js ''hedera''))) (js ''topic_id'')) = Some t))"
proof -
  obtain b c nonce h errors anchor where b: "bundle = Obj b" "pget b (js ''algorithm'') = Str algorithm_name"
      "pget b (js ''certificate'') = Obj c" "pget b (js ''blinding_nonce'') = Str nonce"
    and h: "compute_commitment hash (Obj c) (Str nonce) = Inr h" and e: "validate_certificate (Obj c) = Inr errors"
    and a: "anchor_check new_url (Some f) expected (object_entries (pget b (js ''hedera''))) h s = (Inr anchor, s')"
    and r: "r = build_result hash b c h errors anchor"
    by (rule verify_bundleE [OF assms(1)])
  have v: "pget b (js ''commitment'') = Str h" "errors = []" "fst anchor = Verified"
    "terms_check hash (pget b (js ''terms'')) c \<noteq> Failed"
    using assms(2) by (simp_all add: r)
  obtain n ct where t: "Str nonce = Str n" "hex_pairs n" "canonicalize (Obj c) = Some ct"
    "h = commitment_hash hash (hex_decode n) ct"
    by (rule commitment_needs_hex [OF h])
  have sc: "schema_ok buyer_hint_ok c"
    using e v(2) by (simp add: validate_certificate_def validate_clean_iff)
  obtain ts mu where a': "anchor_check new_url (Some f) expected (object_entries (pget b (js ''hedera''))) h s =
      (Inr (Verified, ts, mu), s')"
    using a v(3) by (cases anchor) auto
  show ?thesis
  proof (rule anchor_verifiedE [OF a'], goal_cases)
    case (1 u w response body envelope onchain m url)
    then have u: "new_url url = Some u"
      by (auto simp: safe_url_def Let_def split: option.splits if_splits)
    have l: "ledger_message f u w (net s') envelope"
      using 1(6-9) by (auto simp: ledger_message_def)
    have tm: "\<forall>t x. pget b (js ''terms'') = Obj t \<longrightarrow> pget t (js ''text'') = Str x \<longrightarrow>
        pget c (js ''terms_hash'') = Str (sha256_prefixed hash x)"
      using terms_check_ok [OF v(4)] by blast
    have n: "nonce = n" using t(1) by simp
    show ?thesis
      unfolding r build_result_sel
      by (rule exI [of _ b], rule exI [of _ c], rule exI [of _ nonce], rule exI [of _ ct], rule exI [of _ url],
          rule exI [of _ u], rule exI [of _ w], rule exI [of _ envelope], rule exI [of _ onchain], intro conjI)
        (fact b v(1) sc u l tm 1 t(2,3,4) [folded n])+
  qed
qed

section \<open>Completeness\<close>

lemma decode_message_encode:
  assumes "json_plain (Obj kvs)"
  shows "decode_message (Str (b64_encode (utf8_encode (emit (Obj kvs))))) = Some kvs"
  using json_parse_emit [OF assms] utf8_lossy_encode [OF well_formed_emit [OF assms]]
  by (simp add: decode_message_def b64_encode_re re_test_iff b64_decode_encode del: emit.simps)

lemma fetch_json_first:
  assumes "fetch_json_once f u s = (Inr v, s')"
  shows "fetch_json (Some f) u s = (Inr v, s')"
  unfolding fetch_json_def option.case by (subst fetch_json_from.simps) (simp add: assms mirror_attempts_def)

text \<open>The mirror serves, at the URL \<open>u\<close>, an envelope whose message is the JSON text of \<open>onchain\<close>.\<close>

definition mirror_serves :: "'w fetcher \<Rightarrow> url \<Rightarrow> 'w \<Rightarrow> (jsstr \<times> jsval) list \<Rightarrow> (jsstr \<times> jsval) list \<Rightarrow> bool" where
  "mirror_serves f u w envelope onchain = (\<exists>response w'.
     f (get_request (url_href u)) w = (Inr response, w') \<and> res_ok response \<and>
     res_text response = Inr (emit (Obj envelope)) \<and> length (emit (Obj envelope)) \<le> 1048576 \<and>
     json_plain (Obj envelope) \<and> json_plain (Obj onchain) \<and>
     pget envelope (js ''message'') = Str (b64_encode (utf8_encode (emit (Obj onchain)))))"

lemma fetch_mirror_message_serves:
  assumes "mirror_serves f u (net s) envelope onchain" "safe_url new_url mu = Inr u"
  obtains s' where "fetch_mirror_message new_url (Some f) mu s = (Inr envelope, s')"
    "trace s' = trace s @ [Fetched (get_request (url_href u))]"
proof -
  obtain response w' where f: "f (get_request (url_href u)) (net s) = (Inr response, w')" "res_ok response"
    "res_text response = Inr (emit (Obj envelope))" "length (emit (Obj envelope)) \<le> 1048576"
    "json_plain (Obj envelope)"
    using assms(1) by (auto simp: mirror_serves_def)
  let ?s = "s\<lparr>net := w', trace := trace s @ [Fetched (get_request (url_href u))]\<rparr>"
  have "read_mirror_response response = Inr (Obj envelope)"
    using f json_parse_emit [OF f(5)] by (simp add: read_mirror_response_def del: emit.simps)
  then have "fetch_json_once f u s = (Inr (Obj envelope), ?s)"
    using f(1) by (simp add: fetch_json_once_run fetchM_def)
  then have "fetch_mirror_message new_url (Some f) mu s = (Inr envelope, ?s)"
    using assms(2) fetch_json_first [of f u s] by (simp add: fetch_mirror_message_def run_simps)
  then show thesis by (rule that) simp
qed

lemma entity_not_empty: "\<not> re_test re_entity []"
  by (simp add: re_entity_def r_digits_def js_eval)

lemma mirror_topic_nonempty: "mirror_message_url hed = Inr mu \<Longrightarrow> pget hed (js ''topic_id'') \<noteq> Str []"
  by (auto elim!: mirror_message_urlE simp: entity_not_empty simp del: re_test.simps)

lemma verify_accepts:
  assumes "pget b (js ''algorithm'') = Str algorithm_name" "pget b (js ''certificate'') = Obj c"
    "pget b (js ''blinding_nonce'') = Str nonce" "compute_commitment hash (Obj c) (Str nonce) = Inr h"
    "pget b (js ''commitment'') = Str h" "schema_ok buyer_hint_ok c"
    "terms_check hash (pget b (js ''terms'')) c \<noteq> Failed"
    "pget b (js ''hedera'') = Obj hed" "pget hed (js ''status'') \<noteq> Str (js ''minting'')"
    "pget hed (js ''topic_id'') = Str topic" "expected = Null \<or> expected = Str topic"
    "mirror_message_url hed = Inr mu" "safe_url new_url mu = Inr u"
    "mirror_serves f u (net s) envelope onchain"
    "pget onchain (js ''type'') = Str envelope_type" "pget onchain (js ''commitment'') = Str h"
  shows "\<exists>r s'. verify_bundle hash new_url (Some f) expected (Obj b) s = (Inr r, s') \<and> vr_verified r \<and>
    vr_commitment r = h \<and> trace s' = trace s @ [Fetched (get_request (url_href u))]"
proof -
  obtain s' where s': "fetch_mirror_message new_url (Some f) mu s = (Inr envelope, s')"
    "trace s' = trace s @ [Fetched (get_request (url_href u))]"
    by (rule fetch_mirror_message_serves [OF assms(14,13)])
  have d: "decode_message (pget envelope (js ''message'')) = Some onchain"
    using assms(14) decode_message_encode [of onchain] by (auto simp: mirror_serves_def simp del: emit.simps)
  have "topic \<noteq> []"
    using mirror_topic_nonempty [OF assms(12)] assms(10) by auto
  then have "anchor_check new_url (Some f) expected hed h s =
      (Inr (Verified, coalesce (pget envelope (js ''consensus_timestamp'')) Null, Some mu), s')"
    using assms(9-12,15,16) s'(1) d
    by (auto simp: anchor_check_def run_simps string_of_def check_of_def)
  moreover have "validate_certificate (Obj c) = Inr []"
    using assms(6) by (simp add: validate_certificate_def validate_clean_iff)
  ultimately show ?thesis
    using assms s'(2) by (simp add: verify_bundle_def run_simps)
qed

text \<open>C3. Conversely a genuine bundle verifies: if the commitment is the one the verifier computes,
  the certificate is clean, the terms (if present) match, the bundle names a topic and a sequence
  number, the topic is the pinned one or none is pinned, and the mirror serves at the derived URL an
  envelope whose base64 message is the JSON text of the commitment record, then the verdict is
  \<open>verified\<close>, with a single request to the mirror.\<close>

theorem verify_bundle_complete:
  assumes "pget b (js ''algorithm'') = Str algorithm_name" "pget b (js ''certificate'') = Obj c"
    "pget b (js ''blinding_nonce'') = Str nonce" "compute_commitment hash (Obj c) (Str nonce) = Inr h"
    "pget b (js ''commitment'') = Str h" "schema_ok buyer_hint_ok c"
    "terms_check hash (pget b (js ''terms'')) c \<noteq> Failed"
    "pget b (js ''hedera'') = Obj hed" "pget hed (js ''status'') \<noteq> Str (js ''minting'')"
    "pget hed (js ''topic_id'') = Str topic" "expected = Null \<or> expected = Str topic"
    "mirror_message_url hed = Inr mu" "safe_url new_url mu = Inr u"
    "mirror_serves f u (net s) envelope onchain"
    "pget onchain (js ''type'') = Str envelope_type" "pget onchain (js ''commitment'') = Str h"
  shows "\<exists>r s'. verify_bundle hash new_url (Some f) expected (Obj b) s = (Inr r, s') \<and> vr_verified r \<and>
    vr_commitment r = h \<and> trace s' = trace s @ [Fetched (get_request (url_href u))]"
  by (rule verify_accepts [OF assms])

section \<open>A concrete bundle\<close>

definition sample_hash :: "bytes \<Rightarrow> bytes" where
  "sample_hash bs = [1]"

definition sample_hedera :: "(jsstr \<times> jsval) list" where
  "sample_hedera = [(js ''topic_id'', Str (js ''0.0.5'')), (js ''sequence_number'', jnum 2)]"

definition sample_bundle :: "(jsstr \<times> jsval) list" where
  "sample_bundle = [(js ''algorithm'', Str algorithm_name), (js ''certificate'', Obj sample_certificate),
     (js ''blinding_nonce'', Str (js ''00'')), (js ''commitment'', Str (js ''01'')),
     (js ''hedera'', Obj sample_hedera)]"

definition sample_onchain :: "(jsstr \<times> jsval) list" where
  "sample_onchain = [(js ''type'', Str envelope_type), (js ''commitment'', Str (js ''01''))]"

definition sample_envelope :: "(jsstr \<times> jsval) list" where
  "sample_envelope = [(js ''message'', Str (b64_encode (utf8_encode (emit (Obj sample_onchain)))))]"

definition sample_new_url :: "jsstr \<Rightarrow> url option" where
  "sample_new_url s = Some \<lparr>url_href = s, url_protocol = js ''https:'', url_hostname = js ''mirror''\<rparr>"

definition sample_fetch :: "unit fetcher" where
  "sample_fetch req w = (Inr \<lparr>res_status = 200, res_headers = [], res_url = req_url req,
     res_text = Inr (emit (Obj sample_envelope))\<rparr>, w)"

definition sample_session :: "unit session" where
  "sample_session = \<lparr>net = (), trace = []\<rparr>"

definition sample_url :: url where
  "sample_url = the (sample_new_url (js ''https://testnet.mirrornode.hedera.com/api/v1/topics/0.0.5/messages/2''))"

lemma sample_facts:
  "compute_commitment sample_hash (Obj sample_certificate) (Str (js ''00'')) = Inr (js ''01'')"
  "terms_check sample_hash (pget sample_bundle (js ''terms'')) sample_certificate \<noteq> Failed"
  "mirror_message_url sample_hedera = Inr (js ''https://testnet.mirrornode.hedera.com/api/v1/topics/0.0.5/messages/2'')"
  "safe_url sample_new_url (js ''https://testnet.mirrornode.hedera.com/api/v1/topics/0.0.5/messages/2'') = Inr sample_url"
  "mirror_serves sample_fetch sample_url (net sample_session) sample_envelope sample_onchain"
proof -
  have "hex_pairs (js ''00'')" by code_simp
  moreover have "hex_encode [1] = js ''01''" by code_simp
  ultimately show "compute_commitment sample_hash (Obj sample_certificate) (Str (js ''00'')) = Inr (js ''01'')"
    using verifier_canon.canon_sorted [of "Obj sample_certificate"] sample_plain
    by (simp add: compute_commitment_Str commitment_hash_def sample_hash_def del: canonicalize.simps)
  show "terms_check sample_hash (pget sample_bundle (js ''terms'')) sample_certificate \<noteq> Failed"
    by (simp add: terms_check_def sample_bundle_def)
  have "mirror_message_url sample_hedera = Inr (js ''https://testnet.mirrornode.hedera.com'' @
      js ''/api/v1/topics/'' @ js ''0.0.5'' @ js ''/messages/'' @ dec_str 2)"
  proof (rule mirror_message_urlI)
    show "re_test re_entity (js ''0.0.5'')" by code_simp
  qed (simp_all add: sample_hedera_def mirrors_def coalesce_def nullish_def)
  moreover have "js ''https://testnet.mirrornode.hedera.com'' @ js ''/api/v1/topics/'' @ js ''0.0.5'' @
      js ''/messages/'' @ dec_str 2 = js ''https://testnet.mirrornode.hedera.com/api/v1/topics/0.0.5/messages/2''"
    by code_simp
  ultimately show "mirror_message_url sample_hedera = Inr (js ''https://testnet.mirrornode.hedera.com/api/v1/topics/0.0.5/messages/2'')"
    by (simp only:)
  show "safe_url sample_new_url (js ''https://testnet.mirrornode.hedera.com/api/v1/topics/0.0.5/messages/2'') = Inr sample_url"
    by (simp add: safe_url_def sample_new_url_def sample_url_def)
  have "length (emit (Obj sample_onchain)) \<le> 1000"
    unfolding sample_onchain_def by (rule order_trans [OF length_emit_strings(2)]) (simp add: envelope_type_def)
  then have "length (utf8_encode (emit (Obj sample_onchain))) \<le> 4000"
    using length_utf8_encode_le [of "emit (Obj sample_onchain)"] by linarith
  then have "length (b64_encode (utf8_encode (emit (Obj sample_onchain)))) \<le> 8004"
    using length_b64_encode_le [of "utf8_encode (emit (Obj sample_onchain))"] by linarith
  then have "length (emit (Obj sample_envelope)) \<le> 1048576"
    unfolding sample_envelope_def by (intro order_trans [OF length_emit_strings(1)]) simp
  moreover have "json_plain (Obj sample_onchain)" "json_plain (Obj sample_envelope)"
    by (simp_all add: sample_onchain_def sample_envelope_def)
  moreover have "pget sample_envelope (js ''message'') = Str (b64_encode (utf8_encode (emit (Obj sample_onchain))))"
    by (simp add: sample_envelope_def)
  ultimately show "mirror_serves sample_fetch sample_url (net sample_session) sample_envelope sample_onchain"
    by (simp add: mirror_serves_def sample_fetch_def res_ok_def del: emit.simps)
qed

lemma sample_accepts:
  "\<exists>r s'. verify_bundle sample_hash sample_new_url (Some sample_fetch) Null (Obj sample_bundle) sample_session = (Inr r, s') \<and>
     vr_verified r \<and> vr_commitment r = js ''01'' \<and> trace s' = trace sample_session @ [Fetched (get_request (url_href sample_url))]"
  by (rule verify_accepts [OF _ _ _ sample_facts(1) _ sample_schema sample_facts(2) _ _ _ _ sample_facts(3,4,5)])
    (simp_all add: sample_bundle_def sample_hedera_def sample_onchain_def)

theorem verify_bundle_sound_witness:
  "\<exists>r s'. verify_bundle sample_hash sample_new_url (Some sample_fetch) Null (Obj sample_bundle) sample_session = (Inr r, s') \<and>
     pget sample_bundle (js ''commitment'') = Str (vr_commitment r)"
proof -
  obtain r s' where r: "verify_bundle sample_hash sample_new_url (Some sample_fetch) Null (Obj sample_bundle) sample_session = (Inr r, s')"
    "vr_verified r"
    using sample_accepts by blast
  have "pget sample_bundle (js ''commitment'') = Str (vr_commitment r)"
    using verify_bundle_sound [OF r] by blast
  with r(1) show ?thesis by blast
qed

theorem verify_bundle_complete_witness:
  "\<exists>r s'. verify_bundle sample_hash sample_new_url (Some sample_fetch) (Str (js ''0.0.5'')) (Obj sample_bundle) sample_session = (Inr r, s') \<and>
     vr_verified r \<and> vr_commitment r = js ''01'' \<and> trace s' = trace sample_session @ [Fetched (get_request (url_href sample_url))]"
  by (rule verify_bundle_complete [OF _ _ _ sample_facts(1) _ sample_schema sample_facts(2) _ _ _ _ sample_facts(3,4,5)])
    (simp_all add: sample_bundle_def sample_hedera_def sample_onchain_def)

theorem mirror_requests_bounded_witness:
  "\<exists>r s' m. fetch_json (Some sample_fetch) sample_url sample_session = (r, s') \<and> m \<le> 4 \<and>
     trace s' = trace sample_session @ mirror_events sample_url m"
proof -
  obtain r s' where r: "fetch_json (Some sample_fetch) sample_url sample_session = (r, s')"
    by (cases "fetch_json (Some sample_fetch) sample_url sample_session")
  show ?thesis using mirror_requests_bounded [OF r] r by blast
qed

section \<open>Which requests a bundle can cause\<close>

lemma anchor_check_trace:
  assumes "anchor_check new_url (Some f) expected hedera h s = (r, s')"
  shows "trace s' = trace s \<or> (\<exists>mu u m. mirror_message_url hedera = Inr mu \<and> safe_url new_url mu = Inr u \<and>
    m \<le> 4 \<and> trace s' = trace s @ mirror_events u m)"
proof -
  have fetch: "s1 = s \<or> (\<exists>u m. safe_url new_url mu = Inr u \<and> m \<le> 4 \<and> trace s1 = trace s @ mirror_events u m)"
    if "fetch_mirror_message new_url (Some f) mu s = (r1, s1)" for mu r1 s1
  proof (cases "safe_url new_url mu")
    case (Inr u)
    obtain r2 s2 where r2: "fetch_json (Some f) u s = (r2, s2)" by (cases "fetch_json (Some f) u s")
    obtain m s3 where m: "1 \<le> m" "m \<le> mirror_attempts" "trace s2 = trace s @ mirror_events u m"
      "fetch_json_once f u s3 = (r2, s2)" "\<forall>e. r2 = Inl e \<longrightarrow> retryable e \<longrightarrow> m = mirror_attempts"
      by (rule fetch_json_runE [OF r2])
    have "s1 = s2"
      using that Inr r2 by (auto simp: fetch_mirror_message_def run_simps split: sum.splits)
    then show ?thesis using Inr m(2,3) by (auto simp: mirror_attempts_def)
  qed (use that in \<open>auto simp: fetch_mirror_message_def run_simps\<close>)
  show ?thesis
  proof (cases "pget hedera (js ''status'') = Str (js ''minting'') \<or> \<not> truthy (pget hedera (js ''topic_id'')) \<or>
      (\<forall>mu. mirror_message_url hedera \<noteq> Inr mu)")
    case True
    then show ?thesis
      using assms by (auto simp: anchor_check_def run_simps split: sum.splits if_splits)
  next
    case False
    then obtain mu where mu: "mirror_message_url hedera = Inr mu" by blast
    obtain r1 s1 where r1: "fetch_mirror_message new_url (Some f) mu s = (r1, s1)"
      by (cases "fetch_mirror_message new_url (Some f) mu s")
    have "s' = s \<or> s' = s1"
      using assms False mu r1
      by (auto simp: anchor_check_def run_simps split: sum.splits if_splits option.splits)
    then show ?thesis using fetch [OF r1] mu by blast
  qed
qed

lemma verify_bundle_InlD:
  assumes "verify_bundle hash new_url fo expected bundle s = (Inl e, s')" "s' \<noteq> s"
  shows "\<exists>b h. bundle = Obj b \<and>
    anchor_check new_url fo expected (object_entries (pget b (js ''hedera''))) h s = (Inl e, s')"
proof (cases "bundle")
  case (Obj b)
  show ?thesis
  proof (cases "\<exists>c n. pget b (js ''algorithm'') = Str algorithm_name \<and>
      pget b (js ''certificate'') = Obj c \<and> pget b (js ''blinding_nonce'') = Str n")
    case True
    then obtain c n where "pget b (js ''algorithm'') = Str algorithm_name"
      "pget b (js ''certificate'') = Obj c" "pget b (js ''blinding_nonce'') = Str n"
      by blast
    with assms Obj show ?thesis by (auto simp: verify_bundle_def run_Inl_iffs run_Inr_iffs)
  next
    case False
    then have "s' = s"
      using assms(1) Obj
      by (cases "pget b (js ''certificate'')"; cases "pget b (js ''blinding_nonce'')")
        (auto simp: verify_bundle_def run_Inl_iffs split: if_splits)
    then show ?thesis using assms(2) by blast
  qed
qed (use assms in \<open>auto simp: verify_bundle_def run_Inl_iffs\<close>)

lemma verify_bundle_trace:
  assumes "verify_bundle hash new_url (Some f) expected bundle s = (r, s')"
  shows "trace s' = trace s \<or> (\<exists>b mu u m. bundle = Obj b \<and>
    mirror_message_url (object_entries (pget b (js ''hedera''))) = Inr mu \<and> safe_url new_url mu = Inr u \<and>
    m \<le> 4 \<and> trace s' = trace s @ mirror_events u m)"
proof -
  have "s' = s \<or> (\<exists>b h r1. bundle = Obj b \<and>
      anchor_check new_url (Some f) expected (object_entries (pget b (js ''hedera''))) h s = (r1, s'))"
  proof (cases r)
    case (Inr v)
    show ?thesis
      by (rule verify_bundleE [OF assms [unfolded Inr]]) blast
  next
    case (Inl e)
    then show ?thesis using assms verify_bundle_InlD by blast
  qed
  then show ?thesis
  proof (elim disjE exE conjE)
    fix b h r1
    assume b: "bundle = Obj b"
      and a: "anchor_check new_url (Some f) expected (object_entries (pget b (js ''hedera''))) h s = (r1, s')"
    show ?thesis using anchor_check_trace [OF a] b by (elim disjE exE conjE) auto
  qed simp
qed

text \<open>C4. Whatever a bundle contains and however the verification ends (also with an error), the
  only requests it can cause are at most four GETs of one URL: the message URL of a Hedera topic
  and a positive sequence number on one of the two well-known mirror hosts. The bundle never
  chooses the host or the shape of the path.\<close>

theorem bundle_cannot_choose_host:
  assumes "verify_bundle hash new_url (Some f) expected bundle s = (r, s')"
  shows "trace s' = trace s \<or> (\<exists>mirror topic n u m.
    mirror \<in> {js ''https://testnet.mirrornode.hedera.com'', js ''https://mainnet-public.mirrornode.hedera.com''} \<and>
    re_test re_entity topic \<and> 0 < n \<and>
    safe_url new_url (mirror @ js ''/api/v1/topics/'' @ topic @ js ''/messages/'' @ dec_str n) = Inr u \<and>
    m \<le> 4 \<and> trace s' = trace s @ mirror_events u m)"
proof (cases "trace s' = trace s")
  case False
  then obtain b mu u m where b: "mirror_message_url (object_entries (pget b (js ''hedera''))) = Inr mu"
    "safe_url new_url mu = Inr u" "m \<le> 4" "trace s' = trace s @ mirror_events u m"
    using verify_bundle_trace [OF assms] by blast
  obtain mirror topic n where "mirror \<in> snd ` set mirrors"
    "to_str (pget (object_entries (pget b (js ''hedera''))) (js ''topic_id'')) = Some topic"
    "re_test re_entity topic" "pget (object_entries (pget b (js ''hedera''))) (js ''sequence_number'') = jnum n" "0 < n"
    "mu = mirror @ js ''/api/v1/topics/'' @ topic @ js ''/messages/'' @ dec_str n"
    by (rule mirror_message_urlE [OF b(1)])
  with b(2-4) show ?thesis unfolding in_mirrors by blast
qed simp

theorem bundle_cannot_choose_host_witness:
  "\<exists>r s'. verify_bundle sample_hash sample_new_url (Some sample_fetch) Null (Obj sample_bundle) sample_session = (r, s') \<and>
     length (trace s') = 1 \<and> trace s' \<noteq> trace sample_session"
proof -
  obtain r s' where r: "verify_bundle sample_hash sample_new_url (Some sample_fetch) Null (Obj sample_bundle) sample_session = (Inr r, s')"
    "trace s' = trace sample_session @ [Fetched (get_request (url_href sample_url))]"
    using sample_accepts by blast
  show ?thesis using bundle_cannot_choose_host [OF r(1)] r by (auto simp: sample_session_def)
qed

text \<open>Without an anchor there is no verdict and no request: a bundle that is still minting or
  names no topic, and a bundle on a topic other than the pinned one, is never verified and the
  mirror is not asked.\<close>

theorem no_anchor_no_fetch:
  assumes "verify_bundle hash new_url fo expected (Obj b) s = (Inr r, s')"
    "object_entries (pget b (js ''hedera'')) = hed"
    "pget hed (js ''status'') = Str (js ''minting'') \<or> \<not> truthy (pget hed (js ''topic_id'')) \<or>
     (truthy expected \<and> (\<forall>t. to_str (pget hed (js ''topic_id'')) = Some t \<longrightarrow> expected \<noteq> Str t))"
  shows "\<not> vr_verified r \<and> trace s' = trace s \<and> vr_mirror_url r = None"
  using assms
  by (elim verify_bundleE)
    (auto simp: anchor_check_def run_iffs string_of_def split: if_splits option.splits)

theorem no_anchor_no_fetch_witness:
  "\<exists>r s'. verify_bundle sample_hash sample_new_url (Some sample_fetch) (Str (js ''0.0.6'')) (Obj sample_bundle) sample_session = (Inr r, s') \<and>
     \<not> vr_verified r \<and> trace s' = trace sample_session"
proof -
  have c: "pget sample_bundle (js ''algorithm'') = Str algorithm_name" "pget sample_bundle (js ''certificate'') = Obj sample_certificate"
    "pget sample_bundle (js ''blinding_nonce'') = Str (js ''00'')" "pget sample_bundle (js ''hedera'') = Obj sample_hedera"
    by (simp_all add: sample_bundle_def)
  have v: "validate_certificate (Obj sample_certificate) = Inr []"
    using sample_schema by (simp add: validate_certificate_def validate_clean_iff)
  have "anchor_check sample_new_url (Some sample_fetch) (Str (js ''0.0.6'')) sample_hedera (js ''01'') sample_session =
      (Inr (Failed, Null, None), sample_session)"
    by (simp add: anchor_check_def sample_hedera_def run_simps string_of_def)
  then obtain r where r: "verify_bundle sample_hash sample_new_url (Some sample_fetch) (Str (js ''0.0.6'')) (Obj sample_bundle) sample_session =
      (Inr r, sample_session)"
    using sample_facts(1) c v by (simp add: verify_bundle_def run_simps)
  show ?thesis
    using r no_anchor_no_fetch [OF r] c(4) by (auto simp: sample_hedera_def)
qed

section \<open>Binding\<close>



end
