(* ===== verification/Widget.thy ===== *)
theory Widget
  imports Verifier
begin

text \<open>
  \<open>public/printwright-verify-widget.js\<close>: the verification in the browser (\<open>widget_verify\<close> and what
  it calls) and the custom element, a state machine in which verifications started by attribute
  changes overlap. \<open>subtle\<close> is \<open>None\<close> where Web Crypto is missing. The theorems compare the
  widget with the verifier it is the twin of, and show that a stale verification never shows.
\<close>

section \<open>Verification\<close>

definition widget_canonicalize :: "jsval \<Rightarrow> jsstr option" where
  "widget_canonicalize v = canonicalize v"
  \<comment> \<open>line for line the function of the verifier\<close>

definition widget_sha256_prefixed :: "(bytes \<Rightarrow> bytes) \<Rightarrow> jsstr \<Rightarrow> jsstr" where
  "widget_sha256_prefixed hash s = js ''sha256:'' @ hex_encode (hash (utf8_encode s))"

definition widget_mirror_url :: "(jsstr \<times> jsval) list \<Rightarrow> jsval \<Rightarrow> js_error + jsstr" where
  "widget_mirror_url hedera network =
     bindE (string_of (or_else network (or_else (pget hedera (js ''network'')) (Str (js ''testnet''))))) (\<lambda>chosen.
     case map_of mirrors chosen of
       None \<Rightarrow> Inl (invalid_input (js ''network must be one of: '' @ intersperse (js '', '') (map fst mirrors)))
     | Some mirror \<Rightarrow>
         bindE (string_of (pget hedera (js ''topic_id''))) (\<lambda>topic.
         if \<not> re_test re_entity topic
         then Inl (invalid_input (js ''topic_id must be a Hedera entity id''))
         else if \<not> positive_integer (pget hedera (js ''sequence_number''))
         then Inl (invalid_input (js ''sequence_number must be a positive integer''))
         else bindE (string_of (pget hedera (js ''sequence_number''))) (\<lambda>seq.
           Inr (mirror @ js ''/api/v1/topics/'' @ topic @ js ''/messages/'' @ seq))))"

definition unavailable :: "jsstr \<Rightarrow> js_error" where
  "unavailable m = VerificationError m (js ''mirror_unavailable'') None"

definition invalid_response :: "jsstr \<Rightarrow> js_error" where
  "invalid_response m = VerificationError m (js ''invalid_response'') None"

definition widget_read_response :: "http_response \<Rightarrow> js_error + jsval" where
  "widget_read_response response =
     (if \<not> res_ok response
      then Inl (unavailable (js ''request returned HTTP '' @ dec_str (res_status response)))
      else bindE (res_text response) (\<lambda>body.
        if 1048576 < length body then Inl (invalid_response (js ''response is too large''))
        else ofOption (invalid_response (js ''response is not valid JSON'')) (json_parse body)))"

definition widget_fetch_json :: "'w fetcher option \<Rightarrow> jsstr \<Rightarrow> ('w, jsval) prog" where
  "widget_fetch_json fo u = (case fo of
     None \<Rightarrow> throwM (invalid_input (js ''a fetch implementation is required''))
   | Some f \<Rightarrow>
       bindM (catchM (fetchM f (get_request u))
          (\<lambda>e. throwM (unavailable (js ''request failed: '' @ error_message e))))
       (\<lambda>response. liftM (widget_read_response response)))"

definition decode_payload :: "jsval \<Rightarrow> (jsstr \<times> jsval) list option" where
  "decode_payload encoded = (case encoded of
     Str s \<Rightarrow>
       if \<not> re_test re_base64 s then None
       else (case b64_decode s of
           None \<Rightarrow> None
         | Some bs \<Rightarrow>
             if b64_encode bs \<noteq> s then None
             else (case Option.bind (utf8_fatal bs) json_parse of Some (Obj kvs) \<Rightarrow> Some kvs | _ \<Rightarrow> None))
   | _ \<Rightarrow> None)"

record widget_result = verify_result +
  wr_certificate :: jsval

definition widget_terms_check :: "(bytes \<Rightarrow> bytes) \<Rightarrow> jsval \<Rightarrow> (jsstr \<times> jsval) list \<Rightarrow> check" where
  "widget_terms_check hash terms certificate = (case terms of
     Obj t \<Rightarrow> (case pget t (js ''text'') of
         Str x \<Rightarrow> check_of (strict_eq (Str (widget_sha256_prefixed hash x)) (pget t (js ''hash'')) \<and>
                    strict_eq (pget t (js ''hash'')) (pget certificate (js ''terms_hash'')))
       | _ \<Rightarrow> Unchecked)
   | _ \<Rightarrow> Unchecked)"

text \<open>\<open>message && message.k\<close>\<close>

definition and_prop :: "jsval \<Rightarrow> jsstr \<Rightarrow> jsval" where
  "and_prop v k = (if truthy v then opt_prop v k else v)"

definition widget_anchor ::
  "'w fetcher option \<Rightarrow> jsval \<Rightarrow> jsval \<Rightarrow> (jsstr \<times> jsval) list \<Rightarrow> jsstr \<Rightarrow>
     ('w, check \<times> jsval \<times> jsstr option) prog" where
  "widget_anchor fo expected network hedera commitment =
     bindM (liftM (string_of (or_else (pget hedera (js ''topic_id'')) (Str [])))) (\<lambda>topic_id.
     if pget hedera (js ''status'') = Str (js ''minting'') \<or> \<not> truthy (pget hedera (js ''topic_id''))
     then retM (Pending, Null, None)
     else if truthy expected \<and> \<not> strict_eq (Str topic_id) expected then retM (Failed, Null, None)
     else bindM (liftM (widget_mirror_url hedera network)) (\<lambda>mirror_url.
       bindM (widget_fetch_json fo mirror_url) (\<lambda>message.
         case decode_payload (and_prop message (js ''message'')) of
           None \<Rightarrow> retM (Failed, Null, Some mirror_url)
         | Some onchain \<Rightarrow>
             if \<not> strict_eq (pget onchain (js ''type'')) (Str envelope_type)
             then retM (Failed, Null, Some mirror_url)
             else retM (check_of (strict_eq (pget onchain (js ''commitment'')) (Str commitment)),
                    or_else (and_prop message (js ''consensus_timestamp'')) Null, Some mirror_url))))"

definition widget_build_result ::
  "(bytes \<Rightarrow> bytes) \<Rightarrow> (jsstr \<times> jsval) list \<Rightarrow> (jsstr \<times> jsval) list \<Rightarrow> jsstr \<Rightarrow> jsstr list \<Rightarrow>
     check \<times> jsval \<times> jsstr option \<Rightarrow> widget_result" where
  "widget_build_result hash b c commitment errors anchor =
     (let integrity = check_of (strict_eq (Str commitment) (pget b (js ''commitment'')));
          schema = check_of (errors = []);
          terms = widget_terms_check hash (pget b (js ''terms'')) c;
          hedera = object_entries (pget b (js ''hedera''));
          (anchoring, timestamp, mirror_url) = anchor
      in \<lparr>vr_verified = (integrity = Verified \<and> schema = Verified \<and> anchoring = Verified \<and> terms \<noteq> Failed),
          vr_cert_id = pget c (js ''cert_id''),
          vr_commitment = commitment,
          vr_checks = \<lparr>bundle_integrity = integrity, certificate_schema = schema,
            terms_integrity = terms, hedera_anchoring = anchoring, issuer_assertions = NotProven\<rparr>,
          vr_certificate_errors = errors,
          vr_topic_id = or_else (pget hedera (js ''topic_id'')) Null,
          vr_sequence_number = or_else (pget hedera (js ''sequence_number'')) Null,
          vr_consensus_timestamp = timestamp,
          vr_mirror_url = mirror_url,
          wr_certificate = Obj c\<rparr>)"

definition widget_verify ::
  "(bytes \<Rightarrow> bytes) option \<Rightarrow> 'w fetcher option \<Rightarrow> jsval \<Rightarrow> jsval \<Rightarrow> jsval \<Rightarrow> ('w, widget_result) prog" where
  "widget_verify subtle fo expected network bundle = (case bundle of
     Obj b \<Rightarrow>
       if \<not> strict_eq (pget b (js ''algorithm'')) (Str algorithm_name)
       then liftM (bindE (string_of (pget b (js ''algorithm''))) (\<lambda>a.
              Inl (invalid_input (js ''unsupported algorithm: '' @ a))))
       else (case subtle of
         None \<Rightarrow> throwM (VerificationError (js ''Web Crypto is unavailable '' @ [8212] @ js '' serve this page over HTTPS'')
           (js ''crypto_unavailable'') None)
       | Some hash \<Rightarrow> (case pget b (js ''certificate'') of
           Obj c \<Rightarrow>
             bindM (liftM (widget_commitment hash (Obj c) (pget b (js ''blinding_nonce'')))) (\<lambda>commitment.
             bindM (liftM (widget_validate (Obj c))) (\<lambda>errors.
             bindM (widget_anchor fo expected network (object_entries (pget b (js ''hedera''))) commitment) (\<lambda>anchor.
               retM (widget_build_result hash b c commitment errors anchor))))
         | _ \<Rightarrow> throwM (invalid_input (js ''bundle must carry a certificate''))))
   | _ \<Rightarrow> throwM (invalid_input (js ''proof bundle must be a JSON object'')))"

section \<open>The twin of the verifier\<close>

lemma canonicalize_object: "\<exists>ct. canonicalize (Obj c) = Some ct"
  by simp

lemma widget_commitment_agrees:
  "widget_commitment hash (Obj c) (Str n) = compute_commitment hash (Obj c) (Str n)"
  using canonicalize_object [of c]
  by (auto simp: widget_commitment_def compute_commitment_Str joined_def simp del: canonicalize.simps)

lemma terms_check_agrees: "widget_terms_check hash t c = terms_check hash t c"
  unfolding widget_terms_check_def terms_check_def widget_sha256_prefixed_def sha256_prefixed_def ..

lemma decode_payload_encode:
  assumes "json_plain (Obj kvs)"
  shows "decode_payload (Str (b64_encode (utf8_encode (emit (Obj kvs))))) = Some kvs"
proof -
  have "hd (utf8_encode (emit (Obj kvs))) = 123"
    using object_bytes_emit [OF assms] by (auto simp: object_bytes_def simp del: emit.simps)
  then have "take 3 (utf8_encode (emit (Obj kvs))) \<noteq> [0xEF, 0xBB, 0xBF]"
    by (cases "utf8_encode (emit (Obj kvs))") (auto simp del: emit.simps)
  then have "utf8_fatal (utf8_encode (emit (Obj kvs))) = Some (emit (Obj kvs))"
    by (rule utf8_fatal_encode [OF well_formed_emit [OF assms]])
  then show ?thesis
    using json_parse_emit [OF assms]
    by (simp add: decode_payload_def b64_encode_re re_test_iff b64_decode_encode del: emit.simps)
qed

lemma widget_mirror_url_agrees:
  assumes "pget hedera (js ''network'') = Undef \<or> pget hedera (js ''network'') = Str n \<and> n \<noteq> []"
    "mirror_message_url hedera = Inr mu"
  shows "widget_mirror_url hedera Null = Inr mu"
proof -
  have eq: "or_else Null (or_else (pget hedera (js ''network'')) (Str (js ''testnet''))) =
      coalesce (pget hedera (js ''network'')) (Str (js ''testnet''))"
    using assms(1) by (auto simp: or_else_def coalesce_def nullish_def)
  show ?thesis
  proof (cases "string_of (coalesce (pget hedera (js ''network'')) (Str (js ''testnet'')))")
    case (Inr x)
    then show ?thesis
      using assms(2) unfolding widget_mirror_url_def mirror_message_url_def eq Inr bindE.simps
      by (cases "map_of mirrors x") simp_all
  qed (use assms(2) in \<open>simp add: mirror_message_url_def\<close>)
qed

text \<open>C6. The widget is the twin of the verifier: on a bundle whose certificate has a string
  \<open>buyer_hint\<close>, whose nonce is a string and which names its network by a non-empty string or not at
  all, and a mirror that serves the JSON text of any commitment record, both reach the same checks,
  commitment, errors and verdict, and both ask the mirror once, for the same URL.\<close>

theorem widget_agrees_with_verifier:
  assumes "pget b (js ''algorithm'') = Str algorithm_name" "pget b (js ''certificate'') = Obj c"
    "pget b (js ''blinding_nonce'') = Str nonce" "hex_pairs nonce" "pget c (js ''buyer_hint'') = Str hint"
    "validate_certificate (Obj c) = Inr errors"
    "pget b (js ''hedera'') = Obj hed" "pget hed (js ''status'') \<noteq> Str (js ''minting'')"
    "pget hed (js ''network'') = Undef \<or> pget hed (js ''network'') = Str nw \<and> nw \<noteq> []"
    "pget hed (js ''topic_id'') = Str topic" "expected = Null \<or> expected = Str topic"
    "mirror_message_url hed = Inr mu" "new_url mu = Some u" "url_href u = mu" "url_protocol u = js ''https:''"
    "mirror_serves f u (net s) envelope onchain"
  shows "\<exists>r wr s1 s2. verify_bundle hash new_url (Some f) expected (Obj b) s = (Inr r, s1) \<and>
    widget_verify (Some hash) (Some f) expected Null (Obj b) s = (Inr wr, s2) \<and>
    vr_verified wr = vr_verified r \<and> vr_checks wr = vr_checks r \<and> vr_commitment wr = vr_commitment r \<and>
    vr_certificate_errors wr = vr_certificate_errors r \<and> vr_mirror_url wr = vr_mirror_url r \<and>
    trace s1 = trace s @ [Fetched (get_request mu)] \<and> trace s2 = trace s1"
proof -
  have su: "safe_url new_url mu = Inr u"
    using assms(13,15) by (simp add: safe_url_def)
  obtain s1 where s1: "fetch_mirror_message new_url (Some f) mu s = (Inr envelope, s1)"
    "trace s1 = trace s @ [Fetched (get_request (url_href u))]"
    by (rule fetch_mirror_message_serves [OF assms(16) su])
  obtain response w' where f: "f (get_request mu) (net s) = (Inr response, w')" "res_ok response"
    "res_text response = Inr (emit (Obj envelope))" "length (emit (Obj envelope)) \<le> 1048576"
    "json_plain (Obj envelope)" "json_plain (Obj onchain)"
    "pget envelope (js ''message'') = Str (b64_encode (utf8_encode (emit (Obj onchain))))"
    using assms(14,16) by (auto simp: mirror_serves_def)
  let ?s = "s\<lparr>net := w', trace := trace s @ [Fetched (get_request mu)]\<rparr>"
  have wf: "widget_fetch_json (Some f) mu s = (Inr (Obj envelope), ?s)"
    using f json_parse_emit [OF f(5)]
    by (simp add: widget_fetch_json_def run_simps fetchM_def widget_read_response_def del: emit.simps)
  have topic: "topic \<noteq> []" "truthy (pget hed (js ''topic_id''))"
    using mirror_topic_nonempty [OF assms(12)] assms(10) by auto
  have dec: "decode_message (pget envelope (js ''message'')) = Some onchain"
    "decode_payload (and_prop (Obj envelope) (js ''message'')) = Some onchain"
    using f(7) decode_message_encode [OF f(6)] decode_payload_encode [OF f(6)]
    by (simp_all add: and_prop_def del: emit.simps)
  obtain h where h: "compute_commitment hash (Obj c) (Str nonce) = Inr h"
    using assms(4) canonicalize_object [of c] by (auto simp: compute_commitment_Str simp del: canonicalize.simps)
  define a where "a = (if strict_eq (pget onchain (js ''type'')) (Str envelope_type)
     then check_of (strict_eq (pget onchain (js ''commitment'')) (Str h)) else Failed)"
  obtain ts where va: "anchor_check new_url (Some f) expected hed h s = (Inr (a, ts, Some mu), s1)"
    using assms(8,10,11,12) topic s1(1) dec(1)
    by (cases "pget onchain (js ''type'') = Str envelope_type") (auto simp: anchor_check_def run_simps string_of_def a_def)
  obtain ts' where wa: "widget_anchor (Some f) expected Null hed h s = (Inr (a, ts', Some mu), ?s)"
    using assms(8,10,11) topic wf dec(2) widget_mirror_url_agrees [OF assms(9,12)]
    by (cases "pget onchain (js ''type'') = Str envelope_type") (auto simp: widget_anchor_def run_simps string_of_def or_else_def a_def)
  have v: "verify_bundle hash new_url (Some f) expected (Obj b) s = (Inr (build_result hash b c h errors (a, ts, Some mu)), s1)"
    using assms(1-3,6,7) h va by (simp add: verify_bundle_def run_simps)
  have w: "widget_verify (Some hash) (Some f) expected Null (Obj b) s =
      (Inr (widget_build_result hash b c h errors (a, ts', Some mu)), ?s)"
    using assms(1-3,7) h wa validators_agree [OF assms(5)] assms(6) widget_commitment_agrees [of hash c nonce]
    by (simp add: widget_verify_def run_simps)
  show ?thesis
    using v w s1(2) assms(14)
    by (simp add: build_result_def widget_build_result_def Let_def terms_check_agrees)
qed

section \<open>The custom element\<close>

definition checks_list :: "checks \<Rightarrow> (jsstr \<times> check) list" where
  "checks_list c = [(js ''bundle_integrity'', bundle_integrity c), (js ''certificate_schema'', certificate_schema c),
     (js ''terms_integrity'', terms_integrity c), (js ''hedera_anchoring'', hedera_anchoring c),
     (js ''issuer_assertions'', issuer_assertions c)]"

definition widget_summary :: "widget_result \<Rightarrow> js_error + jsstr" where
  "widget_summary r =
     (if vr_verified r
      then bindE (string_of (opt_prop (wr_certificate r) (js ''unit_serial''))) (\<lambda>serial.
           bindE (string_of (vr_cert_id r)) (\<lambda>cert_id.
             Inr (js ''Licensed unit #'' @ serial @ [32, 183, 32] @ js ''certificate '' @ cert_id)))
      else (let failed = map fst (filter (\<lambda>(name, state). state = Failed) (checks_list (vr_checks r))) in
        Inr (if failed \<noteq> [] then js ''Check failed: '' @ intersperse (js '', '') failed
          else if hedera_anchoring (vr_checks r) = Pending
          then js ''Not anchored on Hedera yet '' @ [8212] @ js '' re-check shortly''
          else js ''This certificate could not be verified'')))"

datatype shown = ShownVerified | ShownFailed | ShownPending

record view =
  view_state :: shown
  view_color :: jsstr
  view_line :: jsstr
  view_detail :: jsstr
  view_link :: "jsstr option"

fun palette :: "shown \<Rightarrow> jsstr" where
  "palette ShownVerified = js ''#1c7c4a''"
| "palette ShownFailed = js ''#a8261f''"
| "palette ShownPending = js ''#6b6b63''"

fun mark :: "shown \<Rightarrow> jsstr" where
  "mark ShownVerified = [0x2713, 32]"
| "mark ShownFailed = [0x2717, 32]"
| "mark ShownPending = [0x2026, 32]"

definition timestamp_detail :: "widget_result \<Rightarrow> js_error + jsstr" where
  "timestamp_detail r =
     (if \<not> truthy (vr_consensus_timestamp r) then Inr []
      else bindE (string_of (vr_topic_id r)) (\<lambda>topic.
        bindE (string_of (vr_consensus_timestamp r)) (\<lambda>ts.
          Inr (js ''Committed to topic '' @ topic @ js '' at consensus '' @ ts @ js ''. '' @
            js ''Hedera proves these bytes existed no later than that timestamp '' @ [8212] @
            js '' not the truth of what they assert.''))))"

definition render_view :: "jsstr \<Rightarrow> shown \<Rightarrow> widget_result option \<Rightarrow> js_error + view" where
  "render_view message state result =
     bindE (case result of None \<Rightarrow> Inr [] | Some r \<Rightarrow> timestamp_detail r) (\<lambda>detail.
       Inr \<lparr>view_state = state, view_color = palette state, view_line = mark state @ message,
         view_detail = detail, view_link = Option.bind result vr_mirror_url\<rparr>)"

text \<open>What a finished verification puts on the page and announces: the \<open>try\<close> part may still throw
  (in the texts it builds), which the \<open>catch\<close> part turns into a failure.\<close>

datatype announced =
    AnnouncedVerified widget_result
  | AnnouncedFailed js_error

definition failure_view :: "js_error \<Rightarrow> view" where
  "failure_view e = \<lparr>view_state = ShownFailed, view_color = palette ShownFailed,
     view_line = mark ShownFailed @ error_message e, view_detail = [], view_link = None\<rparr>"

definition conclude :: "js_error + widget_result \<Rightarrow> view \<times> announced" where
  "conclude outcome =
     (case bindE outcome (\<lambda>r. bindE (widget_summary r) (\<lambda>m.
        bindE (render_view m (if vr_verified r then ShownVerified else ShownFailed) (Some r)) (\<lambda>v. Inr (v, r)))) of
      Inr (v, r) \<Rightarrow> (v, AnnouncedVerified r)
    | Inl e \<Rightarrow> (failure_view e, AnnouncedFailed e))"

text \<open>The bundle of a verification: fetched from \<open>bundle-url\<close>, or the JSON text in the page.\<close>

definition load_inline :: "jsstr option \<Rightarrow> ('w, jsval) prog" where
  "load_inline inline = (case inline of
     Some body \<Rightarrow> liftM (ofOption (invalid_input (js ''inline proof bundle is not valid JSON'')) (json_parse body))
   | None \<Rightarrow> throwM (invalid_input (js ''add a bundle-url attribute or an inline <script type=\"application/json\"> proof bundle'')))"

definition load_bundle :: "'w fetcher option \<Rightarrow> jsstr option \<Rightarrow> jsstr option \<Rightarrow> ('w, jsval) prog" where
  "load_bundle fo bundle_url inline = (case bundle_url of
     Some u \<Rightarrow> if u \<noteq> [] then widget_fetch_json fo u else load_inline inline
   | None \<Rightarrow> load_inline inline)"

fun attribute :: "jsstr option \<Rightarrow> jsval" where
  "attribute None = Null"
| "attribute (Some s) = Str s"

definition element_verification ::
  "(bytes \<Rightarrow> bytes) option \<Rightarrow> 'w fetcher option \<Rightarrow> jsstr option \<Rightarrow> jsstr option \<Rightarrow> jsstr option \<Rightarrow>
     jsstr option \<Rightarrow> ('w, widget_result) prog" where
  "element_verification subtle fo bundle_url inline topic_id network =
     bindM (load_bundle fo bundle_url inline) (\<lambda>bundle.
       widget_verify subtle fo (attribute topic_id) (attribute network) bundle)"

text \<open>The element between two turns of the event loop. Every connection or attribute change starts
  a verification; verifications finish in any order.\<close>

record element =
  request_number :: nat
  in_flight :: "nat list"
  page :: "view option"
  announcements :: "(nat \<times> announced) list"

definition element_start :: "element \<Rightarrow> bool" where
  "element_start el = (el = \<lparr>request_number = 0, in_flight = [], page = None, announcements = []\<rparr>)"

definition pending_view :: view where
  "pending_view = \<lparr>view_state = ShownPending, view_color = palette ShownPending,
     view_line = mark ShownPending @ js ''Checking this license against Hedera'' @ [0x2026],
     view_detail = [], view_link = None\<rparr>"

definition begin_verification :: "element \<Rightarrow> element" where
  "begin_verification el = (let n = Suc (request_number el) in
     el\<lparr>request_number := n, in_flight := n # in_flight el, page := Some pending_view\<rparr>)"

definition finish_verification :: "nat \<Rightarrow> js_error + widget_result \<Rightarrow> element \<Rightarrow> element" where
  "finish_verification n outcome el =
     (let el' = el\<lparr>in_flight := remove1 n (in_flight el)\<rparr> in
      if n \<noteq> request_number el then el'
      else case conclude outcome of (v, a) \<Rightarrow>
        el'\<lparr>page := Some v, announcements := announcements el @ [(n, a)]\<rparr>)"

datatype element_event =
    Connected
  | Settled nat "js_error + widget_result"

inductive element_step :: "element \<Rightarrow> element_event \<Rightarrow> element \<Rightarrow> bool" where
  connected: "element_step el Connected (begin_verification el)"
| settled: "n \<in> set (in_flight el) \<Longrightarrow> element_step el (Settled n outcome) (finish_verification n outcome el)"

inductive_cases element_stepE: "element_step el ev el'"

text \<open>What holds between turns: numbers in flight are distinct and not beyond the latest; the page
  shows \<open>pending\<close> while the latest verification runs and its outcome afterwards; announcements are
  in the order of their numbers, one per number.\<close>

definition element_inv :: "element \<Rightarrow> bool" where
  "element_inv el = (distinct (in_flight el) \<and> (\<forall>n \<in> set (in_flight el). 0 < n \<and> n \<le> request_number el) \<and>
     sorted_wrt (<) (map fst (announcements el)) \<and>
     (\<forall>n \<in> fst ` set (announcements el). n \<le> request_number el \<and> n \<notin> set (in_flight el)) \<and>
     (if request_number el = 0 then page el = None
      else if request_number el \<in> set (in_flight el) then page el = Some pending_view
      else \<exists>outcome v a. conclude outcome = (v, a) \<and> page el = Some v \<and>
        announcements el \<noteq> [] \<and> last (announcements el) = (request_number el, a)))"

lemma element_inv_connected: "element_inv el \<Longrightarrow> element_inv (begin_verification el)"
  by (auto simp: element_inv_def begin_verification_def Let_def)

lemma element_inv_settled:
  assumes "element_inv el" "n \<in> set (in_flight el)"
  shows "element_inv (finish_verification n outcome el)"
proof (cases "n = request_number el")
  case True
  obtain v a where c: "conclude outcome = (v, a)" by (cases "conclude outcome")
  have d: "n \<notin> set (remove1 n (in_flight el))"
    using assms(1) by (auto simp: element_inv_def)
  have l: "x < n" if "x \<in> fst ` set (announcements el)" for x
  proof -
    have "x \<le> request_number el \<and> x \<notin> set (in_flight el)"
      using that assms(1) unfolding element_inv_def by blast
    then show ?thesis using assms(2) True by (metis le_neq_implies_less)
  qed
  have z: "0 < n" using assms by (auto simp: element_inv_def)
  show ?thesis
    using assms True c d l z set_remove1_subset [of n "in_flight el"]
    by (auto simp: element_inv_def finish_verification_def Let_def sorted_wrt_append)
next
  case False
  then show ?thesis
    using assms set_remove1_subset [of n "in_flight el"]
    by (auto simp: element_inv_def finish_verification_def Let_def in_set_remove1 split: if_splits)
qed

interpretation element_machine: state_machine element_start element_step element_inv
proof
  show "element_inv el" if "element_start el" for el
    using that by (simp add: element_start_def element_inv_def)
  show "element_inv el'" if "element_inv el" "element_step el ev el'" for el ev el'
    using that(2,1) by (cases rule: element_step.cases) (auto intro: element_inv_connected element_inv_settled)
qed

text \<open>C8. Whatever the order in which overlapping verifications finish, the page never shows the
  outcome of a superseded one: while the latest verification runs the page says so, afterwards it
  shows exactly that verification's outcome, which is also the last event announced; every
  verification is announced at most once, in order.\<close>

theorem widget_shows_latest:
  assumes "reach element_start element_step el" "0 < request_number el"
  shows "sorted_wrt (<) (map fst (announcements el)) \<and>
    (if request_number el \<in> set (in_flight el) then page el = Some pending_view
     else \<exists>outcome v a. conclude outcome = (v, a) \<and> page el = Some v \<and>
       announcements el \<noteq> [] \<and> last (announcements el) = (request_number el, a))"
  using element_machine.reach_inv [OF assms(1)] assms(2) unfolding element_inv_def by simp

text \<open>The page says \<open>verified\<close> only for a verification whose verdict is verified, and then
  names the unit and certificate of that result; an error always shows as a failure.\<close>

theorem page_verified_only_if_verified:
  assumes "conclude outcome = (v, a)"
  shows "(view_state v = ShownVerified \<longrightarrow> (\<exists>r serial cert_id. outcome = Inr r \<and> vr_verified r \<and> a = AnnouncedVerified r \<and>
      to_str (opt_prop (wr_certificate r) (js ''unit_serial'')) = Some serial \<and> to_str (vr_cert_id r) = Some cert_id \<and>
      view_line v = mark ShownVerified @ js ''Licensed unit #'' @ serial @ [32, 183, 32] @ js ''certificate '' @ cert_id)) \<and>
    (\<forall>e. outcome = Inl e \<longrightarrow> view_state v = ShownFailed \<and> a = AnnouncedFailed e)"
  using assms
  by (cases outcome)
    (auto simp: conclude_def failure_view_def widget_summary_def render_view_def string_of_def Let_def
      split: sum.splits if_splits prod.splits)

theorem page_verified_only_if_verified_witness:
  "\<exists>v. conclude (Inl SyntaxErr) = (v, AnnouncedFailed SyntaxErr) \<and> view_state v = ShownFailed"
proof -
  obtain v a where c: "conclude (Inl SyntaxErr) = (v, a)" by (cases "conclude (Inl SyntaxErr)")
  then show ?thesis using page_verified_only_if_verified [OF c] by simp
qed

definition sample_element :: element where
  "sample_element = finish_verification 1 (Inl SyntaxErr) (begin_verification (begin_verification
     \<lparr>request_number = 0, in_flight = [], page = None, announcements = []\<rparr>))"

lemma sample_element_reach: "reach element_start element_step sample_element"
proof -
  let ?e = "\<lparr>request_number = 0, in_flight = [], page = None, announcements = []\<rparr>"
  have "reach element_start element_step ?e"
    by (rule reach_start) (simp add: element_start_def)
  then have "reach element_start element_step (begin_verification ?e)"
    by (rule reach_step) (rule connected)
  then have "reach element_start element_step (begin_verification (begin_verification ?e))"
    by (rule reach_step) (rule connected)
  then show ?thesis
    unfolding sample_element_def
    by (rule reach_step) (rule settled, simp add: begin_verification_def Let_def)
qed

theorem widget_shows_latest_witness: "page sample_element = Some pending_view"
proof -
  have "request_number sample_element = 2" "2 \<in> set (in_flight sample_element)"
    by (simp_all add: sample_element_def finish_verification_def begin_verification_def Let_def)
  then show ?thesis
    using widget_shows_latest [OF sample_element_reach] by simp
qed

theorem widget_agrees_with_verifier_witness:
  "\<exists>r wr s1 s2. verify_bundle sample_hash sample_new_url (Some sample_fetch) Null (Obj sample_bundle) sample_session = (Inr r, s1) \<and>
    widget_verify (Some sample_hash) (Some sample_fetch) Null Null (Obj sample_bundle) sample_session = (Inr wr, s2) \<and>
    vr_verified wr = vr_verified r \<and> vr_checks wr = vr_checks r"
proof -
  have v: "validate_certificate (Obj sample_certificate) = Inr []"
    using sample_schema by (simp add: validate_certificate_def validate_clean_iff)
  have h: "hex_pairs (js ''00'')" by code_simp
  show ?thesis
    using widget_agrees_with_verifier [of sample_bundle sample_certificate "js ''00''" "js ''bearer''" "[]" sample_hedera
        "[]" "js ''0.0.5''" Null _ sample_new_url sample_url sample_fetch sample_session sample_envelope sample_onchain
        sample_hash, OF _ _ _ h _ v _ _ _ _ _ sample_facts(3) _ _ _ sample_facts(5)]
    by (simp add: sample_bundle_def sample_certificate_def sample_hedera_def sample_url_def sample_new_url_def) blast
qed

end
