(* ===== verification/VerifierCli.thy ===== *)
theory VerifierCli
  imports Verifier
begin

text \<open>
  \<open>verifier/cli.js\<close>: the command line of the verifier. Reading a file and standard input belong to
  the platform and are parameters; the program is a function from the arguments to what it prints
  and the exit status. The theorems characterise the argument parser and tie the exit status to the
  verdict.
\<close>

section \<open>Arguments\<close>

datatype cli_options =
    Help
  | Run bool jsstr

fun scan_arguments :: "jsstr list \<Rightarrow> bool \<Rightarrow> jsstr list \<Rightarrow> js_error + bool \<times> jsstr list" where
  "scan_arguments [] json positional = Inr (json, positional)"
| "scan_arguments (a # args) json positional =
     (if a = js ''--json'' then scan_arguments args True positional
      else if a = js ''-'' then scan_arguments args json (positional @ [a])
      else if starts_with (js ''--'') a then Inl (invalid_input (js ''unknown option '' @ a))
      else scan_arguments args json (positional @ [a]))"

definition parse_arguments :: "jsstr list \<Rightarrow> js_error + cli_options" where
  "parse_arguments args =
     (if js ''--help'' \<in> set args \<or> js ''-h'' \<in> set args then Inr Help
      else bindE (scan_arguments args False []) (\<lambda>(json, positional). case positional of
          [input] \<Rightarrow> Inr (Run json input)
        | _ \<Rightarrow> Inl (invalid_input (js ''provide exactly one bundle file, url, or - for stdin''))))"

section \<open>Reading the bundle\<close>

text \<open>\<open>readStdin\<close>: what standard input delivers, in order, and what the promise has settled to so far.\<close>

datatype stdin_event = StdinData jsstr | StdinEnd | StdinError js_error

fun read_stdin_events :: "jsstr \<Rightarrow> stdin_event list \<Rightarrow> (js_error + jsstr) option" where
  "read_stdin_events data [] = None"
| "read_stdin_events data (StdinData chunk # evs) = read_stdin_events (data @ chunk) evs"
| "read_stdin_events data (StdinEnd # evs) = Some (Inr data)"
| "read_stdin_events data (StdinError e # evs) = Some (Inl e)"

definition cli_load_bundle ::
  "'w fetcher \<Rightarrow> (jsstr \<Rightarrow> 'w \<Rightarrow> (js_error + jsstr) \<times> 'w) \<Rightarrow> ('w \<Rightarrow> (js_error + jsstr) \<times> 'w) \<Rightarrow> jsstr \<Rightarrow>
     ('w, jsval) prog" where
  "cli_load_bundle f read_file read_stdin input =
     bindM (if input = js ''-'' then callM (\<lambda>_. read_stdin) (js ''readStdin'') []
            else if starts_with (js ''http://'') input \<or> starts_with (js ''https://'') input then
              bindM (catchM (fetchM f (get_request input))
                  (\<lambda>e. throwM (VerificationError (js ''could not fetch bundle: '' @ error_message e) (js ''mirror_unavailable'') None)))
                (\<lambda>response. if \<not> res_ok response
                  then throwM (invalid_input (js ''bundle URL returned HTTP '' @ dec_str (res_status response)))
                  else liftM (res_text response))
            else catchM (callM (\<lambda>_. read_file input) (js ''readFile'') [Str input])
              (\<lambda>e. throwM (invalid_input (js ''could not read '' @ input @ js '': '' @ error_message e))))
       (\<lambda>body. liftM (ofOption (invalid_input (js ''input is not valid JSON'')) (json_parse body)))"

section \<open>Printing\<close>

fun check_name :: "check \<Rightarrow> jsstr" where
  "check_name Verified = js ''verified''"
| "check_name Failed = js ''failed''"
| "check_name Unchecked = js ''unchecked''"
| "check_name Pending = js ''pending''"
| "check_name NotProven = js ''not_independently_proven''"

fun check_upper :: "check \<Rightarrow> jsstr" where
  "check_upper Verified = js ''VERIFIED''"
| "check_upper Failed = js ''FAILED''"
| "check_upper Unchecked = js ''UNCHECKED''"
| "check_upper Pending = js ''PENDING''"
| "check_upper NotProven = js ''NOT_INDEPENDENTLY_PROVEN''"
  \<comment> \<open>\<open>state.toUpperCase()\<close>\<close>

definition em_dash :: jsstr where
  "em_dash = [32, 0x2014, 32]"

datatype check_key = BundleIntegrity | CertificateSchema | TermsIntegrity | HederaAnchoring | IssuerAssertions

fun check_at :: "check_key \<Rightarrow> checks \<Rightarrow> check" where
  "check_at BundleIntegrity c = bundle_integrity c"
| "check_at CertificateSchema c = certificate_schema c"
| "check_at TermsIntegrity c = terms_integrity c"
| "check_at HederaAnchoring c = hedera_anchoring c"
| "check_at IssuerAssertions c = issuer_assertions c"

definition labels :: "(check_key \<times> jsstr) list" where
  "labels = [(BundleIntegrity, js ''bundle integrity''), (CertificateSchema, js ''certificate schema''),
     (TermsIntegrity, js ''terms integrity''), (HederaAnchoring, js ''Hedera anchoring''),
     (IssuerAssertions, js ''issuer assertions'')]"

definition describe :: "check_key \<Rightarrow> verify_result \<Rightarrow> js_error + jsstr" where
  "describe key result =
     (let state = check_at key (vr_checks result) in
      if key = IssuerAssertions then
        Inr (js ''not independently proven'' @ em_dash @ js ''the ledger proves commitment timing, not truth'')
      else if key = HederaAnchoring \<and> state = Verified then
        bindE (string_of (vr_topic_id result)) (\<lambda>topic. bindE (string_of (vr_sequence_number result)) (\<lambda>seq.
        bindE (string_of (vr_consensus_timestamp result)) (\<lambda>ts.
          Inr (js ''VERIFIED  (topic '' @ topic @ js '' seq '' @ seq @ js '', consensus '' @ ts @ js '')''))))
      else if key = HederaAnchoring \<and> state = Pending then
        Inr (js ''PENDING  (commitment not yet anchored'' @ em_dash @ js ''retry shortly)'')
      else if key = CertificateSchema \<and> state = Failed then
        Inr (js ''FAILED  ('' @ intersperse (js ''; '') (vr_certificate_errors result) @ js '')'')
      else Inr (check_upper state))"

definition pad_end :: "nat \<Rightarrow> jsstr \<Rightarrow> jsstr" where
  "pad_end n s = s @ replicate (n - length s) 32"

text \<open>The lines printed, and the error that stops the printing, if any.\<close>

fun print_checks :: "(check_key \<times> jsstr) list \<Rightarrow> verify_result \<Rightarrow> jsstr list \<times> js_error option" where
  "print_checks [] result =
     ([[10] @ js ''=> '' @ (if vr_verified result then js ''VERIFIED'' else js ''NOT VERIFIED'')], None)"
| "print_checks ((key, label) # ls) result = (case describe key result of
     Inl e \<Rightarrow> ([], Some e)
   | Inr d \<Rightarrow> (case print_checks ls result of (lines, e) \<Rightarrow>
       ((js ''  '' @ pad_end 19 label @ js '' '' @ d) # lines, e)))"

definition print_result :: "verify_result \<Rightarrow> jsstr list \<times> js_error option" where
  "print_result result = (case string_of (vr_cert_id result) of
     Inl e \<Rightarrow> ([], Some e)
   | Inr cert_id \<Rightarrow> (case print_checks labels result of (lines, e) \<Rightarrow> ((js ''Certificate '' @ cert_id) # lines, e)))"

text \<open>The result as a JavaScript object, for \<open>--json\<close>, and \<open>JSON.stringify(v, null, 2)\<close>.\<close>

definition result_object :: "verify_result \<Rightarrow> jsval" where
  "result_object r = Obj [(js ''verified'', Bool (vr_verified r)), (js ''cert_id'', vr_cert_id r),
     (js ''commitment'', Str (vr_commitment r)),
     (js ''checks'', Obj [(js ''bundle_integrity'', Str (check_name (bundle_integrity (vr_checks r)))),
        (js ''certificate_schema'', Str (check_name (certificate_schema (vr_checks r)))),
        (js ''terms_integrity'', Str (check_name (terms_integrity (vr_checks r)))),
        (js ''hedera_anchoring'', Str (check_name (hedera_anchoring (vr_checks r)))),
        (js ''issuer_assertions'', Str (check_name (issuer_assertions (vr_checks r))))]),
     (js ''certificate_errors'', Arr (map Str (vr_certificate_errors r))),
     (js ''topic_id'', vr_topic_id r), (js ''sequence_number'', vr_sequence_number r),
     (js ''consensus_timestamp'', vr_consensus_timestamp r),
     (js ''mirror_url'', case vr_mirror_url r of None \<Rightarrow> Null | Some u \<Rightarrow> Str u)]"

definition indent_block :: "jsunit \<Rightarrow> jsunit \<Rightarrow> jsstr \<Rightarrow> jsstr list \<Rightarrow> jsstr" where
  "indent_block l r pad items =
     (if items = [] then [l, r]
      else [l, 10] @ pad @ js ''  '' @ intersperse ([44, 10] @ pad @ js ''  '') items @ [10] @ pad @ [r])"

fun stringify_indent :: "jsstr \<Rightarrow> jsval \<Rightarrow> jsstr option" where
  "stringify_indent pad (Arr vs) = Some (indent_block 91 93 pad
     (map (\<lambda>v. case stringify_indent (pad @ js ''  '') v of None \<Rightarrow> js ''null'' | Some s \<Rightarrow> s) vs))"
| "stringify_indent pad (Obj kvs) = Some (indent_block 123 125 pad (map (\<lambda>(k, s). json_quote k @ js '': '' @ s)
     (List.map_filter (\<lambda>(k, r). case r of None \<Rightarrow> None | Some s \<Rightarrow> Some (k, s))
       (own_entries (map (\<lambda>(k, v). (k, stringify_indent (pad @ js ''  '') v)) kvs)))))"
| "stringify_indent pad v = stringify v"

section \<open>The program\<close>

definition cli_usage :: jsstr where
  "cli_usage = intersperse [10]
    [js ''Usage: printwright-verify <bundle.json | url | ->  [--json]'',
     [],
     js ''Verify a Printwright license certificate from its proof bundle. The bundle is'',
     js ''the reveal of an opaque on-chain commitment; this tool recomputes the commitment'',
     js ''locally (RFC 8785 JCS + SHA-256) and confirms it matches the message anchored on'',
     js ''a public Hedera mirror node'' @ em_dash @ js ''trusting neither Printwright'' @ [39] @ js ''s servers nor verdict.'',
     [],
     js ''Input:'',
     js ''  <bundle.json>   a proof-bundle file (from your paid delivery)'',
     js ''  <https url>     a bundle_url to fetch (e.g. the certificates API)'',
     js ''  -               read the bundle from stdin'',
     [],
     js ''Options:'',
     js ''  --json          print the full result as JSON'',
     js ''  --help          show this help'',
     [],
     js ''Note: Hedera proves the certificate bytes were committed no later than the'',
     js ''consensus timestamp'' @ em_dash @ js ''not that every assertion inside them is true.'']"

record cli_run =
  out_lines :: "jsstr list"
  err_lines :: "jsstr list"
  exit_status :: nat

definition error_code :: "js_error \<Rightarrow> jsstr" where
  "error_code e = (case e of VerificationError m code r \<Rightarrow> code | _ \<Rightarrow> js ''unexpected_error'')"

definition failed_run :: "jsstr list \<Rightarrow> js_error \<Rightarrow> cli_run" where
  "failed_run out e = \<lparr>out_lines = out,
     err_lines = [[0x2717, 32] @ error_code e @ js '': '' @ error_message e], exit_status = 1\<rparr>"

definition finish_run :: "bool \<Rightarrow> verify_result \<Rightarrow> cli_run" where
  "finish_run json result =
     (case (if json then ([joined (stringify_indent [] (result_object result))], None) else print_result result) of
        (lines, Some e) \<Rightarrow> failed_run lines e
      | (lines, None) \<Rightarrow> \<lparr>out_lines = lines, err_lines = [], exit_status = (if vr_verified result then 0 else 2)\<rparr>)"

definition cli_main ::
  "(bytes \<Rightarrow> bytes) \<Rightarrow> (jsstr \<Rightarrow> url option) \<Rightarrow> 'w fetcher \<Rightarrow> (jsstr \<Rightarrow> 'w \<Rightarrow> (js_error + jsstr) \<times> 'w) \<Rightarrow>
     ('w \<Rightarrow> (js_error + jsstr) \<times> 'w) \<Rightarrow> jsstr list \<Rightarrow> 'w session \<Rightarrow> cli_run \<times> 'w session" where
  "cli_main hash new_url f read_file read_stdin args s = (case parse_arguments args of
     Inl e \<Rightarrow> (failed_run [] e, s)
   | Inr Help \<Rightarrow> (\<lparr>out_lines = [cli_usage], err_lines = [], exit_status = 0\<rparr>, s)
   | Inr (Run json input) \<Rightarrow>
       (case bindM (cli_load_bundle f read_file read_stdin input)
               (\<lambda>bundle. verify_bundle hash new_url (Some f) Null bundle) s of
          (Inl e, s') \<Rightarrow> (failed_run [] e, s')
        | (Inr result, s') \<Rightarrow> (finish_run json result, s')))"

section \<open>Standard input\<close>

text \<open>The promise resolves with the chunks in order, however the text was cut into chunks; what comes
  after the end changes nothing, and without an end or an error it never settles.\<close>

lemma read_stdin_chunks:
  "read_stdin_events data (map StdinData chunks @ evs) = read_stdin_events (data @ concat chunks) evs"
  by (induction chunks arbitrary: data) simp_all

lemma read_stdin_settles: "read_stdin_events data (map StdinData chunks @ StdinEnd # evs) = Some (Inr (data @ concat chunks))"
  by (simp add: read_stdin_chunks)

lemma read_stdin_pending: "read_stdin_events data evs = None \<longleftrightarrow> (\<forall>e \<in> set evs. \<exists>chunk. e = StdinData chunk)"
proof (induction evs arbitrary: data)
  case (Cons e evs)
  then show ?case by (cases e) simp_all
qed simp

section \<open>The parser\<close>

lemma scan_arguments_Inr_iff: "scan_arguments args json positional = Inr (j, ps) \<longleftrightarrow>
    (\<forall>a \<in> set args. starts_with (js ''--'') a \<longrightarrow> a = js ''--json'') \<and>
    j = (json \<or> js ''--json'' \<in> set args) \<and> ps = positional @ filter (\<lambda>a. a \<noteq> js ''--json'') args"
  by (induction args arbitrary: json positional) (auto simp: starts_with_def js_Cons split: list.splits)

text \<open>The command line is accepted exactly when help is asked for, or when the only option is
  \<open>--json\<close> and exactly one other argument remains, which is then the input; \<open>json\<close> records whether
  the option was given.\<close>

theorem parse_arguments_iff:
  "parse_arguments args = Inr (Run json input) \<longleftrightarrow>
     js ''--help'' \<notin> set args \<and> js ''-h'' \<notin> set args \<and>
     (\<forall>a \<in> set args. starts_with (js ''--'') a \<longrightarrow> a = js ''--json'') \<and>
     filter (\<lambda>a. a \<noteq> js ''--json'') args = [input] \<and> json = (js ''--json'' \<in> set args)"
  by (auto simp: parse_arguments_def scan_arguments_Inr_iff split: list.splits)

theorem parse_arguments_iff_witness:
  "parse_arguments [js ''bundle.json'', js ''--json''] = Inr (Run True (js ''bundle.json''))"
  by (subst parse_arguments_iff) (simp add: starts_with_def js_Cons jc_def)

section \<open>The exit status\<close>

lemma finish_run_status: "exit_status (finish_run json result) = 0 \<longleftrightarrow>
    vr_verified result \<and> err_lines (finish_run json result) = []"
  by (auto simp: finish_run_def failed_run_def split: option.splits prod.splits)

text \<open>C17. The program exits with status 0 exactly when it printed its help, or when the bundle was
  read and verified (and the report could be printed); every error exits with 1 and one line on
  standard error, and a bundle that does not verify with 2.\<close>

theorem cli_exit_status:
  assumes "cli_main hash new_url f read_file read_stdin args s = (run, s')"
  shows "(exit_status run = 0 \<longleftrightarrow> err_lines run = [] \<and> (parse_arguments args = Inr Help \<or>
      (\<exists>json input bundle s1 result. parse_arguments args = Inr (Run json input) \<and>
        cli_load_bundle f read_file read_stdin input s = (Inr bundle, s1) \<and>
        verify_bundle hash new_url (Some f) Null bundle s1 = (Inr result, s') \<and> vr_verified result))) \<and>
    exit_status run \<in> {0, 1, 2} \<and> (exit_status run = 1 \<longleftrightarrow> length (err_lines run) = 1)"
proof -
  consider (bad) e where "parse_arguments args = Inl e" | (asked) "parse_arguments args = Inr Help"
    | (go) json input where "parse_arguments args = Inr (Run json input)"
    by (metis cli_options.exhaust sum.exhaust)
  then show ?thesis
  proof cases
    case (go json input)
    let ?p = "bindM (cli_load_bundle f read_file read_stdin input) (\<lambda>bundle. verify_bundle hash new_url (Some f) Null bundle)"
    obtain o1 s1 where o1: "?p s = (o1, s1)" by (cases "?p s")
    show ?thesis
    proof (cases o1)
      case (Inl e)
      then have "run = failed_run [] e" using assms go o1 by (simp add: cli_main_def)
      moreover have "\<nexists>bundle s2 result. cli_load_bundle f read_file read_stdin input s = (Inr bundle, s2) \<and>
          verify_bundle hash new_url (Some f) Null bundle s2 = (Inr result, s')"
        using o1 Inl by (auto simp: run_simps split: prod.splits sum.splits)
      ultimately show ?thesis using go by (auto simp: failed_run_def)
    next
      case (Inr result)
      then have r: "run = finish_run json result" "s' = s1" using assms go o1 by (simp_all add: cli_main_def)
      obtain bu s2 where b: "cli_load_bundle f read_file read_stdin input s = (Inr bu, s2)"
        "verify_bundle hash new_url (Some f) Null bu s2 = (Inr result, s1)"
        using o1 Inr by (auto simp: run_Inr_iffs)
      have "exit_status run = 0 \<longleftrightarrow> vr_verified result \<and> err_lines run = []"
        using finish_run_status r by simp
      moreover have "exit_status run \<in> {0, 1, 2} \<and> (exit_status run = 1 \<longleftrightarrow> length (err_lines run) = 1)"
        by (auto simp: r finish_run_def failed_run_def split: option.splits prod.splits)
      ultimately show ?thesis using go b r(2) by auto
    qed
  qed (use assms in \<open>auto simp: cli_main_def failed_run_def\<close>)
qed

theorem cli_exit_status_witness:
  "\<exists>run s'. cli_main sample_hash sample_new_url sample_fetch (\<lambda>_ w. (Inl SyntaxErr, w)) (\<lambda>w. (Inl SyntaxErr, w))
     [js ''--help''] sample_session = (run, s') \<and> exit_status run = 0"
proof -
  let ?m = "cli_main sample_hash sample_new_url sample_fetch (\<lambda>_ w. (Inl SyntaxErr, w)) (\<lambda>w. (Inl SyntaxErr, w))
     [js ''--help''] sample_session"
  obtain run s' where m: "?m = (run, s')" by (cases ?m)
  then have "err_lines run = []" "parse_arguments [js ''--help''] = Inr Help"
    by (auto simp: cli_main_def parse_arguments_def)
  then show ?thesis using cli_exit_status [OF m] m by auto
qed

end
