(* ===== verification/ClientBase.thy ===== *)
theory ClientBase
  imports Commitment Env
begin

text \<open>
  The helper functions of \<open>client/index.js\<close> and its GET loop: reading response bodies, choosing the
  asset, checking arguments, batch items and webhooks. The URL parser is a parameter. The theorems
  give the bounds the batch normaliser enforces and the schedule of the retry loop.
\<close>

section \<open>Errors and property access\<close>

definition pw_error :: "jsstr \<Rightarrow> js_error" where
  "pw_error m = PrintwrightError m None None"

definition pw_status_error :: "jsstr \<Rightarrow> nat \<Rightarrow> jsval \<Rightarrow> js_error" where
  "pw_status_error m status body = PrintwrightError m (Some (Fin (of_nat status))) (Some body)"

text \<open>\<open>{...v}\<close>: the own properties of an object; an array or a string contributes its indices.\<close>

fun spread :: "jsval \<Rightarrow> (jsstr \<times> jsval) list" where
  "spread (Obj kvs) = kvs"
| "spread (Arr vs) = zip (map dec_str [0..<length vs]) vs"
| "spread (Str s) = zip (map dec_str [0..<length s]) (map (\<lambda>c. Str [c]) s)"
| "spread _ = []"

text \<open>\<open>v?.trim()\<close>: only strings have the method.\<close>

fun opt_trim :: "jsval \<Rightarrow> js_error + jsstr option" where
  "opt_trim Undef = Inr None"
| "opt_trim Null = Inr None"
| "opt_trim (Str s) = Inr (Some (js_trim s))"
| "opt_trim _ = Inl (TypeErr (js ''trim is not a function''))"

text \<open>\<open>if (!v?.trim()) throw new TypeError(...)\<close>; the string itself is what is used.\<close>

definition required_text :: "jsval \<Rightarrow> string \<Rightarrow> js_error + jsstr" where
  "required_text v name = bindE (opt_trim v) (\<lambda>t. case t of
     Some (c # cs) \<Rightarrow> (case v of Str s \<Rightarrow> Inr s | _ \<Rightarrow> Inl (TypeErr []))
   | _ \<Rightarrow> Inl (TypeErr (js name @ js '' is required'')))"

definition integer_id :: "jsval \<Rightarrow> jsstr \<Rightarrow> js_error + nat" where
  "integer_id v name = bindE (number_of v) (\<lambda>n.
     if is_safe_integer n \<and> num_lt (Fin 0) n
     then (case n of Fin q \<Rightarrow> Inr (nat \<lfloor>q\<rfloor>) | _ \<Rightarrow> Inl (TypeErr []))
     else Inl (TypeErr (name @ js '' must be a positive integer'')))"

section \<open>Response bodies and the GET loop\<close>

definition json_body :: "http_response \<Rightarrow> js_error + jsval" where
  "json_body response = bindE (res_text response) (\<lambda>body.
     if body = [] then Inr (Obj [])
     else ofOption (pw_status_error (js ''expected JSON from '' @
            (if res_url response = [] then js ''server'' else res_url response)) (res_status response) (Str body))
          (json_parse body))"

definition transient_status :: "nat \<Rightarrow> bool" where
  "transient_status status = (status = 429 \<or> 500 \<le> status)"

definition client_retry_delays :: "nat list" where
  "client_retry_delays = [250, 750, 1500]"

text \<open>One turn of the loop: the result, or the error it would throw and whether the loop may go on
  instead (before the attempts are counted).\<close>

definition get_json_once :: "'w fetcher \<Rightarrow> jsstr \<Rightarrow> 'w session \<Rightarrow> ((js_error \<times> bool) + jsval) \<times> 'w session" where
  "get_json_once f u s = (case fetchM f (get_request u) s of
     (Inl e, s') \<Rightarrow> (Inl (pw_error (js ''GET '' @ u @ js '' failed: '' @ error_message e), True), s')
   | (Inr response, s') \<Rightarrow>
       (case json_body response of
          Inl e \<Rightarrow> Inl (e, transient_status (res_status response))
        | Inr body \<Rightarrow>
            if res_ok response then Inr body
            else Inl (pw_status_error (js ''GET '' @ u @ js '' -> '' @ dec_str (res_status response))
                   (res_status response) body, transient_status (res_status response)), s'))"

function (sequential) get_json_from :: "'w fetcher \<Rightarrow> bool \<Rightarrow> jsstr \<Rightarrow> nat \<Rightarrow> ('w, jsval) prog" where
  "get_json_from f retry_transient u attempt s = (case get_json_once f u s of
     (Inr body, s') \<Rightarrow> (Inr body, s')
   | (Inl (e, transient), s') \<Rightarrow>
       if retry_transient \<and> transient \<and> attempt < length client_retry_delays
       then get_json_from f retry_transient u (attempt + 1)
              (note_event (Slept (client_retry_delays ! attempt)) s')
       else (Inl e, s'))"
  by pat_completeness auto
termination
  by (relation "measure (\<lambda>(f, r, u, attempt, s). length client_retry_delays - attempt)") auto

declare get_json_from.simps [simp del]

definition get_json :: "'w fetcher \<Rightarrow> bool \<Rightarrow> jsstr \<Rightarrow> ('w, jsval) prog" where
  "get_json f retry_transient u = get_json_from f retry_transient u 0"

section \<open>Choosing the asset\<close>

fun usdc_id :: "jsstr \<Rightarrow> jsstr" where
  "usdc_id network = (if network = js ''testnet'' then js ''0.0.429274'' else js ''0.0.456858'')"

definition hbar_id :: jsstr where
  "hbar_id = js ''0.0.0''"

text \<open>The exported table of asset ids.\<close>

definition assets :: jsval where
  "assets = Obj [
     (js ''testnet'', Obj [(js ''usdc'', Str (usdc_id (js ''testnet''))), (js ''hbar'', Str hbar_id)]),
     (js ''mainnet'', Obj [(js ''usdc'', Str (usdc_id (js ''mainnet''))), (js ''hbar'', Str hbar_id)])]"

text \<open>The asset asked for: the id behind a known name, or the text itself. The two names every
  object inherits give a built-in (\<open>None\<close>), which no candidate equals.\<close>

definition wanted_asset :: "jsval \<Rightarrow> jsstr \<Rightarrow> jsval \<Rightarrow> js_error + jsval option" where
  "wanted_asset asset network accepts =
     (if truthy asset then (case asset of
        Str a \<Rightarrow>
          Inr (if ascii_lower a = js ''hbar'' then Some (Str hbar_id)
            else if ascii_lower a = js ''usdc'' then Some (Str (usdc_id network))
            else if ascii_lower a \<in> {js ''constructor'', js ''__proto__''} then None
            else Some (Str a))
      | _ \<Rightarrow> Inl (TypeErr (js ''asset.toLowerCase is not a function'')))
      else Inr (Some (case accepts of Arr (a # as) \<Rightarrow> opt_prop a (js ''asset'') | _ \<Rightarrow> Undef)))"

fun find_candidate :: "jsval option \<Rightarrow> jsval list \<Rightarrow> js_error + jsval" where
  "find_candidate wanted [] = Inr Undef"
| "find_candidate wanted (c # cs) = bindE (get_prop c (js ''asset'')) (\<lambda>a.
     if (case wanted of None \<Rightarrow> False | Some w \<Rightarrow> strict_eq a w) then Inr c else find_candidate wanted cs)"

text \<open>Without an asset the wanted one is read from the first candidate. When it is an object, the
  search meets the same object again at once.\<close>

definition object_asset :: "jsval list \<Rightarrow> bool" where
  "object_asset cs = (case cs of [] \<Rightarrow> False | c # _ \<Rightarrow> is_object (opt_prop c (js ''asset'')))"

definition select_asset :: "jsval \<Rightarrow> jsval \<Rightarrow> jsstr \<Rightarrow> js_error + jsval" where
  "select_asset payment_required asset network =
     bindE (get_prop payment_required (js ''accepts'')) (\<lambda>accepts.
     bindE (wanted_asset asset network accepts) (\<lambda>wanted.
     bindE (if nullish accepts then Inr Undef
            else (case accepts of
                Arr cs \<Rightarrow> if \<not> truthy asset \<and> object_asset cs then Inr (hd cs) else find_candidate wanted cs
              | _ \<Rightarrow> Inl (TypeErr (js ''find is not a function'')))) (\<lambda>accepted.
     if truthy accepted then Inr accepted
     else bindE (string_of asset) (\<lambda>a.
       Inl (pw_error (js ''server does not accept asset \"'' @ a @ js ''\"''))))))"

section \<open>Batches\<close>

record line_item =
  li_model_id :: nat
  li_license :: jsval
  li_quantity :: nat

definition max_line_items :: nat where
  "max_line_items = 200"

definition max_units :: nat where
  "max_units = 250"

definition item_name :: "nat \<Rightarrow> string \<Rightarrow> jsstr" where
  "item_name i field = js ''items['' @ dec_str i @ js ''].'' @ js field"

definition normalize_item :: "nat \<times> jsval \<Rightarrow> js_error + line_item" where
  "normalize_item = (\<lambda>(i, item).
     bindE (integer_id (coalesce (opt_prop item (js ''modelId'')) (opt_prop item (js ''model_id'')))
              (item_name i ''modelId'')) (\<lambda>model_id.
     bindE (integer_id (coalesce (opt_prop item (js ''quantity'')) (jnum 1)) (item_name i ''quantity'')) (\<lambda>quantity.
       Inr \<lparr>li_model_id = model_id, li_license = or_else (opt_prop item (js ''license'')) (Str (js ''personal'')),
            li_quantity = quantity\<rparr>)))"

text \<open>The units are summed exactly; the sum of doubles differs from it only beyond \<open>2 ^ 53\<close>, where
  both exceed the limit.\<close>

definition normalize_batch_items :: "jsval \<Rightarrow> js_error + line_item list" where
  "normalize_batch_items items = (case items of
     Arr vs \<Rightarrow>
       if vs = [] \<or> max_line_items < length vs
       then Inl (TypeErr (js ''items must contain 1 to '' @ dec_str max_line_items @ js '' line items''))
       else bindE (mapE normalize_item (zip [0..<length vs] vs)) (\<lambda>normalized.
         let units = sum_list (map li_quantity normalized) in
         if max_units < units
         then Inl (TypeErr (js ''items must total at most '' @ dec_str max_units @ js '' licenses (got '' @
                dec_str units @ js '')''))
         else Inr normalized)
   | _ \<Rightarrow> Inl (TypeErr (js ''items must contain 1 to '' @ dec_str max_line_items @ js '' line items'')))"

text \<open>What \<open>new URL\<close> says of a webhook URL.\<close>

record webhook_url =
  wu_protocol :: jsstr
  wu_port :: jsstr
  wu_username :: jsstr
  wu_password :: jsstr
  wu_hash :: jsstr

definition normalize_webhook :: "(jsstr \<Rightarrow> webhook_url option) \<Rightarrow> jsval \<Rightarrow> js_error + (jsval \<times> jsstr) option" where
  "normalize_webhook parse webhook =
     (if webhook = Undef then Inr None
      else (case Option.bind (to_str (opt_prop webhook (js ''url''))) parse of
          None \<Rightarrow> Inl (TypeErr (js ''webhook.url must be a valid public HTTPS URL''))
        | Some u \<Rightarrow>
            if wu_protocol u \<noteq> js ''https:'' \<or> wu_port u \<noteq> [] \<or> wu_username u \<noteq> [] \<or> wu_password u \<noteq> [] \<or> wu_hash u \<noteq> []
            then Inl (TypeErr (js ''webhook.url must use HTTPS on port 443 without credentials or a fragment''))
            else (case opt_prop webhook (js ''secret'') of
                Str secret \<Rightarrow>
                  if byte_length secret < 32 \<or> 256 < byte_length secret
                  then Inl (TypeErr (js ''webhook.secret must be 32 to 256 bytes''))
                  else Inr (Some (opt_prop webhook (js ''url''), secret))
              | _ \<Rightarrow> Inl (TypeErr (js ''webhook.secret must be 32 to 256 bytes'')))))"

definition item_object :: "line_item \<Rightarrow> jsval" where
  "item_object i = Obj [(js ''model_id'', jnum (li_model_id i)), (js ''license'', li_license i),
     (js ''quantity'', jnum (li_quantity i))]"

definition batch_body :: "line_item list \<Rightarrow> (jsval \<times> jsstr) option \<Rightarrow> jsval" where
  "batch_body items webhook = Obj ((js ''items'', Arr (map item_object items)) #
     (case webhook of None \<Rightarrow> [] | Some (u, secret) \<Rightarrow>
        [(js ''webhook'', Obj [(js ''url'', u), (js ''secret'', Str secret)])]))"

section \<open>Facts\<close>

lemma integer_id_Inr:
  assumes "integer_id v name = Inr n"
  shows "0 < n \<and> n < 2 ^ 53 \<and> number_of v = Inr (Fin (of_nat n))"
proof -
  obtain q where q: "number_of v = Inr (Fin q)" "is_safe_integer (Fin q)" "num_lt (Fin 0) (Fin q)" "n = nat \<lfloor>q\<rfloor>"
    using assms by (auto simp: integer_id_def split: if_splits jsnum.splits simp del: is_safe_integer.simps)
  obtain i where i: "Fin q = Fin (of_int i)" "safe_int i" using q(2) by (rule safe_integerE)
  then show ?thesis using q by (auto simp: safe_int_def)
qed

lemma integer_id_nat:
  assumes "0 < n" "n < 2 ^ 53"
  shows "integer_id (jnum n) name = Inr n"
proof -
  have "positive_integer (jnum n)" using assms by (simp only: positive_integer_jnum)
  then show ?thesis
    by (simp add: integer_id_def del: is_safe_integer.simps num_lt.simps positive_integer_jnum)
qed

lemma required_text_Inr: "required_text v name = Inr s \<longleftrightarrow> v = Str s \<and> js_trim s \<noteq> []"
  by (cases v) (auto simp: required_text_def split: list.splits)

lemma find_candidate_in: "find_candidate w cs = Inr c \<Longrightarrow> truthy c \<Longrightarrow> c \<in> set cs"
  by (induction cs) (auto split: if_splits)

lemma find_candidate_asset: "find_candidate (Some w) cs = Inr c \<Longrightarrow> truthy c \<Longrightarrow> strict_eq (opt_prop c (js ''asset'')) w"
  by (induction cs) (auto simp: get_prop_Inr split: if_splits)

lemma object_asset_hd: "object_asset cs \<Longrightarrow> hd cs \<in> set cs"
  by (cases cs) (simp_all add: object_asset_def)

lemma select_assetE:
  assumes "select_asset p asset network = Inr c"
  obtains cs where "opt_prop p (js ''accepts'') = Arr cs" "c \<in> set cs" "truthy c"
proof -
  have "\<exists>cs. opt_prop p (js ''accepts'') = Arr cs \<and> c \<in> set cs \<and> truthy c"
    using assms
    by (auto simp: select_asset_def get_prop_Inr object_asset_hd dest: find_candidate_in
        split: if_splits jsval.splits)
  then show thesis using that by blast
qed

text \<open>Asking for an exported id and asking for the name it is exported under select the same entry.\<close>

lemma assets_wanted:
  assumes "network \<in> {js ''testnet'', js ''mainnet''}" "name \<in> {js ''usdc'', js ''hbar''}"
  shows "wanted_asset (opt_prop (opt_prop assets network) name) network accepts = wanted_asset (Str name) network accepts"
proof -
  have "ascii_lower (js ''usdc'') = js ''usdc''" "ascii_lower (js ''hbar'') = js ''hbar''"
    "ascii_lower hbar_id = hbar_id" "ascii_lower (usdc_id (js ''testnet'')) = usdc_id (js ''testnet'')"
    "ascii_lower (usdc_id (js ''mainnet'')) = usdc_id (js ''mainnet'')"
    by code_simp+
  then show ?thesis
    using assms by (auto simp: assets_def wanted_asset_def hbar_id_def)
qed

section \<open>The schedule of the GET loop\<close>

text \<open>One turn as a turn of the retry contract; a loop that may not retry has one turn.\<close>

definition get_json_turn :: "'w fetcher \<Rightarrow> jsstr \<Rightarrow> 'w session \<Rightarrow> ((js_error \<times> bool) + (js_error + jsval)) \<times> 'w session" where
  "get_json_turn f u s = (case get_json_once f u s of (r, s') \<Rightarrow> (map_sum (\<lambda>e. e) Inr r, s'))"

lemma trace_get_json_once: "trace (snd (get_json_once f u s)) = trace s @ [Fetched (get_request u)]"
  by (auto simp: get_json_once_def fetchM_def split: prod.splits sum.splits)

lemma get_json_turn_sel:
  "snd (get_json_turn f u s) = snd (get_json_once f u s)"
  "fst (get_json_turn f u s) = map_sum (\<lambda>e. e) Inr (fst (get_json_once f u s))"
  by (simp_all add: get_json_turn_def split: prod.splits)

interpretation client_retry: bounded_retry "get_json_turn f u"
    "\<lambda>n. note_event (Slept (client_retry_delays ! (n - 1)))" snd "\<lambda>(e, t). Inl e" 4
    "\<lambda>n. get_json_from f True u (n - 1)" trace "Fetched (get_request u)"
    "\<lambda>n. Slept (client_retry_delays ! (n - 1))"
  for f u
proof
  show "get_json_from f True u (n - 1) s =
      (case get_json_turn f u s of
         (Inl e, s') \<Rightarrow> if snd e \<and> n < 4
           then get_json_from f True u (Suc n - 1) (note_event (Slept (client_retry_delays ! (n - 1))) s')
           else ((case e of (e, t) \<Rightarrow> Inl e), s')
       | (Inr r, s') \<Rightarrow> (r, s'))" if "1 \<le> n" "n \<le> 4" for n s
  proof -
    have "n - 1 < length client_retry_delays \<longleftrightarrow> n < 4"
      using that by (auto simp: client_retry_delays_def)
    then show ?thesis
      using that by (subst get_json_from.simps) (auto simp: get_json_turn_def split: prod.splits sum.splits)
  qed
  show "trace (snd (get_json_turn f u s)) = trace s @ [Fetched (get_request u)]" for s
    by (simp add: get_json_turn_sel trace_get_json_once)
qed simp

definition client_get_events :: "jsstr \<Rightarrow> nat \<Rightarrow> event list" where
  "client_get_events u m = Fetched (get_request u) #
     concat (map (\<lambda>k. [Slept (client_retry_delays ! k), Fetched (get_request u)]) [0..<m - 1])"

lemma get_json_run:
  assumes "get_json f retry_transient u s = (r, s')"
  shows "\<exists>m s1. 1 \<le> m \<and> m \<le> (if retry_transient then 4 else 1) \<and> trace s' = trace s @ client_get_events u m \<and>
    snd (get_json_once f u s1) = s' \<and>
    (\<forall>e. r = Inl e \<longrightarrow> (\<exists>t. fst (get_json_once f u s1) = Inl (e, t) \<and> (retry_transient \<longrightarrow> t \<longrightarrow> m = 4))) \<and>
    (\<forall>v. r = Inr v \<longrightarrow> fst (get_json_once f u s1) = Inr v)"
proof (cases retry_transient)
  case True
  obtain m out where m: "1 \<le> m" "m \<le> 4"
    "trace (snd (get_json_from f True u (1 - 1) s)) = trace s @ client_retry.schedule u 1 m"
    "fst (get_json_from f True u (1 - 1) s) = (case out of Inl e \<Rightarrow> (\<lambda>(e, t). Inl e) e | Inr r \<Rightarrow> r)"
    "\<forall>e. out = Inl e \<longrightarrow> snd e \<longrightarrow> m = 4"
    "\<exists>s1. get_json_turn f u s1 = (out, snd (get_json_from f True u (1 - 1) s))"
    using client_retry.run_schedule [of f u s] by (metis numeral_le_one_iff one_le_numeral)
  have r: "get_json_from f True u 0 s = (r, s')" using assms True by (simp add: get_json_def)
  obtain s1 where s1: "get_json_turn f u s1 = (out, s')" using m(6) r by auto
  have "concat (map (\<lambda>k. [Slept (client_retry_delays ! (k - 1)), Fetched (get_request u)]) [1..<m]) =
      concat (map (\<lambda>k. [Slept (client_retry_delays ! k), Fetched (get_request u)]) [0..<m - 1])"
    using m(1) by (intro arg_cong [where f = concat] nth_equalityI) auto
  then have "trace s' = trace s @ client_get_events u m"
    using m(3) [unfolded client_retry.schedule_def] r by (simp add: client_get_events_def)
  moreover have "map_sum (\<lambda>e. e) Inr (fst (get_json_once f u s1)) = out" "snd (get_json_once f u s1) = s'"
    using s1 get_json_turn_sel [of f u s1] by simp_all
  ultimately show ?thesis
    using m r True by (intro exI [of _ m] exI [of _ s1]) (auto simp: map_sum_def split: sum.splits)
next
  case False
  then have "get_json_from f False u 0 s = (r, s')" using assms by (simp add: get_json_def)
  then show ?thesis
    using False trace_get_json_once [of f u s]
    by (intro exI [of _ 1] exI [of _ s])
      (auto simp: get_json_from.simps client_get_events_def split: prod.splits sum.splits)
qed

text \<open>With retries allowed the client's GET asks at most four times for the same URL and waits
  250, 750 and 1500 ms in between; if it ends in an error that could have been retried (a failed
  request, or status 429 or 5xx) it has asked four times. Without retries it asks once.\<close>

theorem get_json_schedule:
  assumes "get_json f retry_transient u s = (r, s')"
  shows "\<exists>m s1. 1 \<le> m \<and> m \<le> (if retry_transient then 4 else 1) \<and> trace s' = trace s @ client_get_events u m \<and>
    snd (get_json_once f u s1) = s' \<and>
    (\<forall>e. r = Inl e \<longrightarrow> (\<exists>t. fst (get_json_once f u s1) = Inl (e, t) \<and> (retry_transient \<longrightarrow> t \<longrightarrow> m = 4))) \<and>
    (\<forall>v. r = Inr v \<longrightarrow> fst (get_json_once f u s1) = Inr v)"
  by (rule get_json_run [OF assms])

lemma emits_get_json:
  assumes "P (Fetched (get_request u))" "\<And>n. P (Slept n)"
  shows "emits P (get_json f retry_transient u)"
  unfolding emits_def
proof (intro allI impI)
  fix s r s'
  assume "get_json f retry_transient u s = (r, s')"
  then obtain m where "trace s' = trace s @ client_get_events u m"
    using get_json_run by blast
  then show "\<exists>evs. trace s' = trace s @ evs \<and> (\<forall>e \<in> set evs. P e)"
    using assms by (auto simp: client_get_events_def)
qed

section \<open>Batch bounds\<close>

lemma mapE_length: "mapE f xs = Inr ys \<Longrightarrow> length ys = length xs"
  by (induction xs arbitrary: ys) auto

lemma mapE_in: "mapE f xs = Inr ys \<Longrightarrow> y \<in> set ys \<Longrightarrow> \<exists>x \<in> set xs. f x = Inr y"
  by (induction xs arbitrary: ys) auto

text \<open>C15. A batch that passes the client's normaliser has between 1 and 200 lines, as many as were
  given, each with a positive model id and quantity, and at most 250 units in all.\<close>

theorem normalize_batch_items_bounds:
  assumes "normalize_batch_items items = Inr ls"
  shows "\<exists>vs. items = Arr vs \<and> length ls = length vs \<and> 1 \<le> length ls \<and> length ls \<le> 200 \<and>
    (\<forall>i \<in> set ls. 0 < li_model_id i \<and> li_model_id i < 2 ^ 53 \<and> 0 < li_quantity i \<and> li_quantity i \<le> 250 \<and>
       truthy (li_license i)) \<and>
    sum_list (map li_quantity ls) \<le> 250"
proof -
  obtain vs where vs: "items = Arr vs" "vs \<noteq> []" "length vs \<le> 200"
    "mapE normalize_item (zip [0..<length vs] vs) = Inr ls" "sum_list (map li_quantity ls) \<le> 250"
    using assms
    by (auto simp: normalize_batch_items_def max_line_items_def max_units_def Let_def split: jsval.splits if_splits)
  have "0 < li_model_id i \<and> li_model_id i < 2 ^ 53 \<and> 0 < li_quantity i \<and> li_quantity i \<le> 250 \<and> truthy (li_license i)"
    if i: "i \<in> set ls" for i
  proof -
    have "li_quantity i \<le> sum_list (map li_quantity ls)"
      using i by (intro member_le_sum_list) auto
    moreover obtain x where "normalize_item x = Inr i" using mapE_in [OF vs(4) i] by blast
    then have "0 < li_model_id i \<and> li_model_id i < 2 ^ 53 \<and> 0 < li_quantity i \<and> truthy (li_license i)"
      by (cases x) (auto simp: normalize_item_def or_else_def dest!: integer_id_Inr)
    ultimately show ?thesis using vs(5) by simp
  qed
  then show ?thesis using vs mapE_length [OF vs(4)] by (cases vs) auto
qed

theorem get_json_schedule_witness:
  "\<exists>r s'. get_json (\<lambda>req w. (Inl SyntaxErr, w)) True (js ''u'') \<lparr>net = (), trace = []\<rparr> = (r, s') \<and>
     trace s' = client_get_events (js ''u'') 4"
proof -
  let ?f = "(\<lambda>req w. (Inl SyntaxErr, w)) :: unit fetcher" and ?s = "\<lparr>net = (), trace = []\<rparr>"
  obtain r s' where g: "get_json ?f True (js ''u'') ?s = (r, s')" by fastforce
  have once: "fst (get_json_once ?f (js ''u'') s1) = Inl (pw_error (js ''GET '' @ js ''u'' @ js '' failed: '' @ error_message SyntaxErr), True)" for s1 :: "unit session"
    by (simp add: get_json_once_def fetchM_def)
  obtain m and s1 :: "unit session" where m: "m \<le> 4" "trace s' = trace ?s @ client_get_events (js ''u'') m"
    "\<forall>e. r = Inl e \<longrightarrow> (\<exists>t. fst (get_json_once ?f (js ''u'') s1) = Inl (e, t) \<and> (t \<longrightarrow> m = 4))"
    "\<forall>v. r = Inr v \<longrightarrow> fst (get_json_once ?f (js ''u'') s1) = Inr v"
    using get_json_schedule [OF g] unfolding if_True simp_thms by (elim exE conjE) (rule that; assumption)
  have "m = 4"
  proof (cases r)
    case (Inl e)
    then show ?thesis using m(3) once by auto
  next
    case (Inr v)
    then show ?thesis using m(4) once by auto
  qed
  then show ?thesis using g m(2) by auto
qed

theorem normalize_batch_items_bounds_witness:
  "\<exists>ls. normalize_batch_items (Arr [Obj [(js ''modelId'', jnum 3)]]) = Inr ls \<and> length ls = 1"
proof -
  have n: "normalize_item (0, Obj [(js ''modelId'', jnum 3)]) = Inr \<lparr>li_model_id = 3, li_license = Str (js ''personal''), li_quantity = 1\<rparr>"
    using integer_id_nat [of 3 "item_name 0 ''modelId''"] integer_id_nat [of 1 "item_name 0 ''quantity''"]
    by (simp add: normalize_item_def coalesce_def nullish_def or_else_def del: of_nat_numeral of_nat_1)
  then obtain ls where l: "normalize_batch_items (Arr [Obj [(js ''modelId'', jnum 3)]]) = Inr ls"
    by (simp add: normalize_batch_items_def max_line_items_def max_units_def Let_def del: of_nat_numeral)
  show ?thesis using normalize_batch_items_bounds [OF l] l by auto
qed

end
