(* ===== verification/Client.thy ===== *)
theory Client
  imports ClientBase
begin

text \<open>
  \<open>PrintwrightClient\<close> of \<open>client/index.js\<close>. What the class gets from its platform (\<open>fetch\<close>,
  \<open>new URL\<close>, the x402 and Hedera libraries) is the record \<open>platform\<close>; calls of the libraries that
  sign or submit are recorded in the trace. The two WeakSets of quotes are the \<open>registry\<close>: quotes
  are frozen, so an object in the set still has the contents it was issued with, which is proved in
  \<open>Frozen\<close>. The theorems say
  what can be signed: only a selection the server offered, in a quote of this client, once.
\<close>

record 'w platform =
  p_fetch :: "'w fetcher"
  p_resolve :: "jsstr \<Rightarrow> jsstr \<Rightarrow> jsstr option"
  p_parse :: "jsstr \<Rightarrow> jsstr option"
  p_pathname :: "jsstr \<Rightarrow> jsstr"
  p_with_pathname :: "jsstr \<Rightarrow> jsstr \<Rightarrow> jsstr"
  p_buffer :: "jsval \<Rightarrow> bytes option"
  p_webhook :: "jsstr \<Rightarrow> webhook_url option"
  p_hash :: "bytes \<Rightarrow> bytes"
  p_uuid :: "'w \<Rightarrow> (js_error + jsstr) \<times> 'w"
  p_private_key :: "jsstr \<Rightarrow> js_error + jsval"
  p_required :: "(jsstr \<times> jsstr) list \<Rightarrow> jsval \<Rightarrow> js_error + jsval"
  p_create :: "jsval list \<Rightarrow> 'w \<Rightarrow> (js_error + jsval) \<times> 'w"
  p_encode :: "jsval \<Rightarrow> js_error + (jsstr \<times> jsstr) list"
  p_associate :: "jsval list \<Rightarrow> 'w \<Rightarrow> (js_error + unit) \<times> 'w"

record client =
  cl_base :: jsstr
  cl_account :: jsval
  cl_key :: jsval
  cl_network :: jsstr
  cl_auto_associate :: jsval
  cl_sandbox :: jsval

record quote =
  q_ref :: nat
  q_model_id :: nat
  q_license :: jsval
  q_resource_url :: jsstr
  q_required :: jsval
  q_accepted :: jsval
  q_sandbox :: bool
  q_headers :: "(jsstr \<times> jsstr) list"

record batch_quote =
  b_ref :: nat
  b_items :: "line_item list"
  b_webhook :: "(jsval \<times> jsstr) option"
  b_resource_url :: jsstr
  b_body :: jsstr
  b_required :: jsval
  b_accepted :: jsval
  b_sandbox :: bool
  b_headers :: "(jsstr \<times> jsstr) list"

record registry =
  reg_quotes :: "quote list"
  reg_batch_quotes :: "batch_quote list"
  reg_next :: nat

section \<open>Construction and URLs\<close>

definition new_client ::
  "'w platform \<Rightarrow> bool \<Rightarrow> jsstr \<Rightarrow> jsval \<Rightarrow> jsval \<Rightarrow> jsstr \<Rightarrow> jsval \<Rightarrow> jsval \<Rightarrow> js_error + client \<times> registry" where
  "new_client pf fetch_is_function base_url account key network auto_associate sandbox =
     (if network \<notin> {js ''testnet'', js ''mainnet''} then Inl (TypeErr (js ''network must be testnet or mainnet''))
      else if \<not> fetch_is_function then Inl (TypeErr (js ''a fetch implementation is required''))
      else bindE (ofOption (TypeErr (js ''Invalid URL'')) (p_parse pf base_url)) (\<lambda>u.
        Inr (\<lparr>cl_base = p_with_pathname pf u (drop_slash (p_pathname pf u) @ js ''/''), cl_account = account,
          cl_key = key, cl_network = network, cl_auto_associate = auto_associate, cl_sandbox = sandbox\<rparr>,
          \<lparr>reg_quotes = [], reg_batch_quotes = [], reg_next = 0\<rparr>)))"

definition api_url :: "'w platform \<Rightarrow> client \<Rightarrow> jsstr \<Rightarrow> js_error + jsstr" where
  "api_url pf cl path = ofOption (TypeErr (js ''Invalid URL'')) (p_resolve pf path (cl_base cl))"

definition encode_component :: "jsstr \<Rightarrow> js_error + jsstr" where
  "encode_component s = ofOption UriErr (encode_uri_component s)"

section \<open>Reading operations\<close>

definition set_param :: "jsstr \<Rightarrow> jsval \<Rightarrow> bool \<Rightarrow> js_error + (jsstr \<times> jsstr) list" where
  "set_param name v present = (if present then bindE (string_of v) (\<lambda>s. Inr [(name, s)]) else Inr [])"

definition search_path ::
  "jsval \<Rightarrow> jsval \<Rightarrow> jsval \<Rightarrow> jsval \<Rightarrow> jsval \<Rightarrow> jsval \<Rightarrow> js_error + jsstr" where
  "search_path query max_price material supports category collection =
     bindE (opt_trim query) (\<lambda>q.
     bindE (set_param (js ''max_price_cents'') max_price (max_price \<noteq> Undef)) (\<lambda>p1.
     bindE (set_param (js ''material'') material (truthy material)) (\<lambda>p2.
     bindE (set_param (js ''supports'') supports (supports \<noteq> Undef)) (\<lambda>p3.
     bindE (set_param (js ''category'') category (truthy category)) (\<lambda>p4.
     bindE (set_param (js ''collection'') collection (truthy collection)) (\<lambda>p5.
       Inr (js ''api/v1/models?'' @ search_params
         ((case q of Some (c # cs) \<Rightarrow> [(js ''q'', c # cs)] | _ \<Rightarrow> []) @ p1 @ p2 @ p3 @ p4 @ p5))))))))"

definition get_api :: "'w platform \<Rightarrow> client \<Rightarrow> js_error + jsstr \<Rightarrow> ('w, jsval) prog" where
  "get_api pf cl path = bindM (liftM (bindE path (api_url pf cl))) (\<lambda>u. get_json (p_fetch pf) False u)"

definition search where
  "search pf cl query max_price material supports category collection =
     get_api pf cl (search_path query max_price material supports category collection)"

definition get_model :: "'w platform \<Rightarrow> client \<Rightarrow> jsval \<Rightarrow> ('w, jsval) prog" where
  "get_model pf cl model_id =
     get_api pf cl (bindE (integer_id model_id (js ''modelId'')) (\<lambda>n. Inr (js ''api/v1/models/'' @ dec_str n)))"

definition can_path :: "jsval \<Rightarrow> jsval \<Rightarrow> jsval \<Rightarrow> js_error + jsstr" where
  "can_path cert_id use qty =
     bindE (required_text cert_id ''certId'') (\<lambda>c.
     bindE (required_text use ''use'') (\<lambda>u.
     if \<not> positive_integer qty then Inl (TypeErr (js ''qty must be a positive integer''))
     else bindE (string_of qty) (\<lambda>q. bindE (encode_component c) (\<lambda>ec.
       Inr (js ''api/v1/licenses/'' @ ec @ js ''/can?'' @ search_params [(js ''use'', u), (js ''qty'', q)])))))"

definition can :: "'w platform \<Rightarrow> client \<Rightarrow> jsval \<Rightarrow> jsval \<Rightarrow> jsval \<Rightarrow> ('w, jsval) prog" where
  "can pf cl cert_id use qty = get_api pf cl (can_path cert_id use qty)"

text \<open>The end of the operations that report a failed status with the body.\<close>

definition body_if_ok :: "string \<Rightarrow> http_response \<Rightarrow> js_error + jsval" where
  "body_if_ok what response = bindE (json_body response) (\<lambda>body.
     if res_ok response then Inr body
     else Inl (pw_status_error (js what @ js '' failed ('' @ dec_str (res_status response) @ js '')'')
            (res_status response) body))"

definition json_headers :: "(jsstr \<times> jsstr) list" where
  "json_headers = [(js ''accept'', js ''application/json''), (js ''content-type'', js ''application/json'')]"

definition report_print :: "'w platform \<Rightarrow> client \<Rightarrow> jsval \<Rightarrow> jsval \<Rightarrow> ('w, jsval) prog" where
  "report_print pf cl cert_id receipt_token =
     bindM (liftM (bindE (required_text cert_id ''certId'') (\<lambda>c.
        bindE (required_text receipt_token ''receiptToken'') (\<lambda>t.
        bindE (encode_component c) (\<lambda>ec.
        bindE (api_url pf cl (js ''api/v1/licenses/'' @ ec @ js ''/print_reports'')) (\<lambda>u. Inr (u, t))))))) (\<lambda>(u, t).
     bindM (fetchM (p_fetch pf) \<lparr>req_method = js ''POST'', req_url = u, req_headers = json_headers,
         req_body = stringify (Obj [(js ''receipt_token'', Str t)])\<rparr>) (\<lambda>response.
       liftM (body_if_ok ''print report'' response)))"

definition latest_version :: "'w platform \<Rightarrow> client \<Rightarrow> jsval \<Rightarrow> jsval \<Rightarrow> ('w, jsval) prog" where
  "latest_version pf cl cert_id receipt_token =
     bindM (liftM (bindE (required_text cert_id ''certId'') (\<lambda>c.
        bindE (required_text receipt_token ''receiptToken'') (\<lambda>t.
        bindE (encode_component c) (\<lambda>ec.
        bindE (api_url pf cl (js ''api/v1/licenses/'' @ ec @ js ''/latest-version'')) (\<lambda>u. Inr (u, t))))))) (\<lambda>(u, t).
     bindM (fetchM (p_fetch pf) \<lparr>req_method = js ''GET'', req_url = u,
         req_headers = [(js ''accept'', js ''application/json''), (js ''authorization'', js ''Bearer '' @ t)],
         req_body = None\<rparr>) (\<lambda>response.
       liftM (body_if_ok ''version check'' response)))"

section \<open>Quotes\<close>

definition sandbox_header :: "client \<Rightarrow> (jsstr \<times> jsstr) list" where
  "sandbox_header cl = (if truthy (cl_sandbox cl) then [(js ''X-Sandbox'', js ''true'')] else [])"

definition model_path :: "nat \<Rightarrow> jsval \<Rightarrow> js_error + jsstr" where
  "model_path model_id license = bindE (string_of license) (\<lambda>l.
     Inr (js ''api/v1/models/'' @ dec_str model_id @ js ''/download?'' @ search_params [(js ''license'', l)]))"

text \<open>The challenge in a 402 response, and the selection from it.\<close>

definition read_challenge :: "client \<Rightarrow> jsstr \<Rightarrow> jsval \<Rightarrow> http_response \<Rightarrow> js_error + jsval \<times> jsval \<times> bool" where
  "read_challenge cl u asset response = bindE (json_body response) (\<lambda>required.
     if res_status response \<noteq> 402
     then Inl (pw_status_error (js ''expected 402 from '' @ u @ js '', got '' @ dec_str (res_status response))
            (res_status response) required)
     else bindE (if truthy (cl_sandbox cl)
                 then bindE (get_prop required (js ''sandbox'')) (\<lambda>sb. Inr (sb = Bool True)) else Inr True) (\<lambda>labelled.
       if \<not> labelled then Inl (pw_error (js ''server did not return a sandbox payment requirement''))
       else bindE (select_asset required asset (cl_network cl)) (\<lambda>accepted.
         Inr (required, accepted, opt_prop required (js ''sandbox'') = Bool True))))"

definition quote_op ::
  "'w platform \<Rightarrow> client \<Rightarrow> registry \<Rightarrow> jsval \<Rightarrow> jsval \<Rightarrow> jsval \<Rightarrow> ('w, quote \<times> registry) prog" where
  "quote_op pf cl reg model_id license asset =
     bindM (liftM (bindE (integer_id model_id (js ''modelId'')) (\<lambda>n.
        bindE (model_path n license) (\<lambda>path. bindE (api_url pf cl path) (\<lambda>u. Inr (n, u)))))) (\<lambda>(n, u).
     bindM (fetchM (p_fetch pf) \<lparr>req_method = js ''GET'', req_url = u,
         req_headers = accept_json @ sandbox_header cl, req_body = None\<rparr>) (\<lambda>response.
     bindM (liftM (read_challenge cl u asset response)) (\<lambda>(required, accepted, sb).
       let q = \<lparr>q_ref = reg_next reg, q_model_id = n, q_license = license, q_resource_url = u,
                q_required = required, q_accepted = accepted, q_sandbox = sb, q_headers = res_headers response\<rparr>
       in retM (q, reg\<lparr>reg_quotes := q # reg_quotes reg, reg_next := Suc (reg_next reg)\<rparr>))))"

definition quote_batch_op ::
  "'w platform \<Rightarrow> client \<Rightarrow> registry \<Rightarrow> jsval \<Rightarrow> jsval \<Rightarrow> jsval \<Rightarrow> ('w, batch_quote \<times> registry) prog" where
  "quote_batch_op pf cl reg items asset webhook =
     bindM (liftM (bindE (normalize_batch_items items) (\<lambda>ls.
        bindE (normalize_webhook (p_webhook pf) webhook) (\<lambda>wh.
        bindE (api_url pf cl (js ''api/v1/batches'')) (\<lambda>u. Inr (ls, wh, u)))))) (\<lambda>(ls, wh, u).
     let body = joined (stringify (batch_body ls wh)) in
     bindM (fetchM (p_fetch pf) \<lparr>req_method = js ''POST'', req_url = u,
         req_headers = json_headers @ sandbox_header cl, req_body = Some body\<rparr>) (\<lambda>response.
     bindM (liftM (read_challenge cl u asset response)) (\<lambda>(required, accepted, sb).
       let q = \<lparr>b_ref = reg_next reg, b_items = ls, b_webhook = wh, b_resource_url = u, b_body = body,
                b_required = required, b_accepted = accepted, b_sandbox = sb, b_headers = res_headers response\<rparr>
       in retM (q, reg\<lparr>reg_batch_quotes := q # reg_batch_quotes reg, reg_next := Suc (reg_next reg)\<rparr>))))"

text \<open>\<open>paymentRequired.accepts?.some((c) => canonical(c) === canonical(accepted))\<close>\<close>

definition offered :: "jsval \<Rightarrow> jsval \<Rightarrow> js_error + bool" where
  "offered required accepted = bindE (get_prop required (js ''accepts'')) (\<lambda>accepts.
     if nullish accepts then Inr False
     else (case accepts of
         Arr cs \<Rightarrow> Inr (list_ex (\<lambda>c. canonical_client c = canonical_client accepted) cs)
       | _ \<Rightarrow> Inl (TypeErr (js ''some is not a function''))))"

definition not_offered :: js_error where
  "not_offered = TypeErr (js ''quote selection is not in the server payment requirements'')"

definition validate_quote :: "'w platform \<Rightarrow> client \<Rightarrow> registry \<Rightarrow> quote \<Rightarrow> js_error + unit" where
  "validate_quote pf cl reg q =
     (if q \<notin> set (reg_quotes reg) then Inl (TypeErr (js ''quote must come from this client.quote()''))
      else bindE (integer_id (jnum (q_model_id q)) (js ''quote.modelId'')) (\<lambda>n.
        bindE (model_path n (q_license q)) (\<lambda>path. bindE (api_url pf cl path) (\<lambda>expected.
        if q_resource_url q \<noteq> expected
        then Inl (TypeErr (js ''quote belongs to a different Printwright endpoint''))
        else bindE (offered (q_required q) (q_accepted q)) (\<lambda>ok. guardE ok not_offered)))))"

definition validate_batch_quote :: "'w platform \<Rightarrow> client \<Rightarrow> registry \<Rightarrow> batch_quote \<Rightarrow> js_error + unit" where
  "validate_batch_quote pf cl reg q =
     (if q \<notin> set (reg_batch_quotes reg) then Inl (TypeErr (js ''quote must come from this client.quoteBatch()''))
      else bindE (api_url pf cl (js ''api/v1/batches'')) (\<lambda>expected.
        if b_resource_url q \<noteq> expected
        then Inl (TypeErr (js ''quote belongs to a different Printwright endpoint''))
        else if b_body q \<noteq> joined (stringify (batch_body (b_items q) (b_webhook q)))
        then Inl (TypeErr (js ''batch quote body changed after negotiation''))
        else bindE (offered (b_required q) (b_accepted q)) (\<lambda>ok. guardE ok not_offered)))"

section \<open>Paying\<close>

definition require_signer :: "client \<Rightarrow> js_error + unit" where
  "require_signer cl = guardE (truthy (cl_account cl) \<and> truthy (cl_key cl))
     (pw_error (js ''accountId and privateKey are required to buy''))"

definition signing_key :: "'w platform \<Rightarrow> client \<Rightarrow> js_error + jsval" where
  "signing_key pf cl = (case cl_key cl of Str k \<Rightarrow> p_private_key pf k | v \<Rightarrow> Inr v)"

definition token_list_url :: "'w platform \<Rightarrow> client \<Rightarrow> js_error + jsstr" where
  "token_list_url pf cl = bindE (string_of (cl_account cl)) (\<lambda>a. bindE (encode_component a) (\<lambda>ea.
     ofOption (TypeErr (js ''Invalid URL'')) (p_parse pf (js ''https://'' @ cl_network cl @
       js ''.mirrornode.hedera.com/api/v1/accounts/'' @ ea @ js ''/tokens?token.id='' @ usdc_id (cl_network cl)))))"

text \<open>\<open>v?.length\<close> as a condition\<close>

fun has_length :: "jsval \<Rightarrow> bool" where
  "has_length (Arr vs) = (vs \<noteq> [])"
| "has_length (Str s) = (s \<noteq> [])"
| "has_length v = truthy (opt_prop v (js ''length''))"

definition ensure_usdc_associated :: "'w platform \<Rightarrow> client \<Rightarrow> ('w, unit) prog" where
  "ensure_usdc_associated pf cl =
     bindM (liftM (token_list_url pf cl)) (\<lambda>u.
     bindM (get_json (p_fetch pf) True u) (\<lambda>body.
     bindM (liftM (get_prop body (js ''tokens''))) (\<lambda>tokens.
     if has_length tokens then retM ()
     else bindM (liftM (signing_key pf cl)) (\<lambda>key.
       callM (p_associate pf) (js ''TokenAssociateTransaction'')
         [cl_account cl, key, Str (usdc_id (cl_network cl)), Str (cl_network cl)]))))"

text \<open>\<open>{ ...required, accepts: [ accepted ] }\<close>: what the payment library is given to sign.\<close>

definition restricted_challenge :: "jsval \<Rightarrow> jsval \<Rightarrow> jsval" where
  "restricted_challenge required accepted = Obj (obj_put (spread required) (js ''accepts'') (Arr [accepted]))"

definition create_call :: jsstr where
  "create_call = js ''createPaymentPayload''"

definition payment_headers ::
  "'w platform \<Rightarrow> client \<Rightarrow> (jsstr \<times> jsstr) list \<Rightarrow> jsval \<Rightarrow> jsval \<Rightarrow> ('w, (jsstr \<times> jsstr) list) prog" where
  "payment_headers pf cl headers required accepted =
     bindM (liftM (require_signer cl)) (\<lambda>_.
     bindM (if truthy (cl_auto_associate cl) \<and>
               opt_prop accepted (js ''asset'') = Str (usdc_id (cl_network cl))
            then ensure_usdc_associated pf cl else retM ()) (\<lambda>_.
     bindM (liftM (signing_key pf cl)) (\<lambda>key.
     bindM (liftM (p_required pf headers required)) (\<lambda>challenge.
     bindM (callM (p_create pf) create_call
         [cl_account cl, key, Str (cl_network cl), restricted_challenge challenge accepted]) (\<lambda>payload.
       liftM (p_encode pf payload))))))"

definition sandbox_payload :: "jsval \<Rightarrow> jsval \<Rightarrow> jsstr \<Rightarrow> jsval" where
  "sandbox_payload required accepted uuid = Obj [(js ''x402Version'', jnum 2),
     (js ''resource'', opt_prop required (js ''resource'')), (js ''accepted'', accepted),
     (js ''payload'', Obj [(js ''transaction'', Str (js ''sandbox:'' @ uuid))])]"

definition buy_sandbox ::
  "'w platform \<Rightarrow> jsstr \<Rightarrow> jsstr option \<Rightarrow> jsval \<Rightarrow> jsval \<Rightarrow> ('w, jsval) prog" where
  "buy_sandbox pf u request_body required accepted =
     bindM (callM (\<lambda>_. p_uuid pf) (js ''randomUUID'') []) (\<lambda>uuid.
     let posts = (request_body \<noteq> None \<and> request_body \<noteq> Some []);
         payload = joined (stringify (sandbox_payload required accepted uuid))
     in bindM (fetchM (p_fetch pf) \<lparr>req_method = (if posts then js ''POST'' else js ''GET''), req_url = u,
         req_headers = accept_json @ (if posts then [(js ''content-type'', js ''application/json'')] else []) @
           [(js ''X-Sandbox'', js ''true''), (js ''PAYMENT-SIGNATURE'', b64_encode (utf8_encode payload))],
         req_body = request_body\<rparr>) (\<lambda>response.
     bindM (liftM (body_if_ok ''sandbox payment'' response)) (\<lambda>body.
     bindM (liftM (get_prop body (js ''sandbox''))) (\<lambda>sb.
       if sb = Bool True then retM body
       else throwM (pw_error (js ''server returned an unlabeled sandbox receipt''))))))"

definition pay_quote :: "'w platform \<Rightarrow> client \<Rightarrow> registry \<Rightarrow> quote \<Rightarrow> ('w, jsval) prog" where
  "pay_quote pf cl reg q =
     bindM (liftM (validate_quote pf cl reg q)) (\<lambda>_.
     if q_sandbox q then buy_sandbox pf (q_resource_url q) None (q_required q) (q_accepted q)
     else bindM (payment_headers pf cl (q_headers q) (q_required q) (q_accepted q)) (\<lambda>headers.
       bindM (fetchM (p_fetch pf) \<lparr>req_method = js ''GET'', req_url = q_resource_url q,
           req_headers = accept_json @ headers, req_body = None\<rparr>) (\<lambda>response.
         liftM (body_if_ok ''payment'' response))))"

definition buy ::
  "'w platform \<Rightarrow> client \<Rightarrow> registry \<Rightarrow> jsval \<Rightarrow> jsval \<Rightarrow> jsval \<Rightarrow> quote option \<Rightarrow> ('w, jsval \<times> registry) prog" where
  "buy pf cl reg model_id license asset given =
     bindM (case given of Some q \<Rightarrow> retM (q, reg) | None \<Rightarrow> quote_op pf cl reg model_id license asset) (\<lambda>(q, reg').
     bindM (pay_quote pf cl reg' q) (\<lambda>body. retM (body, reg')))"

definition pay_batch_quote :: "'w platform \<Rightarrow> client \<Rightarrow> registry \<Rightarrow> batch_quote \<Rightarrow> ('w, jsval) prog" where
  "pay_batch_quote pf cl reg q =
     bindM (liftM (validate_batch_quote pf cl reg q)) (\<lambda>_.
     if b_sandbox q then buy_sandbox pf (b_resource_url q) (Some (b_body q)) (b_required q) (b_accepted q)
     else bindM (payment_headers pf cl (b_headers q) (b_required q) (b_accepted q)) (\<lambda>headers.
       bindM (fetchM (p_fetch pf) \<lparr>req_method = js ''POST'', req_url = b_resource_url q,
           req_headers = json_headers @ headers, req_body = Some (b_body q)\<rparr>) (\<lambda>response.
         liftM (body_if_ok ''batch payment'' response))))"

definition buy_batch ::
  "'w platform \<Rightarrow> client \<Rightarrow> registry \<Rightarrow> jsval \<Rightarrow> jsval \<Rightarrow> jsval \<Rightarrow> batch_quote option \<Rightarrow>
     ('w, jsval \<times> registry) prog" where
  "buy_batch pf cl reg items asset webhook given =
     bindM (case given of Some q \<Rightarrow> retM (q, reg) | None \<Rightarrow> quote_batch_op pf cl reg items asset webhook) (\<lambda>(q, reg').
     bindM (pay_batch_quote pf cl reg' q) (\<lambda>body. retM (body, reg')))"

section \<open>Verifying a certificate\<close>

definition with_entries :: "jsval \<Rightarrow> (jsstr \<times> jsval) list \<Rightarrow> jsval" where
  "with_entries v kvs = Obj (foldl (\<lambda>acc (k, x). obj_put acc k x) (spread v) kvs)"
  \<comment> \<open>\<open>{ ...v, k: x, ... }\<close>\<close>

definition indexing_note :: jsstr where
  "indexing_note = js ''HCS message is anchored but still indexing on the mirror node''"

definition decode_onchain :: "'w platform \<Rightarrow> jsval \<Rightarrow> js_error + jsval" where
  "decode_onchain pf mirror =
     ofOption (PrintwrightError (js ''mirror node returned an invalid certificate message'') None (Some mirror))
       (if nullish mirror then None
        else Option.bind (p_buffer pf (opt_prop mirror (js ''message''))) (\<lambda>bs. json_parse (utf8_lossy bs)))"

fun error_status :: "js_error \<Rightarrow> jsnum option" where
  "error_status (PrintwrightError m st b) = st"
| "error_status _ = None"

definition verify_mirrored :: "'w platform \<Rightarrow> jsval \<Rightarrow> jsval \<Rightarrow> js_error + jsval" where
  "verify_mirrored pf bundle mirror =
     bindE (decode_onchain pf mirror) (\<lambda>onchain.
     bindE (license_commitment (p_hash pf) (opt_prop bundle (js ''certificate'')) (opt_prop bundle (js ''blinding_nonce''))) (\<lambda>commitment.
     bindE (get_prop onchain (js ''type'')) (\<lambda>type.
       Inr (with_entries bundle
         [(js ''match'', Bool (strict_eq type (Str (js ''printwright-license-commitment'')) \<and>
            strict_eq (opt_prop onchain (js ''commitment'')) (Str commitment))),
          (js ''commitment'', Str commitment), (js ''onchain'', onchain),
          (js ''consensus_timestamp'', opt_prop mirror (js ''consensus_timestamp''))]))))"

definition mirror_target :: "'w platform \<Rightarrow> client \<Rightarrow> jsval \<Rightarrow> js_error + jsstr" where
  "mirror_target pf cl bundle =
     bindE (get_prop (opt_prop bundle (js ''hedera'')) (js ''mirror_url'')) (\<lambda>m.
     bindE (string_of m) (\<lambda>ms. ofOption (TypeErr (js ''Invalid URL'')) (p_resolve pf ms (cl_base cl))))"

definition client_verify :: "'w platform \<Rightarrow> client \<Rightarrow> jsval \<Rightarrow> ('w, jsval) prog" where
  "client_verify pf cl cert_id =
     bindM (liftM (bindE (required_text cert_id ''certId'') (\<lambda>c. bindE (encode_component c) (\<lambda>ec.
        api_url pf cl (js ''api/v1/certificates/'' @ ec))))) (\<lambda>u.
     bindM (get_json (p_fetch pf) False u) (\<lambda>bundle.
     bindM (liftM (get_prop bundle (js ''status''))) (\<lambda>status.
     if status \<notin> {Str (js ''anchored''), Str (js ''sandbox'')}
     then retM (with_entries bundle [(js ''match'', Null)])
     else bindM (catchM (bindM (liftM (mirror_target pf cl bundle)) (\<lambda>mu.
            bindM (get_json (p_fetch pf) False mu) (\<lambda>mirror. retM (Inr mirror))))
          (\<lambda>e. if error_status e = Some (Fin 404)
            then retM (Inl (with_entries bundle [(js ''match'', Null), (js ''note'', Str indexing_note)]))
            else throwM e))
        (\<lambda>r. case r of Inl v \<Rightarrow> retM v | Inr mirror \<Rightarrow> liftM (verify_mirrored pf bundle mirror)))))"

section \<open>What can be signed\<close>

fun is_signature :: "event \<Rightarrow> bool" where
  "is_signature (Called name args) = (name = create_call)"
| "is_signature _ = False"

text \<open>The event is no signature, or one for the account and network of the client whose challenge is
  restricted to \<open>accepted\<close>.\<close>

definition signs_only :: "client \<Rightarrow> jsval \<Rightarrow> event \<Rightarrow> bool" where
  "signs_only cl accepted e = (is_signature e \<longrightarrow> (\<exists>key challenge. e = Called create_call
     [cl_account cl, key, Str (cl_network cl), restricted_challenge challenge accepted]))"

lemma other_names [simp]:
  "js ''TokenAssociateTransaction'' \<noteq> create_call" "js ''randomUUID'' \<noteq> create_call"
  by (simp_all add: create_call_def)

lemma other_calls: "\<not> is_signature (Called (js ''TokenAssociateTransaction'') args)"
  "\<not> is_signature (Called (js ''randomUUID'') args)" "\<not> is_signature (Fetched req)" "\<not> is_signature (Slept n)"
  by (simp_all add: create_call_def)

lemma emits_get_json_quiet: "emits (\<lambda>e. \<not> is_signature e) (get_json f b u)"
  by (rule emits_get_json) (simp_all add: other_calls)

lemma quiet_search: "emits (\<lambda>e. \<not> is_signature e) (search pf cl a b c d e f)"
  unfolding search_def get_api_def by (intro emits_bindM trace_rules emits_get_json_quiet)

lemma quiet_client_verify: "emits (\<lambda>e. \<not> is_signature e) (client_verify pf cl v)"
  unfolding client_verify_def
  by (auto intro!: emits_bindM emits_catchM trace_rules emits_get_json_quiet split: sum.splits)

lemma quiet_can: "emits (\<lambda>e. \<not> is_signature e) (can pf cl a b c)"
  unfolding can_def get_api_def by (intro emits_bindM trace_rules emits_get_json_quiet)

lemma quiet_latest_version: "emits (\<lambda>e. \<not> is_signature e) (latest_version pf cl a b)"
  unfolding latest_version_def by (auto intro!: emits_bindM trace_rules simp: other_calls)

lemma ensure_usdc_quiet: "emits (\<lambda>e. \<not> is_signature e) (ensure_usdc_associated pf cl)"
  unfolding ensure_usdc_associated_def
  by (intro emits_bindM emits_get_json_quiet) (auto intro!: emits_bindM emits_callM trace_rules simp: other_calls)

lemma quiet_signs_only: "emits (\<lambda>e. \<not> is_signature e) p \<Longrightarrow> emits (signs_only cl a) p"
  by (erule emits_mono) (simp add: signs_only_def)

lemma payment_headers_signs: "emits (signs_only cl accepted) (payment_headers pf cl headers required accepted)"
proof -
  have "emits (signs_only cl accepted) (if truthy (cl_auto_associate cl) \<and>
      opt_prop accepted (js ''asset'') = Str (usdc_id (cl_network cl)) then ensure_usdc_associated pf cl else retM ())"
    by (auto intro: quiet_signs_only ensure_usdc_quiet trace_rules)
  moreover have "signs_only cl accepted (Called create_call
      [cl_account cl, key, Str (cl_network cl), restricted_challenge challenge accepted])" for key challenge
    by (auto simp: signs_only_def)
  ultimately show ?thesis
    unfolding payment_headers_def by (intro emits_bindM trace_rules) auto
qed

lemma payment_headers_once: "at_most is_signature 1 (payment_headers pf cl headers required accepted)"
proof -
  have q: "at_most is_signature 0 (liftM r)" "at_most is_signature 0 (retM x)" for r :: "js_error + 'x" and x :: 'y
    by (auto intro: emits_at_most trace_rules)
  have e: "at_most is_signature 0 (if b then ensure_usdc_associated pf cl else retM ())" for b
    by (auto intro: emits_at_most ensure_usdc_quiet trace_rules)
  have "at_most is_signature (0 + (0 + (0 + (0 + (1 + 0))))) (payment_headers pf cl headers required accepted)"
    unfolding payment_headers_def by (intro at_most_bindM q e at_most_callM)
  then show ?thesis by simp
qed

lemma buy_sandbox_quiet: "emits (\<lambda>e. \<not> is_signature e) (buy_sandbox pf u body required accepted)"
  unfolding buy_sandbox_def Let_def
  by (intro emits_bindM emits_callM emits_fetchM)
    (auto intro!: emits_bindM trace_rules simp: other_calls)

lemma quote_op_quiet: "emits (\<lambda>e. \<not> is_signature e) (quote_op pf cl reg model_id license asset)"
  unfolding quote_op_def Let_def
  by (intro emits_bindM trace_rules) (auto intro!: emits_bindM trace_rules simp: other_calls split: prod.splits)

lemma quote_batch_op_quiet: "emits (\<lambda>e. \<not> is_signature e) (quote_batch_op pf cl reg items asset webhook)"
  unfolding quote_batch_op_def Let_def
  by (intro emits_bindM trace_rules) (auto intro!: emits_bindM trace_rules simp: other_calls split: prod.splits)

text \<open>What a quote that may be paid looks like.\<close>

definition payable :: "'w platform \<Rightarrow> client \<Rightarrow> registry \<Rightarrow> quote \<Rightarrow> bool" where
  "payable pf cl reg q = (q \<in> set (reg_quotes reg) \<and> \<not> q_sandbox q \<and>
     (\<exists>path. model_path (q_model_id q) (q_license q) = Inr path \<and> api_url pf cl path = Inr (q_resource_url q)) \<and>
     (\<exists>cs c. opt_prop (q_required q) (js ''accepts'') = Arr cs \<and> c \<in> set cs \<and>
        canonical_client c = canonical_client (q_accepted q)))"

lemma offered_Inr_True: "offered required accepted = Inr True \<Longrightarrow>
    \<exists>cs c. opt_prop required (js ''accepts'') = Arr cs \<and> c \<in> set cs \<and> canonical_client c = canonical_client accepted"
  by (auto simp: offered_def get_prop_Inr list_ex_iff split: jsval.splits if_splits)

lemma integer_id_jnum: "integer_id (jnum n) name = Inr m \<Longrightarrow> m = n"
  using integer_id_Inr [of "jnum n" name m] by simp

lemma validate_quote_payable:
  "validate_quote pf cl reg q = Inr u \<Longrightarrow> \<not> q_sandbox q \<Longrightarrow> payable pf cl reg q"
  unfolding validate_quote_def payable_def
  by (auto split: if_splits dest!: integer_id_jnum offered_Inr_True) blast

lemma pay_quote_signs: "emits (\<lambda>e. is_signature e \<longrightarrow> payable pf cl reg q \<and> signs_only cl (q_accepted q) e) (pay_quote pf cl reg q)"
proof -
  have sb: "emits (\<lambda>e. is_signature e \<longrightarrow> payable pf cl reg q \<and> signs_only cl (q_accepted q) e)
      (buy_sandbox pf (q_resource_url q) None (q_required q) (q_accepted q))"
    by (rule emits_mono [OF buy_sandbox_quiet]) simp
  have ph: "emits (\<lambda>e. is_signature e \<longrightarrow> payable pf cl reg q \<and> signs_only cl (q_accepted q) e)
      (payment_headers pf cl (q_headers q) (q_required q) (q_accepted q))" if "payable pf cl reg q"
    by (rule emits_mono [OF payment_headers_signs]) (use that in simp)
  show ?thesis
    unfolding pay_quote_def
    by (rule emits_bindM) (auto intro!: emits_bindM trace_rules sb ph validate_quote_payable simp: run_iffs)
qed

lemma pay_quote_once: "at_most is_signature 1 (pay_quote pf cl reg q)"
proof -
  have "at_most is_signature 1 (buy_sandbox pf (q_resource_url q) None (q_required q) (q_accepted q))"
    by (rule at_most_mono [OF emits_at_most [OF buy_sandbox_quiet]]) simp
  moreover have "at_most is_signature (1 + 0) (bindM (payment_headers pf cl (q_headers q) (q_required q) (q_accepted q)) (\<lambda>headers.
      bindM (fetchM (p_fetch pf) \<lparr>req_method = js ''GET'', req_url = q_resource_url q,
        req_headers = accept_json @ headers, req_body = None\<rparr>) (\<lambda>response. liftM (body_if_ok ''payment'' response))))"
    by (intro at_most_bindM payment_headers_once emits_at_most) (auto intro!: emits_bindM trace_rules)
  ultimately have "at_most is_signature (0 + 1) (pay_quote pf cl reg q)"
    unfolding pay_quote_def by (intro at_most_bindM emits_at_most) (auto intro: trace_rules)
  then show ?thesis by simp
qed

definition justified :: "'w platform \<Rightarrow> client \<Rightarrow> registry \<Rightarrow> quote option \<Rightarrow> event \<Rightarrow> bool" where
  "justified pf cl reg given e = (is_signature e \<longrightarrow> (\<exists>q reg'. (given = Some q \<and> reg' = reg \<or> given = None) \<and>
     payable pf cl reg' q \<and> signs_only cl (q_accepted q) e))"

lemma buy_justified: "emits (justified pf cl reg given) (buy pf cl reg model_id license asset given)"
proof -
  have p: "emits (justified pf cl reg given) (pay_quote pf cl reg' q)" if "given = Some q \<and> reg' = reg \<or> given = None" for q reg'
    by (rule emits_mono [OF pay_quote_signs]) (use that in \<open>auto simp: justified_def\<close>)
  have k: "emits (justified pf cl reg None) (quote_op pf cl reg model_id license asset)"
    by (rule emits_mono [OF quote_op_quiet]) (simp add: justified_def)
  show ?thesis
    unfolding buy_def
  proof (rule emits_bindM)
    show "emits (justified pf cl reg given)
        (case given of None \<Rightarrow> quote_op pf cl reg model_id license asset | Some q \<Rightarrow> retM (q, reg))"
      using k by (cases given) (auto intro: trace_rules)
  next
    fix x s s1
    assume x: "(case given of None \<Rightarrow> quote_op pf cl reg model_id license asset | Some q \<Rightarrow> retM (q, reg)) s = (Inr x, s1)"
    obtain q reg' where q: "x = (q, reg')" by (cases x)
    then have "given = Some q \<and> reg' = reg \<or> given = None"
      using x by (cases given) (auto simp: run_iffs)
    then show "emits (justified pf cl reg given) (case x of (q, reg') \<Rightarrow> bindM (pay_quote pf cl reg' q) (\<lambda>body. retM (body, reg')))"
      unfolding q prod.case by (intro emits_bindM p trace_rules)
  qed
qed

lemma buy_once: "at_most is_signature 1 (buy pf cl reg model_id license asset given)"
proof -
  have "at_most is_signature (1 + 0) (case x of (q, reg') \<Rightarrow> bindM (pay_quote pf cl reg' q) (\<lambda>body. retM (body, reg')))" for x
  proof (cases x)
    case (Pair q reg')
    show ?thesis
      unfolding Pair prod.case by (rule at_most_bindM [OF pay_quote_once]) (intro emits_at_most trace_rules)
  qed
  moreover have "at_most is_signature 0 (case given of None \<Rightarrow> quote_op pf cl reg model_id license asset | Some q \<Rightarrow> retM (q, reg))"
    by (cases given) (auto intro: emits_at_most quote_op_quiet trace_rules)
  ultimately have "at_most is_signature (0 + (1 + 0)) (buy pf cl reg model_id license asset given)"
    unfolding buy_def by (intro at_most_bindM)
  then show ?thesis by simp
qed


text \<open>A quote object the client did not issue is refused before anything happens: no request,
  no signature, the registry unchanged.\<close>

theorem foreign_quote_refused:
  assumes "q \<notin> set (reg_quotes reg)"
  shows "buy pf cl reg model_id license asset (Some q) s =
    (Inl (TypeErr (js ''quote must come from this client.quote()'')), s)"
  using assms by (simp add: buy_def pay_quote_def validate_quote_def run_simps)

text \<open>C16. A sandbox purchase never signs, and the receipt it returns is labelled as one.\<close>

theorem sandbox_never_signs:
  assumes "buy pf cl reg model_id license asset (Some q) s = (r, s')" "q_sandbox q"
  shows "(\<exists>evs. trace s' = trace s @ evs \<and> (\<forall>e \<in> set evs. \<not> is_signature e)) \<and>
    (\<forall>body reg'. r = Inr (body, reg') \<longrightarrow> opt_prop body (js ''sandbox'') = Bool True)"
proof -
  have p: "pay_quote pf cl reg q = bindM (liftM (validate_quote pf cl reg q))
      (\<lambda>_. buy_sandbox pf (q_resource_url q) None (q_required q) (q_accepted q))"
    using assms(2) by (simp add: pay_quote_def)
  have "emits (\<lambda>e. \<not> is_signature e) (buy pf cl reg model_id license asset (Some q))"
    unfolding buy_def option.case
  proof (rule emits_bindM)
    fix x s s1
    assume "retM (q, reg) s = (Inr x, s1)"
    then have "x = (q, reg)" by (simp add: run_iffs)
    then show "emits (\<lambda>e. \<not> is_signature e) (case x of (q, reg') \<Rightarrow> bindM (pay_quote pf cl reg' q) (\<lambda>body. retM (body, reg')))"
      by (auto simp: p intro!: emits_bindM trace_rules buy_sandbox_quiet)
  qed (rule trace_rules)
  then have "\<exists>evs. trace s' = trace s @ evs \<and> (\<forall>e \<in> set evs. \<not> is_signature e)"
    using assms(1) unfolding emits_def by blast
  moreover have "opt_prop body (js ''sandbox'') = Bool True" if "r = Inr (body, reg')" for body reg'
    using assms(1) that
    by (auto simp: buy_def p buy_sandbox_def Let_def run_iffs get_prop_Inr split: if_splits)
  ultimately show ?thesis by blast
qed

section \<open>What a quote holds\<close>

lemma read_challenge_Inr:
  assumes "read_challenge cl u asset response = Inr (required, accepted, sb)"
  shows "res_status response = 402 \<and> (\<exists>cs. opt_prop required (js ''accepts'') = Arr cs \<and> accepted \<in> set cs) \<and>
    (truthy (cl_sandbox cl) \<longrightarrow> sb)"
  using assms
  by (auto simp: read_challenge_def get_prop_Inr split: if_splits elim!: select_assetE)

text \<open>C9. A quote exists only after a 402 answer, and its selection is literally one of the
  \<open>accepts\<close> entries of that answer; a client in sandbox mode gets sandbox quotes only; and the new
  quote passes the checks \<open>buy\<close> makes.\<close>

theorem quote_selection:
  assumes "quote_op pf cl reg model_id license asset s = (Inr (q, reg'), s')"
  shows "(\<exists>w response. p_fetch pf \<lparr>req_method = js ''GET'', req_url = q_resource_url q,
        req_headers = accept_json @ sandbox_header cl, req_body = None\<rparr> w = (Inr response, net s') \<and>
        res_status response = 402) \<and>
    (\<exists>cs. opt_prop (q_required q) (js ''accepts'') = Arr cs \<and> q_accepted q \<in> set cs) \<and>
    (truthy (cl_sandbox cl) \<longrightarrow> q_sandbox q) \<and> validate_quote pf cl reg' q = Inr ()"
proof -
  obtain n u path response s1 required accepted sb where
    n: "integer_id model_id (js ''modelId'') = Inr n" "model_path n license = Inr path" "api_url pf cl path = Inr u"
    and f: "fetchM (p_fetch pf) \<lparr>req_method = js ''GET'', req_url = u,
        req_headers = accept_json @ sandbox_header cl, req_body = None\<rparr> s = (Inr response, s')"
    and c: "read_challenge cl u asset response = Inr (required, accepted, sb)"
    and q: "q = \<lparr>q_ref = reg_next reg, q_model_id = n, q_license = license, q_resource_url = u,
                q_required = required, q_accepted = accepted, q_sandbox = sb, q_headers = res_headers response\<rparr>"
      "reg' = reg\<lparr>reg_quotes := q # reg_quotes reg, reg_next := Suc (reg_next reg)\<rparr>"
    using assms by (auto simp: quote_op_def Let_def run_iffs)
  obtain cs where cs: "opt_prop required (js ''accepts'') = Arr cs" "accepted \<in> set cs" "res_status response = 402"
    "truthy (cl_sandbox cl) \<longrightarrow> sb"
    using read_challenge_Inr [OF c] by blast
  have "integer_id (jnum n) (js ''quote.modelId'') = Inr n"
    using integer_id_Inr [OF n(1)] by (intro integer_id_nat) simp_all
  moreover have "offered required accepted = Inr True"
    using cs(1,2) by (cases required) (auto simp: offered_def get_prop_def nullish_def list_ex_iff)
  ultimately have "validate_quote pf cl reg' q = Inr ()"
    using n q by (simp add: validate_quote_def)
  moreover obtain w where "p_fetch pf \<lparr>req_method = js ''GET'', req_url = u,
        req_headers = accept_json @ sandbox_header cl, req_body = None\<rparr> w = (Inr response, net s')"
    using f by (elim fetchM_runE) auto
  ultimately show ?thesis using cs q(1) by auto
qed

section \<open>Batches\<close>

definition payable_batch :: "'w platform \<Rightarrow> client \<Rightarrow> registry \<Rightarrow> batch_quote \<Rightarrow> bool" where
  "payable_batch pf cl reg q = (q \<in> set (reg_batch_quotes reg) \<and> \<not> b_sandbox q \<and>
     api_url pf cl (js ''api/v1/batches'') = Inr (b_resource_url q) \<and>
     b_body q = joined (stringify (batch_body (b_items q) (b_webhook q))) \<and>
     (\<exists>cs c. opt_prop (b_required q) (js ''accepts'') = Arr cs \<and> c \<in> set cs \<and>
        canonical_client c = canonical_client (b_accepted q)))"

lemma validate_batch_quote_payable:
  "validate_batch_quote pf cl reg q = Inr u \<Longrightarrow> \<not> b_sandbox q \<Longrightarrow> payable_batch pf cl reg q"
  unfolding validate_batch_quote_def payable_batch_def
  by (auto split: if_splits dest!: offered_Inr_True) blast

lemma pay_batch_quote_emits:
  "emits (\<lambda>e. (is_signature e \<longrightarrow> payable_batch pf cl reg q \<and> signs_only cl (b_accepted q) e) \<and>
     (\<forall>req. e = Fetched req \<longrightarrow> req_method req = js ''POST'' \<longrightarrow> req_url req = b_resource_url q \<and> req_body req = Some (b_body q)))
   (pay_batch_quote pf cl reg q)"
proof -
  let ?P = "\<lambda>e. (is_signature e \<longrightarrow> payable_batch pf cl reg q \<and> signs_only cl (b_accepted q) e) \<and>
     (\<forall>req. e = Fetched req \<longrightarrow> req_method req = js ''POST'' \<longrightarrow> req_url req = b_resource_url q \<and> req_body req = Some (b_body q))"
  have g: "emits ?P (get_json f b u)" for f b u
    by (rule emits_get_json) (simp_all add: get_request_def)
  have e: "emits ?P (ensure_usdc_associated pf cl)"
    unfolding ensure_usdc_associated_def by (intro emits_bindM g) (auto intro!: emits_bindM trace_rules)
  have sb: "emits ?P (buy_sandbox pf (b_resource_url q) (Some (b_body q)) (b_required q) (b_accepted q))"
    unfolding buy_sandbox_def Let_def by (intro emits_bindM emits_callM) (auto intro!: emits_bindM trace_rules)
  have ph: "emits ?P (payment_headers pf cl (b_headers q) (b_required q) (b_accepted q))" if "payable_batch pf cl reg q"
  proof -
    have "emits ?P (if b then ensure_usdc_associated pf cl else retM ())" for b
      using e by (auto intro: trace_rules)
    then show ?thesis
      unfolding payment_headers_def
      by (intro emits_bindM trace_rules) (use that in \<open>auto simp: signs_only_def\<close>)
  qed
  show ?thesis
    unfolding pay_batch_quote_def
    by (rule emits_bindM)
      (auto intro!: emits_bindM trace_rules sb ph validate_batch_quote_payable simp: run_iffs)
qed


section \<open>Verification trusts the server for the mirror\<close>

lemma pget_obj_put: "pget (obj_put kvs k v) j = (if j = k then v else pget kvs j)"
  by (induction kvs) auto

lemma with_entries_match:
  "opt_prop (with_entries b [(js ''match'', Null)]) (js ''match'') = Null"
  "opt_prop (with_entries b [(js ''match'', Null), (js ''note'', x)]) (js ''match'') = Null"
  "opt_prop (with_entries b [(js ''match'', m), (js ''commitment'', c), (js ''onchain'', on), (js ''consensus_timestamp'', t)]) (js ''match'') = m"
  by (simp_all add: with_entries_def pget_obj_put)


text \<open>So a marketplace that answers for its own mirror can obtain a match for any certificate. The
  platform of this example sends every request to one server.\<close>

definition self_bundle :: jsval where
  "self_bundle = Obj [(js ''status'', Str (js ''anchored'')), (js ''certificate'', Obj []),
     (js ''blinding_nonce'', Str (js ''00'')), (js ''hedera'', Obj [(js ''mirror_url'', Str (js ''mine''))])]"

definition self_message :: jsval where
  "self_message = Obj [(js ''type'', Str (js ''printwright-license-commitment'')), (js ''commitment'', Str (js ''01''))]"

definition self_mirror :: jsval where
  "self_mirror = Obj [(js ''message'', Str (b64_encode (utf8_encode (emit self_message))))]"

definition self_reply :: "jsstr \<Rightarrow> jsval" where
  "self_reply u = (if u = js ''http://shop/mine'' then self_mirror else self_bundle)"

definition self_server :: "unit fetcher" where
  "self_server req w = (Inr \<lparr>res_status = 200, res_headers = [], res_url = req_url req,
     res_text = Inr (emit (self_reply (req_url req)))\<rparr>, w)"

definition self_platform :: "unit platform" where
  "self_platform = \<lparr>p_fetch = self_server, p_resolve = \<lambda>path base. Some (base @ path), p_parse = Some,
     p_pathname = \<lambda>u. [], p_with_pathname = \<lambda>u p. u,
     p_buffer = \<lambda>v. (case v of Str s \<Rightarrow> b64_decode s | _ \<Rightarrow> None),
     p_webhook = \<lambda>u. None, p_hash = \<lambda>bs. [1], p_uuid = \<lambda>w. (Inr [], w), p_private_key = \<lambda>k. Inr (Str k),
     p_required = \<lambda>h v. Inr v, p_create = \<lambda>args w. (Inr (Obj []), w),
     p_encode = \<lambda>v. Inr [(js ''PAYMENT-SIGNATURE'', js ''x'')], p_associate = \<lambda>args w. (Inr (), w)\<rparr>"

definition self_client :: client where
  "self_client = \<lparr>cl_base = js ''http://shop/'', cl_account = Str (js ''0.0.7''), cl_key = Str (js ''k''),
     cl_network = js ''testnet'', cl_auto_associate = Bool True, cl_sandbox = Bool False\<rparr>"

definition empty_session :: "unit session" where
  "empty_session = \<lparr>net = (), trace = []\<rparr>"

lemma self_plain: "json_plain (self_reply u)" "json_plain self_message"
  by (simp_all add: self_reply_def self_bundle_def self_message_def self_mirror_def)

lemma emit_nonempty: "json_plain v \<Longrightarrow> emit v \<noteq> []"
  by (erule emit_Cons) simp

lemma self_get: "get_json self_server False u s = (Inr (self_reply u), note_event (Fetched (get_request u)) s)"
proof -
  have "json_body \<lparr>res_status = 200, res_headers = [], res_url = u, res_text = Inr (emit (self_reply u))\<rparr> = Inr (self_reply u)"
    using emit_nonempty [OF self_plain(1)] json_parse_emit [OF self_plain(1)] by (simp add: json_body_def)
  then have "get_json_once self_server u s = (Inr (self_reply u), note_event (Fetched (get_request u)) s)"
    by (simp add: get_json_once_def fetchM_def self_server_def get_request_def res_ok_def note_event_def)
  then show ?thesis by (simp add: get_json_def get_json_from.simps)
qed

lemma self_decode: "decode_onchain self_platform self_mirror = Inr self_message"
proof -
  have "json_parse (utf8_lossy (utf8_encode (emit self_message))) = Some self_message"
    using utf8_lossy_encode [OF well_formed_emit [OF self_plain(2)]] json_parse_emit [OF self_plain(2)] by simp
  moreover have "opt_prop self_mirror (js ''message'') = Str (b64_encode (utf8_encode (emit self_message)))" "\<not> nullish self_mirror"
    by (simp_all add: self_mirror_def nullish_def)
  ultimately show ?thesis
    by (simp add: decode_onchain_def self_platform_def b64_decode_encode)
qed

lemma self_verified:
  "\<exists>v s'. client_verify self_platform self_client (Str (js ''c'')) empty_session = (Inr v, s') \<and>
     opt_prop v (js ''match'') = Bool True \<and>
     trace s' = map (\<lambda>u. Fetched (get_request u)) [js ''http://shop/api/v1/certificates/c'', js ''http://shop/mine'']"
proof -
  have c: "encode_component (js ''c'') = Inr (js ''c'')" "js_trim (js ''c'') \<noteq> []" by code_simp+
  have r: "self_reply (js ''http://shop/api/v1/certificates/c'') = self_bundle"
    "self_reply (js ''http://shop/mine'') = self_mirror"
    by (simp_all add: self_reply_def)
  have h: "license_commitment (\<lambda>bs. [1]) (opt_prop self_bundle (js ''certificate'')) (opt_prop self_bundle (js ''blinding_nonce'')) =
      Inr (js ''01'')"
    by code_simp
  have p: "p_fetch self_platform = self_server" "p_resolve self_platform = (\<lambda>path base. Some (base @ path))"
    "p_hash self_platform = (\<lambda>bs. [1])" "cl_base self_client = js ''http://shop/''"
    by (simp_all add: self_platform_def self_client_def)
  have u: "bindE (required_text (Str (js ''c'')) ''certId'') (\<lambda>c. bindE (encode_component c) (\<lambda>ec.
        api_url self_platform self_client (js ''api/v1/certificates/'' @ ec))) =
      Inr (js ''http://shop/api/v1/certificates/c'')"
    using c by (simp add: required_text_Inr api_url_def p flip: js_append)
  have mt: "mirror_target self_platform self_client self_bundle = Inr (js ''http://shop/mine'')"
    by (simp add: mirror_target_def self_bundle_def get_prop_def nullish_def string_of_def p flip: js_append)
  have vm: "\<exists>v. verify_mirrored self_platform self_bundle self_mirror = Inr v \<and> opt_prop v (js ''match'') = Bool True"
    using self_decode h by (simp add: verify_mirrored_def p get_prop_def with_entries_match)
      (simp add: self_message_def nullish_def)
  have st: "get_prop self_bundle (js ''status'') = Inr (Str (js ''anchored''))"
    by (simp add: self_bundle_def get_prop_def nullish_def)
  show ?thesis
    using vm unfolding client_verify_def u p
    by (simp add: run_simps self_get st mt r empty_session_def note_event_def)
qed


section \<open>Concrete purchases\<close>

definition hbar_offer :: jsval where
  "hbar_offer = Obj [(js ''asset'', Str (js ''0.0.0''))]"

definition sample_path :: jsstr where
  "sample_path = (case model_path 1 (Str (js ''personal'')) of Inr p \<Rightarrow> p | Inl e \<Rightarrow> [])"

definition sample_quote :: quote where
  "sample_quote = \<lparr>q_ref = 0, q_model_id = 1, q_license = Str (js ''personal''),
     q_resource_url = js ''http://shop/'' @ sample_path, q_required = Obj [(js ''accepts'', Arr [hbar_offer])],
     q_accepted = hbar_offer, q_sandbox = False, q_headers = []\<rparr>"

definition sample_registry :: registry where
  "sample_registry = \<lparr>reg_quotes = [sample_quote, sample_quote\<lparr>q_sandbox := True\<rparr>], reg_batch_quotes = [], reg_next = 1\<rparr>"

lemma self_platform_sel [simp]:
  "p_fetch self_platform = self_server" "p_resolve self_platform = (\<lambda>path base. Some (base @ path))"
  "cl_base self_client = js ''http://shop/''"
  by (simp_all add: self_platform_def self_client_def)

lemma sample_valid:
  assumes "q \<in> {sample_quote, sample_quote\<lparr>q_sandbox := True\<rparr>}"
  shows "validate_quote self_platform self_client sample_registry q = Inr ()"
proof -
  have "model_path 1 (Str (js ''personal'')) = Inr sample_path"
    by (simp add: sample_path_def model_path_def string_of_def)
  moreover have "integer_id (jnum 1) (js ''quote.modelId'') = Inr 1"
    by (rule integer_id_nat) simp_all
  moreover have "offered (q_required q) (q_accepted q) = Inr True"
    using assms by (auto simp: sample_quote_def offered_def get_prop_def nullish_def)
  moreover have "q_model_id q = 1" "q_license q = Str (js ''personal'')" "q_resource_url q = js ''http://shop/'' @ sample_path"
    "q \<in> set (reg_quotes sample_registry)"
    using assms by (auto simp: sample_quote_def sample_registry_def)
  ultimately show ?thesis
    unfolding validate_quote_def by (simp only: bindE.simps api_url_def self_platform_sel ofOption_simps guardE_simps if_False simp_thms)
qed

lemma self_fetch: "fetchM self_server req s = (Inr \<lparr>res_status = 200, res_headers = [], res_url = req_url req,
     res_text = Inr (emit (self_reply (req_url req)))\<rparr>, note_event (Fetched req) s)"
  by (simp add: fetchM_def self_server_def note_event_def)

lemma self_body: "body_if_ok what \<lparr>res_status = 200, res_headers = [], res_url = u, res_text = Inr (emit (self_reply u))\<rparr> = Inr (self_reply u)"
  using emit_nonempty [OF self_plain(1)] json_parse_emit [OF self_plain(1)]
  by (simp add: body_if_ok_def json_body_def res_ok_def)

lemma self_headers: "\<exists>c. payment_headers self_platform self_client [] required hbar_offer s =
    (Inr [(js ''PAYMENT-SIGNATURE'', js ''x'')], note_event (Called create_call c) s)"
proof -
  have eta: "s\<lparr>net := (), trace := t\<rparr> = s\<lparr>trace := t\<rparr>" for t
    by (cases s) simp
  show ?thesis
    by (rule exI [of _ "[Str (js ''0.0.7''), Str (js ''k''), Str (js ''testnet''),
         restricted_challenge required hbar_offer]"])
      (simp add: eta payment_headers_def run_simps require_signer_def self_client_def hbar_offer_def signing_key_def
      self_platform_def callM_def note_event_def)
qed

lemma sample_buy: "\<exists>r s'. buy self_platform self_client sample_registry Undef Undef Undef (Some sample_quote) empty_session = (Inr r, s') \<and>
    length (filter is_signature (trace s')) = 1"
proof -
  have v: "validate_quote self_platform self_client sample_registry sample_quote = Inr ()" by (rule sample_valid) simp
  have q: "q_sandbox sample_quote = False" "q_headers sample_quote = []" "q_accepted sample_quote = hbar_offer"
    by (simp_all add: sample_quote_def)
  obtain c where c: "payment_headers self_platform self_client [] (q_required sample_quote) hbar_offer empty_session =
    (Inr [(js ''PAYMENT-SIGNATURE'', js ''x'')], note_event (Called create_call c) empty_session)"
    using self_headers by blast
  have "trace empty_session = []" by (simp add: empty_session_def)
  then show ?thesis
    by (simp add: buy_def pay_quote_def run_simps v q c self_fetch self_body note_event_def)
qed


theorem foreign_quote_refused_witness:
  "buy self_platform self_client \<lparr>reg_quotes = [], reg_batch_quotes = [], reg_next = 0\<rparr> Undef Undef Undef (Some sample_quote) empty_session =
     (Inl (TypeErr (js ''quote must come from this client.quote()'')), empty_session)"
  by (rule foreign_quote_refused) simp

theorem sandbox_never_signs_witness:
  "\<exists>r s'. buy self_platform self_client sample_registry Undef Undef Undef (Some (sample_quote\<lparr>q_sandbox := True\<rparr>)) empty_session = (r, s') \<and>
     filter is_signature (trace s') = []"
proof -
  obtain r s' where b: "buy self_platform self_client sample_registry Undef Undef Undef (Some (sample_quote\<lparr>q_sandbox := True\<rparr>)) empty_session = (r, s')"
    by fastforce
  show ?thesis
    using sandbox_never_signs [OF b] b by (auto simp: empty_session_def filter_empty_conv)
qed

definition offer_server :: "unit fetcher" where
  "offer_server req w = (Inr \<lparr>res_status = 402, res_headers = [], res_url = req_url req,
     res_text = Inr (emit (Obj [(js ''accepts'', Arr [hbar_offer])]))\<rparr>, w)"

lemma sample_quote_op:
  "\<exists>q reg' s'. quote_op (self_platform\<lparr>p_fetch := offer_server\<rparr>) self_client sample_registry (jnum 1) (Str (js ''personal'')) Undef empty_session =
     (Inr (q, reg'), s') \<and> q_required q = Obj [(js ''accepts'', Arr [hbar_offer])]"
proof -
  have pl: "json_plain (Obj [(js ''accepts'', Arr [hbar_offer])])"
    by (simp add: hbar_offer_def)
  have "integer_id (jnum 1) (js ''modelId'') = Inr 1" by (rule integer_id_nat) simp_all
  then have i: "integer_id (Num (Fin 1)) (js ''modelId'') = Inr 1" by simp
  have sel: "select_asset (Obj [(js ''accepts'', Arr [hbar_offer])]) Undef n = Inr hbar_offer" for n
    by (simp add: select_asset_def wanted_asset_def object_asset_def get_prop_def nullish_def hbar_offer_def)
  have "read_challenge self_client u Undef \<lparr>res_status = 402, res_headers = [], res_url = u',
      res_text = Inr (emit (Obj [(js ''accepts'', Arr [hbar_offer])]))\<rparr> =
      Inr (Obj [(js ''accepts'', Arr [hbar_offer])], hbar_offer, False)" for u u'
    using emit_nonempty [OF pl] json_parse_emit [OF pl]
    by (simp add: read_challenge_def json_body_def self_client_def sel del: emit.simps)
  then show ?thesis
    by (simp add: quote_op_def run_simps i model_path_def string_of_def api_url_def fetchM_def offer_server_def
        self_platform_def Let_def del: emit.simps)
qed

theorem quote_selection_witness:
  "\<exists>q reg' s'. quote_op (self_platform\<lparr>p_fetch := offer_server\<rparr>) self_client sample_registry (jnum 1) (Str (js ''personal'')) Undef empty_session =
     (Inr (q, reg'), s') \<and> (\<exists>cs. opt_prop (q_required q) (js ''accepts'') = Arr cs \<and> q_accepted q \<in> set cs)"
  using sample_quote_op quote_selection by blast

definition sample_batch_quote :: batch_quote where
  "sample_batch_quote = \<lparr>b_ref = 0, b_items = [], b_webhook = None, b_resource_url = js ''http://shop/api/v1/batches'',
     b_body = js ''{}'', b_required = Null, b_accepted = Null, b_sandbox = False, b_headers = []\<rparr>"


end
