(* ===== verification/Frozen.thy ===== *)
theory Frozen
  imports Client
begin

text \<open>
  The object store behind the quotes of \<open>client/index.js\<close>. \<open>Client\<close> takes a quote for a value; in the
  program it is an object anyone may hold a reference to, and \<open>buy\<close> pays what that object says when it
  is called. Here objects live in a store, \<open>deepFreeze\<close> and the assembly of a quote work on references,
  and the theorems show that nothing a program can do to the store changes a quote: reading it later
  gives the value it was issued with, which is the value \<open>Client\<close> computes.
\<close>

section \<open>Objects and references\<close>

datatype hval = Prim jsval | Ref nat

datatype body = Elements "hval list" | Fields "(jsstr \<times> hval) list"

record js_object =
  jo_body :: body
  jo_frozen :: bool

type_synonym store = "js_object list"

definition is_frozen :: "store \<Rightarrow> nat \<Rightarrow> bool" where
  "is_frozen h a = jo_frozen (h ! a)"

definition body_of :: "store \<Rightarrow> nat \<Rightarrow> body" where
  "body_of h a = jo_body (h ! a)"

definition new_object :: "body \<Rightarrow> store \<Rightarrow> hval \<times> store" where
  "new_object b h = (Ref (length h), h @ [\<lparr>jo_body = b, jo_frozen = False\<rparr>])"

text \<open>\<open>Object.freeze\<close>\<close>

fun freeze :: "hval \<Rightarrow> store \<Rightarrow> store" where
  "freeze (Ref a) h = h[a := (h ! a)\<lparr>jo_frozen := True\<rparr>]"
| "freeze (Prim p) h = h"

text \<open>\<open>Object.values\<close>\<close>

fun object_values :: "body \<Rightarrow> hval list" where
  "object_values (Elements xs) = xs"
| "object_values (Fields kxs) = map snd kxs"

text \<open>\<open>JSON.parse\<close> and literals: a value in fresh objects, children first.\<close>

fun alloc :: "jsval \<Rightarrow> store \<Rightarrow> hval \<times> store"
  and alloc_list :: "jsval list \<Rightarrow> store \<Rightarrow> hval list \<times> store"
  and alloc_fields :: "(jsstr \<times> jsval) list \<Rightarrow> store \<Rightarrow> (jsstr \<times> hval) list \<times> store" where
  "alloc (Arr vs) h = (case alloc_list vs h of (xs, h') \<Rightarrow> new_object (Elements xs) h')"
| "alloc (Obj kvs) h = (case alloc_fields kvs h of (kxs, h') \<Rightarrow> new_object (Fields kxs) h')"
| "alloc v h = (Prim v, h)"
| "alloc_list [] h = ([], h)"
| "alloc_list (v # vs) h = (case alloc v h of (x, h1) \<Rightarrow> (case alloc_list vs h1 of (xs, h2) \<Rightarrow> (x # xs, h2)))"
| "alloc_fields [] h = ([], h)"
| "alloc_fields ((k, v) # kvs) h =
     (case alloc v h of (x, h1) \<Rightarrow> (case alloc_fields kvs h1 of (kxs, h2) \<Rightarrow> ((k, x) # kxs, h2)))"

section \<open>deepFreeze\<close>

text \<open>The recursion of \<open>deepFreeze\<close> with a call stack of \<open>n\<close> frames; \<open>None\<close> is the \<open>RangeError\<close> of a
  stack that is too small. Objects are never \<open>null\<close> or \<open>undefined\<close> here, so the first two tests of the
  code are the case of a primitive value.\<close>

primrec each :: "(hval \<Rightarrow> store \<Rightarrow> store option) \<Rightarrow> hval list \<Rightarrow> store \<Rightarrow> store option" where
  "each f [] h = Some h"
| "each f (x # xs) h = Option.bind (f x h) (each f xs)"

primrec deep_freeze :: "nat \<Rightarrow> hval \<Rightarrow> store \<Rightarrow> store option" where
  "deep_freeze 0 v h = None"
| "deep_freeze (Suc n) v h = (case v of
     Prim p \<Rightarrow> Some h
   | Ref a \<Rightarrow> if is_frozen h a then Some h
       else map_option (freeze v) (each (deep_freeze n) (object_values (body_of h a)) h))"

section \<open>What a reference reads as\<close>

text \<open>\<open>holds P h x v\<close>: in the store \<open>h\<close> the value \<open>x\<close> reads as \<open>v\<close>, and every object on the way has
  property \<open>P\<close>.\<close>

inductive holds :: "(nat \<Rightarrow> js_object \<Rightarrow> bool) \<Rightarrow> store \<Rightarrow> hval \<Rightarrow> jsval \<Rightarrow> bool" for P h where
  prim: "\<not> is_object v \<Longrightarrow> holds P h (Prim v) v"
| elements: "a < length h \<Longrightarrow> P a (h ! a) \<Longrightarrow> body_of h a = Elements xs \<Longrightarrow> list_all2 (holds P h) xs vs \<Longrightarrow>
    holds P h (Ref a) (Arr vs)"
| properties: "a < length h \<Longrightarrow> P a (h ! a) \<Longrightarrow> body_of h a = Fields kxs \<Longrightarrow>
    list_all2 (rel_prod (=) (holds P h)) kxs kvs \<Longrightarrow> holds P h (Ref a) (Obj kvs)"

inductive_simps holds_Arr: "holds P h x (Arr vs)"
inductive_simps holds_Obj: "holds P h x (Obj kvs)"
inductive_simps holds_Prim: "holds P h (Prim p) v"
inductive_cases holds_RefE: "holds P h (Ref a) v"

text \<open>How deep a value is nested: the stack frames \<open>deepFreeze\<close> needs on it.\<close>

fun depth :: "jsval \<Rightarrow> nat" where
  "depth (Arr vs) = Suc (foldr (\<lambda>v. max (depth v)) vs 0)"
| "depth (Obj kvs) = Suc (foldr (\<lambda>kv. max (depth (snd kv))) kvs 0)"
| "depth v = 0"

lemma depth_Arr: "v \<in> set vs \<Longrightarrow> depth v < depth (Arr vs)"
  by (induction vs) auto

lemma depth_Obj: "(k, v) \<in> set kvs \<Longrightarrow> depth v < depth (Obj kvs)"
  by (induction kvs) auto

text \<open>A store in which the objects with property \<open>P\<close> keep their bodies reads the same.\<close>

lemma holds_change:
  assumes "holds P h x v"
    and "\<And>a. a < length h \<Longrightarrow> P a (h ! a) \<Longrightarrow> a < length h' \<and> body_of h' a = body_of h a \<and> Q a (h' ! a)"
  shows "holds Q h' x v"
  using assms(1)
proof induction
  case (elements a xs vs)
  then show ?case using assms(2) [of a] by (auto intro!: holds.elements elim: list_all2_mono)
next
  case (properties a kxs kvs)
  then show ?case using assms(2) [of a]
    by (auto intro!: holds.properties elim!: list_all2_mono simp: rel_prod_sel)
qed (rule holds.prim)

lemma holds_append: "holds P h x v \<Longrightarrow> holds P (h @ hs) x v"
  by (erule holds_change) (simp add: body_of_def nth_append)

lemma new_object_sel:
  "fst (new_object b h) = Ref (length h)" "snd (new_object b h) = h @ [\<lparr>jo_body = b, jo_frozen = False\<rparr>]"
  by (simp_all add: new_object_def)

text \<open>Allocation only adds objects, and they read as the value.\<close>

abbreviation fresh :: "nat \<Rightarrow> nat \<Rightarrow> js_object \<Rightarrow> bool" where
  "fresh base a ob \<equiv> base \<le> a"

lemma alloc_holds_aux:
  "alloc v h = (x, h') \<Longrightarrow> \<exists>hs. h' = h @ hs \<and> list_all (\<lambda>ob. \<not> jo_frozen ob) hs \<and> holds (fresh (length h)) h' x v"
  "alloc_list vs h = (xs, h') \<Longrightarrow> \<exists>hs. h' = h @ hs \<and> list_all (\<lambda>ob. \<not> jo_frozen ob) hs \<and>
     list_all2 (holds (fresh (length h)) h') xs vs"
  "alloc_fields kvs h = (kxs, h') \<Longrightarrow> \<exists>hs. h' = h @ hs \<and> list_all (\<lambda>ob. \<not> jo_frozen ob) hs \<and>
     list_all2 (rel_prod (=) (holds (fresh (length h)) h')) kxs kvs"
proof (induction v h and vs h and kvs h arbitrary: x h' and xs h' and kxs h'
    rule: alloc_alloc_list_alloc_fields.induct)
  case (1 vs h)
  then obtain xs h1 where a: "alloc_list vs h = (xs, h1)" "x = Ref (length h1)"
    "h' = h1 @ [\<lparr>jo_body = Elements xs, jo_frozen = False\<rparr>]"
    by (auto simp: new_object_def split: prod.splits)
  with 1(1) obtain hs where "h1 = h @ hs" "list_all (\<lambda>ob. \<not> jo_frozen ob) hs"
    "list_all2 (holds (fresh (length h)) h1) xs vs" by blast
  then show ?case using a
    by (auto intro!: holds.elements elim!: list_all2_mono dest: holds_append simp: body_of_def nth_append)
next
  case (2 kvs h)
  then obtain kxs h1 where a: "alloc_fields kvs h = (kxs, h1)" "x = Ref (length h1)"
    "h' = h1 @ [\<lparr>jo_body = Fields kxs, jo_frozen = False\<rparr>]"
    by (auto simp: new_object_def split: prod.splits)
  with 2(1) obtain hs where hs: "h1 = h @ hs" "list_all (\<lambda>ob. \<not> jo_frozen ob) hs"
    "list_all2 (rel_prod (=) (holds (fresh (length h)) h1)) kxs kvs" by blast
  have "list_all2 (rel_prod (=) (holds (fresh (length h)) h')) kxs kvs"
    using hs(3) by (rule list_all2_mono) (auto simp: a(3) rel_prod_sel intro: holds_append)
  then show ?case using a hs(1,2) by (auto intro!: holds.properties simp: body_of_def nth_append)
next
  case (5 v vs h)
  then obtain y h1 ys where a: "alloc v h = (y, h1)" "alloc_list vs h1 = (ys, h')" "xs = y # ys"
    by (auto split: prod.splits)
  obtain hs1 where 1: "h1 = h @ hs1" "list_all (\<lambda>ob. \<not> jo_frozen ob) hs1" "holds (fresh (length h)) h1 y v"
    using 5(1) [OF a(1)] by blast
  obtain hs2 where 2: "h' = h1 @ hs2" "list_all (\<lambda>ob. \<not> jo_frozen ob) hs2"
    "list_all2 (holds (fresh (length h1)) h') ys vs"
    using 5(2) [OF a(1) [symmetric] a(2)] by blast
  have "list_all2 (holds (fresh (length h)) h') ys vs"
    using 2(3) by (rule list_all2_mono) (auto elim!: holds_change simp: 1(1))
  then show ?case using 1 2 a(3) by (auto dest: holds_append)
next
  case (7 k v kvs h)
  then obtain y h1 ys where a: "alloc v h = (y, h1)" "alloc_fields kvs h1 = (ys, h')" "kxs = (k, y) # ys"
    by (auto split: prod.splits)
  obtain hs1 where 1: "h1 = h @ hs1" "list_all (\<lambda>ob. \<not> jo_frozen ob) hs1" "holds (fresh (length h)) h1 y v"
    using 7(1) [OF a(1)] by blast
  obtain hs2 where 2: "h' = h1 @ hs2" "list_all (\<lambda>ob. \<not> jo_frozen ob) hs2"
    "list_all2 (rel_prod (=) (holds (fresh (length h1)) h')) ys kvs"
    using 7(2) [OF a(1) [symmetric] a(2)] by blast
  have "list_all2 (rel_prod (=) (holds (fresh (length h)) h')) ys kvs"
    using 2(3) by (rule list_all2_mono) (auto elim!: holds_change simp: 1(1) rel_prod_sel)
  then show ?case using 1 2 a(3) by (auto dest: holds_append)
qed (auto intro: holds.prim)

lemma alloc_holds:
  assumes "alloc v h = (x, h')"
  obtains hs where "h' = h @ hs" "list_all (\<lambda>ob. \<not> jo_frozen ob) hs" "holds (fresh (length h)) h' x v"
  using alloc_holds_aux(1) [OF assms] by blast


section \<open>What deepFreeze does\<close>

definition sealed_value :: "nat \<Rightarrow> store \<Rightarrow> hval \<Rightarrow> bool" where
  "sealed_value base h x = (case x of Prim p \<Rightarrow> True | Ref b \<Rightarrow> base \<le> b \<and> b < length h \<and> is_frozen h b)"

text \<open>Of the objects from \<open>base\<close> on, a frozen one refers to frozen ones only.\<close>

definition sealed :: "nat \<Rightarrow> store \<Rightarrow> bool" where
  "sealed base h = (\<forall>a < length h. base \<le> a \<longrightarrow> is_frozen h a \<longrightarrow>
     (\<forall>x \<in> set (object_values (body_of h a)). sealed_value base h x))"

definition only_freezes :: "store \<Rightarrow> store \<Rightarrow> bool" where
  "only_freezes h h' = (length h' = length h \<and>
     (\<forall>a < length h. body_of h' a = body_of h a \<and> (is_frozen h a \<longrightarrow> is_frozen h' a)))"

lemma only_freezes_refl: "only_freezes h h"
  by (simp add: only_freezes_def)

lemma only_freezes_trans: "only_freezes h h1 \<Longrightarrow> only_freezes h1 h2 \<Longrightarrow> only_freezes h h2"
  by (simp add: only_freezes_def)

lemma holds_freezes: "only_freezes h h' \<Longrightarrow> holds (fresh base) h x v \<Longrightarrow> holds (fresh base) h' x v"
  by (erule holds_change) (simp add: only_freezes_def)

lemma sealed_value_freezes: "only_freezes h h' \<Longrightarrow> sealed_value base h x \<Longrightarrow> sealed_value base h' x"
  by (auto simp: only_freezes_def sealed_value_def split: hval.splits)

lemma freeze_only_freezes: "only_freezes h (freeze x h)"
proof (cases x)
  case (Ref b)
  have "jo_body (freeze x h ! a) = jo_body (h ! a) \<and> (jo_frozen (h ! a) \<longrightarrow> jo_frozen (freeze x h ! a))"
    if "a < length h" for a
    using that Ref by (cases "b = a") simp_all
  then show ?thesis using Ref by (simp add: only_freezes_def body_of_def is_frozen_def)
qed (simp add: only_freezes_refl)

lemma freeze_sealed:
  assumes "sealed base h" "\<And>x. x \<in> set (object_values (body_of h a)) \<Longrightarrow> sealed_value base h x" "a < length h"
  shows "sealed base (freeze (Ref a) h)"
proof -
  have o: "only_freezes h (freeze (Ref a) h)" by (rule freeze_only_freezes)
  show ?thesis
    unfolding sealed_def
  proof (intro allI impI ballI)
    fix b x
    assume b: "b < length (freeze (Ref a) h)" "base \<le> b" "is_frozen (freeze (Ref a) h) b"
      "x \<in> set (object_values (body_of (freeze (Ref a) h) b))"
    then have "x \<in> set (object_values (body_of h b))" using o by (auto simp: only_freezes_def)
    moreover have "is_frozen h b" if "b \<noteq> a" using b(3) that by (simp add: is_frozen_def)
    ultimately have "sealed_value base h x" using assms b(1,2) by (cases "b = a") (auto simp: sealed_def)
    then show "sealed_value base (freeze (Ref a) h) x" by (rule sealed_value_freezes [OF o])
  qed
qed

lemma holds_values:
  assumes "holds P h (Ref a) v"
  shows "\<exists>vs. list_all2 (holds P h) (object_values (body_of h a)) vs \<and> (\<forall>w \<in> set vs. depth w < depth v)"
proof -
  consider (elements) xs vs where "v = Arr vs" "body_of h a = Elements xs" "list_all2 (holds P h) xs vs"
    | (properties) kxs kvs where "v = Obj kvs" "body_of h a = Fields kxs" "list_all2 (rel_prod (=) (holds P h)) kxs kvs"
    using assms by (rule holds_RefE) blast+
  then show ?thesis
  proof cases
    case elements
    then show ?thesis using depth_Arr by (intro exI [of _ vs]) (simp del: depth.simps)
  next
    case properties
    then have "list_all2 (holds P h) (map snd kxs) (map snd kvs)"
      by (auto simp: list_all2_map1 list_all2_map2 rel_prod_sel elim: list_all2_mono)
    then show ?thesis using properties depth_Obj by (intro exI [of _ "map snd kvs"]) (auto simp del: depth.simps)
  qed
qed

definition seals :: "nat \<Rightarrow> store option \<Rightarrow> store \<Rightarrow> hval list \<Rightarrow> bool" where
  "seals base r h xs = (\<exists>h'. r = Some h' \<and> only_freezes h h' \<and> sealed base h' \<and> (\<forall>x \<in> set xs. sealed_value base h' x))"

lemma each_seals:
  assumes "list_all2 (holds (fresh base) h) xs vs" "sealed base h"
    and "\<And>x v h. v \<in> set vs \<Longrightarrow> holds (fresh base) h x v \<Longrightarrow> sealed base h \<Longrightarrow> seals base (f x h) h [x]"
  shows "seals base (each f xs h) h xs"
  using assms
proof (induction xs arbitrary: vs h)
  case Nil
  then show ?case by (simp add: only_freezes_refl seals_def)
next
  case (Cons x xs)
  obtain w ws where vs: "vs = w # ws" "holds (fresh base) h x w" "list_all2 (holds (fresh base) h) xs ws"
    using Cons.prems(1) by (auto simp: list_all2_Cons1)
  have "seals base (f x h) h [x]" by (rule Cons.prems(3)) (use vs Cons.prems(2) in simp_all)
  then obtain h1 where 1: "f x h = Some h1" "only_freezes h h1" "sealed base h1" "sealed_value base h1 x"
    by (auto simp: seals_def)
  have "seals base (each f xs h1) h1 xs"
  proof (rule Cons.IH)
    show "list_all2 (holds (fresh base) h1) xs ws"
      using vs(3) by (rule list_all2_mono) (rule holds_freezes [OF 1(2)])
  qed (use 1(3) Cons.prems(3) vs(1) in auto)
  then show ?case using 1 by (auto simp: seals_def intro: only_freezes_trans sealed_value_freezes)
qed

lemma deep_freeze_seals:
  assumes "holds (fresh base) h x v" "sealed base h" "depth v < n"
  shows "seals base (deep_freeze n x h) h [x]"
  using assms
proof (induction n arbitrary: h x v)
  case 0
  then show ?case by simp
next
  case (Suc n)
  show ?case
  proof (cases x)
    case (Prim p)
    then show ?thesis using Suc.prems(2) by (simp add: only_freezes_refl sealed_value_def seals_def)
  next
    case (Ref a)
    have a: "a < length h" "base \<le> a" using Suc.prems(1) Ref by (auto elim: holds_RefE)
    show ?thesis
    proof (cases "is_frozen h a")
      case True
      then show ?thesis using Ref a Suc.prems(2) by (simp add: only_freezes_refl sealed_value_def seals_def)
    next
      case False
      obtain vs where vs: "list_all2 (holds (fresh base) h) (object_values (body_of h a)) vs"
        "\<forall>w \<in> set vs. depth w < depth v"
        using holds_values [OF Suc.prems(1) [unfolded Ref]] by blast
      have "seals base (each (deep_freeze n) (object_values (body_of h a)) h) h (object_values (body_of h a))"
        by (rule each_seals [OF vs(1) Suc.prems(2)], rule Suc.IH) (use vs(2) Suc.prems(3) in fastforce)+
      then obtain h1 where 1: "each (deep_freeze n) (object_values (body_of h a)) h = Some h1" "only_freezes h h1"
        "sealed base h1" "\<forall>y \<in> set (object_values (body_of h a)). sealed_value base h1 y"
        by (auto simp: seals_def)
      then have "sealed base (freeze x h1)"
        unfolding Ref using a(1) by (intro freeze_sealed) (auto simp: only_freezes_def)
      moreover have "sealed_value base (freeze x h1) x"
        using Ref a 1(2) by (simp add: sealed_value_def is_frozen_def only_freezes_def)
      ultimately show ?thesis
        using Ref False 1(1) only_freezes_trans [OF 1(2) freeze_only_freezes [of h1 x]] by (auto simp: seals_def)
    qed
  qed
qed

section \<open>What other code can do\<close>

text \<open>Any code that runs after: it gives an object another body (by an assignment, \<open>delete\<close>,
  \<open>Object.defineProperty\<close>, \<open>push\<close>, \<open>sort\<close>), freezes one, or makes new ones. On a frozen object the first
  throws or, in sloppy code, does nothing; in either case the object keeps its body.\<close>

datatype mutation = Write nat body | Freeze nat | Create body

fun mutate :: "mutation \<Rightarrow> store \<Rightarrow> store" where
  "mutate (Write a b) h = (if a < length h \<and> \<not> is_frozen h a then h[a := (h ! a)\<lparr>jo_body := b\<rparr>] else h)"
| "mutate (Freeze a) h = freeze (Ref a) h"
| "mutate (Create b) h = snd (new_object b h)"

definition run_mutations :: "mutation list \<Rightarrow> store \<Rightarrow> store" where
  "run_mutations ms h = fold mutate ms h"

abbreviation frozen_at :: "nat \<Rightarrow> js_object \<Rightarrow> bool" where
  "frozen_at a ob \<equiv> jo_frozen ob"

lemma sealed_holds:
  assumes "holds (fresh base) h x v" "sealed base h" "sealed_value base h x"
  shows "holds frozen_at h x v"
  using assms(1,3)
proof induction
  case (elements a xs vs)
  then have "\<forall>y \<in> set xs. sealed_value base h y"
    using assms(2) by (fastforce simp: sealed_def sealed_value_def)
  then have "list_all2 (holds frozen_at h) xs vs"
    using elements(4) by (auto simp: list_all2_conv_all_nth)
  then show ?case using elements by (auto intro!: holds.elements simp: sealed_value_def is_frozen_def)
next
  case (properties a kxs kvs)
  then have "\<forall>y \<in> snd ` set kxs. sealed_value base h y"
    using assms(2) by (fastforce simp: sealed_def sealed_value_def)
  then have "list_all2 (rel_prod (=) (holds frozen_at h)) kxs kvs"
    using properties(4) by (fastforce simp: list_all2_conv_all_nth rel_prod_sel)
  then show ?case using properties by (auto intro!: holds.properties simp: sealed_value_def is_frozen_def)
qed (rule holds.prim)

lemma mutate_keeps: "holds frozen_at h x v \<Longrightarrow> holds frozen_at (mutate m h) x v"
proof (erule holds_change)
  fix a assume a: "a < length h" "jo_frozen (h ! a)"
  show "a < length (mutate m h) \<and> body_of (mutate m h) a = body_of h a \<and> jo_frozen (mutate m h ! a)"
  proof (cases m)
    case (Write b bd)
    then show ?thesis using a by (cases "b = a") (simp_all add: body_of_def is_frozen_def)
  next
    case (Freeze b)
    then show ?thesis using a by (cases "b = a") (simp_all add: body_of_def)
  next
    case (Create b)
    then show ?thesis using a by (simp add: body_of_def new_object_def nth_append)
  qed
qed

text \<open>A value whose objects are all frozen reads the same whatever code runs.\<close>

lemma frozen_stays: "holds frozen_at h x v \<Longrightarrow> holds frozen_at (run_mutations ms h) x v"
  unfolding run_mutations_def by (induction ms arbitrary: h) (simp_all add: mutate_keeps)

lemma alloc_sealed:
  assumes "alloc v h = (x, h')" "sealed base h" "base \<le> length h"
  shows "sealed base h'"
proof -
  obtain hs where hs: "h' = h @ hs" "list_all (\<lambda>ob. \<not> jo_frozen ob) hs"
    using alloc_holds [OF assms(1)] by blast
  have "sealed_value base h' y"
    if "a < length h'" "base \<le> a" "is_frozen h' a" "y \<in> set (object_values (body_of h' a))" for a y
  proof -
    have a: "a < length h"
      using that(1,3) hs by (auto simp: is_frozen_def nth_append list_all_length split: if_splits)
    then have "sealed_value base h y"
      using assms(2) that hs(1) by (auto simp: sealed_def is_frozen_def body_of_def nth_append)
    then show ?thesis by (auto simp: sealed_value_def hs(1) is_frozen_def nth_append split: hval.splits)
  qed
  then show ?thesis by (simp add: sealed_def)
qed

lemma deep_freeze_fresh:
  assumes "holds (fresh base) h x v" "sealed base h" "depth v < n"
  obtains h' where "deep_freeze n x h = Some h'" "only_freezes h h'" "sealed base h'" "holds frozen_at h' x v"
proof -
  obtain h' where "deep_freeze n x h = Some h'" "only_freezes h h'" "sealed base h'" "sealed_value base h' x"
    using deep_freeze_seals [OF assms] by (auto simp: seals_def)
  then show thesis using that sealed_holds holds_freezes [OF _ assms(1)] by blast
qed

text \<open>\<open>deepFreeze(JSON.parse(text))\<close>: the whole value is frozen, once the stack is as deep as the value.\<close>

lemma alloc_fresh: "alloc v h = (x, h') \<Longrightarrow> base \<le> length h \<Longrightarrow> holds (fresh base) h' x v"
  by (erule alloc_holds) (auto elim: holds_change)

lemma deep_freeze_alloc:
  assumes "alloc v h = (x, h1)" "sealed base h" "base \<le> length h" "depth v < n"
  obtains h2 where "deep_freeze n x h1 = Some h2" "only_freezes h1 h2" "sealed base h2" "holds frozen_at h2 x v"
  using deep_freeze_fresh [OF alloc_fresh alloc_sealed] assms by metis

section \<open>Selecting on references\<close>

definition field_ref :: "store \<Rightarrow> hval \<Rightarrow> jsstr \<Rightarrow> hval" where
  "field_ref h x k = (case x of
     Prim p \<Rightarrow> Prim Undef
   | Ref a \<Rightarrow> (case body_of h a of
       Elements xs \<Rightarrow> Prim Undef
     | Fields kxs \<Rightarrow> (case map_of kxs k of None \<Rightarrow> Prim Undef | Some y \<Rightarrow> y)))"

fun ref_nullish :: "hval \<Rightarrow> bool" where
  "ref_nullish (Prim p) = nullish p"
| "ref_nullish (Ref a) = False"

fun ref_truthy :: "hval \<Rightarrow> bool" where
  "ref_truthy (Prim p) = truthy p"
| "ref_truthy (Ref a) = True"

text \<open>\<open>===\<close>: objects are equal when they are the same.\<close>

fun ref_eq :: "hval \<Rightarrow> hval \<Rightarrow> bool" where
  "ref_eq (Prim p) (Prim q) = strict_eq p q"
| "ref_eq (Ref a) (Ref b) = (a = b)"
| "ref_eq _ _ = False"

definition elements_ref :: "store \<Rightarrow> hval \<Rightarrow> hval list option" where
  "elements_ref h x = (case x of
     Prim p \<Rightarrow> None
   | Ref a \<Rightarrow> (case body_of h a of Elements xs \<Rightarrow> Some xs | Fields kxs \<Rightarrow> None))"

definition wanted_ref :: "store \<Rightarrow> jsval \<Rightarrow> jsstr \<Rightarrow> hval \<Rightarrow> js_error + hval option" where
  "wanted_ref h asset network accepts =
     (if truthy asset then bindE (wanted_asset asset network Undef) (\<lambda>w. Inr (map_option Prim w))
      else Inr (Some (case elements_ref h accepts of
          Some (c # cs) \<Rightarrow> field_ref h c (js ''asset'')
        | _ \<Rightarrow> Prim Undef)))"

fun find_ref :: "store \<Rightarrow> hval option \<Rightarrow> hval list \<Rightarrow> js_error + hval" where
  "find_ref h wanted [] = Inr (Prim Undef)"
| "find_ref h wanted (c # cs) =
     (if ref_nullish c then Inl (TypeErr [])
      else if (case wanted of None \<Rightarrow> False | Some w \<Rightarrow> ref_eq (field_ref h c (js ''asset'')) w) then Inr c
      else find_ref h wanted cs)"

definition select_ref :: "store \<Rightarrow> hval \<Rightarrow> jsval \<Rightarrow> jsstr \<Rightarrow> js_error + hval" where
  "select_ref h required asset network =
     (if ref_nullish required then Inl (TypeErr []) else
      let accepts = field_ref h required (js ''accepts'') in
      bindE (wanted_ref h asset network accepts) (\<lambda>wanted.
      bindE (if ref_nullish accepts then Inr (Prim Undef)
             else (case elements_ref h accepts of
                 Some cs \<Rightarrow> find_ref h wanted cs
               | None \<Rightarrow> Inl (TypeErr (js ''find is not a function'')))) (\<lambda>accepted.
      if ref_truthy accepted then Inr accepted
      else bindE (string_of asset) (\<lambda>a.
        Inl (pw_error (js ''server does not accept asset \"'' @ a @ js ''\"''))))))"

lemma holds_undef [simp]: "holds P h (Prim Undef) Undef"
  by (rule holds.prim) simp

lemma holds_map_of:
  assumes "list_all2 (rel_prod (=) (holds P h)) kxs kvs"
  shows "holds P h (case map_of kxs k of None \<Rightarrow> Prim Undef | Some y \<Rightarrow> y) (pget kvs k)"
  using assms
proof (induction kxs kvs rule: list_all2_induct)
  case (Cons a xs b ys)
  then show ?case by (cases a; cases b) (auto simp: pget_def split: option.splits)
qed (simp add: pget_def)

lemma holds_field: "holds P h x v \<Longrightarrow> holds P h (field_ref h x k) (opt_prop v k)"
proof (induction rule: holds.cases)
  case (prim v')
  then show ?case by (cases v') (simp_all add: field_ref_def)
next
  case (properties a kxs kvs)
  then show ?case using holds_map_of [of P h kxs kvs k] by (simp add: field_ref_def)
qed (simp add: field_ref_def)

lemma holds_tests:
  assumes "holds P h x v"
  shows "ref_nullish x = nullish v" "ref_truthy x = truthy v"
  using assms by (cases rule: holds.cases; simp add: nullish_def)+

lemma holds_eq:
  assumes "holds P h x v"
  shows "ref_eq x (Prim w) = strict_eq v w"
  using assms by (cases rule: holds.cases) simp_all

lemma holds_Prim_iff: "\<not> is_object v \<Longrightarrow> holds P h x v \<longleftrightarrow> x = Prim v"
  by (auto elim: holds.cases intro: holds.prim)

lemma holds_object: "holds P h x v \<Longrightarrow> is_object v \<Longrightarrow> \<exists>a. x = Ref a"
  by (auto elim: holds.cases)

lemma holds_elements: "holds P h x v \<Longrightarrow>
    (case v of Arr vs \<Rightarrow> \<exists>xs. elements_ref h x = Some xs \<and> list_all2 (holds P h) xs vs | _ \<Rightarrow> elements_ref h x = None)"
  by (erule holds.cases) (auto simp: elements_ref_def split: jsval.splits)

abbreviation reads_as :: "store \<Rightarrow> js_error + hval \<Rightarrow> js_error + jsval \<Rightarrow> bool" where
  "reads_as h \<equiv> rel_sum (=) (holds frozen_at h)"

lemma find_ref_reads:
  assumes "list_all2 (holds frozen_at h) xs vs"
  shows "reads_as h (find_ref h (map_option Prim w) xs) (find_candidate w vs)"
  using assms
proof (induction xs vs rule: list_all2_induct)
  case (Cons x xs v vs)
  then show ?case
    using holds_tests(1) [OF Cons.hyps(1)] holds_eq [OF holds_field [OF Cons.hyps(1)]]
    by (cases w) (auto simp: get_prop_def)
qed simp

lemma reads_bind:
  assumes "reads_as h m m'" "\<And>x v. holds frozen_at h x v \<Longrightarrow> m = Inr x \<Longrightarrow> m' = Inr v \<Longrightarrow> reads_as h (f x) (f' v)"
  shows "reads_as h (bindE m f) (bindE m' f')"
  using assms by (cases m; cases m') auto

text \<open>Selecting on the frozen objects gives the object that reads as the value \<open>Client\<close> selects.\<close>

lemma wanted_find_reads:
  assumes "holds frozen_at h y (Arr vs)"
  shows "reads_as h
    (bindE (wanted_ref h asset network y) (\<lambda>w. case elements_ref h y of
        Some xs \<Rightarrow> find_ref h w xs | None \<Rightarrow> Inl (TypeErr (js ''find is not a function''))))
    (bindE (wanted_asset asset network (Arr vs)) (\<lambda>w.
        if \<not> truthy asset \<and> object_asset vs then Inr (hd vs) else find_candidate w vs))"
proof -
  obtain xs where xs: "elements_ref h y = Some xs" "list_all2 (holds frozen_at h) xs vs"
    using holds_elements [OF assms] by auto
  show ?thesis
  proof (cases "truthy asset")
    case True
    have "wanted_asset asset network (Arr vs) = wanted_asset asset network Undef"
      using True by (simp add: wanted_asset_def)
    then show ?thesis using True xs find_ref_reads [OF xs(2)]
      by (cases "wanted_asset asset network Undef") (simp_all add: wanted_ref_def)
  next
    case asset: False
    show ?thesis
    proof (cases vs)
      case Nil
      then show ?thesis using asset xs by (simp add: wanted_ref_def wanted_asset_def object_asset_def)
    next
      case (Cons v vs')
      then obtain x xs' where x: "xs = x # xs'" "holds frozen_at h x v"
        using xs(2) by (auto simp: list_all2_Cons2)
      have f: "holds frozen_at h (field_ref h x (js ''asset'')) (opt_prop v (js ''asset''))"
        by (rule holds_field [OF x(2)])
      show ?thesis
      proof (cases "is_object (opt_prop v (js ''asset''))")
        case True
        then obtain a where "field_ref h x (js ''asset'') = Ref a" using holds_object [OF f] by blast
        moreover have "\<not> nullish v" using True by (auto simp: nullish_def)
        ultimately show ?thesis
          using True asset xs x Cons holds_tests(1) [OF x(2)]
          by (simp add: wanted_ref_def wanted_asset_def object_asset_def)
      next
        case False
        then have "field_ref h x (js ''asset'') = Prim (opt_prop v (js ''asset''))"
          using f by (simp add: holds_Prim_iff)
        then show ?thesis
          using False asset xs(1) x(1) Cons find_ref_reads [OF xs(2), of "Some (opt_prop v (js ''asset''))"]
          by (simp add: wanted_ref_def wanted_asset_def object_asset_def)
      qed
    qed
  qed
qed

lemma select_ref_reads:
  assumes "holds frozen_at h x v"
  shows "reads_as h (select_ref h x asset network) (select_asset v asset network)"
proof (cases "nullish v")
  case True
  then show ?thesis using holds_tests(1) [OF assms] by (simp add: select_ref_def select_asset_def get_prop_def)
next
  case False
  define y where "y = field_ref h x (js ''accepts'')"
  define u where "u = opt_prop v (js ''accepts'')"
  have y: "holds frozen_at h y u" unfolding y_def u_def by (rule holds_field [OF assms])
  have found: "reads_as h
    (bindE (wanted_ref h asset network y) (\<lambda>w. if ref_nullish y then Inr (Prim Undef) else (case elements_ref h y of
        Some xs \<Rightarrow> find_ref h w xs | None \<Rightarrow> Inl (TypeErr (js ''find is not a function'')))))
    (bindE (wanted_asset asset network u) (\<lambda>w. if nullish u then Inr Undef else (case u of
        Arr cs \<Rightarrow> if \<not> truthy asset \<and> object_asset cs then Inr (hd cs) else find_candidate w cs
      | _ \<Rightarrow> Inl (TypeErr (js ''find is not a function'')))))"
  proof (cases "\<exists>vs. u = Arr vs")
    case True
    then show ?thesis using wanted_find_reads holds_tests(1) [OF y] y by (auto simp: nullish_def)
  next
    case False
    have n: "elements_ref h y = None" using False holds_elements [OF y] by (cases u) auto
    have "wanted_asset asset network u = bindE (wanted_asset asset network Undef) Inr"
      using False by (cases "wanted_asset asset network Undef"; cases u) (auto simp: wanted_asset_def split: if_splits)
    then show ?thesis using n False holds_tests(1) [OF y]
      by (cases "wanted_asset asset network Undef"; cases u)
        (auto simp: wanted_ref_def wanted_asset_def nullish_def split: if_splits)
  qed
  have tail: "reads_as h (if ref_truthy a then Inr a else bindE (string_of asset) (\<lambda>t. Inl (g t)))
      (if truthy c then Inr c else bindE (string_of asset) (\<lambda>t. Inl (g t)))" if "holds frozen_at h a c" for a c g
    using that holds_tests(2) [OF that] by (cases "string_of asset") auto
  from reads_bind [OF found tail] show ?thesis
    using False holds_tests(1) [OF assms]
    by (simp add: select_ref_def select_asset_def get_prop_def bindE_assoc Let_def flip: y_def u_def)
qed

section \<open>The objects of a quote\<close>

text \<open>The challenge of a 402 response as \<open>quote\<close> and \<open>quoteBatch\<close> keep it: parsed, and frozen through and
  through.\<close>

definition challenge_ref ::
  "nat \<Rightarrow> client \<Rightarrow> jsstr \<Rightarrow> http_response \<Rightarrow> store \<Rightarrow> js_error + hval \<times> store" where
  "challenge_ref n cl u response h = bindE (json_body response) (\<lambda>parsed.
     case alloc parsed h of (required, h1) \<Rightarrow>
     bindE (ofOption RangeErr (deep_freeze n required h1)) (\<lambda>h2.
     if res_status response \<noteq> 402
     then Inl (pw_status_error (js ''expected 402 from '' @ u @ js '', got '' @ dec_str (res_status response))
            (res_status response) parsed)
     else if truthy (cl_sandbox cl) \<and> ref_nullish required then Inl (TypeErr [])
     else if truthy (cl_sandbox cl) \<and> field_ref h2 required (js ''sandbox'') \<noteq> Prim (Bool True)
     then Inl (pw_error (js ''server did not return a sandbox payment requirement''))
     else Inr (required, h2)))"

text \<open>\<open>Object.freeze({ ... })\<close>; the headers are such an object.\<close>

definition frozen_literal :: "(jsstr \<times> hval) list \<Rightarrow> store \<Rightarrow> hval \<times> store" where
  "frozen_literal kxs h = (case new_object (Fields kxs) h of (x, h') \<Rightarrow> (x, freeze x h'))"

definition headers_ref :: "http_response \<Rightarrow> store \<Rightarrow> hval \<times> store" where
  "headers_ref response = frozen_literal (map (\<lambda>(k, v). (k, Prim (Str v))) (res_headers response))"

definition is_sandbox :: "store \<Rightarrow> hval \<Rightarrow> bool" where
  "is_sandbox h required = (field_ref h required (js ''sandbox'') = Prim (Bool True))"

text \<open>The quote of one license; \<open>license\<close> is the caller's value.\<close>

definition quote_ref ::
  "nat \<Rightarrow> client \<Rightarrow> jsval \<Rightarrow> nat \<Rightarrow> hval \<Rightarrow> jsstr \<Rightarrow> http_response \<Rightarrow> store \<Rightarrow> js_error + hval \<times> store" where
  "quote_ref n cl asset model_id license u response h =
     bindE (challenge_ref n cl u response h) (\<lambda>(required, h2).
     bindE (select_ref h2 required asset (cl_network cl)) (\<lambda>accepted.
     case headers_ref response h2 of (headers, h3) \<Rightarrow>
     Inr (frozen_literal
       [(js ''modelId'', Prim (jnum model_id)), (js ''license'', license), (js ''resourceUrl'', Prim (Str u)),
        (js ''paymentRequired'', required), (js ''accepted'', accepted),
        (js ''sandbox'', Prim (Bool (is_sandbox h2 required))), (js ''responseHeaders'', headers)] h3)))"

text \<open>The quote of a batch; \<open>items\<close> and \<open>webhook\<close> are the objects \<open>normalizeBatchItems\<close> and
  \<open>normalizeWebhook\<close> have made.\<close>

definition batch_quote_ref ::
  "nat \<Rightarrow> client \<Rightarrow> jsval \<Rightarrow> hval \<Rightarrow> hval \<Rightarrow> jsstr \<Rightarrow> jsstr \<Rightarrow> http_response \<Rightarrow> store \<Rightarrow> js_error + hval \<times> store" where
  "batch_quote_ref n cl asset items webhook u request_body response h =
     bindE (challenge_ref n cl u response h) (\<lambda>(required, h2).
     bindE (ofOption RangeErr (deep_freeze n items h2)) (\<lambda>h3.
     bindE (ofOption RangeErr (deep_freeze n webhook h3)) (\<lambda>h4.
     bindE (select_ref h4 required asset (cl_network cl)) (\<lambda>accepted.
     case headers_ref response h4 of (headers, h5) \<Rightarrow>
     Inr (frozen_literal
       [(js ''items'', items), (js ''webhook'', webhook), (js ''resourceUrl'', Prim (Str u)),
        (js ''requestBody'', Prim (Str request_body)), (js ''paymentRequired'', required), (js ''accepted'', accepted),
        (js ''sandbox'', Prim (Bool (is_sandbox h4 required))), (js ''responseHeaders'', headers)] h5)))))"

text \<open>The value \<open>Client\<close> has for a quote, as the text of its properties.\<close>

definition headers_value :: "(jsstr \<times> jsstr) list \<Rightarrow> jsval" where
  "headers_value hs = Obj (map (\<lambda>(k, v). (k, Str v)) hs)"

definition quote_value :: "quote \<Rightarrow> jsval" where
  "quote_value q = Obj
     [(js ''modelId'', jnum (q_model_id q)), (js ''license'', q_license q), (js ''resourceUrl'', Str (q_resource_url q)),
      (js ''paymentRequired'', q_required q), (js ''accepted'', q_accepted q), (js ''sandbox'', Bool (q_sandbox q)),
      (js ''responseHeaders'', headers_value (q_headers q))]"

definition items_value :: "line_item list \<Rightarrow> jsval" where
  "items_value ls = Arr (map item_object ls)"

definition webhook_value :: "(jsval \<times> jsstr) option \<Rightarrow> jsval" where
  "webhook_value wh = (case wh of None \<Rightarrow> Undef | Some (u, secret) \<Rightarrow>
     Obj [(js ''url'', u), (js ''secret'', Str secret)])"

definition batch_quote_value :: "batch_quote \<Rightarrow> jsval" where
  "batch_quote_value q = Obj
     [(js ''items'', items_value (b_items q)), (js ''webhook'', webhook_value (b_webhook q)),
      (js ''resourceUrl'', Str (b_resource_url q)), (js ''requestBody'', Str (b_body q)),
      (js ''paymentRequired'', b_required q), (js ''accepted'', b_accepted q), (js ''sandbox'', Bool (b_sandbox q)),
      (js ''responseHeaders'', headers_value (b_headers q))]"

lemma frozen_literal_holds:
  assumes "frozen_literal kxs h = (x, h')" "list_all2 (rel_prod (=) (holds frozen_at h)) kxs kvs"
  shows "holds frozen_at h' x (Obj kvs)" "\<And>y v. holds frozen_at h y v \<Longrightarrow> holds frozen_at h' y v"
proof -
  have x: "x = Ref (length h)" "h' = h @ [\<lparr>jo_body = Fields kxs, jo_frozen = True\<rparr>]"
    using assms(1) by (auto simp: frozen_literal_def new_object_def nth_append)
  show k: "holds frozen_at h' y v" if "holds frozen_at h y v" for y v
    using that x(2) by (auto intro: holds_append)
  have "list_all2 (rel_prod (=) (holds frozen_at h')) kxs kvs"
    using assms(2) by (rule list_all2_mono) (auto simp: rel_prod_sel intro: k)
  then show "holds frozen_at h' x (Obj kvs)"
    unfolding x by (auto intro!: holds.properties simp: body_of_def nth_append)
qed

lemma headers_ref_holds:
  assumes "headers_ref response h = (x, h')"
  shows "holds frozen_at h' x (headers_value (res_headers response))"
    "\<And>y v. holds frozen_at h y v \<Longrightarrow> holds frozen_at h' y v"
proof -
  have "list_all2 (rel_prod (=) (holds frozen_at h)) (map (\<lambda>(k, v). (k, Prim (Str v))) hs) (map (\<lambda>(k, v). (k, Str v)) hs)" for hs
    by (induction hs) (auto simp: holds_Prim_iff)
  from frozen_literal_holds [OF assms [unfolded headers_ref_def] this] show
    "holds frozen_at h' x (headers_value (res_headers response))"
    "\<And>y v. holds frozen_at h y v \<Longrightarrow> holds frozen_at h' y v"
    by (simp_all add: headers_value_def)
qed

lemma is_sandbox_reads: "holds frozen_at h x v \<Longrightarrow> is_sandbox h x \<longleftrightarrow> opt_prop v (js ''sandbox'') = Bool True"
  using holds_field [of frozen_at h x v "js ''sandbox''"] by (auto elim: holds.cases simp: is_sandbox_def holds_Prim_iff)

lemma holds_only_freezes: "only_freezes h h' \<Longrightarrow> holds frozen_at h x v \<Longrightarrow> holds frozen_at h' x v"
  by (erule holds_change) (simp add: only_freezes_def is_frozen_def)

text \<open>When \<open>Client\<close> accepts a challenge, the objects read as it, and other fresh objects are as before.\<close>

lemma challenge_ref_reads:
  assumes "read_challenge cl u asset response = Inr (required, accepted, sb)" "sealed base h" "base \<le> length h"
    "depth required < n"
  obtains x h2 where "challenge_ref n cl u response h = Inr (x, h2)" "holds frozen_at h2 x required"
    "sealed base h2" "\<And>y v. holds (fresh base) h y v \<Longrightarrow> holds (fresh base) h2 y v"
    "select_asset required asset (cl_network cl) = Inr accepted" "sb = (opt_prop required (js ''sandbox'') = Bool True)"
proof -
  have r: "json_body response = Inr required" "res_status response = 402"
    "truthy (cl_sandbox cl) \<longrightarrow> \<not> nullish required \<and> opt_prop required (js ''sandbox'') = Bool True"
    "select_asset required asset (cl_network cl) = Inr accepted" "sb = (opt_prop required (js ''sandbox'') = Bool True)"
    using assms(1) by (auto simp: read_challenge_def get_prop_Inr split: if_splits)
  obtain x h1 where a: "alloc required h = (x, h1)" by fastforce
  obtain h2 where h2: "deep_freeze n x h1 = Some h2" "only_freezes h1 h2" "sealed base h2" "holds frozen_at h2 x required"
    using deep_freeze_alloc [OF a assms(2,3,4)] by blast
  obtain hs where "h1 = h @ hs" using alloc_holds [OF a] by blast
  then have "holds (fresh base) h2 y v" if "holds (fresh base) h y v" for y v
    using holds_freezes [OF h2(2)] holds_append [OF that] by blast
  moreover have "challenge_ref n cl u response h = Inr (x, h2)"
    using r a h2 holds_tests(1) [OF h2(4)] is_sandbox_reads [OF h2(4)] by (simp add: challenge_ref_def is_sandbox_def)
  ultimately show thesis using that h2 r by blast
qed

lemma select_ref_Inr:
  assumes "holds frozen_at h x v" "select_asset v asset network = Inr c"
  obtains y where "select_ref h x asset network = Inr y" "holds frozen_at h y c"
  using select_ref_reads [OF assms(1), of asset network] assms(2) by (cases "select_ref h x asset network") auto

lemma quote_ref_reads:
  assumes "read_challenge cl u asset response = Inr (required, accepted, sb)" "depth required < n" "\<not> is_object license"
  shows "\<exists>x h'. quote_ref n cl asset model_id (Prim license) u response h = Inr (x, h') \<and>
    holds frozen_at h' x (quote_value \<lparr>q_ref = r, q_model_id = model_id, q_license = license, q_resource_url = u,
      q_required = required, q_accepted = accepted, q_sandbox = sb, q_headers = res_headers response\<rparr>)"
proof -
  have "sealed (length h) h" by (simp add: sealed_def)
  from challenge_ref_reads [OF assms(1) this order_refl assms(2)] obtain x h2 where
    c: "challenge_ref n cl u response h = Inr (x, h2)" "holds frozen_at h2 x required"
    "select_asset required asset (cl_network cl) = Inr accepted" "sb = (opt_prop required (js ''sandbox'') = Bool True)"
    by metis
  obtain y where y: "select_ref h2 x asset (cl_network cl) = Inr y" "holds frozen_at h2 y accepted"
    using select_ref_Inr [OF c(2,3)] by blast
  obtain hd h3 where hd: "headers_ref response h2 = (hd, h3)" by fastforce
  obtain q h4 where q: "frozen_literal
       [(js ''modelId'', Prim (jnum model_id)), (js ''license'', Prim license), (js ''resourceUrl'', Prim (Str u)),
        (js ''paymentRequired'', x), (js ''accepted'', y),
        (js ''sandbox'', Prim (Bool (is_sandbox h2 x))), (js ''responseHeaders'', hd)] h3 = (q, h4)" by fastforce
  have "holds frozen_at h4 q (quote_value \<lparr>q_ref = r, q_model_id = model_id, q_license = license, q_resource_url = u,
      q_required = required, q_accepted = accepted, q_sandbox = sb, q_headers = res_headers response\<rparr>)"
    unfolding quote_value_def
    by (rule frozen_literal_holds(1) [OF q])
      (use headers_ref_holds [OF hd] c(2,4) y(2) is_sandbox_reads [OF c(2)] assms(3) in \<open>simp add: holds_Prim_iff\<close>)
  then show ?thesis using c(1) y(1) hd q by (simp add: quote_ref_def)
qed

lemma batch_quote_ref_reads:
  assumes "read_challenge cl u asset response = Inr (required, accepted, sb)"
    and "depth required < n" "depth (items_value ls) < n" "depth (webhook_value wh) < n"
    and "alloc (items_value ls) h = (items, h1)" "alloc (webhook_value wh) h1 = (webhook, h2)"
  shows "\<exists>x h'. batch_quote_ref n cl asset items webhook u body response h2 = Inr (x, h') \<and>
    holds frozen_at h' x (batch_quote_value \<lparr>b_ref = r, b_items = ls, b_webhook = wh, b_resource_url = u, b_body = body,
      b_required = required, b_accepted = accepted, b_sandbox = sb, b_headers = res_headers response\<rparr>)"
proof -
  have l: "length h \<le> length h1" "length h1 \<le> length h2"
    using alloc_holds [OF assms(5)] alloc_holds [OF assms(6)] by (metis le_add1 length_append)+
  have s: "sealed (length h) h" by (simp add: sealed_def)
  have s2: "sealed (length h) h2" "length h \<le> length h2"
    using alloc_sealed [OF assms(6) alloc_sealed [OF assms(5) s order_refl] l(1)] l by simp_all
  have i: "holds (fresh (length h)) h2 items (items_value ls)"
    using alloc_fresh [OF assms(5) order_refl] alloc_holds [OF assms(6)] by (metis holds_append)
  have w: "holds (fresh (length h)) h2 webhook (webhook_value wh)"
    by (rule alloc_fresh [OF assms(6) l(1)])
  obtain x h3 where c: "challenge_ref n cl u response h2 = Inr (x, h3)" "holds frozen_at h3 x required"
    "sealed (length h) h3" "\<And>y v. holds (fresh (length h)) h2 y v \<Longrightarrow> holds (fresh (length h)) h3 y v"
    "select_asset required asset (cl_network cl) = Inr accepted" "sb = (opt_prop required (js ''sandbox'') = Bool True)"
    using challenge_ref_reads [OF assms(1) s2 assms(2)] by metis
  obtain h4 where h4: "deep_freeze n items h3 = Some h4" "only_freezes h3 h4" "sealed (length h) h4"
    "holds frozen_at h4 items (items_value ls)"
    using deep_freeze_fresh [OF c(4) [OF i] c(3) assms(3)] by blast
  obtain h5 where h5: "deep_freeze n webhook h4 = Some h5" "only_freezes h4 h5"
    "holds frozen_at h5 webhook (webhook_value wh)"
    using deep_freeze_fresh [OF holds_freezes [OF h4(2) c(4) [OF w]] h4(3) assms(4)] by blast
  have k: "holds frozen_at h5 items (items_value ls)" "holds frozen_at h5 x required"
    using holds_only_freezes h4 h5(2) c(2) by blast+
  obtain y where y: "select_ref h5 x asset (cl_network cl) = Inr y" "holds frozen_at h5 y accepted"
    using select_ref_Inr [OF k(2) c(5)] by blast
  obtain hd h6 where hd: "headers_ref response h5 = (hd, h6)" by fastforce
  obtain q h7 where q: "frozen_literal
       [(js ''items'', items), (js ''webhook'', webhook), (js ''resourceUrl'', Prim (Str u)),
        (js ''requestBody'', Prim (Str body)), (js ''paymentRequired'', x), (js ''accepted'', y),
        (js ''sandbox'', Prim (Bool (is_sandbox h5 x))), (js ''responseHeaders'', hd)] h6 = (q, h7)" by fastforce
  have "holds frozen_at h7 q (batch_quote_value \<lparr>b_ref = r, b_items = ls, b_webhook = wh, b_resource_url = u,
      b_body = body, b_required = required, b_accepted = accepted, b_sandbox = sb, b_headers = res_headers response\<rparr>)"
    unfolding batch_quote_value_def
    by (rule frozen_literal_holds(1) [OF q])
      (use headers_ref_holds [OF hd] k c(6) h5(3) y(2) is_sandbox_reads [OF k(2)] in \<open>simp add: holds_Prim_iff\<close>)
  then show ?thesis using c(1) h4(1) h5(1) y(1) hd q by (simp add: batch_quote_ref_def)
qed

section \<open>Quotes stay as issued\<close>

text \<open>C10. A quote stays what it was when it was issued. When \<open>quote\<close> succeeds with a quote, assembling its
  objects from the same answer succeeds too, in any store and with any call stack deeper than the
  challenge is nested; and whatever code runs afterwards, the object reads as that quote.\<close>

theorem quote_stays_as_issued:
  assumes "quote_op pf cl reg model_id license asset s = (Inr (q, reg'), s')"
    and "depth (q_required q) < n" "\<not> is_object license"
  shows "\<exists>w response. p_fetch pf \<lparr>req_method = js ''GET'', req_url = q_resource_url q,
        req_headers = accept_json @ sandbox_header cl, req_body = None\<rparr> w = (Inr response, net s') \<and>
      (\<forall>h. \<exists>x h'. quote_ref n cl asset (q_model_id q) (Prim license) (q_resource_url q) response h = Inr (x, h') \<and>
         (\<forall>ms. holds frozen_at (run_mutations ms h') x (quote_value q)))"
proof -
  obtain m u response s1 required accepted sb where
    f: "fetchM (p_fetch pf) \<lparr>req_method = js ''GET'', req_url = u,
        req_headers = accept_json @ sandbox_header cl, req_body = None\<rparr> s = (Inr response, s')"
    and c: "read_challenge cl u asset response = Inr (required, accepted, sb)"
    and q: "q = \<lparr>q_ref = reg_next reg, q_model_id = m, q_license = license, q_resource_url = u,
                q_required = required, q_accepted = accepted, q_sandbox = sb, q_headers = res_headers response\<rparr>"
    using assms(1) by (auto simp: quote_op_def Let_def run_iffs)
  obtain w where w: "p_fetch pf \<lparr>req_method = js ''GET'', req_url = u,
        req_headers = accept_json @ sandbox_header cl, req_body = None\<rparr> w = (Inr response, net s')"
    using f by (elim fetchM_runE) auto
  have "\<exists>x h'. quote_ref n cl asset m (Prim license) u response h = Inr (x, h') \<and>
      holds frozen_at h' x (quote_value q)" for h
    unfolding q by (rule quote_ref_reads [OF c]) (use assms(2,3) q in simp_all)
  then show ?thesis using w q frozen_stays by (metis quote.select_convs(2,4))
qed

text \<open>The same for a batch: the lines and the webhook of the quote are frozen with it.\<close>

theorem batch_quote_stays_as_issued:
  assumes "quote_batch_op pf cl reg lines asset webhook s = (Inr (q, reg'), s')"
    and "depth (b_required q) < n" "depth (items_value (b_items q)) < n" "depth (webhook_value (b_webhook q)) < n"
  shows "\<exists>w response. p_fetch pf \<lparr>req_method = js ''POST'', req_url = b_resource_url q,
        req_headers = json_headers @ sandbox_header cl, req_body = Some (b_body q)\<rparr> w = (Inr response, net s') \<and>
      (\<forall>h items h1 wh h2. alloc (items_value (b_items q)) h = (items, h1) \<longrightarrow>
         alloc (webhook_value (b_webhook q)) h1 = (wh, h2) \<longrightarrow>
         (\<exists>x h'. batch_quote_ref n cl asset items wh (b_resource_url q) (b_body q) response h2 = Inr (x, h') \<and>
            (\<forall>ms. holds frozen_at (run_mutations ms h') x (batch_quote_value q))))"
proof -
  obtain ls wh u response required accepted sb where
    f: "fetchM (p_fetch pf) \<lparr>req_method = js ''POST'', req_url = u,
        req_headers = json_headers @ sandbox_header cl, req_body = Some (b_body q)\<rparr> s = (Inr response, s')"
    and c: "read_challenge cl u asset response = Inr (required, accepted, sb)"
    and q: "q = \<lparr>b_ref = reg_next reg, b_items = ls, b_webhook = wh, b_resource_url = u, b_body = b_body q,
                b_required = required, b_accepted = accepted, b_sandbox = sb, b_headers = res_headers response\<rparr>"
    using assms(1) by (auto simp: quote_batch_op_def Let_def run_iffs)
  obtain w where w: "p_fetch pf \<lparr>req_method = js ''POST'', req_url = u,
        req_headers = json_headers @ sandbox_header cl, req_body = Some (b_body q)\<rparr> w = (Inr response, net s')"
    using f by (elim fetchM_runE) auto
  have e: "b_required q = required" "b_items q = ls" "b_webhook q = wh" "b_resource_url q = u"
    by (subst q; simp)+
  have "\<exists>x h'. batch_quote_ref n cl asset items v u (b_body q) response h2 = Inr (x, h') \<and>
      holds frozen_at h' x (batch_quote_value q)"
    if "alloc (items_value ls) h = (items, h1)" "alloc (webhook_value wh) h1 = (v, h2)" for h items h1 v h2
    by (subst q, rule batch_quote_ref_reads [OF c _ _ _ that]) (use assms(2-4) e in simp_all)
  then show ?thesis using w e frozen_stays by metis
qed

text \<open>At the sample client: the quote survives an attempt to rewrite every object of the store.\<close>

theorem quote_stays_as_issued_witness:
  "\<exists>q response x h'. q_required q = Obj [(js ''accepts'', Arr [hbar_offer])] \<and>
     quote_ref 5 self_client Undef (q_model_id q) (Prim (Str (js ''personal''))) (q_resource_url q) response [] = Inr (x, h') \<and>
     holds frozen_at (run_mutations (map (\<lambda>a. Write a (Fields [])) [0..<length h']) h') x (quote_value q)"
proof -
  obtain q reg' s' where q: "quote_op (self_platform\<lparr>p_fetch := offer_server\<rparr>) self_client sample_registry (jnum 1)
      (Str (js ''personal'')) Undef empty_session = (Inr (q, reg'), s')"
    "q_required q = Obj [(js ''accepts'', Arr [hbar_offer])]"
    using sample_quote_op by blast
  have "depth (q_required q) < 5" by (simp add: q(2) hbar_offer_def)
  then show ?thesis using quote_stays_as_issued [OF q(1)] q(2) by fastforce
qed

end
