(* ===== verification/Agreement.thy ===== *)
theory Agreement
  imports Client VerifierCli
begin

text \<open>
  The client of \<open>client/index.js\<close> beside the standalone verifier of \<open>verifier/index.js\<close>: what the one
  verifies, the other matches. The two compute the commitment with different canonicalizers, decode
  the anchored message with different strictness, and only the verifier looks at schema and terms.
\<close>

lemma certificate_keys_no_index: "k \<in> set certificate_keys \<Longrightarrow> \<not> is_array_index k"
proof -
  have "list_all (\<lambda>k. \<not> is_array_index k) certificate_keys" by code_simp
  then show "k \<in> set certificate_keys \<Longrightarrow> \<not> is_array_index k" by (simp add: list_all_iff)
qed

lemma schema_ok_no_index:
  assumes "schema_ok buyer_hint_ok c" "distinct (map fst c)"
  shows "no_index_keys (Obj c)"
proof -
  have keys: "fst ` set c = set certificate_keys" using assms(1) by (simp add: schema_ok_def)
  have "\<not> is_array_index k \<and> all_keys (\<lambda>k. \<not> is_array_index k) v" if "(k, v) \<in> set c" for k v
  proof -
    have k: "k \<in> set certificate_keys" using keys that by force
    have "pget c k = v" using that assms(2) by (simp add: pget_def)
    then show ?thesis using schema_ok_field [OF assms(1) k] certificate_keys_no_index [OF k] by metis
  qed
  then show ?thesis by (auto simp: no_index_keys_def list_all_iff)
qed

text \<open>On a certificate with a clean schema both compute the same commitment.\<close>

lemma same_commitment:
  assumes "schema_ok buyer_hint_ok c" "distinct (map fst c)" "compute_commitment hash (Obj c) (Str n) = Inr h"
  shows "license_commitment hash (Obj c) (Str n) = Inr h"
proof -
  have "json_plain (Obj c)" "no_to_json (Obj c)" "no_index_keys (Obj c)"
    using schema_ok_plain [OF assms(1,2)] schema_ok_no_index [OF assms(1,2)] by blast+
  then have "canonicalize (Obj c) = canonical_client (Obj c)"
    using verifier_canon.canon_sorted [of "Obj c"] client_canon.canon_sorted [of "Obj c"] by simp
  then show ?thesis
    using assms(3) by (simp add: compute_commitment_Str license_commitment_Str split: if_splits)
qed

text \<open>\<open>Buffer.from(text, "base64")\<close> reads canonical base64 as what it encodes.\<close>

definition reads_base64 :: "'w platform \<Rightarrow> bool" where
  "reads_base64 pf = (\<forall>x bs. b64_decode x = Some bs \<longrightarrow> b64_encode bs = x \<longrightarrow> p_buffer pf (Str x) = Some bs)"

lemma decode_agrees:
  assumes "reads_base64 pf" "decode_message (pget envelope (js ''message'')) = Some onchain"
  shows "decode_onchain pf (Obj envelope) = Inr (Obj onchain)"
proof -
  obtain x bs where x: "pget envelope (js ''message'') = Str x" "b64_decode x = Some bs" "b64_encode bs = x"
    "json_parse (utf8_lossy bs) = Some (Obj onchain)"
    using assms(2) by (auto simp: decode_message_def split: jsval.splits if_splits option.splits)
  then have "p_buffer pf (Str x) = Some bs" using assms(1) unfolding reads_base64_def by blast
  then show ?thesis using x by (simp add: decode_onchain_def nullish_def)
qed

text \<open>C7. The client agrees with the verifier: when the verifier reports a bundle as verified, the mirror has
  answered it with a message on which the client, given the same bundle and the same answer, reports
  \<open>match: true\<close> with the same commitment.\<close>

theorem verified_then_matched:
  assumes "verify_bundle (p_hash pf) new_url (Some f) expected bundle s = (Inr r, s')" "vr_verified r"
    and "reads_base64 pf" "\<And>c. opt_prop bundle (js ''certificate'') = Obj c \<Longrightarrow> distinct (map fst c)"
  shows "\<exists>u w envelope v. ledger_message f u w (net s') envelope \<and>
    verify_mirrored pf bundle (Obj envelope) = Inr v \<and> opt_prop v (js ''match'') = Bool True \<and>
    opt_prop v (js ''commitment'') = Str (vr_commitment r)"
proof -
  obtain b c n h errors anchor where b: "bundle = Obj b" "pget b (js ''certificate'') = Obj c" "pget b (js ''blinding_nonce'') = Str n"
    "compute_commitment (p_hash pf) (Obj c) (Str n) = Inr h" "validate_certificate (Obj c) = Inr errors"
    "anchor_check new_url (Some f) expected (object_entries (pget b (js ''hedera''))) h s = (Inr anchor, s')"
    "r = build_result (p_hash pf) b c h errors anchor"
    by (rule verify_bundleE [OF assms(1)])
  have r: "errors = []" "fst anchor = Verified" "vr_commitment r = h" using assms(2) b(7) by auto
  obtain ts mu where a: "anchor = (Verified, ts, mu)" using r(2) by (cases anchor) auto
  obtain u :: url and w response body envelope onchain where x: "f (get_request (url_href u)) w = (Inr response, net s')"
    "res_ok response" "res_text response = Inr body" "json_parse body = Some (Obj envelope)"
    and o: "decode_message (pget envelope (js ''message'')) = Some onchain"
    "pget onchain (js ''type'') = Str envelope_type" "pget onchain (js ''commitment'') = Str h"
    by (rule anchor_verifiedE [OF b(6) [unfolded a]]) (rule that)
  have e: "ledger_message f u w (net s') envelope" using x by (auto simp: ledger_message_def)
  have "schema_ok buyer_hint_ok c" using b(5) r(1) by (simp add: validate_certificate_def validate_clean_iff)
  then have h: "license_commitment (p_hash pf) (Obj c) (Str n) = Inr h"
    using same_commitment b(2,4) assms(4) by (simp add: b(1))
  have "\<exists>v. verify_mirrored pf bundle (Obj envelope) = Inr v \<and> opt_prop v (js ''match'') = Bool True \<and>
      opt_prop v (js ''commitment'') = Str h"
    using decode_agrees [OF assms(3) o(1)] h o(2,3) b(1-3)
    by (simp add: verify_mirrored_def get_prop_def nullish_def with_entries_def pget_obj_put envelope_type_def)
  then show ?thesis using e r(3) by blast
qed

section \<open>A concrete bundle\<close>

definition sample_platform :: "'w platform \<Rightarrow> 'w platform" where
  "sample_platform pf = pf\<lparr>p_hash := sample_hash, p_buffer := (\<lambda>v. case v of Str x \<Rightarrow> b64_decode x | _ \<Rightarrow> None)\<rparr>"

theorem verified_then_matched_witness:
  "\<exists>envelope v. verify_mirrored (sample_platform self_platform) (Obj sample_bundle) (Obj envelope) = Inr v \<and>
     opt_prop v (js ''match'') = Bool True \<and> opt_prop v (js ''commitment'') = Str (js ''01'')"
proof -
  have p: "p_hash (sample_platform self_platform) = sample_hash" "reads_base64 (sample_platform self_platform)"
    by (simp_all add: sample_platform_def reads_base64_def)
  obtain r s' where r: "verify_bundle (p_hash (sample_platform self_platform)) sample_new_url (Some sample_fetch) Null (Obj sample_bundle) sample_session = (Inr r, s')"
    "vr_verified r" "vr_commitment r = js ''01''"
    using sample_accepts unfolding p(1) by blast
  have d: "distinct (map fst c)" if "opt_prop (Obj sample_bundle) (js ''certificate'') = Obj c" for c
    using that by (auto simp: sample_bundle_def sample_certificate_def)
  show ?thesis using verified_then_matched [OF r(1,2) p(2) d] r(3) by auto
qed

end
