(* ===== verification/HederaSdk.thy ===== *)
theory HederaSdk
  imports Env Certificate
begin

text \<open>
  What the modules that build Hedera transactions share: \<open>BigInt\<close> (unbounded integers, with the
  conversions the program uses) and the transactions themselves. The SDK is not under \<open>src/\<close>: its
  parsers, its execution of transactions and its number conversions are the record \<open>sdk\<close>;
  \<open>exact_sdk\<close> states the documented behaviour of the conversions, and a transfer is what the calls
  of \<open>addHbarTransfer\<close> and \<open>addTokenTransfer\<close> put in it.
\<close>

section \<open>\<open>BigInt\<close>\<close>

definition int_str :: "int \<Rightarrow> jsstr" where
  "int_str i = (if i < 0 then 45 # dec_str (nat (- i)) else dec_str (nat i))"

text \<open>\<open>StringToBigInt\<close>: a sign is allowed before decimal digits only.\<close>

definition bigint_of_str :: "jsstr \<Rightarrow> js_error + int" where
  "bigint_of_str s = (let t = js_trim s; p = take 2 t;
      whole = (\<lambda>b. ofOption SyntaxErr (map_option floor (radix_value b (drop 2 t)))) in
    if t = [] then Inr 0
    else if p = js ''0x'' \<or> p = js ''0X'' then whole 16
    else if p = js ''0o'' \<or> p = js ''0O'' then whole 8
    else if p = js ''0b'' \<or> p = js ''0B'' then whole 2
    else (let neg = (hd t = 45); u = (if hd t = 43 \<or> hd t = 45 then tl t else t) in
      if u \<noteq> [] \<and> list_all is_digit u
      then Inr (if neg then - int (digits_val u) else int (digits_val u))
      else Inl SyntaxErr))"

fun bigint_of :: "jsval \<Rightarrow> js_error + int" where
  "bigint_of Undef = Inl (TypeErr [])"
| "bigint_of Null = Inl (TypeErr [])"
| "bigint_of (Bool b) = Inr (if b then 1 else 0)"
| "bigint_of (Num (Fin q)) = (if rat_is_int q then Inr \<lfloor>q\<rfloor> else Inl RangeErr)"
| "bigint_of (Num n) = Inl RangeErr"
| "bigint_of (Str s) = bigint_of_str s"
| "bigint_of v = bindE (string_of v) bigint_of_str"

lemma bigint_of_digits:
  assumes "s \<noteq> []" "list_all is_digit s"
  shows "bigint_of_str s = Inr (int (digits_val s))"
proof -
  obtain c t where s: "s = c # t" using assms(1) by (cases s) auto
  have c: "is_digit c" and t: "list_all is_digit t" using assms(2) s by auto
  have p: "take 2 s \<noteq> js [a, b]" if "\<not> is_digit (jc b)" for a b
    using that t by (cases t) (auto simp: s js_Cons)
  have "\<not> is_digit (jc b)" if "b \<in> set ''xXoObB''" for b
    using that by (auto simp: jc_def is_digit_def)
  with p have "take 2 s \<noteq> js ''0x''" "take 2 s \<noteq> js ''0X''" "take 2 s \<noteq> js ''0o''" "take 2 s \<noteq> js ''0O''"
    "take 2 s \<noteq> js ''0b''" "take 2 s \<noteq> js ''0B''"
    by simp_all
  moreover have "hd s \<noteq> 43" "hd s \<noteq> 45" using is_digit_cases [OF c] by (auto simp: s)
  ultimately show ?thesis
    using assms by (simp add: bigint_of_str_def js_trim_digits Let_def)
qed

lemma bigint_of_dec_str [simp]: "bigint_of_str (dec_str n) = Inr (int n)"
  by (simp add: bigint_of_digits dec_str_digits digits_val_dec_str)

section \<open>\<open>Buffer.from(text, "base64")\<close>\<close>

text \<open>The decoder of the platform accepts both alphabets, skips what is in neither and does not ask for
  padding; it is given what precedes the first \<open>=\<close>.\<close>

fun sextet_bytes :: "nat list \<Rightarrow> bytes" where
  "sextet_bytes (a # b # c # d # r) =
     [of_nat (a * 4 + b div 16), of_nat (b mod 16 * 16 + c div 4), of_nat (c mod 4 * 64 + d)] @ sextet_bytes r"
| "sextet_bytes [a, b, c] = [of_nat (a * 4 + b div 16), of_nat (b mod 16 * 16 + c div 4)]"
| "sextet_bytes [a, b] = [of_nat (a * 4 + b div 16)]"
| "sextet_bytes _ = []"

definition sextet :: "jsunit \<Rightarrow> nat option" where
  "sextet c = (if c = jc (CHR ''-'') then Some 62 else if c = jc (CHR ''_'') then Some 63 else b64_val c)"

definition buffer_base64 :: "jsstr \<Rightarrow> bytes" where
  "buffer_base64 s = sextet_bytes (List.map_filter sextet (takeWhile (\<lambda>c. c \<noteq> jc (CHR ''='')) s))"

section \<open>Transfers\<close>

text \<open>One line of a transfer: the token (\<open>None\<close> for HBAR), the account and the signed amount in the
  smallest unit. \<open>net_amount\<close> is what a transfer creates of an asset; the network accepts a transfer
  only if it is zero.\<close>

record transfer_entry =
  te_token :: "jsstr option"
  te_account :: jsstr
  te_amount :: int

record transfer =
  tx_entries :: "transfer_entry list"
  tx_payer :: "jsstr option"
  tx_memo :: jsval

definition net_amount :: "jsstr option \<Rightarrow> transfer_entry list \<Rightarrow> int" where
  "net_amount token es = sum_list (map te_amount (filter (\<lambda>e. te_token e = token) es))"

definition balanced :: "transfer_entry list \<Rightarrow> bool" where
  "balanced es = list_all (\<lambda>token. net_amount token es = 0) (map te_token es)"

lemma net_amount_simps [simp]:
  "net_amount token [] = 0"
  "net_amount token (e # es) = (if te_token e = token then te_amount e else 0) + net_amount token es"
  "net_amount token (es @ es') = net_amount token es + net_amount token es'"
  by (simp_all add: net_amount_def)

lemma balanced_iff: "balanced es \<longleftrightarrow> (\<forall>token. net_amount token es = 0)"
proof -
  have "net_amount token es = 0" if "token \<notin> te_token ` set es" for token
    using that by (induction es) auto
  then show ?thesis by (auto simp: balanced_def list_all_iff) (metis imageE)
qed

datatype hedera_tx =
    CreateTopic jsval jsval
  | SubmitMessage jsval jsstr
  | TransferTx transfer

record 'w sdk =
  sdk_key :: "jsval \<Rightarrow> js_error + jsval"
  sdk_account :: "jsval \<Rightarrow> js_error + jsstr"
  sdk_token :: "jsval \<Rightarrow> js_error + jsstr"
  sdk_tinybars :: "jsval \<Rightarrow> js_error + int"
  sdk_units :: "jsnum \<Rightarrow> js_error + int"
  sdk_big_units :: "int \<Rightarrow> js_error + int"
  sdk_execute :: "hedera_tx \<Rightarrow> jsval list \<Rightarrow> 'w \<Rightarrow> (js_error + jsval) \<times> 'w"
  sdk_verify_signature :: "jsval \<Rightarrow> bytes \<Rightarrow> bytes \<Rightarrow> 'w \<Rightarrow> (js_error + jsval) \<times> 'w"
  sdk_signature_pairs :: "bytes \<Rightarrow> js_error + (bytes option \<times> bytes option) list"

text \<open>\<open>Hbar.fromTinybars\<close> reads a decimal string exactly, and integral amounts are taken over as they
  are.\<close>

definition exact_sdk :: "'w sdk \<Rightarrow> bool" where
  "exact_sdk sdk = ((\<forall>i. sdk_tinybars sdk (Str (int_str i)) = Inr i) \<and>
     (\<forall>i. sdk_units sdk (Fin (of_int i)) = Inr i) \<and> (\<forall>i. sdk_big_units sdk i = Inr i))"

lemma exact_sdkD:
  assumes "exact_sdk sdk"
  shows "sdk_tinybars sdk (Str (int_str i)) = Inr i" "sdk_tinybars sdk (Str (dec_str n)) = Inr (int n)"
    "sdk_units sdk (Fin (of_int i)) = Inr i" "sdk_units sdk (Fin (of_nat n)) = Inr (int n)"
    "sdk_big_units sdk i = Inr i"
proof -
  show "sdk_tinybars sdk (Str (dec_str n)) = Inr (int n)"
    using assms unfolding exact_sdk_def int_str_def by (metis nat_int not_less_zero of_nat_less_0_iff)
  show "sdk_units sdk (Fin (of_nat n)) = Inr (int n)"
    using assms unfolding exact_sdk_def by (metis of_int_of_nat_eq)
qed (use assms in \<open>simp_all add: exact_sdk_def\<close>)

text \<open>A concrete SDK: identifiers are any strings, amounts are read exactly, every transaction
  succeeds and is remembered.\<close>

fun any_text :: "jsval \<Rightarrow> js_error + jsstr" where
  "any_text (Str s) = Inr s"
| "any_text v = Inl (TypeErr [])"

fun whole_number :: "jsnum \<Rightarrow> js_error + int" where
  "whole_number (Fin q) = (if rat_is_int q then Inr \<lfloor>q\<rfloor> else Inl RangeErr)"
| "whole_number n = Inl RangeErr"

definition sample_sdk :: "hedera_tx list sdk" where
  "sample_sdk = \<lparr>sdk_key = (\<lambda>v. Inr v), sdk_account = any_text, sdk_token = any_text,
     sdk_tinybars = bigint_of, sdk_units = whole_number, sdk_big_units = Inr,
     sdk_execute = (\<lambda>tx ks w. (Inr (Obj [(js ''transactionId'', Str (js ''0.0.1@5.6''))]), w @ [tx])),
     sdk_verify_signature = (\<lambda>a m sig w. (Inr (Bool True), w)),
     sdk_signature_pairs = (\<lambda>bs. Inr [(Some bs, None)])\<rparr>"

lemma sample_sdk_sel:
  "sdk_key sample_sdk v = Inr v" "sdk_account sample_sdk v = any_text v" "sdk_token sample_sdk v = any_text v"
  "sdk_execute sample_sdk tx ks w = (Inr (Obj [(js ''transactionId'', Str (js ''0.0.1@5.6''))]), w @ [tx])"
  by (simp_all add: sample_sdk_def)

lemma js_trim_minus: "list_all is_digit s \<Longrightarrow> s \<noteq> [] \<Longrightarrow> js_trim (45 # s) = 45 # s"
proof -
  assume d: "list_all is_digit s" "s \<noteq> []"
  have sp: "\<not> is_space 45" by (simp add: is_space_def in_cls_def)
  have "dropWhile is_space (rev s @ [45]) = rev s @ [45]"
    using d digit_not_space by (cases "rev s") (auto simp flip: list_all_rev [of _ s])
  then show ?thesis using sp by (simp add: js_trim_def)
qed

lemma bigint_of_int_str [simp]: "bigint_of_str (int_str i) = Inr i"
proof (cases "i < 0")
  case True
  have d: "list_all is_digit (dec_str (nat (- i)))" "dec_str (nat (- i)) \<noteq> []"
    by (simp_all add: dec_str_digits)
  have "take 2 (45 # u) \<noteq> js [CHR ''0'', b]" for u b
    by (cases u) (auto simp: js_Cons jc_def)
  then show ?thesis
    using True d by (simp add: int_str_def bigint_of_str_def js_trim_minus Let_def digits_val_dec_str)
qed (simp add: int_str_def)

lemma exact_sample_sdk: "exact_sdk sample_sdk"
  by (simp add: exact_sdk_def sample_sdk_def rat_is_int_def)

end
