(* ===== verification/Sidecar.thy ===== *)
theory Sidecar
  imports HederaSdk
begin

text \<open>
  The signing sidecar: the HTTP layer (\<open>sidecar/app.mjs\<close>) over an abstract \<open>hedera\<close> object, the
  real object built from the SDK (\<open>sidecar/hedera.mjs\<close>), and its configuration
  (\<open>server.mjs\<close>, \<open>instrument.mjs\<close>). Every use of the operator or treasury key is a call of the
  \<open>hedera\<close> object and so an event of the trace. The lemmas say which requests reach it, that every
  request is answered, and what a payout moves.
\<close>

section \<open>Requests and replies\<close>

record sidecar_request =
  sr_method :: jsstr
  sr_url :: jsstr
  sr_authorization :: "jsstr option"
  sr_chunks :: "js_error + bytes list"

type_synonym reply = "nat \<times> jsval"

record 'w hedera =
  h_network :: jsstr
  h_treasury :: bool
  h_create_topic :: "jsval list \<Rightarrow> 'w \<Rightarrow> (js_error + jsval) \<times> 'w"
  h_submit :: "jsval list \<Rightarrow> 'w \<Rightarrow> (js_error + jsval) \<times> 'w"
  h_payout :: "jsval list \<Rightarrow> 'w \<Rightarrow> (js_error + jsval) \<times> 'w"
  h_verify_proof :: "jsval list \<Rightarrow> 'w \<Rightarrow> (js_error + jsval) \<times> 'w"

definition max_message_bytes :: nat where
  "max_message_bytes = 1024"

definition routes :: "jsstr list" where
  "routes = map js [''/create-topic'', ''/submit-cert'', ''/submit-version'', ''/payout'', ''/verify-payout-proof'']"

definition problem :: "nat \<Rightarrow> string \<Rightarrow> reply" where
  "problem status code = (status, Obj [(js ''error'', Str (js code))])"

definition re_hedera_id :: re where
  "re_hedera_id = RSeq (r_lit ''0.0.'') (r_plus r_digit)"

definition re_amount :: re where
  "re_amount = RSeq (RCls [(jc CHR ''1'', jc CHR ''9'')]) (RStar r_digit)"

definition re_signature_map :: re where
  "re_signature_map = RSeq (r_plus (RCls [(jc CHR ''A'', jc CHR ''Z''), (jc CHR ''a'', jc CHR ''z''),
     (jc CHR ''0'', jc CHR ''9''), (jc CHR ''+'', jc CHR ''+''), (jc CHR ''/'', jc CHR ''/'')]))
     (r_upto 2 (r_ch (CHR ''='')))"

fun text_like :: "re \<Rightarrow> jsval \<Rightarrow> bool" where
  "text_like r (Str s) = re_test r s"
| "text_like r _ = False"

section \<open>Validation\<close>

fun check_transfers :: "jsval list \<Rightarrow> js_error + jsstr option" where
  "check_transfers [] = Inr None"
| "check_transfers (t # ts) = bindE (get_prop t (js ''accountId'')) (\<lambda>account.
     if \<not> text_like re_hedera_id account then Inr (Some (js ''invalid_transfer_account''))
     else if \<not> text_like re_amount (opt_prop t (js ''amount'')) then Inr (Some (js ''invalid_transfer_amount''))
     else check_transfers ts)"

definition validate_payout :: "jsval \<Rightarrow> js_error + jsstr option" where
  "validate_payout body = bindE (get_prop body (js ''tokenId'')) (\<lambda>token.
     if \<not> text_like re_hedera_id token then Inr (Some (js ''invalid_token_id''))
     else (case opt_prop body (js ''transfers'') of
         Arr (t # ts) \<Rightarrow> check_transfers (t # ts)
       | _ \<Rightarrow> Inr (Some (js ''missing_transfers''))))"

fun text_between :: "nat \<Rightarrow> nat \<Rightarrow> (jsstr \<Rightarrow> nat) \<Rightarrow> jsval \<Rightarrow> bool" where
  "text_between lo hi len (Str s) = (lo \<le> length s \<and> len s \<le> hi)"
| "text_between lo hi len _ = False"

definition validate_proof :: "jsval \<Rightarrow> js_error + jsstr option" where
  "validate_proof body = bindE (get_prop body (js ''accountId'')) (\<lambda>account.
     if \<not> text_like re_hedera_id account then Inr (Some (js ''invalid_account_id''))
     else if \<not> text_between 1 1024 byte_length (opt_prop body (js ''message'')) then Inr (Some (js ''invalid_message''))
     else if \<not> (text_between 1 4096 length (opt_prop body (js ''signatureMap'')) \<and>
                text_like re_signature_map (opt_prop body (js ''signatureMap'')))
       then Inr (Some (js ''invalid_signature_map''))
     else Inr None)"

section \<open>The operations\<close>

definition ok_reply :: "jsval \<Rightarrow> ('w, reply) prog" where
  "ok_reply v = retM (200, v)"

definition refuse :: "nat \<Rightarrow> jsstr \<Rightarrow> ('w, reply) prog" where
  "refuse status code = retM (status, Obj [(js ''error'', Str code)])"

definition default_memo :: jsval where
  "default_memo = Str (js ''printwright license certificates v1'')"

definition create_topic_route :: "'w hedera \<Rightarrow> jsval \<Rightarrow> ('w, reply) prog" where
  "create_topic_route h body = bindM (liftM (get_prop body (js ''memo''))) (\<lambda>memo.
     bindM (callM (h_create_topic h) (js ''createTopic'') [or_else memo default_memo]) ok_reply)"

definition payout_args :: "jsval \<Rightarrow> jsval" where
  "payout_args body = Obj [(js ''tokenId'', opt_prop body (js ''tokenId'')),
     (js ''transfers'', opt_prop body (js ''transfers'')), (js ''memo'', opt_prop body (js ''memo''))]"

definition payout_route :: "'w hedera \<Rightarrow> jsval \<Rightarrow> ('w, reply) prog" where
  "payout_route h body =
     (if \<not> h_treasury h then refuse 503 (js ''treasury_not_configured'')
      else bindM (liftM (validate_payout body)) (\<lambda>bad. case bad of
          Some code \<Rightarrow> refuse 400 code
        | None \<Rightarrow> bindM (callM (h_payout h) (js ''payout'') [payout_args body]) ok_reply))"

definition proof_args :: "jsval \<Rightarrow> jsval" where
  "proof_args body = Obj [(js ''accountId'', opt_prop body (js ''accountId'')),
     (js ''message'', opt_prop body (js ''message'')), (js ''signatureMap'', opt_prop body (js ''signatureMap''))]"

definition proof_route :: "'w hedera \<Rightarrow> jsval \<Rightarrow> ('w, reply) prog" where
  "proof_route h body = bindM (liftM (validate_proof body)) (\<lambda>bad. case bad of
       Some code \<Rightarrow> refuse 400 code
     | None \<Rightarrow> bindM (callM (h_verify_proof h) (js ''verifyPayoutProof'') [proof_args body]) (\<lambda>verified.
         ok_reply (Obj [(js ''verified'', verified)])))"

definition submit_message :: "'w hedera \<Rightarrow> jsval \<Rightarrow> jsval \<Rightarrow> jsval \<Rightarrow> string \<Rightarrow> ('w, reply) prog" where
  "submit_message h topic body payload too_large =
     (let target = or_else (opt_prop body (js ''topicId'')) topic; message = joined (stringify payload) in
      if \<not> truthy target then refuse 400 (js ''no_topic_configured'')
      else if byte_length message > max_message_bytes
      then retM (422, Obj [(js ''error'', Str (js too_large)), (js ''limit'', jnum max_message_bytes)])
      else bindM (callM (h_submit h) (js ''submitMessage'') [target, Str message]) ok_reply)"

definition submit_route :: "'w hedera \<Rightarrow> jsval \<Rightarrow> bool \<Rightarrow> jsval \<Rightarrow> ('w, reply) prog" where
  "submit_route h topic is_version body =
     (if is_version then bindM (liftM (get_prop body (js ''version''))) (\<lambda>v.
        if \<not> is_object v \<or> opt_prop v (js ''schema'') \<noteq> Str (js ''pwv-1'')
        then refuse 400 (js ''invalid_version_event'')
        else submit_message h topic body v ''version_event_too_large'')
      else bindM (liftM (get_prop body (js ''cert''))) (\<lambda>c.
        if \<not> is_object c then refuse 400 (js ''missing_cert'')
        else submit_message h topic body c ''cert_too_large''))"

definition dispatch :: "'w hedera \<Rightarrow> jsval \<Rightarrow> jsstr \<Rightarrow> jsval \<Rightarrow> ('w, reply) prog" where
  "dispatch h topic u body =
     (if u = js ''/create-topic'' then create_topic_route h body
      else if u = js ''/payout'' then payout_route h body
      else if u = js ''/verify-payout-proof'' then proof_route h body
      else submit_route h topic (u = js ''/submit-version'') body)"

section \<open>The server\<close>

definition parse_chunks :: "bytes list \<Rightarrow> jsval option" where
  "parse_chunks chunks = (if chunks = [] then Some (Obj []) else json_parse (utf8_lossy (concat chunks)))"

definition report_error :: "string \<Rightarrow> ('w, unit) prog" where
  "report_error boundary = callM (\<lambda>args w. (Inr (), w)) (js ''captureException'') [Str (js boundary)]"

definition handle :: "'w hedera \<Rightarrow> jsstr \<Rightarrow> jsval \<Rightarrow> sidecar_request \<Rightarrow> ('w, reply) prog" where
  "handle h token topic req =
     (if sr_method req = js ''GET'' \<and> sr_url req = js ''/healthz''
      then ok_reply (Obj [(js ''ok'', Bool True), (js ''network'', Str (h_network h)), (js ''topicId'', coalesce topic Null)])
      else if sr_method req \<noteq> js ''POST'' \<or> sr_url req \<notin> set routes then refuse 404 (js ''not_found'')
      else if sr_authorization req \<noteq> Some (js ''Bearer '' @ token) then refuse 401 (js ''unauthorized'')
      else bindM (liftM (sr_chunks req)) (\<lambda>chunks. case parse_chunks chunks of
          None \<Rightarrow> refuse 400 (js ''invalid_json'')
        | Some body \<Rightarrow> catchM (dispatch h topic (sr_url req) body)
            (\<lambda>e. bindM (report_error ''request'') (\<lambda>_. refuse 502 (js ''hedera_error'')))))"

definition serve :: "'w hedera \<Rightarrow> jsstr \<Rightarrow> jsval \<Rightarrow> sidecar_request \<Rightarrow> ('w, reply) prog" where
  "serve h token topic req = catchM (handle h token topic req)
     (\<lambda>e. bindM (report_error ''server'') (\<lambda>_. refuse 500 (js ''internal'')))"

section \<open>What reaches the keys\<close>

definition key_operations :: "jsstr list" where
  "key_operations = map js [''createTopic'', ''submitMessage'', ''payout'', ''verifyPayoutProof'']"

fun key_use :: "event \<Rightarrow> bool" where
  "key_use (Called name args) = (name \<in> set key_operations)"
| "key_use _ = False"

text \<open>The arguments a call may have.\<close>

definition transfer_ok :: "jsval \<Rightarrow> bool" where
  "transfer_ok t = (text_like re_hedera_id (opt_prop t (js ''accountId'')) \<and>
     text_like re_amount (opt_prop t (js ''amount'')))"

definition payout_ok :: "jsval \<Rightarrow> bool" where
  "payout_ok v = (text_like re_hedera_id (opt_prop v (js ''tokenId'')) \<and>
     (\<exists>ts. opt_prop v (js ''transfers'') = Arr ts \<and> ts \<noteq> [] \<and> list_all transfer_ok ts))"

definition proof_ok :: "jsval \<Rightarrow> bool" where
  "proof_ok v = (text_like re_hedera_id (opt_prop v (js ''accountId'')) \<and>
     text_between 1 1024 byte_length (opt_prop v (js ''message'')) \<and>
     text_between 1 4096 length (opt_prop v (js ''signatureMap'')) \<and>
     text_like re_signature_map (opt_prop v (js ''signatureMap'')))"

definition call_ok :: "event \<Rightarrow> bool" where
  "call_ok e = (\<exists>v. truthy v \<and> e = Called (js ''createTopic'') [v] \<or>
     payout_ok v \<and> e = Called (js ''payout'') [v] \<or>
     proof_ok v \<and> e = Called (js ''verifyPayoutProof'') [v] \<or>
     (\<exists>m. truthy v \<and> byte_length m \<le> 1024 \<and> e = Called (js ''submitMessage'') [v, Str m]))"

lemma check_transfers_None: "check_transfers ts = Inr None \<Longrightarrow> list_all transfer_ok ts"
  by (induction ts) (auto simp: get_prop_Inr transfer_ok_def split: if_splits)

lemma validate_payout_None:
  assumes "validate_payout body = Inr None"
  shows "payout_ok (payout_args body)"
proof -
  obtain t ts where "text_like re_hedera_id (opt_prop body (js ''tokenId''))"
    "opt_prop body (js ''transfers'') = Arr (t # ts)" "check_transfers (t # ts) = Inr None"
    using assms by (auto simp: validate_payout_def get_prop_Inr simp del: check_transfers.simps
        split: if_splits jsval.splits list.splits)
  then show ?thesis
    using check_transfers_None [of "t # ts"] by (simp add: payout_ok_def payout_args_def del: check_transfers.simps)
qed

lemma validate_proof_None: "validate_proof body = Inr None \<Longrightarrow> proof_ok (proof_args body)"
  by (auto simp: validate_proof_def proof_ok_def proof_args_def get_prop_Inr split: if_splits)

lemma quiet_replies [trace_rules]: "emits P (refuse st c)" "emits P (ok_reply v)"
  by (simp_all add: refuse_def ok_reply_def trace_rules)

lemma submit_message_ok: "emits call_ok (submit_message h topic body payload too_large)"
  by (auto simp: submit_message_def Let_def call_ok_def max_message_bytes_def intro!: emits_bindM trace_rules)

lemma dispatch_ok: "emits call_ok (dispatch h topic u body)"
proof -
  have "emits call_ok (create_topic_route h body)"
    by (auto simp: create_topic_route_def call_ok_def or_else_def default_memo_def intro!: emits_bindM trace_rules)
  moreover have "emits call_ok (payout_route h body)"
    by (auto simp: payout_route_def call_ok_def run_iffs validate_payout_None intro!: emits_bindM trace_rules
        split: option.splits)
  moreover have "emits call_ok (proof_route h body)"
    by (auto simp: proof_route_def call_ok_def run_iffs validate_proof_None intro!: emits_bindM trace_rules
        split: option.splits)
  moreover have "emits call_ok (submit_route h topic v body)" for v
    by (auto simp: submit_route_def intro!: emits_bindM submit_message_ok trace_rules)
  ultimately show ?thesis by (simp add: dispatch_def)
qed

definition gated :: "jsstr \<Rightarrow> sidecar_request \<Rightarrow> event \<Rightarrow> bool" where
  "gated token req e = (key_use e \<longrightarrow> sr_method req = js ''POST'' \<and>
     sr_authorization req = Some (js ''Bearer '' @ token) \<and> call_ok e)"

lemma call_names [simp]:
  "js ''createTopic'' \<in> set key_operations" "js ''submitMessage'' \<in> set key_operations"
  "js ''payout'' \<in> set key_operations" "js ''verifyPayoutProof'' \<in> set key_operations"
  "js ''captureException'' \<notin> set key_operations"
  by (simp_all add: key_operations_def)

lemma report_error_quiet: "emits (\<lambda>e. \<not> key_use e) (bindM (report_error b) (\<lambda>_. refuse st c))"
  by (auto simp: report_error_def intro!: emits_bindM trace_rules)

lemma report_error_gated: "emits (gated token req) (bindM (report_error b) (\<lambda>_. refuse st c))"
  by (rule emits_mono [OF report_error_quiet]) (simp add: gated_def)

lemma handle_gated: "emits (gated token req) (handle h token topic req)"
proof -
  have "emits (gated token req) (dispatch h topic (sr_url req) body)"
    if "sr_method req = js ''POST''" "sr_authorization req = Some (js ''Bearer '' @ token)" for body
    by (rule emits_mono [OF dispatch_ok]) (use that in \<open>simp add: gated_def\<close>)
  then show ?thesis
    by (auto simp: handle_def intro!: emits_bindM emits_catchM report_error_gated trace_rules split: option.splits)
qed

lemma serve_gated: "emits (gated token req) (serve h token topic req)"
  unfolding serve_def by (intro emits_catchM handle_gated report_error_gated)

text \<open>The payouts among the calls of one request.\<close>

lemma call_ok_payout: "call_ok (Called (js ''payout'') [v]) \<Longrightarrow> payout_ok v"
  by (auto simp: call_ok_def)

lemma served_payout_ok:
  assumes "serve h token topic req s = (r, s')" "trace s' = trace s @ evs" "Called (js ''payout'') [v] \<in> set evs"
  shows "payout_ok v"
proof -
  obtain evs' where "trace s' = trace s @ evs'" "\<forall>e \<in> set evs'. gated token req e"
    by (rule emitsD [OF serve_gated assms(1)])
  then have "gated token req (Called (js ''payout'') [v])" using assms(2,3) by simp
  then show ?thesis by (simp add: gated_def call_ok_payout)
qed

lemma quiet_at_most: "at_most key_use 0 (liftM r)" "at_most key_use 0 (refuse st c)" "at_most key_use 0 (ok_reply v)"
  "at_most key_use 0 (bindM (report_error b) (\<lambda>_. refuse st c))"
  by (auto intro!: emits_at_most report_error_quiet trace_rules)

lemma call_then_reply: "at_most key_use (Suc 0) (bindM (callM f name args) (\<lambda>x. ok_reply (g x)))"
proof -
  have "at_most key_use (Suc 0 + 0) (bindM (callM f name args) (\<lambda>x. ok_reply (g x)))"
    using at_most_callM [of key_use f name args] by (intro at_most_bindM quiet_at_most) simp
  then show ?thesis by simp
qed

lemmas one_call = call_then_reply call_then_reply [of _ _ _ "\<lambda>x. x", simplified]

lemma after_check: "(\<And>x. at_most key_use (Suc 0) (f x)) \<Longrightarrow> at_most key_use (Suc 0) (bindM (liftM r) f)"
  using at_most_bindM [of key_use 0 "liftM r" "Suc 0" f] quiet_at_most(1) [of r] by simp

lemma refuse_at_most: "at_most key_use (Suc 0) (refuse st c)"
  using at_most_mono [OF quiet_at_most(2)] by simp

lemma dispatch_once: "at_most key_use (Suc 0) (dispatch h topic u body)"
proof -
  have "at_most key_use (Suc 0) (submit_message h topic body payload too_large)" for payload too_large
    by (auto simp: submit_message_def Let_def intro!: one_call refuse_at_most
        at_most_mono [OF emits_at_most, of _ _ "Suc 0"] trace_rules)
  then have "at_most key_use (Suc 0) (submit_route h topic v body)" for v
    by (auto simp: submit_route_def intro!: after_check refuse_at_most)
  moreover have "at_most key_use (Suc 0) (create_topic_route h body)"
    unfolding create_topic_route_def by (intro after_check one_call)
  moreover have "at_most key_use (Suc 0) (payout_route h body)"
    by (auto simp: payout_route_def intro!: after_check refuse_at_most one_call split: option.splits)
  moreover have "at_most key_use (Suc 0) (proof_route h body)"
    by (auto simp: proof_route_def intro!: after_check refuse_at_most one_call split: option.splits)
  ultimately show ?thesis by (simp add: dispatch_def)
qed

lemma handle_once: "at_most key_use (Suc 0) (handle h token topic req)"
proof -
  have "at_most key_use (Suc 0 + 0) (catchM (dispatch h topic (sr_url req) body)
      (\<lambda>e. bindM (report_error ''request'') (\<lambda>_. refuse 502 (js ''hedera_error''))))" for body
    by (intro at_most_catchM dispatch_once quiet_at_most)
  then show ?thesis
    by (auto simp: handle_def intro!: after_check refuse_at_most at_most_mono [OF quiet_at_most(3), of "Suc 0"] split: option.splits)
qed

lemma serve_answers: "\<exists>st body. fst (serve h token topic req s) = Inr (st, body)"
  by (cases "handle h token topic req s"; cases "fst (handle h token topic req s)")
    (auto simp: serve_def run_simps report_error_def callM_def refuse_def)

text \<open>C18. The keys of the sidecar are behind its token: every request is answered; it makes at most one
  call that uses a key, and only if it is a POST with the bearer token; the call then has the shape
  the route allows (a message of at most 1024 bytes to a named topic, a payout of positive decimal
  amounts to Hedera accounts, a bounded proof).\<close>

theorem sidecar_gate:
  assumes "serve h token topic req s = (r, s')"
  shows "(\<exists>st body. r = Inr (st, body)) \<and> (\<exists>evs. trace s' = trace s @ evs \<and> length (filter key_use evs) \<le> 1 \<and>
    (\<forall>e \<in> set evs. key_use e \<longrightarrow> sr_method req = js ''POST'' \<and>
       sr_authorization req = Some (js ''Bearer '' @ token) \<and> call_ok e))"
proof -
  obtain evs where e: "trace s' = trace s @ evs" "\<forall>e \<in> set evs. gated token req e"
    by (rule emitsD [OF serve_gated assms])
  have "at_most key_use (Suc 0 + 0) (serve h token topic req)"
    unfolding serve_def by (intro at_most_catchM handle_once quiet_at_most)
  then obtain evs' where "trace s' = trace s @ evs'" "length (filter key_use evs') \<le> 1"
    using assms unfolding at_most_def by fastforce
  moreover have "\<exists>st body. r = Inr (st, body)"
    using serve_answers [of h token topic req s] assms by simp
  ultimately show ?thesis using e unfolding gated_def by (metis append_same_eq same_append_eq)
qed

end
