(* ===== verification/SidecarHedera.thy ===== *)
theory SidecarHedera
  imports Sidecar
begin

text \<open>
  The object behind the sidecar: \<open>sidecar/hedera.mjs\<close> over the SDK of \<open>HederaSdk\<close>, and the
  configuration of the process (\<open>sidecar/server.mjs\<close>, \<open>sidecar/instrument.mjs\<close>) over its
  environment variables. A payout is balanced and credits every designer exactly, if the total
  fits a double when it is paid in a token; the text a wallet signs determines the message.
\<close>

section \<open>Payout proofs\<close>

definition payout_proof_payload :: "jsstr \<Rightarrow> bytes" where
  "payout_proof_payload message =
     utf8_encode (25 # js ''Hedera Signed Message:'' @ [10] @ dec_str (length message) @ message)"

text \<open>\<open>pair.ed25519 || pair.ECDSASecp256k1 || null\<close>: a byte array is truthy, also an empty one.\<close>

definition payout_proof_signature :: "'w sdk \<Rightarrow> jsval \<Rightarrow> js_error + bytes option" where
  "payout_proof_signature sdk signature_map =
     bindE (string_of signature_map) (\<lambda>text.
     bindE (sdk_signature_pairs sdk (buffer_base64 text)) (\<lambda>pairs. Inr (case pairs of
         [(ed25519, ecdsa)] \<Rightarrow> (if ed25519 \<noteq> None then ed25519 else ecdsa)
       | _ \<Rightarrow> None)))"

section \<open>Payouts\<close>

fun elements :: "jsval \<Rightarrow> js_error + jsval list" where
  "elements (Arr vs) = Inr vs"
| "elements v = Inl (TypeErr [])"

definition transfer_amount :: "jsval \<Rightarrow> js_error + int" where
  "transfer_amount t = bindE (get_prop t (js ''amount'')) bigint_of"

definition hbar_credit :: "'w sdk \<Rightarrow> jsval \<Rightarrow> js_error + transfer_entry" where
  "hbar_credit sdk t = bindE (get_prop t (js ''accountId'')) (\<lambda>a. bindE (sdk_account sdk a) (\<lambda>account.
     bindE (sdk_tinybars sdk (opt_prop t (js ''amount''))) (\<lambda>n.
       Inr \<lparr>te_token = None, te_account = account, te_amount = n\<rparr>)))"

definition token_credit :: "'w sdk \<Rightarrow> jsstr \<Rightarrow> jsval \<Rightarrow> js_error + transfer_entry" where
  "token_credit sdk token t = bindE (get_prop t (js ''accountId'')) (\<lambda>a. bindE (sdk_account sdk a) (\<lambda>account.
     bindE (number_of (opt_prop t (js ''amount''))) (\<lambda>x. bindE (sdk_units sdk x) (\<lambda>n.
       Inr \<lparr>te_token = Some token, te_account = account, te_amount = n\<rparr>))))"

definition payout_entries ::
  "'w sdk \<Rightarrow> jsstr \<Rightarrow> jsval \<Rightarrow> jsval list \<Rightarrow> int \<Rightarrow> js_error + transfer_entry list" where
  "payout_entries sdk treasury token_id ts amount =
     (if token_id = Str (js ''0.0.0'')
      then bindE (sdk_tinybars sdk (Str (int_str (- amount)))) (\<lambda>debit. bindE (mapE (hbar_credit sdk) ts) (\<lambda>es.
        Inr (\<lparr>te_token = None, te_account = treasury, te_amount = debit\<rparr> # es)))
      else bindE (sdk_token sdk token_id) (\<lambda>token.
        bindE (sdk_units sdk (double_of (of_int (- amount)))) (\<lambda>debit. bindE (mapE (token_credit sdk token) ts) (\<lambda>es.
        Inr (\<lparr>te_token = Some token, te_account = treasury, te_amount = debit\<rparr> # es)))))"

text \<open>The transfer a payout submits, with the key that signs it. \<open>treasury\<close> is the configured account
  and private key, if any.\<close>

definition payout_transfer :: "'w sdk \<Rightarrow> (jsval \<times> jsval) option \<Rightarrow> jsval \<Rightarrow> js_error + jsval \<times> transfer" where
  "payout_transfer sdk treasury args = (case treasury of
       None \<Rightarrow> Inl (PlainErr (js ''treasury_not_configured''))
     | Some (account, private_key) \<Rightarrow>
         bindE (sdk_key sdk private_key) (\<lambda>key. bindE (sdk_account sdk account) (\<lambda>treasury_id.
         bindE (elements (opt_prop args (js ''transfers''))) (\<lambda>ts. bindE (mapE transfer_amount ts) (\<lambda>amounts.
         bindE (payout_entries sdk treasury_id (opt_prop args (js ''tokenId'')) ts (sum_list amounts)) (\<lambda>es.
         Inr (key, \<lparr>tx_entries = es, tx_payer = None,
           tx_memo = (if truthy (opt_prop args (js ''memo'')) then opt_prop args (js ''memo'') else Undef)\<rparr>)))))))"

section \<open>The object\<close>

fun first_argument :: "jsval list \<Rightarrow> jsval" where
  "first_argument (v # vs) = v"
| "first_argument [] = Undef"

text \<open>\<open>execute\<close> is the submission and its receipt: an object with what the SDK reports.\<close>

definition transaction_id :: "jsval \<Rightarrow> js_error + jsval" where
  "transaction_id response = get_prop response (js ''transactionId'')"

definition hedera_create_topic :: "'w sdk \<Rightarrow> jsval \<Rightarrow> jsval list \<Rightarrow> 'w \<Rightarrow> (js_error + jsval) \<times> 'w" where
  "hedera_create_topic sdk key args =
     bindM (sdk_execute sdk (CreateTopic (first_argument args) key) [key]) (\<lambda>response.
       liftM (bindE (get_prop response (js ''topicId'')) (\<lambda>topic. bindE (transaction_id response) (\<lambda>t.
         Inr (Obj [(js ''topicId'', topic), (js ''transactionId'', t)])))))"

definition hedera_submit :: "'w sdk \<Rightarrow> jsval \<Rightarrow> jsval list \<Rightarrow> 'w \<Rightarrow> (js_error + jsval) \<times> 'w" where
  "hedera_submit sdk key args = (case args of
       [topic, Str message] \<Rightarrow> bindM (sdk_execute sdk (SubmitMessage topic message) [key]) (\<lambda>response.
         liftM (bindE (get_prop response (js ''topicSequenceNumber'')) (\<lambda>sq. bindE (number_of sq) (\<lambda>n.
           bindE (transaction_id response) (\<lambda>t.
           Inr (Obj [(js ''topicId'', topic), (js ''sequenceNumber'', Num n), (js ''transactionId'', t)]))))))
     | _ \<Rightarrow> throwM (TypeErr []))"

definition hedera_payout :: "'w sdk \<Rightarrow> (jsval \<times> jsval) option \<Rightarrow> jsval list \<Rightarrow> 'w \<Rightarrow> (js_error + jsval) \<times> 'w" where
  "hedera_payout sdk treasury args =
     bindM (liftM (payout_transfer sdk treasury (first_argument args))) (\<lambda>(key, tx).
     bindM (sdk_execute sdk (TransferTx tx) [key]) (\<lambda>response.
       liftM (bindE (transaction_id response) (\<lambda>t. Inr (Obj [(js ''transactionId'', t)])))))"

definition hedera_verify_proof :: "'w sdk \<Rightarrow> jsval list \<Rightarrow> 'w \<Rightarrow> (js_error + jsval) \<times> 'w" where
  "hedera_verify_proof sdk args = (let v = first_argument args in
     bindM (liftM (bindE (payout_proof_signature sdk (opt_prop v (js ''signatureMap''))) (\<lambda>signature.
        bindE (string_of (opt_prop v (js ''message''))) (\<lambda>message. Inr (signature, message))))) (\<lambda>(signature, message).
     case signature of
       None \<Rightarrow> retM (Bool False)
     | Some sig \<Rightarrow> sdk_verify_signature sdk (opt_prop v (js ''accountId'')) (payout_proof_payload message) sig))"

definition build_hedera ::
  "'w sdk \<Rightarrow> jsstr \<Rightarrow> jsval \<Rightarrow> (jsval \<times> jsval) option \<Rightarrow> js_error + 'w hedera" where
  "build_hedera sdk network private_key treasury = bindE (sdk_key sdk private_key) (\<lambda>key.
     Inr \<lparr>h_network = network, h_treasury = (treasury \<noteq> None), h_create_topic = hedera_create_topic sdk key,
       h_submit = hedera_submit sdk key, h_payout = hedera_payout sdk treasury,
       h_verify_proof = hedera_verify_proof sdk\<rparr>)"

section \<open>Configuration\<close>

record sidecar_settings =
  sc_port :: jsnum
  sc_host :: jsstr
  sc_network :: jsstr
  sc_account :: jsstr
  sc_private_key :: jsstr
  sc_treasury :: "(jsstr \<times> jsstr) option"
  sc_token :: jsstr

definition required_names :: "string list" where
  "required_names = [''HEDERA_ACCOUNT_ID'', ''HEDERA_PRIVATE_KEY'', ''SIDECAR_TOKEN'']"

definition sidecar_config :: "environment \<Rightarrow> js_error + sidecar_settings" where
  "sidecar_config env = (case filter (\<lambda>name. \<not> env_set env name) required_names of
       name # _ \<Rightarrow> Inl (PlainErr (js name @ js '' is required''))
     | [] \<Rightarrow> Inr \<lparr>sc_port = number_of_str (env_or env ''SIDECAR_PORT'' (js ''4021'')),
         sc_host = env_or env ''SIDECAR_HOST'' (js ''127.0.0.1''),
         sc_network = env_or env ''HEDERA_NETWORK'' (js ''testnet''),
         sc_account = env_or env ''HEDERA_ACCOUNT_ID'' [],
         sc_private_key = env_or env ''HEDERA_PRIVATE_KEY'' [],
         sc_treasury = (if env_set env ''TREASURY_ACCOUNT_ID'' \<and> env_set env ''TREASURY_PRIVATE_KEY''
           then Some (env_or env ''TREASURY_ACCOUNT_ID'' [], env_or env ''TREASURY_PRIVATE_KEY'' []) else None),
         sc_token = env_or env ''SIDECAR_TOKEN'' []\<rparr>)"

definition sidecar_server :: "'w sdk \<Rightarrow> environment \<Rightarrow> sidecar_request \<Rightarrow> js_error + ('w, reply) prog" where
  "sidecar_server sdk env req = bindE (sidecar_config env) (\<lambda>c.
     bindE (build_hedera sdk (sc_network c) (Str (sc_private_key c))
         (map_option (\<lambda>(a, k). (Str a, Str k)) (sc_treasury c))) (\<lambda>h.
     Inr (serve h (sc_token c) (case env (js ''HEDERA_HCS_TOPIC_ID'') of None \<Rightarrow> Undef | Some t \<Rightarrow> Str t) req)))"

text \<open>\<open>Math.min\<close> and \<open>Math.max\<close> on finite numbers.\<close>

record sentry =
  se_dsn :: jsstr
  se_environment :: jsstr
  se_release :: "jsstr option"
  se_send_pii :: bool
  se_sample_rate :: rat

definition sample_rate :: "jsnum \<Rightarrow> rat" where
  "sample_rate n = (case n of Fin q \<Rightarrow> min 1 (max 0 q) | _ \<Rightarrow> 0)"

definition sentry_options :: "environment \<Rightarrow> sentry option" where
  "sentry_options env = (if \<not> env_set env ''SENTRY_DSN'' then None else
     Some \<lparr>se_dsn = env_or env ''SENTRY_DSN'' [],
       se_environment = env_or env ''SENTRY_ENVIRONMENT'' (env_or env ''NODE_ENV'' (js ''production'')),
       se_release = (if env_set env ''SENTRY_RELEASE'' then Some (env_or env ''SENTRY_RELEASE'' []) else None),
       se_send_pii = False,
       se_sample_rate = sample_rate (number_of_str (env_or env ''SENTRY_TRACES_SAMPLE_RATE'' (js ''0'')))\<rparr>)"

section \<open>The signed text determines the message\<close>

lemma dec_str_length_mono: "a \<le> b \<Longrightarrow> length (dec_str a) \<le> length (dec_str b)"
proof (induction b arbitrary: a rule: dec_str.induct)
  case (1 b)
  show ?case
  proof (cases "a < 10")
    case True
    then have "length (dec_str a) = 1" by (subst dec_str.simps) simp
    then show ?thesis using dec_str_nonempty [of b] by (cases "dec_str b") simp_all
  next
    case False
    with 1 have "length (dec_str (a div 10)) \<le> length (dec_str (b div 10))" by (simp add: div_le_mono)
    then show ?thesis
      using False 1(2) by (subst (1 2) dec_str.simps) simp
  qed
qed

lemma well_formed_ascii_append: "ascii p \<Longrightarrow> well_formed (p @ m) = well_formed m"
proof (induction p)
  case (Cons c p)
  then have c: "\<not> is_high c" "\<not> is_low c" by (auto simp: ascii_not_surrogate)
  show ?case
    using Cons c by (cases "p @ m") auto
qed simp

lemma ascii_digits: "list_all is_digit s \<Longrightarrow> ascii s"
  by (auto simp: ascii_def list_all_iff is_digit_def word_le_nat_alt word_less_nat_alt)

lemma framed_by_length:
  assumes "dec_str (length m) @ m = dec_str (length n) @ n"
  shows "m = n"
proof -
  have "length (dec_str (length m)) + length m = length (dec_str (length n)) + length n"
    using arg_cong [OF assms, of length] by simp
  then have "length m = length n"
    using dec_str_length_mono [of "length m" "length n"] dec_str_length_mono [of "length n" "length m"] by linarith
  then show ?thesis using assms by simp
qed


section \<open>What a payout moves\<close>

lemma digits_val_Cons_bound: "digits_val (c # s) \<ge> unat c - 48"
  by (induction s rule: rev_induct) (simp_all add: digits_val_def)

lemma digits_val_pos:
  assumes "list_all is_digit s" "s \<noteq> []" "hd s \<noteq> 48"
  shows "0 < digits_val s"
proof -
  obtain c t where s: "s = c # t" using assms(2) by (cases s) auto
  have "48 \<le> c" "c \<noteq> 48" using assms s by (auto simp: is_digit_def)
  then have "48 < c" by (simp add: order_less_le)
  then have "48 < unat c" by (simp add: word_less_nat_alt)
  then show ?thesis using digits_val_Cons_bound [of c t] unfolding s by linarith
qed

lemma dec_str_digits_val: "list_all is_digit s \<Longrightarrow> s \<noteq> [] \<Longrightarrow> hd s \<noteq> 48 \<Longrightarrow> dec_str (digits_val s) = s"
proof (induction s rule: rev_induct)
  case (snoc c s)
  have c: "48 \<le> unat c" "unat c \<le> 57"
    using snoc.prems by (auto simp: is_digit_def word_le_nat_alt)
  have cc: "(of_nat (48 + (unat c - 48)) :: jsunit) = c" using c by simp
  show ?case
  proof (cases "s = []")
    case True
    then show ?thesis
      using c cc by (subst dec_str.simps) (simp add: digits_val_def del: of_nat_add)
  next
    case False
    with snoc.prems have s: "list_all is_digit s" "hd s \<noteq> 48" by auto
    have p: "0 < digits_val s" by (rule digits_val_pos [OF s(1) False s(2)])
    obtain d where d: "unat c - 48 = d" "d < 10" using c by simp
    have "(digits_val s * 10 + (unat c - 48)) div 10 = digits_val s"
      "(digits_val s * 10 + (unat c - 48)) mod 10 = unat c - 48"
      "\<not> digits_val s * 10 + (unat c - 48) < 10"
      unfolding d(1) using d(2) p by auto
    then show ?thesis
      using snoc.IH [OF s(1) False s(2)] cc unfolding digits_val_snoc
      by (subst dec_str.simps) (simp del: of_nat_add)
  qed
qed simp

lemma re_amount_digits:
  assumes "re_test re_amount s"
  shows "list_all is_digit s \<and> s \<noteq> [] \<and> hd s \<noteq> 48"
proof (cases s)
  case Nil
  then show ?thesis using assms by (simp add: re_amount_def)
next
  case (Cons c t)
  have d: "in_cls [(jc CHR ''0'', jc CHR ''9'')] = is_digit"
    by (auto simp: in_cls_def is_digit_def jc_def fun_eq_iff)
  have "in_cls [(jc CHR ''1'', jc CHR ''9'')] c" "list_all is_digit t"
    using assms unfolding re_test_iff re_amount_def Cons r_digit_def re_lang_SeqCls_Cons re_lang_StarCls d by auto
  then show ?thesis
    by (auto simp: Cons in_cls_def jc_def is_digit_def word_le_nat_alt)
qed

text \<open>The amount of a validated transfer, and their sum.\<close>

fun amount_value :: "jsval \<Rightarrow> nat" where
  "amount_value (Str s) = digits_val s"
| "amount_value _ = 0"

definition credit_of :: "jsval \<Rightarrow> nat" where
  "credit_of t = amount_value (opt_prop t (js ''amount''))"

definition payout_total :: "jsval list \<Rightarrow> nat" where
  "payout_total ts = sum_list (map credit_of ts)"

lemma text_likeE:
  assumes "text_like r v"
  obtains s where "v = Str s" "re_test r s"
  using assms by (cases v) auto

lemma transfer_okE:
  assumes "transfer_ok t"
  obtains s where "opt_prop t (js ''amount'') = Str s" "list_all is_digit s" "s \<noteq> []" "hd s \<noteq> 48"
    "s = dec_str (credit_of t)" "0 < credit_of t" "\<not> nullish t"
proof -
  obtain s where s: "opt_prop t (js ''amount'') = Str s" "re_test re_amount s"
    using assms by (auto simp: transfer_ok_def elim: text_likeE)
  moreover have "\<not> nullish t" using s(1) by (cases t) (auto simp: nullish_def)
  ultimately show thesis
    using re_amount_digits [OF s(2)] dec_str_digits_val [of s] digits_val_pos [of s] that
    by (simp add: credit_of_def)
qed

lemma transfer_amount_ok: "transfer_ok t \<Longrightarrow> transfer_amount t = Inr (int (credit_of t))"
  by (erule transfer_okE) (simp add: transfer_amount_def get_prop_def)

lemma transfer_amounts_ok:
  "list_all transfer_ok ts \<Longrightarrow> mapE transfer_amount ts = Inr (map (\<lambda>t. int (credit_of t)) ts)"
  by (induction ts) (simp_all add: transfer_amount_ok)

text \<open>The entry credits the account of the transfer with exactly its amount.\<close>

definition credits :: "'w sdk \<Rightarrow> jsstr option \<Rightarrow> jsval \<Rightarrow> transfer_entry \<Rightarrow> bool" where
  "credits sdk token t e = (te_token e = token \<and> te_amount e = int (credit_of t) \<and> 0 < te_amount e \<and>
     sdk_account sdk (opt_prop t (js ''accountId'')) = Inr (te_account e))"

lemma hbar_credit_ok:
  assumes "exact_sdk sdk" "transfer_ok t" "hbar_credit sdk t = Inr e"
  shows "credits sdk None t e"
  using assms(3) by (rule_tac transfer_okE [OF assms(2)]) (auto simp: hbar_credit_def credits_def get_prop_def exact_sdkD [OF assms(1)])

lemma token_credit_ok:
  assumes "exact_sdk sdk" "transfer_ok t" "credit_of t < 2 ^ 53" "token_credit sdk token t = Inr e"
  shows "credits sdk (Some token) t e"
proof (rule transfer_okE [OF assms(2)])
  fix s
  assume s: "opt_prop t (js ''amount'') = Str s" "s = dec_str (credit_of t)" "0 < credit_of t" "\<not> nullish t"
  then have "number_of (opt_prop t (js ''amount'')) = Inr (Fin (of_nat (credit_of t)))"
    using assms(3) by simp
  then show ?thesis
    using assms(4) s by (auto simp: token_credit_def credits_def get_prop_def exact_sdkD [OF assms(1)])
qed

lemma credits_net:
  assumes "list_all2 (credits sdk token) ts es"
  shows "net_amount a es = (if a = token then int (payout_total ts) else 0)"
  using assms by (induction rule: list_all2_induct) (auto simp: payout_total_def credits_def)

lemma mapE_credits:
  assumes "mapE f ts = Inr es" "\<And>t e. t \<in> set ts \<Longrightarrow> f t = Inr e \<Longrightarrow> P t e"
  shows "list_all2 P ts es"
  using assms by (induction ts arbitrary: es) auto

lemma payout_entries_exact:
  assumes "exact_sdk sdk" "list_all transfer_ok ts"
    "token_id = Str (js ''0.0.0'') \<or> payout_total ts < 2 ^ 53"
    "payout_entries sdk treasury token_id ts (int (payout_total ts)) = Inr es"
  shows "\<exists>token debit credited. es = debit # credited \<and>
    debit = \<lparr>te_token = token, te_account = treasury, te_amount = - int (payout_total ts)\<rparr> \<and>
    list_all2 (credits sdk token) ts credited"
proof (cases "token_id = Str (js ''0.0.0'')")
  case True
  then show ?thesis
    using assms(1,2,4) by (auto simp: payout_entries_def exact_sdkD list_all_iff
        intro!: mapE_credits hbar_credit_ok)
next
  case False
  then have small: "payout_total ts < 2 ^ 53" using assms(3) by simp
  then have "safe_int (- int (payout_total ts))" by (simp add: safe_int_def)
  then have d: "double_of (of_int (- int (payout_total ts))) = Fin (of_int (- int (payout_total ts)))"
    by (rule double_of_safe)
  have "credit_of t < 2 ^ 53" if "t \<in> set ts" for t
  proof -
    have "credit_of t \<le> payout_total ts"
      using that unfolding payout_total_def by (intro member_le_sum_list) auto
    then show ?thesis using small by linarith
  qed
  moreover obtain token debit credited where t: "sdk_token sdk token_id = Inr token"
    "sdk_units sdk (double_of (of_int (- int (payout_total ts)))) = Inr debit"
    "mapE (token_credit sdk token) ts = Inr credited"
    "es = \<lparr>te_token = Some token, te_account = treasury, te_amount = debit\<rparr> # credited"
    using assms(4) False by (auto simp: payout_entries_def)
  moreover have "debit = - int (payout_total ts)"
    using t(2) unfolding d exact_sdkD(3) [OF assms(1)] by simp
  moreover have "list_all2 (credits sdk (Some token)) ts credited"
    by (rule mapE_credits [OF t(3)]) (use assms(1,2) calculation(1) in \<open>auto simp: list_all_iff intro: token_credit_ok\<close>)
  ultimately show ?thesis by blast
qed

lemma payout_transfer_exact:
  assumes "exact_sdk sdk" "payout_ok v" "payout_transfer sdk treasury v = Inr (key, tx)"
    "opt_prop v (js ''transfers'') = Arr ts"
    "opt_prop v (js ''tokenId'') = Str (js ''0.0.0'') \<or> payout_total ts < 2 ^ 53"
  shows "balanced (tx_entries tx) \<and> (\<exists>token debit credited account private_key.
    tx_entries tx = debit # credited \<and> treasury = Some (account, private_key) \<and>
    sdk_account sdk account = Inr (te_account debit) \<and> te_token debit = token \<and>
    te_amount debit = - int (payout_total ts) \<and> list_all2 (credits sdk token) ts credited)"
proof -
  have ts: "list_all transfer_ok ts" using assms(2,4) by (auto simp: payout_ok_def)
  obtain account private_key where tr: "treasury = Some (account, private_key)"
    using assms(3) by (cases treasury) (auto simp: payout_transfer_def)
  have "sum_list (map (\<lambda>t. int (credit_of t)) ts) = int (payout_total ts)"
    by (induction ts) (simp_all add: payout_total_def)
  then obtain treasury_id es where e: "sdk_account sdk account = Inr treasury_id" "tx_entries tx = es"
    "payout_entries sdk treasury_id (opt_prop v (js ''tokenId'')) ts (int (payout_total ts)) = Inr es"
    using assms(3) by (auto simp: payout_transfer_def tr assms(4) transfer_amounts_ok [OF ts])
  obtain token debit credited where es: "es = debit # credited"
    "debit = \<lparr>te_token = token, te_account = treasury_id, te_amount = - int (payout_total ts)\<rparr>"
    "list_all2 (credits sdk token) ts credited"
    using payout_entries_exact [OF assms(1) ts assms(5) e(3)] by blast
  have "balanced es"
    unfolding balanced_iff es(1) using credits_net [OF es(3)] by (simp add: es(2))
  then show ?thesis using e es tr by auto
qed


section \<open>Concrete payouts\<close>

lemma floorlog_eqI: "2 ^ k \<le> n \<Longrightarrow> n < 2 ^ Suc k \<Longrightarrow> floorlog 2 n = Suc k"
  by (intro antisym floorlog_leI floorlog_ge_SucI) simp_all

text \<open>The first integer that is not a double.\<close>

lemma double_of_odd: "double_of 9007199254740993 = Fin 9007199254740992" "double_of (- 9007199254740993) = Fin (- 9007199254740992)"
proof -
  have f: "nat \<lfloor>\<bar>9007199254740993 :: rat\<bar> * 2 ^ 1074\<rfloor> = 9007199254740993 * 2 ^ 1074" by simp
  have "floorlog 2 (9007199254740993 * 2 ^ 1074) = Suc 1127"
    by (rule floorlog_eqI) simp_all
  then have s: "floorlog 2 (nat \<lfloor>\<bar>9007199254740993 :: rat\<bar> * 2 ^ 1074\<rfloor>) - 53 = 1075"
    unfolding f by simp
  have u: "(2 :: rat) ^ 1075 / 2 ^ 1074 = 2" by simp
  have fl: "\<lfloor>9007199254740993 / 2 :: rat\<rfloor> = 4503599627370496" by (rule floor_unique) simp_all
  have a: "\<bar>- 9007199254740993 :: rat\<bar> = \<bar>9007199254740993\<bar>" by simp
  show "double_of 9007199254740993 = Fin 9007199254740992" unfolding double_of_def Let_def s u
    by (simp add: round_half_even_def Let_def fl)
  show "double_of (- 9007199254740993) = Fin (- 9007199254740992)" unfolding double_of_def Let_def a s u
    by (simp add: round_half_even_def Let_def fl)
qed

definition big_transfers :: "jsval list" where
  "big_transfers = [Obj [(js ''accountId'', Str (js ''0.0.5'')), (js ''amount'', Str (js ''9007199254740993''))]]"

definition payout_body :: "string \<Rightarrow> jsval list \<Rightarrow> jsval" where
  "payout_body token ts = Obj [(js ''tokenId'', Str (js token)), (js ''transfers'', Arr ts)]"

definition sample_treasury :: "(jsval \<times> jsval) option" where
  "sample_treasury = Some (Str (js ''0.0.2''), Str (js ''key''))"

lemma big_digits: "digits_val (js ''9007199254740993'') = 9007199254740993"
  by (simp add: digits_val_def js_Cons jc_def)

text \<open>Above 2 to the 53 a payout in a token moves another amount than the one requested: the
  sidecar accepts the request, and both the debit and the credit are rounded to a double.\<close>

theorem payout_token_rounding:
  "payout_ok (payout_body ''0.0.9'' big_transfers) \<and> payout_total big_transfers = 9007199254740993 \<and>
   (\<exists>key tx. payout_transfer sample_sdk sample_treasury (payout_body ''0.0.9'' big_transfers) = Inr (key, tx) \<and>
      map te_amount (tx_entries tx) = [- 9007199254740992, 9007199254740992])"
proof -
  have g: "list_all is_digit (js ''9007199254740993'')" by code_simp
  have n: "number_of_str (js ''9007199254740993'') = Fin 9007199254740992"
    using number_of_digits [OF _ g] by (simp add: big_digits double_of_odd)
  have b: "bigint_of_str (js ''9007199254740993'') = Inr 9007199254740993"
    using bigint_of_digits [OF _ g] by (simp add: big_digits)
  have "payout_ok (payout_body ''0.0.9'' big_transfers)"
  proof -
    have "text_like re_hedera_id (Str (js ''0.0.9''))" "list_all transfer_ok big_transfers" "big_transfers \<noteq> []" by code_simp+
    then show ?thesis by (simp add: payout_ok_def payout_body_def)
  qed
  moreover have "payout_total big_transfers = 9007199254740993"
    by (simp add: payout_total_def big_transfers_def credit_of_def big_digits)
  moreover have "\<exists>key tx. payout_transfer sample_sdk sample_treasury (payout_body ''0.0.9'' big_transfers) = Inr (key, tx) \<and>
      map te_amount (tx_entries tx) = [- 9007199254740992, 9007199254740992]"
    by (simp add: payout_transfer_def sample_treasury_def sample_sdk_def payout_body_def big_transfers_def
        transfer_amount_def get_prop_def nullish_def b n payout_entries_def token_credit_def double_of_odd rat_is_int_def)
  ultimately show ?thesis by blast
qed

definition sample_body :: jsval where
  "sample_body = payout_body ''0.0.0'' [Obj [(js ''accountId'', Str (js ''0.0.5'')), (js ''amount'', Str (js ''7''))]]"

definition sample_request :: sidecar_request where
  "sample_request = \<lparr>sr_method = js ''POST'', sr_url = js ''/payout'', sr_authorization = Some (js ''Bearer t''),
     sr_chunks = Inr [utf8_encode (emit sample_body)]\<rparr>"

definition sample_object :: "hedera_tx list hedera" where
  "sample_object = (case build_hedera sample_sdk (js ''testnet'') (Str (js ''k'')) sample_treasury of Inr h \<Rightarrow> h | Inl e \<Rightarrow> undefined)"

lemma sample_transfer: "\<exists>k tx. payout_transfer sample_sdk sample_treasury (payout_args sample_body) = Inr (k, tx)"
proof -
  have b: "bigint_of_str (js ''7'') = Inr 7" by code_simp
  show ?thesis
    by (simp add: payout_transfer_def sample_treasury_def sample_sdk_def payout_args_def sample_body_def payout_body_def
        transfer_amount_def get_prop_def nullish_def b payout_entries_def hbar_credit_def)
qed

lemma sample_served:
  "\<exists>r w. serve sample_object (js ''t'') Undef sample_request \<lparr>net = [], trace = []\<rparr> =
     (r, \<lparr>net = w, trace = [Called (js ''payout'') [payout_args sample_body]]\<rparr>)"
proof -
  have pl: "json_plain sample_body" by (simp add: sample_body_def payout_body_def)
  have p: "parse_chunks [utf8_encode (emit sample_body)] = Some sample_body"
    using utf8_lossy_encode [OF well_formed_emit [OF pl]] json_parse_emit [OF pl] by (simp add: parse_chunks_def)
  have v: "validate_payout sample_body = Inr None" by code_simp
  have r: "js ''/payout'' \<in> set routes" by (simp add: routes_def)
  have a: "js ''Bearer t'' = js ''Bearer '' @ js ''t''" by (simp add: js_def)
  have h: "h_treasury sample_object" by (simp add: sample_object_def build_hedera_def sample_sdk_def sample_treasury_def)
  obtain k tx where t: "payout_transfer sample_sdk sample_treasury (payout_args sample_body) = Inr (k, tx)"
    using sample_transfer by blast
  have hp: "h_payout sample_object [payout_args sample_body] [] =
      (Inr (Obj [(js ''transactionId'', Str (js ''0.0.1@5.6''))]), [TransferTx tx])"
    using t by (simp add: sample_object_def build_hedera_def hedera_payout_def run_simps transaction_id_def get_prop_def
        nullish_def sample_sdk_sel)
  show ?thesis
    by (simp add: serve_def handle_def sample_request_def r a p dispatch_def payout_route_def v h run_simps callM_def
        ok_reply_def hp)
qed


theorem sidecar_gate_witness:
  "\<exists>r s'. serve sample_object (js ''t'') Undef sample_request \<lparr>net = [], trace = []\<rparr> = (r, s') \<and>
     filter key_use (trace s') = [Called (js ''payout'') [payout_args sample_body]] \<and> (\<exists>st body. r = Inr (st, body))"
proof -
  obtain r w where s: "serve sample_object (js ''t'') Undef sample_request \<lparr>net = [], trace = []\<rparr> =
     (r, \<lparr>net = w, trace = [Called (js ''payout'') [payout_args sample_body]]\<rparr>)"
    using sample_served by blast
  then show ?thesis using sidecar_gate [OF s] by auto
qed


end
