(* ===== verification/Wallet.thy ===== *)
theory Wallet
  imports HederaSdk Canonical
begin

text \<open>
  The browser wallet: choosing a payment, building and encoding it (\<open>wallet/payment.js\<close>), payout
  proofs (\<open>wallet/payout_proof.js\<close>) and the signing operations of \<open>wallet/browser.js\<close>. The wallet
  extension that signs is the record \<open>provider\<close>. The lemmas say that what is signed is a balanced
  transfer of the offered amount from the connected account, and that the header decodes to it.
\<close>

section \<open>Choosing a payment\<close>

definition bad_network :: js_error where
  "bad_network = TypeErr (js ''wallet network must be testnet or mainnet'')"

definition assert_network :: "jsstr \<Rightarrow> js_error + unit" where
  "assert_network network = guardE (network \<in> {js ''testnet'', js ''mainnet''}) bad_network"

definition bad_amount :: js_error where
  "bad_amount = TypeErr (js ''payment amount must be a positive integer'')"

definition parse_amount :: "jsval \<Rightarrow> js_error + int" where
  "parse_amount v = (case bigint_of v of
       Inl e \<Rightarrow> Inl bad_amount
     | Inr n \<Rightarrow> if n \<le> 0 then Inl bad_amount else Inr n)"

definition chain :: "jsstr \<Rightarrow> jsstr" where
  "chain network = js ''hedera:'' @ network"

text \<open>\<open>paymentRequired.accepts?.find(...)\<close>\<close>

definition find_payment :: "jsval \<Rightarrow> jsstr \<Rightarrow> js_error + jsval" where
  "find_payment accepts network =
     (case accepts of
       Arr cs \<Rightarrow> ofOption (TypeErr (js ''quote does not support Hedera '' @ network))
         (find (\<lambda>c. opt_prop c (js ''scheme'') = Str (js ''exact'') \<and> opt_prop c (js ''network'') = Str (chain network)) cs)
     | Undef \<Rightarrow> Inl (TypeErr (js ''quote does not support Hedera '' @ network))
     | Null \<Rightarrow> Inl (TypeErr (js ''quote does not support Hedera '' @ network))
     | _ \<Rightarrow> Inl (TypeErr (js ''find is not a function'')))"

definition select_accepted_payment :: "'w sdk \<Rightarrow> jsval \<Rightarrow> jsstr \<Rightarrow> js_error + jsval \<times> int" where
  "select_accepted_payment sdk required network =
     bindE (assert_network network) (\<lambda>_.
     if opt_prop required (js ''x402Version'') \<noteq> jnum 2 \<or> \<not> truthy (opt_prop required (js ''resource''))
     then Inl (TypeErr (js ''wallet requires an x402 v2 payment challenge''))
     else bindE (find_payment (opt_prop required (js ''accepts'')) network) (\<lambda>accepted.
       bindE (parse_amount (opt_prop accepted (js ''amount''))) (\<lambda>amount.
       bindE (sdk_account sdk (opt_prop accepted (js ''payTo''))) (\<lambda>_.
       bindE (sdk_account sdk (opt_prop (opt_prop accepted (js ''extra'')) (js ''feePayer''))) (\<lambda>_.
       bindE (if opt_prop accepted (js ''asset'') = Str (js ''0.0.0'') then Inr []
              else sdk_token sdk (opt_prop accepted (js ''asset''))) (\<lambda>_.
         Inr (accepted, amount)))))))"

section \<open>Building the transaction\<close>

definition payment_lines ::
  "'w sdk \<Rightarrow> jsval \<Rightarrow> jsstr \<Rightarrow> jsstr \<Rightarrow> int \<Rightarrow> js_error + transfer_entry list" where
  "payment_lines sdk asset buyer pay_to units =
     (if asset = Str (js ''0.0.0'')
      then bindE (sdk_tinybars sdk (Str (int_str (- units)))) (\<lambda>debit.
        bindE (sdk_tinybars sdk (Str (int_str units))) (\<lambda>credit.
        Inr [\<lparr>te_token = None, te_account = buyer, te_amount = debit\<rparr>,
             \<lparr>te_token = None, te_account = pay_to, te_amount = credit\<rparr>]))
      else bindE (sdk_token sdk asset) (\<lambda>token.
        bindE (sdk_big_units sdk (- units)) (\<lambda>debit. bindE (sdk_big_units sdk units) (\<lambda>credit.
        Inr [\<lparr>te_token = Some token, te_account = buyer, te_amount = debit\<rparr>,
             \<lparr>te_token = Some token, te_account = pay_to, te_amount = credit\<rparr>]))))"

definition build_payment_transaction ::
  "'w sdk \<Rightarrow> jsval \<Rightarrow> int option \<Rightarrow> jsval \<Rightarrow> jsstr \<Rightarrow> js_error + transfer" where
  "build_payment_transaction sdk accepted amount account_id network =
     bindE (assert_network network) (\<lambda>_.
     if opt_prop accepted (js ''network'') \<noteq> Str (chain network) \<or> opt_prop accepted (js ''scheme'') \<noteq> Str (js ''exact'')
     then Inl (TypeErr (js ''accepted payment does not match the connected network''))
     else bindE (sdk_account sdk account_id) (\<lambda>buyer.
       bindE (sdk_account sdk (opt_prop accepted (js ''payTo''))) (\<lambda>pay_to.
       bindE (sdk_account sdk (opt_prop (opt_prop accepted (js ''extra'')) (js ''feePayer''))) (\<lambda>fee_payer.
       bindE (case amount of Some n \<Rightarrow> Inr n | None \<Rightarrow> parse_amount (opt_prop accepted (js ''amount''))) (\<lambda>units.
       bindE (payment_lines sdk (opt_prop accepted (js ''asset'')) buyer pay_to units) (\<lambda>es.
         Inr \<lparr>tx_entries = es, tx_payer = Some fee_payer, tx_memo = Undef\<rparr>))))))"

section \<open>Encoding the signed payment\<close>

text \<open>\<open>bytesToBase64\<close>: \<open>Buffer\<close> where there is one, otherwise \<open>btoa\<close> of a binary string built in
  chunks.\<close>

definition char_of_byte :: "byte \<Rightarrow> jsunit" where
  "char_of_byte b = ucast b"

function binary_chunks :: "nat \<Rightarrow> bytes \<Rightarrow> jsstr" where
  "binary_chunks n bs = (if bs = [] \<or> n = 0 then [] else map char_of_byte (take n bs) @ binary_chunks n (drop n bs))"
  by pat_completeness auto
termination
  by (relation "measure (length \<circ> snd)") auto

declare binary_chunks.simps [simp del]

definition btoa :: "jsstr \<Rightarrow> js_error + jsstr" where
  "btoa s = (if list_all (\<lambda>c. c < 256) s then Inr (b64_encode (map (\<lambda>c. ucast c) s)) else Inl RangeErr)"

definition bytes_to_base64 :: "bool \<Rightarrow> bytes \<Rightarrow> js_error + jsstr" where
  "bytes_to_base64 has_buffer bs = (if has_buffer then Inr (b64_encode bs) else btoa (binary_chunks 0x8000 bs))"

definition utf8_to_base64 :: "bool \<Rightarrow> jsstr \<Rightarrow> js_error + jsstr" where
  "utf8_to_base64 has_buffer s = bytes_to_base64 has_buffer (utf8_encode s)"

definition challenge_offers :: "jsval \<Rightarrow> jsval \<Rightarrow> js_error + bool" where
  "challenge_offers required accepted = (case opt_prop required (js ''accepts'') of
       Arr cs \<Rightarrow> Inr (list_ex (\<lambda>c. canonical_wallet c = canonical_wallet accepted) cs)
     | Undef \<Rightarrow> Inr False
     | Null \<Rightarrow> Inr False
     | _ \<Rightarrow> Inl (TypeErr (js ''some is not a function'')))"

definition signed_payload :: "jsval \<Rightarrow> jsval \<Rightarrow> jsstr \<Rightarrow> jsval" where
  "signed_payload required accepted transaction = Obj [(js ''x402Version'', opt_prop required (js ''x402Version'')),
     (js ''resource'', opt_prop required (js ''resource'')), (js ''accepted'', accepted),
     (js ''payload'', Obj [(js ''transaction'', Str transaction)])]"

definition payment_signature_headers ::
  "bool \<Rightarrow> jsval \<Rightarrow> jsval \<Rightarrow> bytes \<Rightarrow> js_error + (jsstr \<times> jsstr) list" where
  "payment_signature_headers has_buffer required accepted signature =
     bindE (challenge_offers required accepted) (\<lambda>ok.
     if \<not> ok then Inl (TypeErr (js ''signed payment selection is not present in the server challenge''))
     else bindE (bytes_to_base64 has_buffer signature) (\<lambda>transaction.
       bindE (utf8_to_base64 has_buffer (joined (stringify (signed_payload required accepted transaction)))) (\<lambda>v.
       Inr [(js ''PAYMENT-SIGNATURE'', v)])))"

section \<open>Payout proofs\<close>

record message_request =
  mr_signer :: jsstr
  mr_message :: jsstr

definition payout_message_request :: "jsstr \<Rightarrow> jsstr \<Rightarrow> jsstr \<Rightarrow> jsstr \<Rightarrow> js_error + message_request" where
  "payout_message_request network connected_id expected message =
     (if connected_id \<noteq> expected
      then Inl (PlainErr (js ''Connect the staged wallet '' @ expected @ js ''; '' @ connected_id @ js '' is connected''))
      else Inr \<lparr>mr_signer = js ''hedera:'' @ network @ js '':'' @ connected_id, mr_message = message\<rparr>)"

section \<open>Signing\<close>

text \<open>The wallet extension: it is asked to sign a transaction or a message for an account, and
  \<open>pv_connect\<close> is the outcome of \<open>connectForPayment\<close>.\<close>

record 'w provider =
  pv_connect :: "'w \<Rightarrow> (js_error + jsstr) \<times> 'w"
  pv_sign_transaction :: "jsstr \<Rightarrow> transfer \<Rightarrow> 'w \<Rightarrow> (js_error + bytes) \<times> 'w"
  pv_sign_message :: "message_request \<Rightarrow> 'w \<Rightarrow> (js_error + jsstr) \<times> 'w"

fun truthy_text :: "jsstr option \<Rightarrow> bool" where
  "truthy_text (Some s) = (s \<noteq> [])"
| "truthy_text None = False"

definition connected_account :: "'w provider \<Rightarrow> jsstr option \<Rightarrow> 'w \<Rightarrow> (js_error + jsstr) \<times> 'w" where
  "connected_account pv account = (case account of Some (c # cs) \<Rightarrow> retM (c # cs) | _ \<Rightarrow> pv_connect pv)"

definition wallet_sign ::
  "'w sdk \<Rightarrow> 'w provider \<Rightarrow> bool \<Rightarrow> jsstr \<Rightarrow> jsstr option \<Rightarrow> jsval \<Rightarrow> 'w \<Rightarrow> (js_error + (jsstr \<times> jsstr) list) \<times> 'w" where
  "wallet_sign sdk pv has_buffer network account required =
     bindM (connected_account pv account) (\<lambda>account_id.
     bindM (liftM (select_accepted_payment sdk required network)) (\<lambda>(accepted, amount).
     bindM (liftM (build_payment_transaction sdk accepted (Some amount) (Str account_id) network)) (\<lambda>tx.
     bindM (pv_sign_transaction pv (js ''hedera:'' @ network @ js '':'' @ account_id) tx) (\<lambda>signature.
       liftM (payment_signature_headers has_buffer required accepted signature)))))"

definition wallet_sign_message ::
  "'w provider \<Rightarrow> jsstr \<Rightarrow> jsstr option \<Rightarrow> jsstr \<Rightarrow> jsstr \<Rightarrow> 'w \<Rightarrow> (js_error + jsstr) \<times> 'w" where
  "wallet_sign_message pv network account message expected =
     bindM (connected_account pv account) (\<lambda>account_id.
     bindM (liftM (payout_message_request network account_id expected message)) (pv_sign_message pv))"

section \<open>What is signed\<close>

lemma binary_chunks_eq: "0 < n \<Longrightarrow> binary_chunks n bs = map char_of_byte bs"
proof (induction n bs rule: binary_chunks.induct)
  case (1 n bs)
  show ?case
  proof (cases "bs = []")
    case False
    then have "binary_chunks n (drop n bs) = map char_of_byte (drop n bs)" using 1 by simp
    then have "binary_chunks n bs = map char_of_byte (take n bs) @ map char_of_byte (drop n bs)"
      using False 1(2) by (subst binary_chunks.simps) simp
    also have "\<dots> = map char_of_byte bs" unfolding map_append [symmetric] append_take_drop_id ..
    finally show ?thesis .
  qed (simp add: binary_chunks.simps)
qed

lemma unat_char_of_byte: "unat (char_of_byte b) = unat b"
  using unat_byte [of b] by (simp add: char_of_byte_def unsigned_ucast_eq take_bit_nat_eq_self)

lemma char_of_byte_small: "char_of_byte b < 256"
  using unat_byte [of b] by (simp add: word_less_nat_alt unat_char_of_byte)

lemma byte_of_char: "ucast (char_of_byte b) = b"
  using unat_byte [of b] by (intro word_unat_eq_iff [THEN iffD2]) (simp add: unsigned_ucast_eq unat_char_of_byte take_bit_nat_eq_self)

text \<open>The two ways to write base64 agree.\<close>

lemma bytes_to_base64_eq: "bytes_to_base64 has_buffer bs = Inr (b64_encode bs)"
  by (simp add: bytes_to_base64_def btoa_def binary_chunks_eq list_all_iff char_of_byte_small byte_of_char comp_def)

lemma parse_amount_Inr: "parse_amount v = Inr n \<longleftrightarrow> bigint_of v = Inr n \<and> 0 < n"
  by (auto simp: parse_amount_def split: sum.splits)

text \<open>An entry of the challenge that the wallet may pay on \<open>network\<close>, and its amount.\<close>

definition payable_offer :: "jsval \<Rightarrow> jsstr \<Rightarrow> jsval \<Rightarrow> int \<Rightarrow> bool" where
  "payable_offer required network accepted n = (opt_prop required (js ''x402Version'') = jnum 2 \<and>
     (\<exists>cs. opt_prop required (js ''accepts'') = Arr cs \<and> accepted \<in> set cs) \<and>
     opt_prop accepted (js ''scheme'') = Str (js ''exact'') \<and>
     opt_prop accepted (js ''network'') = Str (js ''hedera:'' @ network) \<and>
     network \<in> {js ''testnet'', js ''mainnet''} \<and> bigint_of (opt_prop accepted (js ''amount'')) = Inr n \<and> 0 < n)"

text \<open>The transaction moves exactly the offered amount from \<open>account\<close> to the payee of the offer.\<close>

definition pays_offer :: "'w sdk \<Rightarrow> jsval \<Rightarrow> int \<Rightarrow> jsstr \<Rightarrow> transfer \<Rightarrow> bool" where
  "pays_offer sdk accepted n account tx = (\<exists>asset debit credit payer. tx_entries tx = [debit, credit] \<and>
     te_token debit = asset \<and> te_token credit = asset \<and>
     (if opt_prop accepted (js ''asset'') = Str (js ''0.0.0'') then asset = None
      else \<exists>token. asset = Some token \<and> sdk_token sdk (opt_prop accepted (js ''asset'')) = Inr token) \<and>
     sdk_account sdk (Str account) = Inr (te_account debit) \<and> te_amount debit = - n \<and>
     sdk_account sdk (opt_prop accepted (js ''payTo'')) = Inr (te_account credit) \<and> te_amount credit = n \<and>
     tx_payer tx = Some payer \<and>
     sdk_account sdk (opt_prop (opt_prop accepted (js ''extra'')) (js ''feePayer'')) = Inr payer)"

lemma pays_offer_balanced: "pays_offer sdk accepted n account tx \<Longrightarrow> balanced (tx_entries tx)"
  by (auto simp: pays_offer_def balanced_def)

lemma find_payment_Inr:
  "find_payment accepts network = Inr c \<Longrightarrow> \<exists>cs. accepts = Arr cs \<and> c \<in> set cs \<and>
     opt_prop c (js ''scheme'') = Str (js ''exact'') \<and> opt_prop c (js ''network'') = Str (js ''hedera:'' @ network)"
  by (auto simp: find_payment_def chain_def find_Some_iff split: jsval.splits)

lemma select_payable:
  "select_accepted_payment sdk required network = Inr (accepted, n) \<Longrightarrow> payable_offer required network accepted n"
  by (auto simp: select_accepted_payment_def payable_offer_def assert_network_def parse_amount_Inr
      dest!: find_payment_Inr split: if_splits)

lemma select_truthy:
  "select_accepted_payment sdk required network = Inr (accepted, n) \<Longrightarrow> truthy (opt_prop required (js ''resource''))"
  by (auto simp: select_accepted_payment_def split: if_splits)

lemma build_pays:
  assumes "exact_sdk sdk" "build_payment_transaction sdk accepted (Some n) (Str account) network = Inr tx"
  shows "pays_offer sdk accepted n account tx"
  using assms(2)
  by (auto simp: build_payment_transaction_def payment_lines_def pays_offer_def exact_sdkD [OF assms(1)] split: if_splits)

lemma plain_pget: "json_plain (Obj kvs) \<Longrightarrow> pget kvs k = v \<Longrightarrow> v \<noteq> Undef \<Longrightarrow> json_plain v"
  by (auto simp: pget_def list_all_iff dest!: map_of_SomeD split: option.splits)

lemma keys_pget: "all_keys P (Obj kvs) \<Longrightarrow> pget kvs k = v \<Longrightarrow> all_keys P v"
  by (auto simp: pget_def list_all_iff dest!: map_of_SomeD split: option.splits)

lemma payload_plain:
  assumes "json_plain required" "no_index_keys required" "payable_offer required network accepted n"
    "truthy (opt_prop required (js ''resource''))"
  shows "json_plain (signed_payload required accepted t) \<and> no_index_keys (signed_payload required accepted t)"
proof -
  obtain kvs cs where r: "required = Obj kvs" "pget kvs (js ''accepts'') = Arr cs" "accepted \<in> set cs"
    using assms(3) by (cases required) (auto simp: payable_offer_def)
  have "json_plain (Arr cs)" "all_keys (\<lambda>k. \<not> is_array_index k) (Arr cs)"
    using plain_pget [OF _ r(2)] keys_pget [OF _ r(2)] assms(1,2) unfolding r(1) no_index_keys_def by blast+
  then have "json_plain accepted" "no_index_keys accepted" using r(3) by (auto simp: list_all_iff no_index_keys_def)
  moreover have "pget kvs (js ''resource'') \<noteq> Undef" using assms(4) r(1) by auto
  then have "json_plain (pget kvs (js ''resource''))" using plain_pget [of kvs "js ''resource''"] assms(1) r(1) by blast
  moreover have "no_index_keys (pget kvs (js ''resource''))"
    using keys_pget [of _ kvs "js ''resource''"] assms(2) r(1) by (simp add: no_index_keys_def)
  moreover have "pget kvs (js ''x402Version'') = jnum 2" using assms(3) r(1) by (simp add: payable_offer_def)
  moreover have "\<not> is_array_index (js x)" if "x \<in> {''x402Version'', ''resource'', ''accepted'', ''payload'', ''transaction''}" for x
    using that by (auto simp: is_array_index_def js_Cons jc_def is_digit_def)
  ultimately show ?thesis
    by (simp add: signed_payload_def r(1) no_index_keys_def rat_is_int_def)
qed

text \<open>The header value is the base64 text of the JSON text of the payload, and reads back as it.\<close>

definition decode_header :: "jsstr \<Rightarrow> jsval option" where
  "decode_header v = Option.bind (b64_decode v) (\<lambda>bs. json_parse (utf8_lossy bs))"

lemma headers_decode:
  assumes "payment_signature_headers has_buffer required accepted bs = Inr headers"
    "json_plain (signed_payload required accepted (b64_encode bs))"
    "no_index_keys (signed_payload required accepted (b64_encode bs))"
  shows "\<exists>v. headers = [(js ''PAYMENT-SIGNATURE'', v)] \<and>
    decode_header v = Some (signed_payload required accepted (b64_encode bs))"
proof -
  let ?p = "signed_payload required accepted (b64_encode bs)"
  have "headers = [(js ''PAYMENT-SIGNATURE'', b64_encode (utf8_encode (emit ?p)))]"
    using assms(1) stringify_emit [OF assms(2,3)]
    by (auto simp: payment_signature_headers_def bytes_to_base64_eq utf8_to_base64_def joined_def split: if_splits)
  then show ?thesis
    using utf8_lossy_encode [OF well_formed_emit [OF assms(2)]] json_parse_emit [OF assms(2)]
    by (simp add: decode_header_def b64_decode_encode)
qed

text \<open>C21. The wallet signs what the server offered: when signing succeeds, the extension was asked to
  sign, for the connected account, a balanced transfer of exactly the offered positive amount from
  that account to the payee of an \<open>exact\<close> offer for this network, at the expense of the offer's fee
  payer; and the header decodes to a payload with that offer and the signed bytes.\<close>

theorem wallet_signs_offer:
  assumes "wallet_sign sdk pv has_buffer network account required w = (Inr headers, w')" "exact_sdk sdk"
    "json_plain required" "no_index_keys required"
  shows "\<exists>account_id accepted n tx w1 bs v. payable_offer required network accepted n \<and>
    pays_offer sdk accepted n account_id tx \<and> balanced (tx_entries tx) \<and>
    (truthy_text account \<longrightarrow> account = Some account_id) \<and>
    pv_sign_transaction pv (js ''hedera:'' @ network @ js '':'' @ account_id) tx w1 = (Inr bs, w') \<and>
    headers = [(js ''PAYMENT-SIGNATURE'', v)] \<and>
    decode_header v = Some (signed_payload required accepted (b64_encode bs))"
proof -
  obtain account_id w1 accepted n tx bs where
    a: "connected_account pv account w = (Inr account_id, w1)"
    and b: "select_accepted_payment sdk required network = Inr (accepted, n)"
    and c: "build_payment_transaction sdk accepted (Some n) (Str account_id) network = Inr tx"
    and d: "pv_sign_transaction pv (js ''hedera:'' @ network @ js '':'' @ account_id) tx w1 = (Inr bs, w')"
    and e: "payment_signature_headers has_buffer required accepted bs = Inr headers"
    using assms(1) by (auto simp: wallet_sign_def run_iffs)
  have p: "payable_offer required network accepted n" by (rule select_payable [OF b])
  have pl: "json_plain (signed_payload required accepted (b64_encode bs))"
    "no_index_keys (signed_payload required accepted (b64_encode bs))"
    using payload_plain [OF assms(3,4) p select_truthy [OF b]] by simp_all
  obtain v where v: "headers = [(js ''PAYMENT-SIGNATURE'', v)]"
    "decode_header v = Some (signed_payload required accepted (b64_encode bs))"
    using headers_decode [OF e pl] by blast
  have q: "pays_offer sdk accepted n account_id tx" by (rule build_pays [OF assms(2) c])
  have t: "truthy_text account \<longrightarrow> account = Some account_id"
    using a by (auto simp: connected_account_def run_iffs split: option.splits list.splits)
  show ?thesis
    by (rule exI [of _ account_id], rule exI [of _ accepted], rule exI [of _ n], rule exI [of _ tx],
        rule exI [of _ w1], rule exI [of _ bs], rule exI [of _ v])
      (intro conjI p q t d v pays_offer_balanced [OF q])
qed

definition sample_offer :: jsval where
  "sample_offer = Obj [(js ''scheme'', Str (js ''exact'')), (js ''network'', Str (js ''hedera:testnet'')),
     (js ''amount'', Str (js ''5'')), (js ''asset'', Str (js ''0.0.0'')), (js ''payTo'', Str (js ''0.0.2'')),
     (js ''extra'', Obj [(js ''feePayer'', Str (js ''0.0.3''))])]"

definition sample_challenge :: jsval where
  "sample_challenge = Obj [(js ''x402Version'', jnum 2), (js ''resource'', Str (js ''r'')), (js ''accepts'', Arr [sample_offer])]"

definition sample_provider :: "hedera_tx list provider" where
  "sample_provider = \<lparr>pv_connect = throwM (PlainErr []), pv_sign_transaction = (\<lambda>account tx. retM [1]),
     pv_sign_message = (\<lambda>m. retM (mr_message m))\<rparr>"

lemma sample_signs: "\<exists>headers. wallet_sign sample_sdk sample_provider True (js ''testnet'') (Some (js ''0.0.7'')) sample_challenge [] =
    (Inr headers, [])"
proof -
  have b: "bigint_of_str (js ''5'') = Inr 5" by code_simp
  have n: "js ''hedera:'' @ js ''testnet'' = js ''hedera:testnet''" by (simp add: js_append [symmetric])
  have t: "find_payment (Arr [sample_offer]) (js ''testnet'') = Inr sample_offer"
    by (simp add: find_payment_def sample_offer_def chain_def n)
  have s: "select_accepted_payment sample_sdk sample_challenge (js ''testnet'') = Inr (sample_offer, 5)"
    by (simp add: select_accepted_payment_def assert_network_def sample_challenge_def t)
      (simp add: sample_offer_def parse_amount_def b sample_sdk_def)
  have tiny: "sdk_tinybars sample_sdk (Str (int_str (- 5))) = Inr (- 5)" "sdk_tinybars sample_sdk (Str (int_str 5)) = Inr 5"
    by (rule exact_sdkD(1) [OF exact_sample_sdk])+
  have "payment_lines sample_sdk (Str (js ''0.0.0'')) (js ''0.0.7'') (js ''0.0.2'') 5 =
      Inr [\<lparr>te_token = None, te_account = js ''0.0.7'', te_amount = - 5\<rparr>, \<lparr>te_token = None, te_account = js ''0.0.2'', te_amount = 5\<rparr>]"
    by (simp add: payment_lines_def tiny)
  then have "\<exists>tx. build_payment_transaction sample_sdk sample_offer (Some 5) (Str (js ''0.0.7'')) (js ''testnet'') = Inr tx"
    by (simp add: build_payment_transaction_def assert_network_def sample_offer_def chain_def n sample_sdk_sel)
  then obtain tx where x: "build_payment_transaction sample_sdk sample_offer (Some 5) (Str (js ''0.0.7'')) (js ''testnet'') = Inr tx"
    by blast
  have "challenge_offers sample_challenge sample_offer = Inr True"
    by (simp add: challenge_offers_def sample_challenge_def)
  then have "\<exists>headers. payment_signature_headers True sample_challenge sample_offer [1] = Inr headers"
    by (simp add: payment_signature_headers_def bytes_to_base64_eq utf8_to_base64_def)
  moreover have "connected_account sample_provider (Some (js ''0.0.7'')) = retM (js ''0.0.7'')"
    by (simp add: connected_account_def js_Cons)
  ultimately show ?thesis
    by (auto simp: wallet_sign_def run_simps s x, simp add: sample_provider_def run_simps)
qed

theorem wallet_signs_offer_witness:
  "\<exists>accepted n tx. payable_offer sample_challenge (js ''testnet'') accepted n \<and>
     pays_offer sample_sdk accepted n (js ''0.0.7'') tx \<and> balanced (tx_entries tx)"
proof -
  obtain headers where h: "wallet_sign sample_sdk sample_provider True (js ''testnet'') (Some (js ''0.0.7'')) sample_challenge [] =
    (Inr headers, [])"
    using sample_signs by blast
  have "json_plain sample_challenge" "no_index_keys sample_challenge"
    by (simp_all add: sample_challenge_def sample_offer_def rat_is_int_def no_index_keys_def is_array_index_def js_Cons jc_def is_digit_def)
  then show ?thesis
    using wallet_signs_offer [OF h exact_sample_sdk] by (metis option.inject truthy_text.simps(1) js_eq_Nil_iff(1) list.distinct(1))
qed

end
