(* ===== verification/BrowserWallet.thy ===== *)
theory BrowserWallet
  imports Wallet
begin

text \<open>
  \<open>PrintwrightBrowserWallet\<close> of \<open>wallet/browser.js\<close> as a state machine: the connected account, what
  the page shows, the change events it dispatches, and the promises of \<open>connectForPayment\<close> with the
  list of waiters that a connection resolves. The AppKit modal drives it: its account and state
  subscriptions are the events \<open>AccountChanged\<close> and \<open>ModalChanged\<close>. The invariant says that no
  waiting payment is ever lost and none is settled twice.
\<close>

record wallet_view =
  wv_disabled :: bool
  wv_label :: jsstr
  wv_aria :: jsstr
  wv_disconnect_hidden :: bool
  wv_connected :: bool
  wv_title :: jsstr

record promise =
  pr_id :: nat
  pr_opened :: bool
  pr_subscribed :: bool
  pr_outcome :: "(js_error + jsstr) option"

record browser_wallet =
  bw_network :: jsstr
  bw_account :: "jsstr option"
  bw_waiters :: "nat list"
  bw_promises :: "promise list"
  bw_view :: wallet_view
  bw_changes :: "(jsstr option \<times> jsstr option) list"

section \<open>Rendering\<close>

text \<open>\<open>this.accountId || other\<close>\<close>

definition account_or :: "jsstr option \<Rightarrow> jsstr \<Rightarrow> jsstr" where
  "account_or account other = (case account of Some (c # cs) \<Rightarrow> c # cs | _ \<Rightarrow> other)"

definition wallet_render :: "jsstr option \<Rightarrow> browser_wallet \<Rightarrow> browser_wallet" where
  "wallet_render error w = (let account = bw_account w; on = truthy_text account in
     w\<lparr>bw_view := \<lparr>wv_disabled = False, wv_label = account_or account (js ''Connect wallet''),
         wv_aria = (if on then js ''Connected wallet '' @ the account else js ''Connect Hedera wallet''),
         wv_disconnect_hidden = (\<not> on), wv_connected = on,
         wv_title = account_or error (if on then js ''Connected on Hedera '' @ bw_network w
           else js ''Pay with a Hedera '' @ bw_network w @ js '' wallet'')\<rparr>,
       bw_changes := bw_changes w @ [(account, error)]\<rparr>)"

definition set_busy :: "jsstr \<Rightarrow> browser_wallet \<Rightarrow> browser_wallet" where
  "set_busy label w = w\<lparr>bw_view := (bw_view w)\<lparr>wv_disabled := True, wv_label := label, wv_disconnect_hidden := True\<rparr>\<rparr>"

definition ellipsis :: jsstr where
  "ellipsis = [0x2026]"

section \<open>The operations\<close>

definition wallet_init :: "jsstr \<Rightarrow> jsstr option \<Rightarrow> wallet_view \<Rightarrow> browser_wallet" where
  "wallet_init network account view = wallet_render None
     \<lparr>bw_network = network, bw_account = (if truthy_text account then account else None),
       bw_waiters = [], bw_promises = [], bw_view = view, bw_changes = []\<rparr>"

text \<open>What AppKit is built with, and \<open>boot\<close>: the provider and AppKit are a parameter that fails or gives the
  account that is connected at the start. The element is its project id and its network.\<close>

datatype native_chain = NativeMainnet | NativeTestnet

record kit_options =
  ko_project :: "jsstr option"
  ko_metadata :: jsval
  ko_network :: native_chain
  ko_features :: jsval
  ko_terms :: jsstr
  ko_privacy :: jsstr

definition wallet_chain :: "jsstr \<Rightarrow> native_chain" where
  "wallet_chain network = (if network = js ''mainnet'' then NativeMainnet else NativeTestnet)"

definition wallet_metadata :: "jsstr \<Rightarrow> jsval" where
  "wallet_metadata origin = Obj [(js ''name'', Str (js ''Printwright'')),
     (js ''description'', Str (js ''License 3D-printable models over x402 on Hedera.'')),
     (js ''url'', Str origin), (js ''icons'', Arr [Str (origin @ js ''/icon-192.png'')])]"

definition kit_options_for :: "jsstr \<Rightarrow> jsstr option \<Rightarrow> jsstr \<Rightarrow> kit_options" where
  "kit_options_for origin project network = \<lparr>ko_project = project, ko_metadata = wallet_metadata origin,
     ko_network = wallet_chain network,
     ko_features = Obj [(js ''analytics'', Bool False), (js ''email'', Bool False), (js ''socials'', Arr [])],
     ko_terms = origin @ js ''/terms'', ko_privacy = origin @ js ''/privacy''\<rparr>"

definition boot ::
  "(kit_options \<Rightarrow> js_error + jsstr option) \<Rightarrow> jsstr \<Rightarrow> (jsstr option \<times> jsstr) option \<Rightarrow> wallet_view \<Rightarrow> js_error + browser_wallet" where
  "boot kit origin element view = (case element of
       None \<Rightarrow> Inl (PlainErr (js ''Wallet controls are not present on this page''))
     | Some (project, network) \<Rightarrow> bindE (kit (kit_options_for origin project network)) (\<lambda>account.
         Inr (wallet_init network account view)))"

text \<open>A promise settles once; later calls of \<open>resolve\<close> and \<open>reject\<close> have no effect.\<close>

definition settle_promise :: "js_error + jsstr \<Rightarrow> promise \<Rightarrow> promise" where
  "settle_promise r p = (if pr_outcome p = None then p\<lparr>pr_outcome := Some r\<rparr> else p)"

definition account_changed :: "jsstr option \<Rightarrow> browser_wallet \<Rightarrow> browser_wallet" where
  "account_changed account w = (let w1 = wallet_render None (w\<lparr>bw_account := account\<rparr>) in
     case account of
       Some (c # cs) \<Rightarrow> w1\<lparr>bw_waiters := [], bw_promises := map (\<lambda>p. if pr_id p \<in> set (bw_waiters w1)
         then settle_promise (Inr (c # cs)) p else p) (bw_promises w1)\<rparr>
     | _ \<Rightarrow> w1)"

definition connect_for_payment :: "nat \<Rightarrow> browser_wallet \<Rightarrow> browser_wallet" where
  "connect_for_payment i w = w\<lparr>bw_waiters := bw_waiters w @ [i],
     bw_promises := bw_promises w @ [\<lparr>pr_id = i, pr_opened = False, pr_subscribed = True, pr_outcome = None\<rparr>]\<rparr>"

text \<open>Giving a payment up: unsubscribe, forget the waiter, reject.\<close>

definition abandon :: "string \<Rightarrow> promise \<Rightarrow> promise" where
  "abandon reason p = settle_promise (Inl (PlainErr (js reason))) (p\<lparr>pr_subscribed := False\<rparr>)"

definition gives_up :: "jsstr option \<Rightarrow> bool \<Rightarrow> promise \<Rightarrow> bool" where
  "gives_up account modal_open p = (pr_subscribed p \<and> pr_opened p \<and> \<not> modal_open \<and> \<not> truthy_text account)"

definition modal_changed :: "bool \<Rightarrow> browser_wallet \<Rightarrow> browser_wallet" where
  "modal_changed modal_open w = (let
      seen = map (\<lambda>p. if pr_subscribed p then p\<lparr>pr_opened := pr_opened p \<or> modal_open\<rparr> else p) (bw_promises w);
      quit = map pr_id (filter (gives_up (bw_account w) modal_open) seen)
    in w\<lparr>bw_waiters := filter (\<lambda>i. i \<notin> set quit) (bw_waiters w),
         bw_promises := map (\<lambda>p. if gives_up (bw_account w) modal_open p
           then abandon ''Wallet connection was cancelled'' p else p) seen\<rparr>)"

definition timed_out :: "nat \<Rightarrow> browser_wallet \<Rightarrow> browser_wallet" where
  "timed_out i w = w\<lparr>bw_waiters := filter (\<lambda>j. j \<noteq> i) (bw_waiters w),
     bw_promises := map (\<lambda>p. if pr_id p = i then abandon ''Wallet connection timed out'' p else p) (bw_promises w)\<rparr>"

text \<open>\<open>error?.message || fallback\<close>\<close>

definition shown_error :: "js_error \<Rightarrow> string \<Rightarrow> jsstr" where
  "shown_error e fallback = (if error_message e = [] then js fallback else error_message e)"

definition connect_done :: "js_error + unit \<Rightarrow> browser_wallet \<Rightarrow> browser_wallet" where
  "connect_done r w = (case r of Inr _ \<Rightarrow> wallet_render None w
     | Inl e \<Rightarrow> wallet_render (Some (shown_error e ''Wallet connection was cancelled'')) w)"

definition disconnect_done :: "js_error + unit \<Rightarrow> browser_wallet \<Rightarrow> browser_wallet" where
  "disconnect_done r w = (case r of Inr _ \<Rightarrow> wallet_render None (w\<lparr>bw_account := None\<rparr>)
     | Inl e \<Rightarrow> wallet_render (Some (shown_error e ''Could not disconnect wallet'')) w)"

section \<open>The machine\<close>

datatype wallet_event =
    AccountChanged "jsstr option"
  | ModalChanged bool
  | PaymentWaits nat
  | TimedOut nat
  | ConnectClicked
  | ConnectDone "js_error + unit"
  | DisconnectClicked
  | DisconnectDone "js_error + unit"

fun wallet_next :: "wallet_event \<Rightarrow> browser_wallet \<Rightarrow> browser_wallet" where
  "wallet_next (AccountChanged a) w = account_changed a w"
| "wallet_next (ModalChanged b) w = modal_changed b w"
| "wallet_next (PaymentWaits i) w = connect_for_payment i w"
| "wallet_next (TimedOut i) w = timed_out i w"
| "wallet_next ConnectClicked w = set_busy (js ''Opening wallet'' @ ellipsis) w"
| "wallet_next (ConnectDone r) w = connect_done r w"
| "wallet_next DisconnectClicked w = set_busy (js ''Disconnecting'' @ ellipsis) w"
| "wallet_next (DisconnectDone r) w = disconnect_done r w"

text \<open>Every promise is a new object, so its name is fresh.\<close>

inductive wallet_step :: "browser_wallet \<Rightarrow> wallet_event \<Rightarrow> browser_wallet \<Rightarrow> bool" where
  step: "(\<And>i. ev = PaymentWaits i \<Longrightarrow> i \<notin> pr_id ` set (bw_promises w)) \<Longrightarrow> wallet_step w ev (wallet_next ev w)"

inductive_cases wallet_stepE: "wallet_step w ev w'"

definition wallet_start :: "browser_wallet \<Rightarrow> bool" where
  "wallet_start w = (\<exists>network account view. w = wallet_init network account view)"

definition unsettled :: "browser_wallet \<Rightarrow> nat set" where
  "unsettled w = pr_id ` {p \<in> set (bw_promises w). pr_outcome p = None}"

definition wallet_inv :: "browser_wallet \<Rightarrow> bool" where
  "wallet_inv w = (distinct (map pr_id (bw_promises w)) \<and> distinct (bw_waiters w) \<and>
     set (bw_waiters w) = unsettled w)"

lemma wallet_render_same [simp]:
  "bw_promises (wallet_render e w) = bw_promises w" "bw_waiters (wallet_render e w) = bw_waiters w"
  "bw_account (wallet_render e w) = bw_account w" "bw_network (wallet_render e w) = bw_network w"
  by (simp_all add: wallet_render_def Let_def)

lemma set_busy_same [simp]:
  "bw_promises (set_busy l w) = bw_promises w" "bw_waiters (set_busy l w) = bw_waiters w"
  by (simp_all add: set_busy_def)

lemma pr_id_settle [simp]: "pr_id (settle_promise r p) = pr_id p" "pr_id (abandon s p) = pr_id p"
  by (simp_all add: settle_promise_def abandon_def)

lemma settled_outcome [simp]: "pr_outcome (settle_promise r p) = (if pr_outcome p = None then Some r else pr_outcome p)"
  "pr_outcome (abandon s p) = (if pr_outcome p = None then Some (Inl (PlainErr (js s))) else pr_outcome p)"
  by (simp_all add: settle_promise_def abandon_def)

text \<open>Changing promises one by one, keeping their names and every outcome they have.\<close>

definition keeps :: "(promise \<Rightarrow> promise) \<Rightarrow> bool" where
  "keeps f = (\<forall>p. pr_id (f p) = pr_id p \<and> (pr_outcome p \<noteq> None \<longrightarrow> pr_outcome (f p) = pr_outcome p))"

lemma wallet_inv_map:
  assumes "wallet_inv w" "keeps f" "bw_promises w' = map f (bw_promises w)"
    "bw_waiters w' = filter Q (bw_waiters w)"
    "\<And>p. p \<in> set (bw_promises w) \<Longrightarrow> pr_outcome p = None \<Longrightarrow> pr_outcome (f p) = None \<longleftrightarrow> Q (pr_id p)"
  shows "wallet_inv w'"
proof -
  have "map pr_id (bw_promises w') = map pr_id (bw_promises w)"
    using assms(2,3) by (simp add: keeps_def)
  moreover have "unsettled w' = {i \<in> unsettled w. Q i}"
  proof -
    have "{p \<in> set (bw_promises w'). pr_outcome p = None} =
        f ` {p \<in> set (bw_promises w). pr_outcome p = None \<and> Q (pr_id p)}"
      using assms(2,5) unfolding assms(3) keeps_def by fastforce
    then have "unsettled w' = pr_id ` f ` {p \<in> set (bw_promises w). pr_outcome p = None \<and> Q (pr_id p)}"
      by (simp only: unsettled_def)
    also have "\<dots> = pr_id ` {p \<in> set (bw_promises w). pr_outcome p = None \<and> Q (pr_id p)}"
      using assms(2) by (simp add: image_image keeps_def)
    also have "\<dots> = {i \<in> unsettled w. Q i}" by (auto simp: unsettled_def)
    finally show ?thesis .
  qed
  ultimately show ?thesis using assms(1,4) unfolding wallet_inv_def by simp
qed

lemma unsettled_outcome:
  assumes "wallet_inv w" "p \<in> set (bw_promises w)" "pr_id p \<in> unsettled w"
  shows "pr_outcome p = None"
proof -
  obtain q where "q \<in> set (bw_promises w)" "pr_outcome q = None" "pr_id q = pr_id p"
    using assms(3) by (auto simp: unsettled_def)
  moreover from this have "q = p"
    using assms(1,2) unfolding wallet_inv_def distinct_map by (meson inj_onD)
  ultimately show ?thesis by simp
qed

lemma wallet_inv_same:
  assumes "wallet_inv w" "bw_promises w' = bw_promises w" "bw_waiters w' = bw_waiters w"
  shows "wallet_inv w'"
  using assms by (simp add: wallet_inv_def unsettled_def)

lemma account_changed_inv: "wallet_inv w \<Longrightarrow> wallet_inv (account_changed a w)"
proof (cases "truthy_text a")
  case True
  then obtain c cs where a: "a = Some (c # cs)" by (cases a) (auto simp: neq_Nil_conv)
  assume i: "wallet_inv w"
  show ?thesis
    by (rule wallet_inv_map [OF i, where Q = "\<lambda>_. False" and f = "\<lambda>p. if pr_id p \<in> set (bw_waiters w)
         then settle_promise (Inr (c # cs)) p else p"])
      (use i in \<open>auto simp: a account_changed_def Let_def keeps_def wallet_inv_def unsettled_def\<close>)
next
  case False
  assume "wallet_inv w"
  then show ?thesis
    by (rule wallet_inv_same) (use False in \<open>auto simp: account_changed_def Let_def split: option.splits list.splits\<close>)
qed

definition saw :: "bool \<Rightarrow> promise \<Rightarrow> promise" where
  "saw modal_open p = (if pr_subscribed p then p\<lparr>pr_opened := pr_opened p \<or> modal_open\<rparr> else p)"

definition after_modal :: "jsstr option \<Rightarrow> bool \<Rightarrow> promise \<Rightarrow> promise" where
  "after_modal account modal_open p = (if gives_up account modal_open (saw modal_open p)
     then abandon ''Wallet connection was cancelled'' (saw modal_open p) else saw modal_open p)"

lemma saw_same [simp]: "pr_id (saw b p) = pr_id p" "pr_outcome (saw b p) = pr_outcome p"
  by (simp_all add: saw_def)

lemma modal_changed_promises:
  "bw_promises (modal_changed b w) = map (after_modal (bw_account w) b) (bw_promises w)"
  by (simp add: modal_changed_def Let_def after_modal_def saw_def [abs_def] comp_def)

lemma modal_changed_waiters: "bw_waiters (modal_changed b w) =
    filter (\<lambda>i. i \<notin> pr_id ` {p \<in> set (bw_promises w). gives_up (bw_account w) b (saw b p)}) (bw_waiters w)"
proof -
  have "set (map pr_id (filter (gives_up (bw_account w) b) (map (saw b) (bw_promises w)))) =
      pr_id ` {p \<in> set (bw_promises w). gives_up (bw_account w) b (saw b p)}"
    by (auto simp: image_iff) (metis saw_same(1))+
  then show ?thesis by (simp add: modal_changed_def Let_def saw_def [abs_def])
qed

lemma modal_changed_inv:
  assumes "wallet_inv w"
  shows "wallet_inv (modal_changed b w)"
proof (rule wallet_inv_map [OF assms _ modal_changed_promises modal_changed_waiters])
  show "keeps (after_modal (bw_account w) b)"
    by (auto simp: keeps_def after_modal_def)
next
  fix p
  assume p: "p \<in> set (bw_promises w)" "pr_outcome p = None"
  have "p' = p" if "p' \<in> set (bw_promises w)" "pr_id p' = pr_id p" for p'
    using assms that p(1) unfolding wallet_inv_def distinct_map by (meson inj_onD)
  then show "(pr_outcome (after_modal (bw_account w) b p) = None) =
      (pr_id p \<notin> pr_id ` {p \<in> set (bw_promises w). gives_up (bw_account w) b (saw b p)})"
    using p by (auto simp: after_modal_def)
qed

lemma timed_out_inv: "wallet_inv w \<Longrightarrow> wallet_inv (timed_out i w)"
  by (erule wallet_inv_map [where Q = "\<lambda>j. j \<noteq> i" and f = "\<lambda>p. if pr_id p = i
        then abandon ''Wallet connection timed out'' p else p"])
    (auto simp: timed_out_def keeps_def)

lemma connect_for_payment_inv:
  assumes "wallet_inv w" "i \<notin> pr_id ` set (bw_promises w)"
  shows "wallet_inv (connect_for_payment i w)"
proof -
  have "unsettled (connect_for_payment i w) = insert i (unsettled w)"
  proof -
    have "{p \<in> set (bw_promises (connect_for_payment i w)). pr_outcome p = None} =
        insert \<lparr>pr_id = i, pr_opened = False, pr_subscribed = True, pr_outcome = None\<rparr>
          {p \<in> set (bw_promises w). pr_outcome p = None}"
      by (auto simp: connect_for_payment_def)
    then show ?thesis by (simp add: unsettled_def)
  qed
  moreover have "i \<notin> unsettled w" using assms(2) by (auto simp: unsettled_def)
  ultimately show ?thesis
    using assms by (auto simp: wallet_inv_def connect_for_payment_def)
qed

interpretation browser_machine: state_machine wallet_start wallet_step wallet_inv
proof unfold_locales
  fix w
  assume "wallet_start w"
  then show "wallet_inv w"
    by (auto simp: wallet_start_def wallet_init_def wallet_inv_def unsettled_def)
next
  fix w ev w'
  assume "wallet_inv w" "wallet_step w ev w'"
  then show "wallet_inv w'"
    by (cases ev) (auto elim!: wallet_stepE intro: account_changed_inv modal_changed_inv timed_out_inv
        connect_for_payment_inv wallet_inv_same simp: connect_done_def disconnect_done_def split: sum.splits)
qed

text \<open>Every step keeps the outcome of a settled promise.\<close>

lemma wallet_next_keeps:
  assumes "p \<in> set (bw_promises w)" "pr_outcome p = Some r"
  shows "\<exists>p' \<in> set (bw_promises (wallet_next ev w)). pr_id p' = pr_id p \<and> pr_outcome p' = Some r"
proof -
  have k: ?thesis if "bw_promises (wallet_next ev w) = map f (bw_promises w)" "keeps f" for f
    using assms that unfolding keeps_def by (intro bexI [of _ "f p"]) auto
  show ?thesis
  proof (cases ev)
    case (AccountChanged a)
    show ?thesis
      by (rule k [of "\<lambda>p. if truthy_text a \<and> pr_id p \<in> set (bw_waiters w) then settle_promise (Inr (the a)) p else p"])
        (auto simp: AccountChanged account_changed_def Let_def keeps_def split: option.splits list.splits)
  next
    case (ModalChanged b)
    then show ?thesis
      using k [of "after_modal (bw_account w) b"] by (simp add: modal_changed_promises keeps_def after_modal_def)
  next
    case (TimedOut i)
    then show ?thesis
      using k [of "\<lambda>p. if pr_id p = i then abandon ''Wallet connection timed out'' p else p"]
      by (simp add: timed_out_def keeps_def)
  next
    case (PaymentWaits i)
    then show ?thesis using assms by (intro bexI [of _ p]) (auto simp: connect_for_payment_def)
  qed (use assms in \<open>auto simp: connect_done_def disconnect_done_def split: sum.splits\<close>)
qed


definition blank_view :: wallet_view where
  "blank_view = \<lparr>wv_disabled = False, wv_label = [], wv_aria = [], wv_disconnect_hidden = True,
     wv_connected = False, wv_title = []\<rparr>"

definition waiting_wallet :: browser_wallet where
  "waiting_wallet = connect_for_payment 0 (wallet_init (js ''testnet'') None blank_view)"

lemma waiting_wallet_reached: "reach wallet_start wallet_step waiting_wallet"
proof -
  have "wallet_step (wallet_init (js ''testnet'') None blank_view) (PaymentWaits 0)
      (wallet_next (PaymentWaits 0) (wallet_init (js ''testnet'') None blank_view))"
    by (rule wallet_step.step) (simp add: wallet_init_def)
  moreover have "reach wallet_start wallet_step (wallet_init (js ''testnet'') None blank_view)"
    by (rule reach_start) (auto simp: wallet_start_def)
  ultimately show ?thesis
    unfolding waiting_wallet_def wallet_next.simps by (meson reach_step)
qed


section \<open>The payments as a pool\<close>

text \<open>What a payment may rely on, without waiters, subscriptions or the modal: it is opened once, and it
  is settled at most once, by an account that connects (together with every other open payment) or
  by giving up.\<close>

type_synonym pool = "nat \<rightharpoonup> (js_error + jsstr) option"

datatype pool_event = Opens nat | Connects jsstr | GivesUp "nat set" js_error

definition open_payments :: "pool \<Rightarrow> nat set" where
  "open_payments m = {i. m i = Some None}"

inductive pool_step :: "pool \<Rightarrow> pool_event \<Rightarrow> pool \<Rightarrow> bool" where
  opens: "i \<notin> dom m \<Longrightarrow> pool_step m (Opens i) (m(i \<mapsto> None))"
| connects: "a \<noteq> [] \<Longrightarrow> pool_step m (Connects a) (\<lambda>i. if i \<in> open_payments m then Some (Some (Inr a)) else m i)"
| gives_up: "S \<subseteq> open_payments m \<Longrightarrow> pool_step m (GivesUp S e) (\<lambda>i. if i \<in> S then Some (Some (Inl e)) else m i)"

inductive_cases pool_stepE: "pool_step m ev m'"

definition pool_of :: "browser_wallet \<Rightarrow> pool" where
  "pool_of w = map_of (map (\<lambda>p. (pr_id p, pr_outcome p)) (bw_promises w))"

text \<open>The event of the pool an event of the wallet stands for.\<close>

fun pool_label :: "browser_wallet \<Rightarrow> wallet_event \<Rightarrow> pool_event option" where
  "pool_label w (PaymentWaits i) = Some (Opens i)"
| "pool_label w (AccountChanged a) = (if truthy_text a then Some (Connects (the a)) else None)"
| "pool_label w (TimedOut i) = Some (GivesUp ({i} \<inter> open_payments (pool_of w)) (PlainErr (js ''Wallet connection timed out'')))"
| "pool_label w (ModalChanged b) = Some (GivesUp
     {i \<in> open_payments (pool_of w). \<exists>p \<in> set (bw_promises w). pr_id p = i \<and> gives_up (bw_account w) b (saw b p)}
     (PlainErr (js ''Wallet connection was cancelled'')))"
| "pool_label w _ = None"

lemma pool_of_promise: "wallet_inv w \<Longrightarrow> p \<in> set (bw_promises w) \<Longrightarrow> pool_of w (pr_id p) = Some (pr_outcome p)"
  unfolding pool_of_def wallet_inv_def by (intro map_of_is_SomeI) (auto simp: comp_def)

lemma pool_of_dom: "dom (pool_of w) = pr_id ` set (bw_promises w)"
  by (auto simp: pool_of_def dom_map_of_conv_image_fst image_image)

lemma open_promise [simp]:
  "wallet_inv w \<Longrightarrow> p \<in> set (bw_promises w) \<Longrightarrow> pr_id p \<in> open_payments (pool_of w) \<longleftrightarrow> pr_outcome p = None"
  by (simp add: open_payments_def pool_of_promise)

lemma open_unsettled:
  assumes "wallet_inv w"
  shows "open_payments (pool_of w) = unsettled w" "set (bw_waiters w) = open_payments (pool_of w)"
proof -
  have "\<exists>p \<in> set (bw_promises w). i = pr_id p" if "i \<in> open_payments (pool_of w)" for i
    using that pool_of_dom [of w] by (auto simp: open_payments_def dom_def)
  then show u: "open_payments (pool_of w) = unsettled w"
    using assms by (fastforce simp: unsettled_def)
  show "set (bw_waiters w) = open_payments (pool_of w)" using assms u by (simp add: wallet_inv_def)
qed

lemma not_open: "i \<notin> dom (pool_of w) \<Longrightarrow> i \<notin> open_payments (pool_of w) \<and> pool_of w i = None"
  by (auto simp: open_payments_def domIff)

text \<open>Changing promises one by one changes the pool one by one.\<close>

lemma pool_of_map:
  assumes "wallet_inv w" "keeps f" "bw_promises w' = map f (bw_promises w)"
    "\<And>p. p \<in> set (bw_promises w) \<Longrightarrow> Some (pr_outcome (f p)) = g (pr_id p)"
    "\<And>i. i \<notin> dom (pool_of w) \<Longrightarrow> g i = None"
  shows "pool_of w' = g"
proof
  fix i
  have d: "distinct (map pr_id (bw_promises w'))"
    using assms(1-3) by (simp add: wallet_inv_def keeps_def comp_def)
  show "pool_of w' i = g i"
  proof (cases "i \<in> dom (pool_of w)")
    case True
    then obtain p where p: "p \<in> set (bw_promises w)" "i = pr_id p" by (auto simp: pool_of_dom)
    have "pool_of w' (pr_id (f p)) = Some (pr_outcome (f p))"
      unfolding pool_of_def using d p(1) assms(3) by (intro map_of_is_SomeI) (auto simp: comp_def)
    then show ?thesis using p assms(2,4) by (simp add: keeps_def)
  next
    case False
    then have "i \<notin> dom (pool_of w')" using assms(2,3) by (auto simp: pool_of_dom keeps_def)
    then show ?thesis using assms(5) [OF False] by (simp add: domIff)
  qed
qed

lemma pool_account_changed:
  assumes "wallet_inv w" "truthy_text a"
  shows "pool_step (pool_of w) (Connects (the a)) (pool_of (account_changed a w))"
proof -
  obtain c cs where a: "a = Some (c # cs)" using assms(2) by (cases a) (auto simp: neq_Nil_conv)
  have "pool_of (account_changed a w) =
      (\<lambda>i. if i \<in> open_payments (pool_of w) then Some (Some (Inr (c # cs))) else pool_of w i)"
    by (rule pool_of_map [OF assms(1), where f = "\<lambda>p. if pr_id p \<in> set (bw_waiters w) then settle_promise (Inr (c # cs)) p else p"])
      (use assms(1) not_open in \<open>auto simp: a account_changed_def Let_def keeps_def open_unsettled(2) pool_of_promise\<close>)
  then show ?thesis using pool_step.connects [of "c # cs" "pool_of w"] by (simp add: a)
qed

lemma pool_modal_changed:
  assumes "wallet_inv w"
  shows "pool_step (pool_of w) (the (pool_label w (ModalChanged b))) (pool_of (modal_changed b w))"
proof -
  let ?S = "{i \<in> open_payments (pool_of w). \<exists>p \<in> set (bw_promises w). pr_id p = i \<and> gives_up (bw_account w) b (saw b p)}"
  let ?e = "PlainErr (js ''Wallet connection was cancelled'')"
  have same: "q = p" if "p \<in> set (bw_promises w)" "q \<in> set (bw_promises w)" "pr_id q = pr_id p" for p q
    using assms that unfolding wallet_inv_def distinct_map by (meson inj_onD)
  have "pool_of (modal_changed b w) = (\<lambda>i. if i \<in> ?S then Some (Some (Inl ?e)) else pool_of w i)"
  proof (rule pool_of_map [OF assms _ modal_changed_promises])
    show "keeps (after_modal (bw_account w) b)" by (auto simp: keeps_def after_modal_def)
  next
    fix p
    assume p: "p \<in> set (bw_promises w)"
    then have "pr_id p \<in> ?S \<longleftrightarrow> pr_outcome p = None \<and> gives_up (bw_account w) b (saw b p)"
      using assms same by auto
    then show "Some (pr_outcome (after_modal (bw_account w) b p)) = (if pr_id p \<in> ?S then Some (Some (Inl ?e)) else pool_of w (pr_id p))"
      using assms p by (auto simp: after_modal_def pool_of_promise)
  qed (use not_open in auto)
  then show ?thesis
    using pool_step.gives_up [of ?S "pool_of w" ?e] by (simp only: pool_label.simps option.sel) blast
qed

lemma pool_timed_out:
  assumes "wallet_inv w"
  shows "pool_step (pool_of w) (the (pool_label w (TimedOut i))) (pool_of (timed_out i w))"
proof -
  let ?e = "PlainErr (js ''Wallet connection timed out'')"
  have "pool_of (timed_out i w) = (\<lambda>j. if j \<in> {i} \<inter> open_payments (pool_of w) then Some (Some (Inl ?e)) else pool_of w j)"
    by (rule pool_of_map [OF assms, where f = "\<lambda>p. if pr_id p = i then abandon ''Wallet connection timed out'' p else p"])
      (use assms not_open in \<open>auto simp: timed_out_def keeps_def pool_of_promise\<close>)
  then show ?thesis
    using pool_step.gives_up [of "{i} \<inter> open_payments (pool_of w)" "pool_of w" ?e]
    by (simp only: pool_label.simps option.sel) blast
qed

lemma pool_connect_for_payment:
  assumes "i \<notin> pr_id ` set (bw_promises w)"
  shows "pool_step (pool_of w) (Opens i) (pool_of (connect_for_payment i w))"
proof -
  have fresh: "i \<notin> dom (pool_of w)" using assms by (simp add: pool_of_dom)
  then have "pool_of (connect_for_payment i w) = (pool_of w)(i \<mapsto> None)"
    by (auto simp: pool_of_def connect_for_payment_def map_add_def domIff split: option.splits)
  then show ?thesis using pool_step.opens [OF fresh] by simp
qed

lemma pool_same: "bw_promises w' = bw_promises w \<Longrightarrow> pool_of w' = pool_of w"
  by (simp add: pool_of_def)

interpretation browser_pool: refinement wallet_start wallet_step wallet_inv pool_of "\<lambda>m. m = Map.empty" pool_step pool_label
proof
  fix w
  assume "wallet_start w"
  then show "pool_of w = Map.empty" by (auto simp: wallet_start_def wallet_init_def pool_of_def)
next
  fix w ev w' l
  assume i: "wallet_inv w" and st: "wallet_step w ev w'" and l: "pool_label w ev = Some l"
  show "pool_step (pool_of w) l (pool_of w')"
  proof (cases ev)
    case (AccountChanged a)
    then show ?thesis using st l pool_account_changed [OF i, of a] by (auto elim!: wallet_stepE split: if_splits)
  next
    case (ModalChanged b)
    then show ?thesis using st l pool_modal_changed [OF i, of b] by (auto elim!: wallet_stepE)
  next
    case (PaymentWaits j)
    then show ?thesis using st l pool_connect_for_payment [of j w] by (auto elim!: wallet_stepE)
  next
    case (TimedOut j)
    then show ?thesis using st l pool_timed_out [OF i, of j] by (auto elim!: wallet_stepE)
  qed (use l in simp_all)
next
  fix w ev w'
  assume st: "wallet_step w ev w'" and l: "pool_label w ev = None"
  show "pool_of w' = pool_of w"
  proof (cases ev)
    case (AccountChanged a)
    then show ?thesis
      using st l by (auto elim!: wallet_stepE intro!: pool_same simp: account_changed_def Let_def split: if_splits option.splits list.splits)
  qed (use st l in \<open>auto elim!: wallet_stepE intro!: pool_same simp: connect_done_def disconnect_done_def split: sum.splits\<close>)
qed



text \<open>What is settled in the pool stays settled.\<close>

lemma pool_settled: "pool_step m l m' \<Longrightarrow> m i = Some (Some r) \<Longrightarrow> m' i = Some (Some r)"
  by (auto elim!: pool_stepE simp: open_payments_def split: if_splits)

end
