(* ===== verification/JsMath.thy ===== *)
theory JsMath
  imports JsNumber
begin

text \<open>
  The functions of \<open>Math\<close> the programs use, on the numbers of \<open>JsNumber\<close>, and what rounding to a
  double cannot do: it does not take a value past a whole number.
\<close>

definition num_max :: "jsnum \<Rightarrow> jsnum \<Rightarrow> jsnum" where
  "num_max a b = (if a = NaN \<or> b = NaN then NaN else if num_lt a b then b else a)"

definition num_min :: "jsnum \<Rightarrow> jsnum \<Rightarrow> jsnum" where
  "num_min a b = (if a = NaN \<or> b = NaN then NaN else if num_lt b a then b else a)"

fun num_floor :: "jsnum \<Rightarrow> jsnum" where
  "num_floor (Fin q) = Fin (of_int \<lfloor>q\<rfloor>)"
| "num_floor x = x"

fun num_round :: "jsnum \<Rightarrow> jsnum" where
  "num_round (Fin q) = Fin (of_int \<lfloor>q + 1 / 2\<rfloor>)"
| "num_round x = x"

fun num_ceiling :: "jsnum \<Rightarrow> jsnum" where
  "num_ceiling (Fin q) = Fin (of_int \<lceil>q\<rceil>)"
| "num_ceiling x = x"

text \<open>Unary minus.\<close>

fun num_neg :: "jsnum \<Rightarrow> jsnum" where
  "num_neg (Fin q) = Fin (- q)"
| "num_neg PosInf = NegInf"
| "num_neg NegInf = PosInf"
| "num_neg NaN = NaN"

text \<open>\<open>Number.parseFloat\<close>: the longest prefix that is a number.\<close>

definition signed_decimal :: "jsstr \<Rightarrow> jsnum option" where
  "signed_decimal t = (case t of [] \<Rightarrow> None
     | c # u \<Rightarrow> let neg = (c = 45); v = (if c = 43 \<or> c = 45 then u else t) in
         if v = js ''Infinity'' then Some (if neg then NegInf else PosInf)
         else map_option (\<lambda>q. double_of (if neg then - q else q)) (unsigned_decimal v))"

definition parse_float :: "jsstr \<Rightarrow> jsnum" where
  "parse_float s = (let t = dropWhile is_space s in
     case List.find (\<lambda>n. signed_decimal (take n t) \<noteq> None) (rev [1..<Suc (length t)]) of
       None \<Rightarrow> NaN | Some n \<Rightarrow> the (signed_decimal (take n t)))"

section \<open>Rounding keeps whole bounds\<close>

lemma round_half_even_le: "q \<le> of_int k \<Longrightarrow> round_half_even q \<le> k"
proof -
  assume q: "q \<le> of_int k"
  have "\<lfloor>q\<rfloor> < k \<or> q = of_int \<lfloor>q\<rfloor>"
    using q by (metis floor_le_iff floor_less_iff of_int_floor_cancel order_antisym_conv order_le_less)
  moreover have "\<lfloor>q\<rfloor> \<le> k" using q floor_mono [OF q] by simp
  ultimately show ?thesis by (auto simp: round_half_even_def Let_def)
qed

lemma round_half_even_nonneg: "0 \<le> q \<Longrightarrow> 0 \<le> round_half_even q"
  by (simp add: round_half_even_def Let_def)

text \<open>A value between 0 and a whole number stays there when it is rounded to a double.\<close>

lemma double_of_between:
  assumes "0 \<le> q" "q \<le> of_nat n" "n < 2 ^ 53"
  obtains r where "double_of q = Fin r" "0 \<le> r" "r \<le> of_nat n"
proof -
  define m where "m = nat \<lfloor>\<bar>q\<bar> * 2 ^ 1074\<rfloor>"
  have "\<bar>q\<bar> * 2 ^ 1074 \<le> of_nat n * 2 ^ 1074" using assms by (intro mult_right_mono) simp_all
  also have "\<dots> = of_nat (n * 2 ^ 1074)" by (simp only: of_nat_mult of_nat_power of_nat_numeral)
  finally have "\<lfloor>\<bar>q\<bar> * 2 ^ 1074\<rfloor> \<le> int (n * 2 ^ 1074)" using floor_mono by (metis floor_of_nat)
  then have "m \<le> n * 2 ^ 1074" by (simp only: m_def nat_le_iff)
  also have "\<dots> < 2 ^ 53 * 2 ^ 1074" using assms(3) by (intro mult_strict_right_mono) (simp_all only: zero_less_power zero_less_numeral)
  finally have "m < 2 ^ (1074 + 53)" by (simp only: power_add mult.commute)
  then have "floorlog 2 m \<le> 1074 + 53"
    by (intro floorlog_leI) (simp_all only: one_less_numeral_iff semiring_norm order_refl numeral_One [symmetric])
  then obtain s where s: "floorlog 2 m - 53 = s" "s \<le> 1074" by simp
  obtain d where d: "1074 = s + d" using s(2) le_Suc_ex by blast
  have u: "(2 :: rat) ^ s / 2 ^ 1074 = 1 / 2 ^ d"
    by (simp only: d power_add) simp
  define r where "r = of_int (round_half_even (\<bar>q\<bar> / (1 / 2 ^ d))) * (1 / 2 ^ d :: rat)"
  have "\<bar>q\<bar> / (1 / 2 ^ d) \<le> of_int (int n * 2 ^ d)" using assms by simp
  then have "round_half_even (\<bar>q\<bar> / (1 / 2 ^ d)) \<le> int n * 2 ^ d" by (rule round_half_even_le)
  then have "(of_int (round_half_even (\<bar>q\<bar> / (1 / 2 ^ d))) :: rat) \<le> of_int (int n * 2 ^ d)" by (simp only: of_int_le_iff)
  then have r: "r \<le> of_nat n" by (simp add: r_def divide_le_eq)
  have r0: "0 \<le> r" by (simp add: r_def round_half_even_nonneg)
  have "(of_nat n :: rat) < of_nat (2 ^ 53)" using assms(3) by (simp only: of_nat_less_iff)
  also have "\<dots> = (2 :: rat) ^ 53" by simp
  also have "\<dots> < 2 ^ 1024" by (rule power_strict_increasing) simp_all
  finally have big: "\<not> (2 :: rat) ^ 1024 \<le> r" using r by simp
  have "double_of q = Fin r"
    unfolding double_of_def m_def [symmetric] Let_def s(1) u r_def [symmetric] if_not_P [OF big] using assms(1) by simp
  then show thesis using r0 r that by blast
qed

lemma round_half_even_error: "\<bar>of_int (round_half_even q) - q\<bar> \<le> 1 / 2"
proof -
  have "0 \<le> q - of_int \<lfloor>q\<rfloor>" "q - of_int \<lfloor>q\<rfloor> < 1"
    using floor_correct [of q] by linarith+
  then show ?thesis by (auto simp: round_half_even_def Let_def abs_le_iff)
qed

text \<open>Below 8 the rounding changes a value by less than a thousandth.\<close>

lemma double_of_near:
  assumes "0 \<le> q" "q < 8"
  obtains r where "double_of q = Fin r" "q - 1 / 1000 \<le> r" "r \<le> q + 1 / 1000"
proof -
  define m where "m = nat \<lfloor>\<bar>q\<bar> * 2 ^ 1074\<rfloor>"
  have "\<bar>q\<bar> * 2 ^ 1074 < 8 * 2 ^ 1074" using assms by simp
  also have "\<dots> = of_int (2 ^ (1074 + 3))" by (simp only: power_add of_int_power of_int_numeral) simp
  finally have "\<lfloor>\<bar>q\<bar> * 2 ^ 1074\<rfloor> < 2 ^ (1074 + 3)" by (simp only: floor_less_iff)
  then have "m < 2 ^ (1074 + 3)"
    unfolding m_def by (subst nat_less_iff) (simp_all only: of_nat_power of_nat_numeral zero_le_floor abs_ge_zero zero_le_mult_iff zero_le_power zero_le_numeral simp_thms)
  then have "floorlog 2 m \<le> 1074 + 3"
    by (intro floorlog_leI) (simp_all only: one_less_numeral_iff semiring_norm order_refl numeral_One [symmetric])
  then obtain s where s: "floorlog 2 m - 53 = s" "s \<le> 1024" by simp
  obtain d where d: "1024 = s + d" using s(2) le_Suc_ex by blast
  define u where "u = (2 :: rat) ^ s / 2 ^ 1074"
  have u0: "0 < u" by (simp only: u_def zero_less_divide_iff zero_less_power zero_less_numeral simp_thms)
  have "(2 :: rat) ^ s \<le> 2 ^ 1024" using s(2) by (intro power_increasing) simp_all
  then have "u \<le> 2 ^ 1024 / 2 ^ 1074" unfolding u_def by (intro divide_right_mono) (simp_all only: zero_le_power zero_le_numeral)
  also have "\<dots> = 1 / 2 ^ 50" 
  proof -
    have "(2 :: rat) ^ 1074 = 2 ^ 1024 * 2 ^ 50" by (simp only: power_add [symmetric]) simp
    then show ?thesis by simp
  qed
  also have "\<dots> \<le> (1 / 500 :: rat)" by simp
  finally have u1: "u \<le> 1 / 500" .
  define r where "r = of_int (round_half_even (\<bar>q\<bar> / u)) * u"
  have "\<bar>of_int (round_half_even (\<bar>q\<bar> / u)) - \<bar>q\<bar> / u\<bar> * u \<le> 1 / 2 * u"
    using round_half_even_error u0 by (intro mult_right_mono) simp_all
  also have "\<bar>of_int (round_half_even (\<bar>q\<bar> / u)) - \<bar>q\<bar> / u\<bar> * u = \<bar>r - q\<bar>"
  proof -
    have "r - q = (of_int (round_half_even (\<bar>q\<bar> / u)) - \<bar>q\<bar> / u) * u"
      using u0 assms(1) by (simp add: r_def left_diff_distrib)
    then show ?thesis using u0 by (simp add: abs_mult)
  qed
  finally have e: "\<bar>r - q\<bar> \<le> 1 / 1000" using u1 by simp
  have e2: "r - q \<le> 1 / 1000" "q - r \<le> 1 / 1000" using e by linarith+
  have "r < 16" using e2(1) assms(2) by linarith
  also have "(16 :: rat) = 2 ^ 4" by simp
  also have "\<dots> \<le> (2 :: rat) ^ 1024" by (rule power_increasing) simp_all
  finally have big: "\<not> (2 :: rat) ^ 1024 \<le> r" by simp
  have "double_of q = Fin r"
    unfolding double_of_def m_def [symmetric] Let_def s(1) u_def [symmetric] r_def [symmetric] if_not_P [OF big]
    using assms(1) by simp
  then show thesis using that e2 by simp
qed

end
