(* ===== verification/CheckoutView.thy ===== *)
theory CheckoutView
  imports ClientBase JsMath
begin

text \<open>
  What the checkout controller (\<open>app/javascript/controllers/checkout_controller.js\<close>) shows: escaping,
  prices and quantities, the copy for each failure, and the receipt. The DOM is a record: a status or
  receipt element is the list of texts its template interpolates, each as it is inserted (escaped or
  not); the static markup around them is left out.
\<close>

section \<open>Escaping\<close>

text \<open>\<open>div.textContent = s; div.innerHTML\<close>: the serializer of a text node.\<close>

definition escape_char :: "jsunit \<Rightarrow> jsstr" where
  "escape_char c = (if c = jc (CHR ''&'') then js ''&amp;'' else if c = 160 then js ''&nbsp;''
     else if c = jc (CHR ''<'') then js ''&lt;'' else if c = jc (CHR ''>'') then js ''&gt;'' else [c])"

definition escape_html :: "jsval \<Rightarrow> js_error + jsstr" where
  "escape_html v = bindE (string_of v) (\<lambda>s. Inr (concat (map escape_char s)))"

section \<open>Offers, quantities and prices\<close>

record offer =
  of_kind :: jsstr
  of_checked :: bool
  of_price_cents :: "jsstr option"
  of_price_display :: "jsstr option"

record quantity_control =
  qc_kind :: jsstr
  qc_input :: "(jsstr \<times> jsstr \<times> jsstr) option"
  qc_hidden :: bool
  qc_total :: jsstr

text \<open>\<open>element.dataset.x\<close> as a value, and \<open>Number(s) || n\<close>.\<close>

fun dataset :: "jsstr option \<Rightarrow> jsval" where
  "dataset None = Undef"
| "dataset (Some s) = Str s"

definition number_or :: "jsstr \<Rightarrow> jsnum \<Rightarrow> jsnum" where
  "number_or s n = (let x = number_of_str s in if truthy (Num x) then x else n)"

definition selected_offer :: "offer list \<Rightarrow> offer option" where
  "selected_offer os = (case find of_checked os of Some a \<Rightarrow> Some a
     | None \<Rightarrow> (case os of [] \<Rightarrow> None | a # _ \<Rightarrow> Some a))"

definition quantity_control_for :: "quantity_control list \<Rightarrow> offer \<Rightarrow> quantity_control option" where
  "quantity_control_for cs a = find (\<lambda>c. qc_kind c = of_kind a) cs"

text \<open>The quantity in the limits of the input. The function also writes it back to the input.\<close>

definition clamp_quantity :: "jsstr \<Rightarrow> jsstr \<Rightarrow> jsstr \<Rightarrow> jsnum" where
  "clamp_quantity mn mx v = (let lo = number_or mn (Fin 1); hi = number_or mx (Fin 20);
      wanted = num_floor (number_or v lo)
    in num_min hi (num_max lo wanted))"

definition quantity_for :: "quantity_control list \<Rightarrow> offer \<Rightarrow> jsnum" where
  "quantity_for cs a = (case quantity_control_for cs a of
       Some c \<Rightarrow> (case qc_input c of Some (mn, mx, v) \<Rightarrow> clamp_quantity mn mx v | None \<Rightarrow> Fin 1)
     | None \<Rightarrow> Fin 1)"

fun update_first :: "('a \<Rightarrow> bool) \<Rightarrow> ('a \<Rightarrow> 'a) \<Rightarrow> 'a list \<Rightarrow> 'a list" where
  "update_first P f [] = []"
| "update_first P f (x # xs) = (if P x then f x # xs else x # update_first P f xs)"

definition write_quantity :: "offer \<Rightarrow> quantity_control list \<Rightarrow> quantity_control list" where
  "write_quantity a = update_first (\<lambda>c. qc_kind c = of_kind a)
     (\<lambda>c. c\<lparr>qc_input := map_option (\<lambda>(mn, mx, v). (mn, mx, num_str (clamp_quantity mn mx v))) (qc_input c)\<rparr>)"

definition cents_number :: "offer \<Rightarrow> jsnum" where
  "cents_number a = (case of_price_cents a of None \<Rightarrow> NaN | Some s \<Rightarrow> number_of_str s)"

definition usdc_text :: "jsnum \<Rightarrow> jsstr" where
  "usdc_text x = to_fixed 2 (num_div x 100) @ js '' USDC''"

definition price_display :: "offer \<Rightarrow> jsstr" where
  "price_display a = (case of_price_display a of Some (c # cs) \<Rightarrow> c # cs | _ \<Rightarrow> usdc_text (cents_number a))"

definition total_display :: "offer \<Rightarrow> jsnum \<Rightarrow> jsstr" where
  "total_display a quantity = usdc_text (num_mul (cents_number a) quantity)"

definition middle_dot :: jsstr where
  "middle_dot = [32, 183, 32]"

definition format_amount :: "jsval \<Rightarrow> js_error + jsstr" where
  "format_amount accept = bindE (get_prop accept (js ''asset'')) (\<lambda>asset.
     bindE (number_of (opt_prop accept (js ''amount''))) (\<lambda>n. Inr (
       if asset = Str (js ''0.0.0'') then to_fixed 2 (num_div n 100000000) @ js '' HBAR''
       else to_fixed 2 (num_div n 1000000) @ js '' USDC'')))"

section \<open>Failure copy\<close>

definition long_dash :: jsstr where
  "long_dash = [32, 0x2014, 32]"

definition after_or :: "jsval \<Rightarrow> nat \<Rightarrow> js_error + jsstr" where
  "after_or retry_after n = string_of (or_else retry_after (jnum n))"

text \<open>\<open>FAILURE_COPY\<close>. No error code of the API is the name of a member every object inherits.\<close>

definition failure_copy :: "(jsstr \<times> (jsval \<Rightarrow> js_error + jsstr)) list" where
  "failure_copy = map (\<lambda>(k, f). (js k, f))
    [(''sold_out'', \<lambda>_. Inr (js ''This offer is sold out'' @ long_dash @ js ''there are no license slots left.'')),
     (''facilitator_unavailable'', \<lambda>r. bindE (after_or r 5) (\<lambda>n. Inr
        (js ''The payment processor is temporarily unavailable. Try again in about '' @ n @ js '' seconds.''))),
     (''rate_limited'', \<lambda>r. bindE (after_or r 60) (\<lambda>n. Inr
        (js ''Too many purchase attempts right now. Wait about '' @ n @ js '' seconds, then try again.''))),
     (''duplicate_payment'', \<lambda>_. Inr
        (js ''This payment was already submitted and is being handled'' @ long_dash @ js ''retrying here won't help.'')),
     (''invalid_payload'', \<lambda>_. Inr
        (js ''The payment could not be read by the server. Retrying this exact request won't help.'')),
     (''wallet_refused'', \<lambda>_. Inr (js ''You declined the payment request in your wallet.'')),
     (''preflight_failed'', \<lambda>_. Inr
        (js ''Your wallet could not make this transfer. Usually that means the account is short of the asset being charged, or has not associated it yet. Check the balance, then try again.'')),
     (''wallet_unavailable'', \<lambda>_. Inr
        (js ''This deployment has no browser wallet configured, so there is nothing to sign with. The same purchase still works over the API with x402'' @ long_dash @ js ''see the API docs.'')),
     (''purchases_disabled'', \<lambda>_. Inr (js ''Chat purchases are currently disabled.'')),
     (''spend_cap_exceeded'', \<lambda>_. Inr (js ''This proposal exceeds the configured conversation spend cap.'')),
     (''daily_spend_cap_exceeded'', \<lambda>_. Inr (js ''The chat purchase budget for today has been reached.'')),
     (''approval_expired'', \<lambda>_. Inr (js ''This approval expired. Ask the shopkeeper for a fresh proposal.'')),
     (''stale_proposal'', \<lambda>_. Inr
        (js ''The offer changed. Ask the shopkeeper for a fresh proposal before paying.'')),
     (''approval_already_used'', \<lambda>_. Inr (js ''This approval has already been used.'')),
     (''invalid_purchase_intent'', \<lambda>_. Inr (js ''The server could not verify this purchase approval.'')),
     (''payment_intent_replayed'', \<lambda>_. Inr
        (js ''This approval is already bound to a different signed payment.'')),
     (''incompatible_payees'', \<lambda>_. Inr
        (js ''These items do not share compatible payment requirements and cannot use one Hedera transfer.''))]"

definition terminal_errors :: "jsstr list" where
  "terminal_errors = map js [''sold_out'', ''duplicate_payment'', ''invalid_payload'', ''purchases_disabled'',
     ''spend_cap_exceeded'', ''daily_spend_cap_exceeded'', ''approval_expired'', ''stale_proposal'',
     ''approval_already_used'', ''invalid_purchase_intent'', ''payment_intent_replayed'',
     ''incompatible_payees'', ''wallet_unavailable'']"

definition terminal_labels :: "(jsstr \<times> jsstr) list" where
  "terminal_labels = map (\<lambda>(k, l). (js k, js l)) [(''sold_out'', ''Sold out''),
     (''duplicate_payment'', ''Already submitted''), (''invalid_payload'', ''Unavailable''),
     (''wallet_unavailable'', ''No wallet configured'')]"

fun is_terminal :: "jsval \<Rightarrow> bool" where
  "is_terminal (Str code) = (code \<in> set terminal_errors)"
| "is_terminal _ = False"

fun failure_label :: "jsval \<Rightarrow> jsstr" where
  "failure_label (Str code) = (if code \<in> set terminal_errors
     then (case map_of terminal_labels code of Some l \<Rightarrow> l | None \<Rightarrow> js ''Unavailable'')
     else js ''Try again'')"
| "failure_label _ = js ''Try again''"

fun contains_text :: "jsstr \<Rightarrow> jsstr \<Rightarrow> bool" where
  "contains_text p [] = (p = [])"
| "contains_text p (c # s) = (starts_with p (c # s) \<or> contains_text p s)"

definition copy_key :: "jsval \<Rightarrow> js_error + jsstr" where
  "copy_key code = bindE (string_of code) (\<lambda>k.
     if map_of failure_copy k \<noteq> None then Inr k
     else bindE (string_of (or_else code (Str []))) (\<lambda>t.
       Inr (if contains_text (js ''preflight'') t then js ''preflight_failed'' else k)))"

definition failure_message :: "jsval \<Rightarrow> jsval \<Rightarrow> js_error + jsstr" where
  "failure_message code retry_after = bindE (copy_key code) (\<lambda>k.
     case map_of failure_copy k of
       Some f \<Rightarrow> f retry_after
     | None \<Rightarrow> Inr (js ''The payment could not be completed.''))"

section \<open>The receipt\<close>

text \<open>The address of a download: the package with its token, or the first file.\<close>

definition token_query :: "jsval \<Rightarrow> js_error + jsstr" where
  "token_query token = bindE (string_of token) (\<lambda>t. bindE (ofOption UriErr (encode_uri_component t)) (\<lambda>e.
     Inr (js ''?token='' @ e)))"

fun first_element :: "jsval \<Rightarrow> js_error + jsval" where
  "first_element (Arr []) = Inr Undef"
| "first_element (Arr (v # vs)) = Inr v"
| "first_element (Str (c # s)) = Inr (Str [c])"
| "first_element v = get_prop v (js ''0'')"

definition with_token :: "jsval \<Rightarrow> jsval \<Rightarrow> js_error + jsstr" where
  "with_token u receipt = bindE (escape_html u) (\<lambda>a. bindE (get_prop receipt (js ''token'')) (\<lambda>t.
     bindE (token_query t) (\<lambda>q. Inr (a @ q))))"

definition package_address :: "jsval \<Rightarrow> jsval \<Rightarrow> js_error + jsstr" where
  "package_address receipt files = (let p = opt_prop receipt (js ''package_url'') in
     if truthy p then with_token p receipt
     else bindE (first_element files) (\<lambda>f. escape_html (or_else (opt_prop f (js ''url'')) (Str (js ''#'')))))"

definition receipt_link :: "jsval \<Rightarrow> js_error + jsstr option" where
  "receipt_link receipt = (if truthy receipt
     then bindE (get_prop receipt (js ''url'')) (\<lambda>u. bindE (with_token u receipt) (\<lambda>a. Inr (Some a)))
     else Inr None)"

definition cap_note :: "jsval \<Rightarrow> js_error + jsstr option" where
  "cap_note license = (let cap = opt_prop license (js ''max_units'') in if truthy cap
     then bindE (string_of (opt_prop license (js ''remaining_units''))) (\<lambda>r. bindE (string_of cap) (\<lambda>m.
       Inr (Some (r @ js '' of '' @ m @ js '' license slots now remain. This cap does not technically restrict physical printing.''))))
     else Inr None)"

record receipt_row =
  rr_label :: jsstr
  rr_package :: jsstr
  rr_verify :: jsstr
  rr_cert :: jsstr
  rr_link :: "jsstr option"

record receipt =
  rc_heading :: jsstr
  rc_cap_note :: "jsstr option"
  rc_transaction_url :: jsstr
  rc_transaction :: jsstr
  rc_share_card :: "(jsstr \<times> jsstr) option"
  rc_rows :: "receipt_row list"

definition serial_label :: "jsval \<Rightarrow> js_error + jsstr" where
  "serial_label license = bindE (string_of (opt_prop license (js ''serial''))) (\<lambda>n.
     if truthy (opt_prop license (js ''max_units''))
     then bindE (string_of (opt_prop license (js ''max_units''))) (\<lambda>m. Inr (js ''#'' @ n @ js '' of '' @ m))
     else Inr (js ''#'' @ n))"

definition single_receipt :: "jsval \<Rightarrow> js_error + receipt" where
  "single_receipt body = (let receipt = opt_prop body (js ''receipt''); card = opt_prop body (js ''share_card_url'') in
     bindE (get_prop body (js ''license'')) (\<lambda>license. bindE (get_prop license (js ''max_units'')) (\<lambda>_.
     bindE (serial_label license) (\<lambda>serial. bindE (cap_note license) (\<lambda>note.
     bindE (if truthy card
       then bindE (escape_html card) (\<lambda>u. bindE (escape_html (opt_prop license (js ''cert_id''))) (\<lambda>c. Inr (Some (u, c))))
       else Inr None) (\<lambda>share.
     bindE (receipt_link receipt) (\<lambda>link. bindE (package_address receipt (opt_prop body (js ''files''))) (\<lambda>package.
     bindE (escape_html (opt_prop body (js ''transaction_url''))) (\<lambda>tx_url.
     bindE (escape_html (opt_prop body (js ''transaction_id''))) (\<lambda>tx.
     bindE (string_of (opt_prop body (js ''verify_url''))) (\<lambda>verify.
     bindE (escape_html (opt_prop license (js ''cert_id''))) (\<lambda>cert.
       Inr \<lparr>rc_heading = (if opt_prop license (js ''kind'') = Str (js ''personal'')
           then js ''Personal license'' @ long_dash @ js ''unlimited personal prints'' else js ''Commercial unit '' @ serial),
         rc_cap_note = note, rc_transaction_url = tx_url, rc_transaction = tx, rc_share_card = share,
         rc_rows = [\<lparr>rr_label = [], rr_package = package, rr_verify = verify, rr_cert = cert, rr_link = link\<rparr>]\<rparr>))))))))))))"

definition license_row :: "jsval \<Rightarrow> js_error + receipt_row" where
  "license_row license = bindE (get_prop license (js ''receipt'')) (\<lambda>receipt.
     bindE (receipt_link receipt) (\<lambda>link. bindE (package_address receipt (opt_prop license (js ''files''))) (\<lambda>package.
     bindE (if opt_prop license (js ''kind'') = Str (js ''personal'') then Inr (js ''Personal license'')
            else bindE (string_of (opt_prop license (js ''serial''))) (\<lambda>n. Inr (js ''Commercial unit #'' @ n))) (\<lambda>label.
     bindE (escape_html (opt_prop license (js ''verify_url''))) (\<lambda>verify.
     bindE (escape_html (opt_prop license (js ''cert_id''))) (\<lambda>cert.
       Inr \<lparr>rr_label = label, rr_package = package, rr_verify = verify, rr_cert = cert, rr_link = link\<rparr>))))))"

definition batch_heading :: "jsval list \<Rightarrow> jsstr" where
  "batch_heading licenses = (let n = length licenses in
     if list_all (\<lambda>l. opt_prop l (js ''kind'') = Str (js ''commercial_unit'')) licenses
     then dec_str n @ js '' commercial '' @ (if n = 1 then js ''unit'' else js ''units'') @ js '' licensed''
     else dec_str n @ js '' '' @ (if n = 1 then js ''license'' else js ''licenses'') @ js '' purchased'')"

definition batch_receipt :: "jsval list \<Rightarrow> jsval \<Rightarrow> js_error + receipt" where
  "batch_receipt licenses body =
     bindE (case licenses of [] \<Rightarrow> Inr None | l # _ \<Rightarrow> cap_note l) (\<lambda>note. bindE (mapE license_row licenses) (\<lambda>rows.
     bindE (escape_html (opt_prop body (js ''transaction_url''))) (\<lambda>tx_url.
     bindE (escape_html (opt_prop body (js ''transaction_id''))) (\<lambda>tx.
       Inr \<lparr>rc_heading = batch_heading licenses, rc_cap_note = note, rc_transaction_url = tx_url, rc_transaction = tx,
         rc_share_card = None, rc_rows = rows\<rparr>))))"

section \<open>What escaping gives\<close>

text \<open>An escaped text has no markup of its own: inserted as text it opens no tag.\<close>

lemma escape_html_no_tag:
  assumes "escape_html v = Inr s"
  shows "jc (CHR ''<'') \<notin> set s \<and> jc (CHR ''>'') \<notin> set s"
proof -
  obtain t where s: "s = concat (map escape_char t)" using assms by (auto simp: escape_html_def)
  have "jc (CHR ''<'') \<notin> set (escape_char c) \<and> jc (CHR ''>'') \<notin> set (escape_char c)" for c
    by (auto simp: escape_char_def js_Cons jc_def)
  then show ?thesis by (auto simp: s)
qed

text \<open>But a quotation mark stays: the serializer of text does not escape it, and the templates put
  escaped texts between quotation marks.\<close>

lemma escape_html_quote: "escape_html (Str [34]) = Inr [34]"
  by (simp add: escape_html_def string_of_def escape_char_def jc_def)

section \<open>Quantities stay in range\<close>

text \<open>Whatever is typed into the quantity field, the quantity used is a whole number between the
  limits of the field (1 and 20 when it has none).\<close>

theorem quantity_in_range:
  assumes "number_or mn (Fin 1) = Fin (of_int lo)" "number_or mx (Fin 20) = Fin (of_int hi)" "lo \<le> hi"
  shows "\<exists>k. clamp_quantity mn mx v = Fin (of_int k) \<and> lo \<le> k \<and> k \<le> hi"
proof -
  define x where "x = number_or v (Fin (of_int lo))"
  have c: "clamp_quantity mn mx v = num_min (Fin (of_int hi)) (num_max (Fin (of_int lo)) (num_floor x))"
    by (simp add: clamp_quantity_def assms(1,2) x_def Let_def)
  show ?thesis
  proof (cases x)
    case NaN
    then show ?thesis by (auto simp: x_def number_or_def Let_def split: if_splits)
  next
    case (Fin q)
    have "clamp_quantity mn mx v = Fin (of_int (min hi (max lo \<lfloor>q\<rfloor>)))"
      using assms(3) unfolding c Fin by (auto simp: num_min_def num_max_def min_def max_def)
    then show ?thesis using assms(3) by (intro exI [of _ "min hi (max lo \<lfloor>q\<rfloor>)"]) auto
  next
    case PosInf
    then have "clamp_quantity mn mx v = Fin (of_int hi)"
      unfolding c by (simp add: num_min_def num_max_def)
    then show ?thesis using assms(3) by (intro exI [of _ hi]) simp
  next
    case NegInf
    then have "clamp_quantity mn mx v = Fin (of_int lo)"
      using assms(3) unfolding c by (auto simp: num_min_def num_max_def)
    then show ?thesis using assms(3) by (intro exI [of _ lo]) simp
  qed
qed

theorem quantity_in_range_witness: "\<exists>k. clamp_quantity [] (js ''5'') (js ''99'') = Fin (of_int k) \<and> 1 \<le> k \<and> k \<le> 5"
proof -
  have "number_of_str (dec_str 5) = Fin 5" using number_of_dec_str [of 5] by simp
  moreover have "dec_str 5 = js ''5''" by code_simp
  moreover have "js_trim [] = []" by (simp add: js_trim_def)
  ultimately show ?thesis
    by (intro quantity_in_range) (simp_all add: number_or_def Let_def number_of_str_def [of "[]"])
qed

end
