(* ===== verification/Checkout.thy ===== *)
theory Checkout
  imports CheckoutView
begin

text \<open>
  The checkout state machine (\<open>checkout_controller.js\<close>): a click runs \<open>buy\<close> to its end over a world
  of the page and a session with the network; other events of the page change the selection. A
  signed payment that may have settled stays in \<open>pending\<close> and is submitted again byte for byte; the
  lemmas say that a click with a pending payment never asks for another signature, and what ends a
  pending payment.
\<close>

section \<open>The page\<close>

datatype phase = Idle | Quoting | Signing | Settling | Failure | Success

datatype status =
    NoStatus
  | Working phase jsstr
  | FailedStatus jsstr "jsstr option"

text \<open>A signed payment. Its address and header values are what the server and the wallet sent; they
  become strings when the request is made.\<close>

record payment =
  py_url :: jsval
  py_method :: jsstr
  py_body :: "jsstr option"
  py_headers :: "(jsstr \<times> jsval) list"

record checkout =
  co_phase :: phase
  co_pending :: "payment option"
  co_offers :: "offer list"
  co_quantities :: "quantity_control list"
  co_has_cart :: bool
  co_button_disabled :: bool
  co_button_text :: jsstr
  co_cart_disabled :: bool
  co_status :: status
  co_receipt :: "receipt option"
  co_bought :: bool
  co_cart_hidden :: bool
  co_cart_link :: jsstr

record checkout_config =
  cc_download_url :: jsstr
  cc_batch_url :: jsstr
  cc_model_id :: jsval
  cc_items :: "jsval option"
  cc_completion_url :: "jsstr option"
  cc_wallet_url :: "jsstr option"
  cc_approval_url :: "jsstr option"
  cc_button_prefix :: jsstr
  cc_csrf_meta :: "jsstr option"

definition csrf_token :: "checkout_config \<Rightarrow> jsstr" where
  "csrf_token cfg = (case cc_csrf_meta cfg of Some content \<Rightarrow> content | None \<Rightarrow> [])"

text \<open>The world a click runs in. \<open>wallet\<close> is \<open>window.loadPrintwrightWallet\<close> with the wallet it loads,
  where the page has it.\<close>

record 'w world =
  page :: checkout
  session :: "'w session"

type_synonym ('w, 'a) flow = "('w world, js_error, 'a) act"
type_synonym 'w wallet = "(jsval list \<Rightarrow> 'w \<Rightarrow> (js_error + jsval) \<times> 'w) option"

definition update_page :: "(checkout \<Rightarrow> checkout) \<Rightarrow> ('w, unit) flow" where
  "update_page f = (\<lambda>w. (Inr (), w\<lparr>page := f (page w)\<rparr>))"

definition read_page :: "(checkout \<Rightarrow> 'a) \<Rightarrow> ('w, 'a) flow" where
  "read_page f = (\<lambda>w. (Inr (f (page w)), w))"

definition on_network :: "('w, 'a) prog \<Rightarrow> ('w, 'a) flow" where
  "on_network p = (\<lambda>w. case p (session w) of (r, s) \<Rightarrow> (r, w\<lparr>session := s\<rparr>))"

section \<open>Changing the selection\<close>

text \<open>\<open>updatePrice\<close>, with the quantity read once for the selected offer.\<close>

definition show_price :: "checkout_config \<Rightarrow> offer \<Rightarrow> checkout \<Rightarrow> checkout" where
  "show_price cfg a co = (let quantity = quantity_for (co_quantities co) a; display = price_display a in
     if of_kind a = js ''commercial_unit'' \<and> quantity_control_for (co_quantities co) a \<noteq> None
     then (let sum_text = total_display a quantity;
           noun = (if num_eq quantity (Fin 1) then js ''commercial unit'' else js ''commercial units'');
           put = update_first (\<lambda>c. qc_kind c = of_kind a)
             (\<lambda>c. c\<lparr>qc_total := display @ js '' each'' @ middle_dot @ sum_text @ js '' total''\<rparr>)
         in co\<lparr>co_quantities := put (write_quantity a (co_quantities co)),
               co_button_text := js ''Buy '' @ num_str quantity @ js '' '' @ noun @ middle_dot @ sum_text\<rparr>)
     else co\<lparr>co_quantities := write_quantity a (co_quantities co),
             co_button_text := cc_button_prefix cfg @ middle_dot @ display\<rparr>)"

definition clear_failure :: "checkout \<Rightarrow> checkout" where
  "clear_failure co = (if co_phase co = Failure
     then co\<lparr>co_phase := Idle, co_button_disabled := False, co_status := NoStatus\<rparr> else co)"

definition update_price :: "checkout_config \<Rightarrow> checkout \<Rightarrow> checkout" where
  "update_price cfg co = (case selected_offer (co_offers co) of
       None \<Rightarrow> co
     | Some a \<Rightarrow> show_price cfg a (clear_failure (co\<lparr>co_quantities :=
         map (\<lambda>c. c\<lparr>qc_hidden := (qc_kind c \<noteq> of_kind a)\<rparr>) (co_quantities co)\<rparr>)))"

definition connect_checkout :: "checkout_config \<Rightarrow> checkout \<Rightarrow> checkout" where
  "connect_checkout cfg co = update_price cfg co"

section \<open>Showing the outcome\<close>

definition in_flight_page :: "phase \<Rightarrow> jsstr \<Rightarrow> checkout \<Rightarrow> checkout" where
  "in_flight_page ph message co = co\<lparr>co_phase := ph, co_button_disabled := True,
     co_cart_disabled := (co_has_cart co \<or> co_cart_disabled co), co_status := Working ph message\<rparr>"

definition set_state :: "phase \<Rightarrow> jsstr \<Rightarrow> ('w, unit) flow" where
  "set_state ph message = bindM (liftM (escape_html (Str message))) (\<lambda>m. update_page (in_flight_page ph m))"

definition failed_page :: "jsval \<Rightarrow> checkout \<Rightarrow> checkout" where
  "failed_page code co = co\<lparr>co_phase := Failure, co_button_disabled := is_terminal code,
     co_cart_disabled := (co_cart_disabled co \<and> \<not> co_has_cart co), co_button_text := failure_label code\<rparr>"

definition fail_with :: "jsval \<Rightarrow> jsval \<Rightarrow> jsval \<Rightarrow> ('w, unit) flow" where
  "fail_with code detail retry_after =
     bindM (update_page (failed_page code)) (\<lambda>_.
     bindM (liftM (bindE (failure_message code retry_after) (\<lambda>m. escape_html (Str m)))) (\<lambda>message.
     bindM (liftM (if truthy detail then bindE (escape_html detail) (\<lambda>d. Inr (Some d)) else Inr None)) (\<lambda>d.
       update_page (\<lambda>co. co\<lparr>co_status := FailedStatus message d\<rparr>))))"

definition succeeded_page :: "receipt \<Rightarrow> checkout \<Rightarrow> checkout" where
  "succeeded_page rc co = co\<lparr>co_receipt := Some rc, co_status := NoStatus, co_bought := True\<rparr>"

text \<open>\<open>success\<close> also hides the button that puts the model in the cart; \<open>successBatch\<close> does not.\<close>

definition succeeded_single :: "receipt \<Rightarrow> checkout \<Rightarrow> checkout" where
  "succeeded_single rc co = (succeeded_page rc co)\<lparr>co_cart_hidden := (co_has_cart co \<or> co_cart_hidden co)\<rparr>"

definition emptied_cart :: "checkout \<Rightarrow> checkout" where
  "emptied_cart co = co\<lparr>co_cart_link := js ''Cart''\<rparr>"

definition succeed :: "checkout_config \<Rightarrow> 'w fetcher \<Rightarrow> jsval \<Rightarrow> ('w, unit) flow" where
  "succeed cfg f body = bindM (liftM (get_prop body (js ''licenses''))) (\<lambda>licenses. case licenses of
       Arr ls \<Rightarrow>
         bindM (case cc_completion_url cfg of None \<Rightarrow> retM ()
           | Some u \<Rightarrow> bindM (on_network (fetchM f \<lparr>req_method = js ''DELETE'', req_url = u,
               req_headers = [(js ''x-csrf-token'', csrf_token cfg)], req_body = None\<rparr>)) (\<lambda>_. update_page emptied_cart)) (\<lambda>_.
         bindM (update_page (\<lambda>co. co\<lparr>co_phase := Success\<rparr>)) (\<lambda>_.
         bindM (liftM (batch_receipt ls body)) (\<lambda>rc. update_page (succeeded_page rc))))
     | _ \<Rightarrow>
         bindM (update_page (\<lambda>co. co\<lparr>co_phase := Success\<rparr>)) (\<lambda>_.
         bindM (liftM (single_receipt body)) (\<lambda>rc. update_page (succeeded_single rc))))"

section \<open>Signing and settling\<close>

definition response_json :: "http_response \<Rightarrow> js_error + jsval" where
  "response_json r = bindE (res_text r) (\<lambda>t. ofOption SyntaxErr (json_parse t))"

text \<open>\<open>response.json().catch(() => ({}))\<close>\<close>

definition json_or_empty :: "http_response \<Rightarrow> jsval" where
  "json_or_empty r = (case response_json r of Inr v \<Rightarrow> v | Inl e \<Rightarrow> Obj [])"

definition json_content :: "(jsstr \<times> jsstr) list" where
  "json_content = [(js ''content-type'', js ''application/json'')]"

definition sign_payment :: "checkout_config \<Rightarrow> 'w fetcher \<Rightarrow> 'w wallet \<Rightarrow> jsval \<Rightarrow> ('w, jsval) prog" where
  "sign_payment cfg f wallet quote = (case cc_wallet_url cfg of
       Some u \<Rightarrow> bindM (fetchM f \<lparr>req_method = js ''POST'', req_url = u @ js ''/sign'', req_headers = json_content,
           req_body = stringify (Obj [(js ''paymentRequired'', quote)])\<rparr>) (\<lambda>signature.
         liftM (if res_ok signature
           then bindE (response_json signature) (\<lambda>v. get_prop v (js ''headers''))
           else bindE (get_prop (json_or_empty signature) (js ''error'')) (\<lambda>e.
             bindE (string_of (or_else e (jnum (res_status signature)))) (\<lambda>m. Inl (PlainErr (js ''wallet refused: '' @ m))))))
     | None \<Rightarrow> (case wallet of
           None \<Rightarrow> throwM (CodedErr (js ''Wallet checkout is not configured'') (js ''wallet_unavailable''))
         | Some sign \<Rightarrow> callM sign (js ''walletSign'') [quote]))"

fun error_code :: "js_error \<Rightarrow> jsstr" where
  "error_code (CodedErr m c) = c"
| "error_code (VerificationError m c r) = c"
| "error_code _ = []"

definition recoverable :: "jsval \<Rightarrow> bool" where
  "recoverable code = (code \<in> {Str (js ''facilitator_unavailable''), Str (js ''rate_limited'')})"

definition payment_request :: "payment \<Rightarrow> js_error + http_request" where
  "payment_request p = bindE (string_of (py_url p)) (\<lambda>u.
     bindE (mapE (\<lambda>(k, v). bindE (string_of v) (\<lambda>s. Inr (k, s))) (py_headers p)) (\<lambda>hs.
       Inr \<lparr>req_method = py_method p, req_url = u, req_headers = hs, req_body = py_body p\<rparr>))"

definition settled_or_kept :: "jsval \<Rightarrow> checkout \<Rightarrow> checkout" where
  "settled_or_kept code co = (if recoverable code then co else co\<lparr>co_pending := None\<rparr>)"

definition submit_pending :: "checkout_config \<Rightarrow> 'w fetcher \<Rightarrow> payment \<Rightarrow> ('w, unit) flow" where
  "submit_pending cfg f p =
     bindM (set_state Settling (js ''Submitting to Hedera'' @ [0x2026])) (\<lambda>_.
     bindM (liftM (payment_request p)) (\<lambda>req.
     bindM (on_network (fetchM f req)) (\<lambda>leg2.
     bindM (liftM (response_json leg2)) (\<lambda>body.
     if res_status leg2 \<noteq> 200
     then bindM (liftM (get_prop body (js ''error''))) (\<lambda>code.
       bindM (update_page (settled_or_kept code)) (\<lambda>_.
       fail_with code (or_else code (Str (js ''settlement failed ('' @ dec_str (res_status leg2) @ js '')'')))
         (opt_prop body (js ''retry_after''))))
     else bindM (update_page (\<lambda>co. co\<lparr>co_pending := None\<rparr>)) (\<lambda>_. succeed cfg f body)))))"

section \<open>The terms of a purchase\<close>

record terms =
  tm_quote :: jsval
  tm_url :: jsval
  tm_method :: jsstr
  tm_body :: "jsstr option"
  tm_intent :: jsval

definition accept_header :: "jsstr \<times> jsstr" where
  "accept_header = (js ''accept'', js ''application/json'')"

definition channel_header :: "jsstr \<times> jsstr" where
  "channel_header = (js ''X-Printwright-Channel'', js ''human'')"

text \<open>With an approval the server quotes on its own terms; \<open>None\<close> is the early return after a failure.\<close>

definition approved_terms :: "checkout_config \<Rightarrow> 'w fetcher \<Rightarrow> jsstr \<Rightarrow> jsstr \<Rightarrow> jsstr option \<Rightarrow> ('w, terms option) flow" where
  "approved_terms cfg f approval_url mth request_body =
     bindM (set_state Quoting (js ''Checking the proposal and reserving its spend cap'' @ [0x2026])) (\<lambda>_.
     bindM (on_network (fetchM f \<lparr>req_method = js ''POST'', req_url = approval_url,
         req_headers = [accept_header, (js ''x-csrf-token'', csrf_token cfg)], req_body = None\<rparr>)) (\<lambda>approval.
     let body = json_or_empty approval in
     if \<not> res_ok approval
     then bindM (liftM (get_prop body (js ''error''))) (\<lambda>code.
       bindM (fail_with code (or_else code (Str (js ''approval failed ('' @ dec_str (res_status approval) @ js '')'')))
         (opt_prop body (js ''retry_after''))) (\<lambda>_. retM None))
     else bindM (liftM (get_prop body (js ''payment_required''))) (\<lambda>quote.
       retM (Some \<lparr>tm_quote = quote, tm_url = opt_prop body (js ''purchase_url''), tm_method = mth,
         tm_body = request_body, tm_intent = opt_prop body (js ''purchase_intent'')\<rparr>))))"

definition unit_items :: "jsval \<Rightarrow> jsstr \<Rightarrow> jsnum \<Rightarrow> js_error + jsval" where
  "unit_items model_id kind quantity = (case quantity of
       Fin q \<Rightarrow> Inr (Obj [(js ''items'', Arr (replicate (nat \<lfloor>q\<rfloor>) (Obj [(js ''model_id'', model_id), (js ''license'', Str kind)])))])
     | _ \<Rightarrow> Inl RangeErr)"

definition quoted_terms ::
  "checkout_config \<Rightarrow> 'w fetcher \<Rightarrow> (jsstr \<times> jsnum) option \<Rightarrow> jsstr \<Rightarrow> jsstr \<Rightarrow> jsstr option \<Rightarrow> ('w, terms option) flow" where
  "quoted_terms cfg f choice u mth request_body =
     bindM (set_state Quoting (js ''Fetching payment terms'' @ [0x2026])) (\<lambda>_.
     bindM (liftM (case (request_body, choice) of
         (None, Some (kind, quantity)) \<Rightarrow>
           if kind = js ''commercial_unit'' \<and> num_lt (Fin 1) quantity
           then bindE (unit_items (cc_model_id cfg) kind quantity) (\<lambda>items.
             Inr (cc_batch_url cfg, js ''POST'', stringify items))
           else Inr (u, mth, request_body)
       | _ \<Rightarrow> Inr (u, mth, request_body))) (\<lambda>(u, mth, request_body).
     bindM (on_network (fetchM f \<lparr>req_method = mth, req_url = u,
         req_headers = [accept_header, channel_header] @ (if request_body = None then [] else json_content),
         req_body = request_body\<rparr>)) (\<lambda>leg1.
     if res_status leg1 \<noteq> 402
     then (let body = json_or_empty leg1 in bindM (liftM (get_prop body (js ''error''))) (\<lambda>code.
       bindM (fail_with code (Str (js ''expected a 402 quote, got '' @ dec_str (res_status leg1)))
         (opt_prop body (js ''retry_after''))) (\<lambda>_. retM None)))
     else bindM (liftM (response_json leg1)) (\<lambda>quote.
       retM (Some \<lparr>tm_quote = quote, tm_url = Str u, tm_method = mth, tm_body = request_body, tm_intent = Undef\<rparr>)))))"

text \<open>The kind and quantity chosen, where single offers are sold; reading the quantity writes it back.\<close>

definition read_choice :: "checkout_config \<Rightarrow> ('w, (jsstr \<times> jsnum) option) flow" where
  "read_choice cfg = (if cc_items cfg \<noteq> None then retM None
     else bindM (read_page (\<lambda>co. (selected_offer (co_offers co), co_quantities co))) (\<lambda>(a, qs). case a of
         None \<Rightarrow> retM None
       | Some a \<Rightarrow> bindM (update_page (\<lambda>co. co\<lparr>co_quantities := write_quantity a (co_quantities co)\<rparr>)) (\<lambda>_.
           retM (Some (of_kind a, quantity_for qs a)))))"

definition purchase_terms :: "checkout_config \<Rightarrow> 'w fetcher \<Rightarrow> ('w, terms option) flow" where
  "purchase_terms cfg f = bindM (read_choice cfg) (\<lambda>choice.
     let u = (case choice of Some (kind, quantity) \<Rightarrow> cc_download_url cfg @ js ''?license='' @ kind | None \<Rightarrow> cc_batch_url cfg);
         mth = (if cc_items cfg = None then js ''GET'' else js ''POST'');
         request_body = (case cc_items cfg of None \<Rightarrow> None | Some items \<Rightarrow> stringify (Obj [(js ''items'', items)]))
     in case cc_approval_url cfg of
          Some a \<Rightarrow> approved_terms cfg f a mth request_body
        | None \<Rightarrow> quoted_terms cfg f choice u mth request_body)"

section \<open>Buying\<close>

definition arrow :: jsstr where
  "arrow = [32, 0x2192, 32]"

definition sign_prompt :: "jsval \<Rightarrow> js_error + jsstr" where
  "sign_prompt quote = bindE (get_prop quote (js ''accepts'')) (\<lambda>accepts. bindE (first_element accepts) (\<lambda>accept.
     bindE (format_amount accept) (\<lambda>amount. bindE (string_of (opt_prop accept (js ''payTo''))) (\<lambda>pay_to.
       Inr (js ''Sign in wallet: '' @ amount @ arrow @ pay_to @ js '' (network fee paid by facilitator)'')))))"

definition payment_of :: "terms \<Rightarrow> jsval \<Rightarrow> payment" where
  "payment_of t headers = \<lparr>py_url = tm_url t, py_method = tm_method t, py_body = tm_body t,
     py_headers = foldl (\<lambda>kvs (k, v). obj_put kvs k v) []
       ([(js ''accept'', Str (js ''application/json'')), (js ''X-Printwright-Channel'', Str (js ''human''))] @ spread headers @
        (if truthy (tm_intent t) then [(js ''X-Printwright-Purchase-Intent'', tm_intent t)] else []) @
        (if tm_body t = None then [] else [(js ''content-type'', Str (js ''application/json''))]))\<rparr>"

definition ask_signature :: "checkout_config \<Rightarrow> 'w fetcher \<Rightarrow> 'w wallet \<Rightarrow> jsval \<Rightarrow> ('w, jsval option) flow" where
  "ask_signature cfg f wallet quote =
     catchM (bindM (on_network (sign_payment cfg f wallet quote)) (\<lambda>h. retM (Some h)))
       (\<lambda>e. bindM (fail_with (if error_code e = [] then Str (js ''wallet_refused'') else Str (error_code e))
          (Str (error_message e)) Undef) (\<lambda>_. retM None))"

definition pay_terms :: "checkout_config \<Rightarrow> 'w fetcher \<Rightarrow> 'w wallet \<Rightarrow> terms \<Rightarrow> ('w, unit) flow" where
  "pay_terms cfg f wallet t =
     bindM (liftM (sign_prompt (tm_quote t))) (\<lambda>prompt.
     bindM (set_state Signing prompt) (\<lambda>_.
     bindM (ask_signature cfg f wallet (tm_quote t)) (\<lambda>signed_headers. case signed_headers of
         None \<Rightarrow> retM ()
       | Some headers \<Rightarrow>
           bindM (update_page (\<lambda>co. co\<lparr>co_pending := Some (payment_of t headers)\<rparr>)) (\<lambda>_.
             submit_pending cfg f (payment_of t headers)))))"

definition buy_click :: "checkout_config \<Rightarrow> 'w fetcher \<Rightarrow> 'w wallet \<Rightarrow> ('w, unit) flow" where
  "buy_click cfg f wallet = catchM (bindM (read_page co_pending) (\<lambda>pending. case pending of
         Some p \<Rightarrow> submit_pending cfg f p
       | None \<Rightarrow> bindM (purchase_terms cfg f) (\<lambda>ts. case ts of None \<Rightarrow> retM () | Some t \<Rightarrow> pay_terms cfg f wallet t)))
     (\<lambda>e. fail_with Null (Str (error_message e)) Undef)"

section \<open>Effects of a click\<close>

text \<open>What a program does to the world, whatever its outcome, as a relation; the relations of interest
  are preorders, so every construct respects them.\<close>

definition obeys :: "('s \<Rightarrow> 's \<Rightarrow> bool) \<Rightarrow> ('s, 'e, 'a) act \<Rightarrow> bool" where
  "obeys R m = (\<forall>w r w'. m w = (r, w') \<longrightarrow> R w w')"

locale effect =
  fixes R :: "'s \<Rightarrow> 's \<Rightarrow> bool"
  assumes effect_refl: "R w w" and effect_trans: "R w1 w2 \<Longrightarrow> R w2 w3 \<Longrightarrow> R w1 w3"
begin

lemma quiet: "obeys R (retM x)" "obeys R (throwM e)" "obeys R (liftM r)"
  by (auto simp: obeys_def run_simps intro: effect_refl)

lemma bind: "obeys R m \<Longrightarrow> (\<And>x. obeys R (f x)) \<Longrightarrow> obeys R (bindM m f)"
  unfolding obeys_def bindM_def by (auto split: prod.splits sum.splits intro: effect_trans) (metis effect_trans)+

lemma catch: "obeys R m \<Longrightarrow> (\<And>e. obeys R (h e)) \<Longrightarrow> obeys R (catchM m h)"
  unfolding obeys_def catchM_def by (auto split: prod.splits sum.splits intro: effect_trans) (metis effect_trans)+

end

text \<open>The requests and calls a click makes satisfy \<open>P\<close>, and what is pending changes only as \<open>Q\<close> allows.\<close>

definition click_effect :: "(event \<Rightarrow> bool) \<Rightarrow> (payment option \<Rightarrow> payment option \<Rightarrow> bool) \<Rightarrow> 'w world \<Rightarrow> 'w world \<Rightarrow> bool" where
  "click_effect P Q w w' = ((\<exists>evs. trace (session w') = trace (session w) @ evs \<and> (\<forall>e \<in> set evs. P e)) \<and>
     Q (co_pending (page w)) (co_pending (page w')))"

definition only_cleared :: "payment option \<Rightarrow> payment option \<Rightarrow> bool" where
  "only_cleared p q = (q = p \<or> q = None)"

definition unchanged :: "payment option \<Rightarrow> payment option \<Rightarrow> bool" where
  "unchanged p q = (q = p)"

interpretation clears: effect "click_effect P only_cleared"
  by unfold_locales (auto simp: click_effect_def only_cleared_def)

interpretation leaves: effect "click_effect P unchanged"
  by unfold_locales (auto simp: click_effect_def unchanged_def)

lemma obeys_update: "(\<And>co. Q (co_pending co) (co_pending (g co))) \<Longrightarrow> obeys (click_effect P Q) (update_page g)"
  by (auto simp: obeys_def update_page_def click_effect_def)

lemma obeys_read: "(\<And>p. Q p p) \<Longrightarrow> obeys (click_effect P Q) (read_page g)"
  by (auto simp: obeys_def read_page_def click_effect_def)

lemma obeys_network: "emits P p \<Longrightarrow> (\<And>q. Q q q) \<Longrightarrow> obeys (click_effect P Q) (on_network p)"
  by (fastforce simp: obeys_def on_network_def click_effect_def emits_def split: prod.splits)

lemma quiet_changes [simp]: "unchanged p p" "only_cleared p p" "only_cleared p None"
  by (simp_all add: unchanged_def only_cleared_def)

lemmas leaves_rules = leaves.quiet leaves.bind obeys_update obeys_read obeys_network
lemmas clears_rules = clears.quiet clears.bind obeys_update obeys_read obeys_network

lemma fail_with_leaves: "obeys (click_effect P unchanged) (fail_with code detail retry_after)"
  unfolding fail_with_def by (intro leaves_rules) (simp_all add: failed_page_def)

lemma set_state_leaves: "obeys (click_effect P unchanged) (set_state ph m)"
  unfolding set_state_def by (intro leaves_rules) (simp_all add: in_flight_page_def)

lemma obeys_mono: "obeys R m \<Longrightarrow> (\<And>w w'. R w w' \<Longrightarrow> S w w') \<Longrightarrow> obeys S m"
  unfolding obeys_def by blast

lemma leaves_clears: "obeys (click_effect P unchanged) m \<Longrightarrow> obeys (click_effect P only_cleared) m"
  by (erule obeys_mono) (simp add: click_effect_def unchanged_def)

text \<open>The end of a batch purchase empties the cart.\<close>

definition completes :: "checkout_config \<Rightarrow> event \<Rightarrow> bool" where
  "completes cfg e = (\<exists>req. e = Fetched req \<and> req_method req = js ''DELETE'' \<and> cc_completion_url cfg = Some (req_url req))"

lemma succeed_leaves: "obeys (click_effect (completes cfg) unchanged) (succeed cfg f body)"
proof -
  have u: "obeys (click_effect P unchanged) (bindM (update_page (\<lambda>co. co\<lparr>co_phase := Success\<rparr>)) (\<lambda>_.
         bindM (liftM r) (\<lambda>rc. update_page (g rc))))" if "g \<in> {succeeded_page, succeeded_single}" for P g and r :: "js_error + receipt"
    using that by (intro leaves_rules) (auto simp: succeeded_page_def succeeded_single_def)
  have v: "obeys (click_effect P unchanged) (update_page emptied_cart)" for P
    by (intro leaves_rules) (simp add: emptied_cart_def)
  have "obeys (click_effect (completes cfg) unchanged) (on_network (fetchM f \<lparr>req_method = js ''DELETE'', req_url = u,
               req_headers = [(js ''x-csrf-token'', csrf_token cfg)], req_body = None\<rparr>))" if "cc_completion_url cfg = Some u" for u
    using that by (intro obeys_network trace_rules) (simp_all add: completes_def)
  then show ?thesis
    unfolding succeed_def by (auto intro!: leaves.bind leaves.quiet u v split: jsval.splits option.splits)
qed

definition submits :: "checkout_config \<Rightarrow> payment \<Rightarrow> event \<Rightarrow> bool" where
  "submits cfg p e = (completes cfg e \<or> (\<exists>req. payment_request p = Inr req \<and> e = Fetched req))"

lemma submit_pending_effect:
  fixes f :: "'w fetcher"
  shows "obeys (click_effect (submits cfg p) only_cleared) (submit_pending cfg f p)"
proof -
  have s: "obeys (click_effect (submits cfg p) only_cleared) (succeed cfg f body)" for body
    by (rule obeys_mono [OF leaves_clears [OF succeed_leaves]]) (auto simp: click_effect_def submits_def)
  have n: "obeys (click_effect (submits cfg p) only_cleared) (bindM (liftM (payment_request p)) (\<lambda>req.
      bindM (on_network (fetchM f req)) g))" if "\<And>x. obeys (click_effect (submits cfg p) only_cleared) (g x)" for g :: "_ \<Rightarrow> ('w, unit) flow"
  proof (cases "payment_request p")
    case (Inl e)
    then show ?thesis by (simp add: obeys_def run_simps click_effect_def)
  next
    case (Inr req)
    have "obeys (click_effect (submits cfg p) only_cleared) (bindM (on_network (fetchM f req)) g)"
      using that Inr by (intro clears.bind obeys_network trace_rules) (auto simp: submits_def)
    then show ?thesis by (simp add: Inr obeys_def run_simps)
  qed
  show ?thesis
    unfolding submit_pending_def
    by (intro clears.bind n leaves_clears [OF set_state_leaves])
      (auto intro!: clears.bind clears.quiet obeys_update s leaves_clears [OF fail_with_leaves] simp: settled_or_kept_def)
qed

section \<open>Pending payments\<close>

lemma leaves_pending:
  assumes "obeys (click_effect P unchanged) m" "m w = (r, w')"
  shows "co_pending (page w') = co_pending (page w)"
  using assms unfolding obeys_def click_effect_def unchanged_def by blast

lemma fail_with_pending: "fail_with code detail retry_after w = (r, w') \<Longrightarrow> co_pending (page w') = co_pending (page w)"
  by (rule leaves_pending [OF fail_with_leaves])

lemma succeed_pending: "succeed cfg f body w = (r, w') \<Longrightarrow> co_pending (page w') = co_pending (page w)"
  by (rule leaves_pending [OF succeed_leaves])

lemma set_state_run: "\<exists>w1. set_state ph (m :: jsstr) w = (Inr (), w1) \<and> session w1 = session w \<and>
    page w1 = in_flight_page ph (concat (map escape_char m)) (page w)"
  by (simp add: set_state_def escape_html_def string_of_def run_simps update_page_def)

text \<open>The server has given the final answer to a payment: it was accepted, or refused for a reason that
  the same payment cannot overcome.\<close>

definition answered :: "payment \<Rightarrow> 'w fetcher \<Rightarrow> 'w \<Rightarrow> bool" where
  "answered p f n = (\<exists>req response n' body. payment_request p = Inr req \<and> f req n = (Inr response, n') \<and>
     response_json response = Inr body \<and>
     (res_status response = 200 \<or> \<not> nullish body \<and> \<not> recoverable (opt_prop body (js ''error''))))"

lemma submit_pending_outcome:
  assumes "submit_pending cfg f p w = (r, w')" "co_pending (page w) = Some p"
  shows "co_pending (page w') = (if answered p f (net (session w)) then None else Some p)"
proof -
  obtain w1 where w1: "set_state Settling (js ''Submitting to Hedera'' @ [0x2026]) w = (Inr (), w1)"
    "session w1 = session w" "co_pending (page w1) = Some p"
    using set_state_run [of Settling "js ''Submitting to Hedera'' @ [0x2026]" w] assms(2)
    by (auto simp: in_flight_page_def)
  show ?thesis
  proof (cases "payment_request p")
    case (Inl e)
    then show ?thesis using assms(1) w1 by (auto simp: submit_pending_def run_simps answered_def)
  next
    case (Inr req)
    obtain a n' where f: "f req (net (session w)) = (a, n')" by (cases "f req (net (session w))")
    obtain w2 where w2: "on_network (fetchM f req) w1 = (a, w2)" "page w2 = page w1"
      using f w1(2) by (simp add: on_network_def fetchM_def)
    show ?thesis
    proof (cases "\<exists>response body. a = Inr response \<and> response_json response = Inr body")
      case False
      then show ?thesis
        using assms(1) w1 w2 Inr f
        by (cases a; cases "response_json (projr a)") (auto simp: submit_pending_def run_simps answered_def)
    next
      case True
      then obtain response body where b: "a = Inr response" "response_json response = Inr body" by blast
      have ans: "answered p f (net (session w)) \<longleftrightarrow>
          res_status response = 200 \<or> \<not> nullish body \<and> \<not> recoverable (opt_prop body (js ''error''))"
        using Inr f b by (auto simp: answered_def)
      show ?thesis
      proof (cases "res_status response = 200")
        case True
        then have "succeed cfg f body (w2\<lparr>page := (page w2)\<lparr>co_pending := None\<rparr>\<rparr>) = (r, w')"
          using assms(1) w1(1) w2(1) Inr b by (simp add: submit_pending_def run_simps update_page_def)
        then show ?thesis using succeed_pending ans True by fastforce
      next
        case False
        then show ?thesis
          using assms(1) w1 w2 Inr b ans
          by (auto simp: submit_pending_def run_simps update_page_def get_prop_def settled_or_kept_def
              dest!: fail_with_pending split: if_splits)
      qed
    qed
  qed
qed

lemma buy_click_pending:
  assumes "co_pending (page w) = Some p" "buy_click cfg f wallet w = (r, w')"
  shows "\<exists>r1 w1. submit_pending cfg f p w = (r1, w1) \<and>
    (r1 = r \<and> w1 = w' \<or> (\<exists>e. r1 = Inl e \<and> fail_with Null (Str (error_message e)) Undef w1 = (r, w')))"
proof -
  obtain r1 w1 where "submit_pending cfg f p w = (r1, w1)" by fastforce
  then show ?thesis
    using assms by (cases r1) (auto simp: buy_click_def run_simps read_page_def)
qed

lemma click_submits:
  assumes "co_pending (page w) = Some p" "buy_click cfg f wallet w = (r, w')"
  shows "(\<exists>evs. trace (session w') = trace (session w) @ evs \<and> (\<forall>e \<in> set evs. submits cfg p e)) \<and>
    co_pending (page w') = (if answered p f (net (session w)) then None else Some p)"
proof -
  obtain r1 w1 where s: "submit_pending cfg f p w = (r1, w1)"
    "r1 = r \<and> w1 = w' \<or> (\<exists>e. r1 = Inl e \<and> fail_with Null (Str (error_message e)) Undef w1 = (r, w'))"
    using buy_click_pending [OF assms] by blast
  have e: "click_effect (submits cfg p) only_cleared w w1"
    using submit_pending_effect s(1) unfolding obeys_def by blast
  have f: "click_effect (submits cfg p) unchanged w1 w'"
    using s(2) fail_with_leaves [of "submits cfg p"] leaves.effect_refl unfolding obeys_def by blast
  obtain evs evs' where "trace (session w1) = trace (session w) @ evs" "\<forall>e \<in> set evs. submits cfg p e"
    "trace (session w') = trace (session w1) @ evs'" "\<forall>e \<in> set evs'. submits cfg p e"
    using e f unfolding click_effect_def by blast
  then have "trace (session w') = trace (session w) @ (evs @ evs')" "\<forall>e \<in> set (evs @ evs'). submits cfg p e" by auto
  moreover have "co_pending (page w') = co_pending (page w1)"
    using f by (simp add: click_effect_def unchanged_def)
  ultimately show ?thesis using submit_pending_outcome [OF s(1) assms(1)] by metis
qed

text \<open>C24. While a signed payment is pending, a click never asks for another signature: every request it
  makes is that payment, byte for byte (or empties the cart after a batch). The payment stops
  being pending exactly when the server has answered it for good; after a lost connection, a timeout,
  an unreadable answer or a request to wait it is still there for the next click.\<close>

theorem pending_payment_resubmitted:
  assumes "co_pending (page w) = Some p" "buy_click cfg f wallet w = (r, w')"
  shows "(\<exists>evs. trace (session w') = trace (session w) @ evs \<and> (\<forall>e \<in> set evs. submits cfg p e)) \<and>
    co_pending (page w') = (if answered p f (net (session w)) then None else Some p)"
  by (rule click_submits [OF assms])

section \<open>Every click ends\<close>

text \<open>A page at rest: a failure with its message, whose button is disabled exactly when trying again
  cannot help, or a receipt.\<close>

definition at_rest :: "checkout \<Rightarrow> bool" where
  "at_rest co = (co_phase co = Failure \<and> (\<exists>m d. co_status co = FailedStatus m d) \<and>
       (co_button_disabled co \<longleftrightarrow> co_button_text co \<noteq> js ''Try again'') \<or>
     co_phase co = Success \<and> co_status co = NoStatus \<and> co_receipt co \<noteq> None \<and> co_bought co)"

definition rests :: "('w, 'a) flow \<Rightarrow> ('a \<Rightarrow> bool) \<Rightarrow> bool" where
  "rests m P = (\<forall>w x w'. m w = (Inr x, w') \<longrightarrow> P x \<longrightarrow> at_rest (page w'))"

lemma failure_label_terminal: "is_terminal code \<longleftrightarrow> failure_label code \<noteq> js ''Try again''"
  by (cases code) (auto simp: terminal_labels_def split: option.splits if_splits)

lemma rests_bind: "(\<And>x. rests (f x) P) \<Longrightarrow> rests (bindM m f) P"
  unfolding rests_def by (auto simp: run_iffs)

lemma rests_if: "(b \<Longrightarrow> rests m P) \<Longrightarrow> (\<not> b \<Longrightarrow> rests m' P) \<Longrightarrow> rests (if b then m else m') P"
  by simp

lemma rests_fail: "rests (fail_with code detail retry_after) P"
  unfolding rests_def
proof (intro allI impI)
  fix w x w'
  assume "fail_with code detail retry_after w = (Inr x, w')"
  then obtain m d where "page w' = (failed_page code (page w))\<lparr>co_status := FailedStatus m d\<rparr>"
    by (auto simp: fail_with_def run_iffs update_page_def)
  then show "at_rest (page w')"
    by (simp add: at_rest_def failed_page_def failure_label_terminal)
qed

lemma rests_fail_then: "rests (bindM (fail_with code detail retry_after) (\<lambda>_. retM y)) P"
  using rests_fail [of code detail retry_after "\<lambda>_. True"] unfolding rests_def by (auto simp: run_iffs)

lemma rests_receipt: "rests (bindM (update_page (\<lambda>co. co\<lparr>co_phase := Success\<rparr>)) (\<lambda>_.
    bindM (liftM rc) (\<lambda>rc. update_page (succeeded_page rc)))) P"
  "rests (bindM (update_page (\<lambda>co. co\<lparr>co_phase := Success\<rparr>)) (\<lambda>_.
    bindM (liftM rc) (\<lambda>rc. update_page (succeeded_single rc)))) P"
  unfolding rests_def
  by (auto simp: run_iffs update_page_def succeeded_page_def succeeded_single_def at_rest_def)

lemma rests_succeed: "rests (succeed cfg f body) P"
proof -
  have "rests (case v of Arr ls \<Rightarrow> bindM (m ls) (\<lambda>_. bindM (update_page (\<lambda>co. co\<lparr>co_phase := Success\<rparr>)) (\<lambda>_.
      bindM (liftM (batch_receipt ls body)) (\<lambda>rc. update_page (succeeded_page rc))))
    | _ \<Rightarrow> bindM (update_page (\<lambda>co. co\<lparr>co_phase := Success\<rparr>)) (\<lambda>_.
      bindM (liftM (single_receipt body)) (\<lambda>rc. update_page (succeeded_single rc)))) P" for v and m :: "_ \<Rightarrow> ('a, unit) flow"
    by (cases v) (auto intro: rests_receipt rests_bind [OF rests_receipt(1)])
  then show ?thesis
    unfolding succeed_def by (intro rests_bind)
qed

lemma rests_submit: "rests (submit_pending cfg f p) P"
  unfolding submit_pending_def by (intro rests_bind rests_if rests_fail rests_succeed)

lemma rests_some: "(\<And>x. \<not> P x) \<Longrightarrow> rests m P"
  by (simp add: rests_def)

lemma rests_ret: "\<not> P x \<Longrightarrow> rests (retM x) P"
  by (simp add: rests_def run_iffs)

lemma rests_terms: "rests (purchase_terms cfg f) (\<lambda>ts. ts = None)"
proof -
  have "rests (approved_terms cfg f a mth b) (\<lambda>ts. ts = None)" for a mth b
    unfolding approved_terms_def Let_def by (intro rests_bind rests_if rests_fail_then rests_ret) simp_all
  moreover have "rests (quoted_terms cfg f c u mth b) (\<lambda>ts. ts = None)" for c u mth b
    unfolding quoted_terms_def Let_def
    by (auto intro!: rests_bind rests_fail_then rests_ret)
  ultimately show ?thesis
    unfolding purchase_terms_def Let_def by (auto intro!: rests_bind split: option.splits)
qed

lemma rests_catch: "rests m P \<Longrightarrow> (\<And>e. rests (h e) P) \<Longrightarrow> rests (catchM m h) P"
  unfolding rests_def catchM_def by (auto split: prod.splits sum.splits)

lemma rests_option:
  assumes "rests m (\<lambda>x. x = None)" "\<And>y. rests (g y) P"
  shows "rests (bindM m (\<lambda>x. case x of None \<Rightarrow> retM z | Some y \<Rightarrow> g y)) P"
  unfolding rests_def
proof (intro allI impI)
  fix w x w'
  assume "bindM m (\<lambda>x. case x of None \<Rightarrow> retM z | Some y \<Rightarrow> g y) w = (Inr x, w')" "P x"
  moreover from this obtain y w1 where "m w = (Inr y, w1)"
    "(case y of None \<Rightarrow> retM z | Some y \<Rightarrow> g y) w1 = (Inr x, w')"
    by (auto simp: run_iffs)
  ultimately show "at_rest (page w')"
    using assms unfolding rests_def by (cases y) (auto simp: run_iffs)
qed

lemma rests_ask: "rests (ask_signature cfg f wallet quote) (\<lambda>x. x = None)"
  unfolding ask_signature_def
  by (rule rests_catch, rule rests_bind, rule rests_ret, simp, rule rests_fail_then)

lemma rests_pay: "rests (pay_terms cfg f wallet t) P"
  unfolding pay_terms_def
  by (rule rests_bind, rule rests_bind, rule rests_option, rule rests_ask, rule rests_bind, rule rests_submit)

lemma rests_buy: "rests (buy_click cfg f wallet) P"
proof -
  have "rests (bindM (purchase_terms cfg f) (\<lambda>ts. case ts of None \<Rightarrow> retM () | Some t \<Rightarrow> pay_terms cfg f wallet t)) P"
    by (intro rests_option rests_terms rests_pay)
  then have "rests (case pending of None \<Rightarrow> bindM (purchase_terms cfg f) (\<lambda>ts. case ts of None \<Rightarrow> retM () | Some t \<Rightarrow> pay_terms cfg f wallet t)
      | Some p \<Rightarrow> submit_pending cfg f p) P" for pending
    by (cases pending) (simp_all add: rests_submit)
  then show ?thesis
    unfolding buy_click_def by (intro rests_catch rests_bind rests_fail)
qed

lemma last_failure: "\<exists>w'. fail_with Null (Str m) Undef w = (Inr (), w')"
proof -
  have n: "map_of failure_copy (js ''null'') = None" by (simp add: failure_copy_def)
  have "contains_text (js ''preflight'') [] = False" by simp
  then have k: "failure_message Null Undef = Inr (js ''The payment could not be completed.'')"
    by (simp add: failure_message_def copy_key_def string_of_def or_else_def n)
  show ?thesis
    by (cases "m = []") (simp_all add: fail_with_def k run_simps update_page_def escape_html_def string_of_def)
qed

text \<open>C25. Every click ends: whatever the servers and the wallet answer, and whatever is thrown on the way,
  \<open>buy\<close> comes back with the page at rest: either a failure message, with the button disabled exactly
  when the error is terminal, or a success with its receipt.\<close>

theorem click_ends_at_rest: "\<exists>w'. buy_click cfg f wallet w = (Inr (), w') \<and> at_rest (page w')"
proof -
  have total: "\<exists>u w'. catchM m (\<lambda>e. fail_with Null (Str (error_message e)) Undef) w = (Inr u, w')" for m :: "('a, unit) flow"
  proof (cases "m w")
    case (Pair r1 w1)
    then show ?thesis
      using last_failure [of "error_message (projl r1)" w1] by (cases r1) (auto simp: catchM_run)
  qed
  obtain u w' where b: "buy_click cfg f wallet w = (Inr u, w')"
    using total unfolding buy_click_def by blast
  have "at_rest (page w')"
    using rests_buy [of cfg f wallet "\<lambda>_. True"] b unfolding rests_def by blast
  then show ?thesis using b by simp
qed

section \<open>Changing the offer while a payment is pending\<close>

text \<open>Choosing another offer after a failure re-enables the button and prices the new offer, but a
  payment that was already signed stays pending: the next click submits that payment, not the offer
  the button shows.\<close>

theorem repriced_button_keeps_payment:
  assumes "co_phase co = Failure" "co_pending co = Some p" "selected_offer (co_offers co) = Some a"
  shows "\<not> co_button_disabled (update_price cfg co) \<and> co_phase (update_price cfg co) = Idle \<and>
    co_pending (update_price cfg co) = Some p \<and>
    (\<forall>f wallet w r w'. page w = update_price cfg co \<longrightarrow> buy_click cfg f wallet w = (r, w') \<longrightarrow>
       (\<exists>evs. trace (session w') = trace (session w) @ evs \<and> (\<forall>e \<in> set evs. submits cfg p e)))"
proof -
  have "\<not> co_button_disabled (update_price cfg co) \<and> co_phase (update_price cfg co) = Idle \<and>
      co_pending (update_price cfg co) = Some p"
    using assms by (simp add: update_price_def show_price_def clear_failure_def Let_def)
  then show ?thesis using click_submits by metis
qed

section \<open>A concrete page\<close>

definition sample_config :: checkout_config where
  "sample_config = \<lparr>cc_download_url = js ''/d'', cc_batch_url = js ''/b'', cc_model_id = jnum 1, cc_items = None,
     cc_completion_url = None, cc_wallet_url = None, cc_approval_url = None, cc_button_prefix = js ''Buy'', cc_csrf_meta = None\<rparr>"

definition sample_payment :: payment where
  "sample_payment = \<lparr>py_url = Str (js ''/d''), py_method = js ''GET'', py_body = None,
     py_headers = [(js ''PAYMENT-SIGNATURE'', Str (js ''x''))]\<rparr>"

definition sample_checkout :: checkout where
  "sample_checkout = \<lparr>co_phase = Failure, co_pending = Some sample_payment,
     co_offers = [\<lparr>of_kind = js ''personal'', of_checked = True, of_price_cents = None, of_price_display = Some (js ''1'')\<rparr>],
     co_quantities = [], co_has_cart = False, co_button_disabled = False, co_button_text = [], co_cart_disabled = False,
     co_status = NoStatus, co_receipt = None, co_bought = False, co_cart_hidden = False, co_cart_link = js ''Cart (1)''\<rparr>"

definition offline :: "unit fetcher" where
  "offline req w = (Inl (TypeErr (js ''offline'')), w)"

definition sample_world :: "unit world" where
  "sample_world = \<lparr>page = sample_checkout, session = \<lparr>net = (), trace = []\<rparr>\<rparr>"

text \<open>The server cannot be reached: the payment is tried once and stays pending.\<close>

theorem pending_payment_resubmitted_witness:
  "\<exists>r w'. buy_click sample_config offline None sample_world = (r, w') \<and> co_pending (page w') = Some sample_payment \<and>
     (\<forall>e \<in> set (trace (session w')). submits sample_config sample_payment e)"
proof -
  obtain r w' where b: "buy_click sample_config offline None sample_world = (r, w')" by fastforce
  have p: "co_pending (page sample_world) = Some sample_payment" by (simp add: sample_world_def sample_checkout_def)
  have "\<not> answered sample_payment offline ()" by (simp add: answered_def offline_def)
  then show ?thesis using pending_payment_resubmitted [OF p b] b by (auto simp: sample_world_def)
qed

theorem repriced_button_keeps_payment_witness:
  "\<not> co_button_disabled (update_price sample_config sample_checkout) \<and>
     co_pending (update_price sample_config sample_checkout) = Some sample_payment"
proof -
  have "co_phase sample_checkout = Failure" "co_pending sample_checkout = Some sample_payment"
    "selected_offer (co_offers sample_checkout) = Some (hd (co_offers sample_checkout))"
    by (simp_all add: sample_checkout_def selected_offer_def)
  then show ?thesis using repriced_button_keeps_payment by metis
qed

end
