(* ===== verification/Mcp.thy ===== *)
theory Mcp
  imports Client VerifierCli
begin

text \<open>
  The MCP server (\<open>mcp/server.mjs\<close>): its configuration with the spend cap, its tools as programs over
  the client of \<open>Client\<close>, and the local delivery of files. Tool arguments are what the zod schemas
  let through. The file system and the download of bytes are the record \<open>storage\<close>; paths follow
  \<open>node:path\<close> for POSIX. The lemmas say when \<open>buy_license\<close> reaches the client, and where it writes.
\<close>

section \<open>Configuration\<close>

definition parse_spend_cap :: "jsstr option \<Rightarrow> js_error + jsnum" where
  "parse_spend_cap raw = (case raw of
       None \<Rightarrow> Inr (Fin 2500)
     | Some s \<Rightarrow> if s = [] then Inr (Fin 2500)
       else (let cap = number_of_str s in
         if \<not> is_finite cap \<or> num_lt cap (Fin 0)
         then Inl (PlainErr (js ''MAX_SPEND_CENTS must be a non-negative number of cents (got '' @ json_quote s @ js '')''))
         else Inr cap))"

record mcp_settings =
  mc_base :: jsstr
  mc_network :: jsstr
  mc_sandbox :: bool
  mc_download_dir :: jsstr
  mc_account :: jsval
  mc_private_key :: jsval
  mc_cap :: jsnum

text \<open>\<open>process.env\<close>, and the first of two variables that is not empty.\<close>

definition first_set :: "(jsstr \<Rightarrow> jsstr option) \<Rightarrow> string \<Rightarrow> jsval \<Rightarrow> jsval" where
  "first_set env name other = (case env (js name) of Some (c # cs) \<Rightarrow> Str (c # cs) | _ \<Rightarrow> other)"

definition env_value :: "(jsstr \<Rightarrow> jsstr option) \<Rightarrow> string \<Rightarrow> jsval" where
  "env_value env name = (case env (js name) of Some s \<Rightarrow> Str s | None \<Rightarrow> Undef)"

fun text_or_empty :: "jsval \<Rightarrow> jsstr" where
  "text_or_empty (Str s) = s"
| "text_or_empty _ = []"

definition mcp_config :: "(jsstr \<Rightarrow> jsstr option) \<Rightarrow> js_error + mcp_settings" where
  "mcp_config env = bindE (parse_spend_cap (env (js ''MAX_SPEND_CENTS''))) (\<lambda>cap. Inr
     \<lparr>mc_base = drop_slash (text_or_empty (first_set env ''PRINTWRIGHT_URL'' (Str (js ''http://localhost:3000'')))),
      mc_network = (if env (js ''HEDERA_NETWORK'') = Some (js ''mainnet'') then js ''mainnet'' else js ''testnet''),
      mc_sandbox = (env (js ''PRINTWRIGHT_SANDBOX'') = Some (js ''true'')),
      mc_download_dir = text_or_empty (first_set env ''PRINTWRIGHT_DOWNLOAD_DIR'' (Str [])),
      mc_account = first_set env ''BUYER_ACCOUNT_ID'' (env_value env ''HEDERA_ACCOUNT_ID''),
      mc_private_key = first_set env ''BUYER_PRIVATE_KEY'' (env_value env ''HEDERA_PRIVATE_KEY''),
      mc_cap = cap\<rparr>)"

definition mcp_client :: "'w platform \<Rightarrow> mcp_settings \<Rightarrow> js_error + client \<times> registry" where
  "mcp_client pf c = new_client pf True (mc_base c) (mc_account c) (mc_private_key c) (mc_network c) (Bool True) (Bool (mc_sandbox c))"

section \<open>Results\<close>

datatype tool_result = Content jsstr | ToolError jsstr

definition tool_json :: "jsval \<Rightarrow> tool_result" where
  "tool_json v = Content (joined (stringify_indent [] v))"

section \<open>Paths\<close>

text \<open>The components of an absolute path after normalisation.\<close>

fun normal_parts :: "jsstr list \<Rightarrow> jsstr list \<Rightarrow> jsstr list" where
  "normal_parts acc [] = rev acc"
| "normal_parts acc (p # ps) = (if p = [] \<or> p = js ''.'' then normal_parts acc ps
     else if p = js ''..'' then normal_parts (tl acc) ps else normal_parts (p # acc) ps)"

definition path_parts :: "jsstr \<Rightarrow> jsstr list" where
  "path_parts s = normal_parts [] (split_on (jc (CHR ''/'')) s)"

definition absolute :: "jsstr \<Rightarrow> bool" where
  "absolute s = starts_with (js ''/'') s"

text \<open>\<open>path.resolve(dir, name)\<close> in the working directory \<open>cwd\<close>, and \<open>path.join(dir, name)\<close> for an
  absolute \<open>dir\<close>; both as components from the root.\<close>

definition path_resolve :: "jsstr \<Rightarrow> jsstr \<Rightarrow> jsstr \<Rightarrow> jsstr list" where
  "path_resolve cwd dir name = (if absolute name then path_parts name
     else if absolute dir then path_parts (dir @ js ''/'' @ name)
     else path_parts (cwd @ js ''/'' @ dir @ js ''/'' @ name))"

definition path_join :: "jsstr list \<Rightarrow> jsstr \<Rightarrow> jsstr list" where
  "path_join dir name = normal_parts (rev dir) (split_on (jc (CHR ''/'')) name)"

definition path_text :: "jsstr list \<Rightarrow> jsstr" where
  "path_text ps = js ''/'' @ intersperse (js ''/'') ps"

section \<open>Local delivery\<close>

record 'w storage =
  st_cwd :: jsstr
  st_mkdir :: "jsstr list \<Rightarrow> 'w \<Rightarrow> (js_error + unit) \<times> 'w"
  st_write :: "jsstr list \<Rightarrow> bytes \<Rightarrow> 'w \<Rightarrow> (js_error + unit) \<times> 'w"
  st_fetch :: "jsstr \<Rightarrow> 'w \<Rightarrow> (js_error + nat \<times> bytes) \<times> 'w"
  st_pathname :: "jsstr \<Rightarrow> jsstr"

text \<open>\<open>saveTo\<close> records what it writes where.\<close>

definition written_call :: jsstr where
  "written_call = js ''writeFile''"

definition save_to :: "'w storage \<Rightarrow> jsstr list \<Rightarrow> jsstr \<Rightarrow> bytes \<Rightarrow> ('w, jsval) prog" where
  "save_to st dir name bs = bindM (callM (\<lambda>_. st_write st (path_join dir name) bs) written_call
       [Arr (map Str (path_join dir name))]) (\<lambda>_. retM (Str (path_text (path_join dir name))))"

definition fetch_bytes :: "'w storage \<Rightarrow> jsval \<Rightarrow> ('w, bytes) prog" where
  "fetch_bytes st u = bindM (liftM (string_of u)) (\<lambda>a.
     bindM (callM (\<lambda>_. st_fetch st a) (js ''fetch'') [Str a]) (\<lambda>(code, bs).
       if 200 \<le> code \<and> code < 300 then retM bs
       else throwM (PlainErr (js ''HTTP '' @ dec_str code @ js '' fetching '' @ st_pathname st a))))"

text \<open>Saved files and the errors of the downloads that failed.\<close>

type_synonym delivery = "jsval list \<times> jsval list"

definition try_save :: "jsstr \<Rightarrow> ('w, jsval) prog \<Rightarrow> delivery \<Rightarrow> ('w, delivery) prog" where
  "try_save label p d = catchM (bindM p (\<lambda>file. retM (fst d @ [file], snd d)))
     (\<lambda>e. retM (fst d, snd d @ [Str (label @ js '': '' @ error_message e)]))"

definition file_name :: "jsstr \<Rightarrow> nat \<Rightarrow> jsval \<Rightarrow> js_error + jsstr" where
  "file_name slug i file = bindE (get_prop file (js ''kind'')) (\<lambda>kind.
     bindE (if kind = Str (js ''sandbox_receipt'') then Inr (js ''json'') else string_of kind) (\<lambda>ext.
       Inr (slug @ (if 0 < i then js ''-part'' @ dec_str (i + 1) else []) @ js ''.'' @ ext)))"

fun save_files :: "'w storage \<Rightarrow> jsstr list \<Rightarrow> jsstr \<Rightarrow> (nat \<times> jsval) list \<Rightarrow> delivery \<Rightarrow> ('w, delivery) prog" where
  "save_files st dir slug [] d = retM d"
| "save_files st dir slug ((i, file) # files) d = bindM (liftM (file_name slug i file)) (\<lambda>name.
     bindM (try_save name (bindM (fetch_bytes st (opt_prop file (js ''url''))) (save_to st dir name)) d)
       (save_files st dir slug files))"

fun listed :: "jsval \<Rightarrow> js_error + jsval list" where
  "listed (Arr vs) = Inr vs"
| "listed v = Inl (TypeErr (js ''entries is not a function''))"

definition download_deliverables :: "'w storage \<Rightarrow> mcp_settings \<Rightarrow> jsval \<Rightarrow> jsval \<Rightarrow> ('w, jsval) prog" where
  "download_deliverables st c result model =
     (if mc_download_dir c = []
      then retM (Obj [(js ''saved'', Arr []), (js ''note'', Str (js ''set PRINTWRIGHT_DOWNLOAD_DIR to also save files locally''))])
      else bindM (liftM (bindE (get_prop result (js ''license'')) (\<lambda>l. bindE (get_prop l (js ''cert_id'')) (\<lambda>v.
          case v of Str s \<Rightarrow> Inr s | _ \<Rightarrow> Inl (TypeErr (js ''The paths argument must be of type string'')))))) (\<lambda>cert_id.
        let dir = path_resolve (st_cwd st) (mc_download_dir c) cert_id; receipt = opt_prop result (js ''receipt'') in
        bindM (callM (\<lambda>_. st_mkdir st dir) (js ''mkdir'') [Arr (map Str dir)]) (\<lambda>_.
        bindM (liftM (bindE (listed (or_else (opt_prop result (js ''files'')) (Arr []))) (\<lambda>fs.
          bindE (string_of (opt_prop model (js ''slug''))) (\<lambda>slug. Inr (fs, slug))))) (\<lambda>(fs, slug).
        bindM (save_files st dir slug (zip [0..<length fs] fs) ([], [])) (\<lambda>d1.
        bindM (if truthy (opt_prop result (js ''certificate_pdf_url''))
          then try_save (js ''certificate pdf'') (bindM (fetch_bytes st (opt_prop result (js ''certificate_pdf_url'')))
            (save_to st dir (js ''printwright-certificate-'' @ cert_id @ js ''.pdf''))) d1 else retM d1) (\<lambda>d2.
        bindM (if truthy (opt_prop result (js ''proof_bundle''))
          then bindM (save_to st dir (js ''proof-bundle.json'')
              (utf8_encode (joined (stringify_indent [] (opt_prop result (js ''proof_bundle'')))))) (\<lambda>file.
            retM (fst d2 @ [file], snd d2)) else retM d2) (\<lambda>d3.
        bindM (if truthy (opt_prop receipt (js ''package_url'')) \<and> truthy (opt_prop receipt (js ''token''))
          then try_save (js ''package zip'') (bindM (liftM (bindE (string_of (opt_prop receipt (js ''package_url''))) (\<lambda>u.
              bindE (string_of (opt_prop receipt (js ''token''))) (\<lambda>t. bindE (encode_component t) (\<lambda>e.
                Inr (Str (u @ js ''?token='' @ e))))))) (\<lambda>u. bindM (fetch_bytes st u)
            (save_to st dir (slug @ js ''-'' @ cert_id @ js ''.zip'')))) d3 else retM d3) (\<lambda>d4.
          retM (Obj ([(js ''saved'', Arr (fst d4))] @
            (if snd d4 = [] then [] else [(js ''download_errors'', Arr (snd d4))])))))))))))"

section \<open>The tools\<close>

definition optional_text :: "jsstr option \<Rightarrow> jsval" where
  "optional_text v = (case v of None \<Rightarrow> Undef | Some s \<Rightarrow> Str s)"

definition model_summary :: "jsval \<Rightarrow> js_error + jsval" where
  "model_summary m = bindE (get_prop m (js ''id'')) (\<lambda>i. Inr (Obj [(js ''id'', i), (js ''title'', opt_prop m (js ''title'')),
     (js ''slug'', opt_prop m (js ''slug'')), (js ''offers'', opt_prop m (js ''license_offers'')),
     (js ''printability'', opt_prop m (js ''printability''))]))"

definition search_summary :: "jsval \<Rightarrow> js_error + jsval" where
  "search_summary answer = bindE (get_prop answer (js ''models'')) (\<lambda>models.
     bindE (listed models) (\<lambda>ms. bindE (mapE model_summary ms) (\<lambda>rows.
       Inr (Obj [(js ''count'', opt_prop answer (js ''count'')), (js ''models'', Arr rows)]))))"

definition search_tool ::
  "'w platform \<Rightarrow> client \<Rightarrow> jsstr \<Rightarrow> jsval \<Rightarrow> jsstr option \<Rightarrow> jsval \<Rightarrow> ('w, tool_result) prog" where
  "search_tool pf cl query max_price material supports =
     bindM (search pf cl (Str query) max_price (optional_text material) supports Undef Undef) (\<lambda>answer.
     bindM (liftM (search_summary answer)) (\<lambda>v. retM (tool_json v)))"

definition model_tool :: "'w platform \<Rightarrow> client \<Rightarrow> int \<Rightarrow> ('w, tool_result) prog" where
  "model_tool pf cl i = bindM (get_model pf cl (Num (Fin (of_int i)))) (\<lambda>v. retM (tool_json v))"

fun find_offer :: "jsstr \<Rightarrow> jsval list \<Rightarrow> js_error + jsval option" where
  "find_offer license [] = Inr None"
| "find_offer license (a # as) = bindE (get_prop a (js ''kind'')) (\<lambda>kind.
     if kind = Str license then Inr (Some a) else find_offer license as)"

text \<open>\<open>price > cap\<close>: the price is converted to a number, and nothing is greater than the cap that is
  not a number.\<close>

definition over_cap :: "jsnum \<Rightarrow> jsval \<Rightarrow> js_error + bool" where
  "over_cap cap price = bindE (number_of price) (\<lambda>p. Inr (num_lt cap p))"

definition buy_summary :: "jsval \<Rightarrow> jsval \<Rightarrow> js_error + jsval" where
  "buy_summary result delivered = bindE (get_prop result (js ''license'')) (\<lambda>license.
     bindE (get_prop license (js ''cert_id'')) (\<lambda>cert_id. Inr (Obj
      [(js ''files'', opt_prop result (js ''files'')), (js ''license'', license),
       (js ''local_files'', opt_prop delivered (js ''saved'')),
       (js ''download_errors'', opt_prop delivered (js ''download_errors'')), (js ''note'', opt_prop delivered (js ''note'')),
       (js ''sandbox'', opt_prop result (js ''sandbox'')), (js ''warning'', opt_prop result (js ''warning'')),
       (js ''cert_id'', cert_id), (js ''verify_url'', opt_prop result (js ''verify_url'')),
       (js ''transaction_id'', opt_prop result (js ''transaction_id'')),
       (js ''transaction_url'', opt_prop result (js ''transaction_url'')),
       (js ''sandbox_url'', opt_prop result (js ''sandbox_url'')),
       (js ''model_updates'', opt_prop result (js ''model_updates''))])))"

definition not_confirmed :: "bool \<Rightarrow> jsstr" where
  "not_confirmed sandbox = (if sandbox
     then js ''Refusing to simulate: pass confirm: true after the user has approved the rehearsal.''
     else js ''Refusing to buy: pass confirm: true after the user has approved the spend.'')"

definition over_cap_text :: "jsval \<Rightarrow> jsnum \<Rightarrow> js_error + jsstr" where
  "over_cap_text price cap = bindE (string_of price) (\<lambda>p. Inr (js ''offer is '' @ p @ js ''c, over the MAX_SPEND_CENTS='' @
     num_str cap @ js '' guardrail. This is your own spend ceiling, not a marketplace limit: raise MAX_SPEND_CENTS to buy this.''))"

text \<open>The offer the tool may buy, or the refusal.\<close>

definition choose_offer :: "mcp_settings \<Rightarrow> int \<Rightarrow> jsstr \<Rightarrow> jsval \<Rightarrow> js_error + tool_result option" where
  "choose_offer c model_id license model = bindE (get_prop model (js ''license_offers'')) (\<lambda>offers.
     bindE (listed offers) (\<lambda>os. bindE (find_offer license os) (\<lambda>found. case found of
         None \<Rightarrow> Inr (Some (ToolError (js ''model '' @ num_str (Fin (of_int model_id)) @ js '' has no '' @ license @ js '' offer'')))
       | Some a \<Rightarrow> bindE (over_cap (mc_cap c) (opt_prop a (js ''price_cents''))) (\<lambda>over.
           if over then bindE (over_cap_text (opt_prop a (js ''price_cents'')) (mc_cap c)) (\<lambda>m. Inr (Some (ToolError m)))
           else Inr None))))"

definition buy_tool ::
  "'w platform \<Rightarrow> 'w storage \<Rightarrow> mcp_settings \<Rightarrow> client \<Rightarrow> registry \<Rightarrow> int \<Rightarrow> jsstr \<Rightarrow> jsstr option \<Rightarrow> bool \<Rightarrow>
     ('w, tool_result \<times> registry) prog" where
  "buy_tool pf st c cl reg model_id license asset confirmed =
     (if \<not> confirmed then retM (ToolError (not_confirmed (mc_sandbox c)), reg)
      else if \<not> mc_sandbox c \<and> (\<not> truthy (mc_account c) \<or> \<not> truthy (mc_private_key c))
      then retM (ToolError (js ''BUYER_ACCOUNT_ID / BUYER_PRIVATE_KEY not configured.''), reg)
      else bindM (get_model pf cl (Num (Fin (of_int model_id)))) (\<lambda>model.
        bindM (liftM (choose_offer c model_id license model)) (\<lambda>refusal. case refusal of
          Some r \<Rightarrow> retM (r, reg)
        | None \<Rightarrow> bindM (buy pf cl reg (Num (Fin (of_int model_id))) (Str license) (optional_text asset) None) (\<lambda>(result, reg').
            bindM (download_deliverables st c result model) (\<lambda>delivered.
            bindM (liftM (buy_summary result delivered)) (\<lambda>v. retM (tool_json v, reg')))))))"

definition check_tool :: "'w platform \<Rightarrow> client \<Rightarrow> jsstr \<Rightarrow> jsstr \<Rightarrow> nat \<Rightarrow> ('w, tool_result) prog" where
  "check_tool pf cl cert_id use qty = bindM (can pf cl (Str cert_id) (Str use) (jnum qty)) (\<lambda>v. retM (tool_json v))"

definition noted :: "jsval \<Rightarrow> js_error + jsval" where
  "noted proof = bindE (get_prop proof (js ''status'')) (\<lambda>status.
     if status \<notin> {Str (js ''anchored''), Str (js ''sandbox'')}
     then Inr (with_entries proof [(js ''note'', Str (js ''not yet anchored on HCS'' @ em_dash @ js ''retry in a few seconds''))])
     else if opt_prop proof (js ''match'') = Null \<and> \<not> truthy (opt_prop proof (js ''note''))
     then Inr (with_entries proof [(js ''note'', Str (js ''HCS mirror indexing is still in progress'' @ em_dash @ js ''retry shortly''))])
     else Inr proof)"

definition verify_tool :: "'w platform \<Rightarrow> client \<Rightarrow> jsstr \<Rightarrow> ('w, tool_result) prog" where
  "verify_tool pf cl cert_id = bindM (client_verify pf cl (Str cert_id)) (\<lambda>proof.
     bindM (liftM (noted proof)) (\<lambda>v. retM (tool_json v)))"

definition latest_version_tool :: "'w platform \<Rightarrow> client \<Rightarrow> jsstr \<Rightarrow> jsstr \<Rightarrow> ('w, tool_result) prog" where
  "latest_version_tool pf cl cert_id token = bindM (latest_version pf cl (Str cert_id) (Str token)) (\<lambda>v.
     retM (tool_json (with_entries v [(js ''download_authorization'',
       Str (js ''Send the same receipt_token as an Authorization: Bearer header.''))])))"

section \<open>The spend cap\<close>

lemma parse_spend_cap_number: "parse_spend_cap raw = Inr cap \<Longrightarrow> \<exists>q. cap = Fin q \<and> 0 \<le> q"
  by (auto simp: parse_spend_cap_def Let_def split: option.splits if_splits)
    (metis is_finite.elims(2) linorder_not_le num_lt.simps(1))

text \<open>A purchase the tool may make: confirmed, with credentials unless it is a rehearsal, and with an
  offer of the license whose price, as a number, is not over the cap.\<close>

definition within_limits :: "mcp_settings \<Rightarrow> jsstr \<Rightarrow> bool \<Rightarrow> jsval \<Rightarrow> bool" where
  "within_limits c license confirmed model = (confirmed \<and>
     (mc_sandbox c \<or> truthy (mc_account c) \<and> truthy (mc_private_key c)) \<and>
     (\<exists>os a p. opt_prop model (js ''license_offers'') = Arr os \<and> a \<in> set os \<and>
        opt_prop a (js ''kind'') = Str license \<and> number_of (opt_prop a (js ''price_cents'')) = Inr p \<and>
        \<not> num_lt (mc_cap c) p))"

lemma find_offer_Some:
  "find_offer license as = Inr (Some a) \<Longrightarrow> a \<in> set as \<and> opt_prop a (js ''kind'') = Str license"
  by (induction as) (auto simp: get_prop_Inr split: if_splits)

lemma listed_Inr: "listed v = Inr vs \<longleftrightarrow> v = Arr vs"
  by (cases v) auto

lemma choose_offer_None:
  "choose_offer c model_id license model = Inr None \<Longrightarrow> confirmed \<Longrightarrow>
     mc_sandbox c \<or> truthy (mc_account c) \<and> truthy (mc_private_key c) \<Longrightarrow> within_limits c license confirmed model"
  by (auto simp: choose_offer_def within_limits_def get_prop_Inr listed_Inr over_cap_def
      dest!: find_offer_Some split: option.splits if_splits)

lemma get_model_quiet: "emits (\<lambda>e. \<not> is_signature e) (get_model pf cl v)"
  unfolding get_model_def get_api_def by (intro emits_bindM trace_rules emits_get_json_quiet)

text \<open>What the delivery adds to the trace: directory creations, downloads and writes.\<close>

lemma emits_if [trace_rules]: "(b \<Longrightarrow> emits P p) \<Longrightarrow> (\<not> b \<Longrightarrow> emits P q) \<Longrightarrow> emits P (if b then p else q)"
  by simp

lemma emits_fetch_bytes [trace_rules]: "(\<And>a. P (Called (js ''fetch'') [Str a])) \<Longrightarrow> emits P (fetch_bytes st u)"
  unfolding fetch_bytes_def by (auto intro!: emits_bindM trace_rules split: prod.splits)

lemma emits_save_to [trace_rules]:
  "P (Called written_call [Arr (map Str (path_join dir name))]) \<Longrightarrow> emits P (save_to st dir name bs)"
  unfolding save_to_def by (auto intro!: emits_bindM trace_rules)

lemma emits_try_save [trace_rules]: "emits P p \<Longrightarrow> emits P (try_save label p d)"
  unfolding try_save_def by (intro emits_catchM emits_bindM trace_rules)

lemma emits_save_files:
  assumes "\<And>a. P (Called (js ''fetch'') [Str a])"
    "\<And>i file name. (i, file) \<in> set files \<Longrightarrow> file_name slug i file = Inr name \<Longrightarrow>
       P (Called written_call [Arr (map Str (path_join dir name))])"
  shows "emits P (save_files st dir slug files d)"
  using assms(2)
proof (induction files arbitrary: d)
  case Nil
  then show ?case by (simp add: trace_rules)
next
  case (Cons f files)
  obtain i v where f: "f = (i, v)" by (cases f)
  have t: "emits P (try_save name (bindM (fetch_bytes st u) (save_to st dir name)) d)"
    if "file_name slug i v = Inr name" for name u
    using that Cons.prems f assms(1) by (intro trace_rules emits_bindM) auto
  have r: "emits P (save_files st dir slug files d')" for d'
    by (rule Cons.IH) (use Cons.prems in auto)
  show ?case
    unfolding f save_files.simps by (rule emits_bindM [OF emits_quiet(3)], rule emits_bindM) (auto simp: run_iffs intro: t r)
qed

inductive delivery_name :: "jsval \<Rightarrow> jsval \<Rightarrow> jsstr \<Rightarrow> jsstr \<Rightarrow> bool" for result model cert_id where
  part: "string_of (opt_prop model (js ''slug'')) = Inr slug \<Longrightarrow>
    listed (or_else (opt_prop result (js ''files'')) (Arr [])) = Inr fs \<Longrightarrow> v \<in> set fs \<Longrightarrow>
    file_name slug i v = Inr name \<Longrightarrow> delivery_name result model cert_id name"
| certificate: "delivery_name result model cert_id (js ''printwright-certificate-'' @ cert_id @ js ''.pdf'')"
| proof_bundle: "delivery_name result model cert_id (js ''proof-bundle.json'')"
| package: "string_of (opt_prop model (js ''slug'')) = Inr slug \<Longrightarrow>
    delivery_name result model cert_id (slug @ js ''-'' @ cert_id @ js ''.zip'')"

lemma emits_download:
  assumes "\<And>a. P (Called (js ''fetch'') [Str a])" "\<And>a. P (Called (js ''mkdir'') a)"
    "\<And>cert_id name. opt_prop (opt_prop result (js ''license'')) (js ''cert_id'') = Str cert_id \<Longrightarrow>
       delivery_name result model cert_id name \<Longrightarrow>
       P (Called written_call [Arr (map Str (path_join (path_resolve (st_cwd st) (mc_download_dir c) cert_id) name))])"
  shows "emits P (download_deliverables st c result model)"
  unfolding download_deliverables_def Let_def
  by (intro trace_rules emits_bindM emits_save_files)
    (auto simp: run_iffs get_prop_Inr intro!: trace_rules emits_bindM emits_save_files assms split: jsval.splits
      dest!: set_zip_rightD intro: delivery_name.intros)

section \<open>A purchase within the limits\<close>

lemma bindM_step: "p s = (Inr x, s1) \<Longrightarrow> bindM p f s = f x s1"
  by (simp add: bindM_def)

lemma bindM_lift: "bindM (liftM (Inr x)) f s = f x s"
  by (simp add: bindM_def liftM_def)

lemma download_quiet: "emits (\<lambda>e. \<not> is_signature e) (download_deliverables st c result model)"
  by (rule emits_download) (simp_all add: create_call_def written_call_def)

lemma buy_tool_cases:
  obtains t where "buy_tool pf st c cl reg model_id license asset confirmed s = (Inr (ToolError t, reg), s)"
  | "confirmed" "mc_sandbox c \<or> truthy (mc_account c) \<and> truthy (mc_private_key c)"
    "buy_tool pf st c cl reg model_id license asset confirmed =
       bindM (get_model pf cl (Num (Fin (of_int model_id)))) (\<lambda>model.
        bindM (liftM (choose_offer c model_id license model)) (\<lambda>refusal. case refusal of
          Some r \<Rightarrow> retM (r, reg)
        | None \<Rightarrow> bindM (buy pf cl reg (Num (Fin (of_int model_id))) (Str license) (optional_text asset) None) (\<lambda>(result, reg').
            bindM (download_deliverables st c result model) (\<lambda>delivered.
            bindM (liftM (buy_summary result delivered)) (\<lambda>v. retM (tool_json v, reg'))))))"
  unfolding buy_tool_def by (cases "confirmed"; cases "mc_sandbox c \<or> truthy (mc_account c) \<and> truthy (mc_private_key c)") (auto simp: run_simps)

text \<open>The purchase and its delivery ask for at most one signature.\<close>

lemma at_most_delivery:
  "at_most is_signature 1 (bindM (buy pf cl reg i l a None) (\<lambda>(result, reg').
     bindM (download_deliverables st c result model) (\<lambda>delivered.
     bindM (liftM (buy_summary result delivered)) (\<lambda>v. retM (tool_json v, reg')))))"
proof -
  have "at_most is_signature 0 (case x of (result, reg') \<Rightarrow> bindM (download_deliverables st c result model) (\<lambda>delivered.
     bindM (liftM (buy_summary result delivered)) (\<lambda>v. retM (tool_json v, reg'))))" for x :: "jsval \<times> registry"
    by (cases x) (auto intro!: emits_at_most emits_bindM download_quiet trace_rules)
  then have "at_most is_signature (1 + 0) (bindM (buy pf cl reg i l a None) (\<lambda>(result, reg').
     bindM (download_deliverables st c result model) (\<lambda>delivered.
     bindM (liftM (buy_summary result delivered)) (\<lambda>v. retM (tool_json v, reg')))))"
    by (rule at_most_bindM [OF buy_once])
  then show ?thesis by simp
qed

text \<open>The tool asks for a signature only when its limits allow the purchase of the model the marketplace
  served in this very call.\<close>

lemma buy_tool_within_limits:
  assumes "buy_tool pf st c cl reg model_id license asset confirmed s = (r, s')"
  shows "\<exists>evs. trace s' = trace s @ evs \<and> length (filter is_signature evs) \<le> 1 \<and>
    (\<forall>e \<in> set evs. is_signature e \<longrightarrow> (\<exists>model s1.
       get_model pf cl (Num (Fin (of_int model_id))) s = (Inr model, s1) \<and> within_limits c license confirmed model))"
proof (cases rule: buy_tool_cases [of pf st c cl reg model_id license asset confirmed s])
  case (1 t)
  then show ?thesis using assms by auto
next
  case 2
  obtain r1 s1 where g: "get_model pf cl (Num (Fin (of_int model_id))) s = (r1, s1)" by fastforce
  obtain evs where evs: "trace s1 = trace s @ evs" "\<forall>e \<in> set evs. \<not> is_signature e"
    by (rule emitsD [OF get_model_quiet g])
  then have none: "filter is_signature evs = []" by (simp add: filter_empty_conv)
  show ?thesis
  proof (cases "\<exists>model. r1 = Inr model \<and> choose_offer c model_id license model = Inr None")
    case True
    then obtain model where m: "r1 = Inr model" "choose_offer c model_id license model = Inr None" by blast
    have "within_limits c license confirmed model" by (rule choose_offer_None [OF m(2)]) (use 2 in auto)
    moreover have "bindM (buy pf cl reg (Num (Fin (of_int model_id))) (Str license) (optional_text asset) None) (\<lambda>(result, reg').
       bindM (download_deliverables st c result model) (\<lambda>delivered.
       bindM (liftM (buy_summary result delivered)) (\<lambda>v. retM (tool_json v, reg')))) s1 = (r, s')"
      using assms unfolding 2(3) by (simp only: bindM_step [where p = "get_model pf cl (Num (Fin (of_int model_id)))" and s = s, OF g [unfolded m(1)]] bindM_lift m(2) option.case)
    then obtain evs' where "trace s' = trace s1 @ evs'" "length (filter is_signature evs') \<le> 1"
      using at_most_delivery unfolding at_most_def by blast
    ultimately show ?thesis using evs none g m by (intro exI [of _ "evs @ evs'"]) auto
  next
    case False
    then have "s' = s1"
      using assms unfolding 2(3) by (auto simp: run_simps g split: sum.splits option.splits)
    then show ?thesis using evs none by auto
  qed
qed


section \<open>A concrete purchase\<close>

text \<open>A shop that lists an offer without a price and asks for HBAR in its challenge.\<close>

definition shop_model :: jsval where
  "shop_model = Obj [(js ''license_offers'', Arr [Obj [(js ''kind'', Str (js ''personal''))]])]"

definition shop_receipt :: jsval where
  "shop_receipt = Obj [(js ''license'', Obj [(js ''cert_id'', Str (js ''pw-1''))])]"

definition shop_challenge :: jsval where
  "shop_challenge = Obj [(js ''accepts'', Arr [hbar_offer])]"

definition shop_reply :: "http_request \<Rightarrow> nat \<times> jsval" where
  "shop_reply req = (if req_url req = js ''http://shop/api/v1/models/1'' then (200, shop_model)
     else if (js ''PAYMENT-SIGNATURE'', js ''x'') \<in> set (req_headers req) then (200, shop_receipt)
     else (402, shop_challenge))"

definition shop_platform :: "unit platform" where
  "shop_platform = self_platform\<lparr>p_fetch := (\<lambda>req w. (Inr \<lparr>res_status = fst (shop_reply req), res_headers = [],
     res_url = req_url req, res_text = Inr (emit (snd (shop_reply req)))\<rparr>, w))\<rparr>"

definition shop_config :: mcp_settings where
  "shop_config = \<lparr>mc_base = js ''http://shop'', mc_network = js ''testnet'', mc_sandbox = False, mc_download_dir = [],
     mc_account = Str (js ''0.0.7''), mc_private_key = Str (js ''k''), mc_cap = Fin 0\<rparr>"

definition no_storage :: "unit storage" where
  "no_storage = \<lparr>st_cwd = js ''/'', st_mkdir = \<lambda>d w. (Inr (), w), st_write = \<lambda>f bs w. (Inr (), w),
     st_fetch = \<lambda>u w. (Inr (200, []), w), st_pathname = \<lambda>u. u\<rparr>"

definition no_registry :: registry where
  "no_registry = \<lparr>reg_quotes = [], reg_batch_quotes = [], reg_next = 0\<rparr>"

lemma shop_plain: "json_plain shop_model" "json_plain shop_receipt" "json_plain shop_challenge"
  by (simp_all add: shop_model_def shop_receipt_def shop_challenge_def hbar_offer_def)

lemma shop_json: "json_plain v \<Longrightarrow> json_body \<lparr>res_status = n, res_headers = h, res_url = u, res_text = Inr (emit v)\<rparr> = Inr v"
  using emit_nonempty json_parse_emit by (simp add: json_body_def)

lemma shop_headers: "\<exists>c. payment_headers shop_platform self_client [] required hbar_offer s =
    (Inr [(js ''PAYMENT-SIGNATURE'', js ''x'')], note_event (Called create_call c) s)"
proof -
  have eta: "s\<lparr>net := (), trace := t\<rparr> = s\<lparr>trace := t\<rparr>" for t
    by (cases s) simp
  show ?thesis
    by (rule exI [of _ "[Str (js ''0.0.7''), Str (js ''k''), Str (js ''testnet''),
         restricted_challenge required hbar_offer]"])
      (simp add: eta payment_headers_def run_simps require_signer_def self_client_def hbar_offer_def signing_key_def
      self_platform_def shop_platform_def callM_def note_event_def)
qed

lemma shop_get: "get_model shop_platform self_client (jnum 1) empty_session =
    (Inr shop_model, note_event (Fetched (get_request (js ''http://shop/api/v1/models/1''))) empty_session)"
proof -
  have "integer_id (jnum 1) (js ''modelId'') = Inr 1" by (rule integer_id_nat) simp_all
  moreover have "dec_str 1 = js ''1''" by code_simp
  ultimately show ?thesis
    by (simp add: get_model_def get_api_def run_simps api_url_def shop_platform_def get_json_def get_json_from.simps
      get_json_once_def fetchM_def get_request_def shop_reply_def shop_json shop_plain res_ok_def note_event_def
      del: emit.simps flip: js_append)
qed

lemma shop_path: "js ''http://shop/'' @ sample_path \<noteq> js ''http://shop/api/v1/models/1''"
  by code_simp

lemma shop_buy: "\<exists>reg' s2. buy shop_platform self_client no_registry (jnum 1) (Str (js ''personal'')) Undef None s =
    (Inr (shop_receipt, reg'), s2) \<and> length (filter is_signature (trace s2)) = Suc (length (filter is_signature (trace s)))"
proof -
  let ?u = "js ''http://shop/'' @ sample_path"
  have p: "model_path 1 (Str (js ''personal'')) = Inr sample_path"
    by (simp add: sample_path_def model_path_def string_of_def)
  have u: "?u \<noteq> js ''http://shop/api/v1/models/1''" by (rule shop_path)
  have i: "integer_id (jnum 1) name = Inr 1" for name by (rule integer_id_nat) simp_all
  have a: "api_url shop_platform self_client path = Inr (js ''http://shop/'' @ path)" for path
    by (simp add: api_url_def shop_platform_def)
  have h: "(js ''PAYMENT-SIGNATURE'', js ''x'') \<notin> set (accept_json @ sandbox_header self_client)"
    by (simp add: accept_json_def sandbox_header_def self_client_def)
  have f: "fetchM (p_fetch shop_platform) req s = (Inr \<lparr>res_status = fst (shop_reply req), res_headers = [],
     res_url = req_url req, res_text = Inr (emit (snd (shop_reply req)))\<rparr>, note_event (Fetched req) s)" for req s
    by (simp add: fetchM_def shop_platform_def note_event_def)
  have sel: "select_asset shop_challenge Undef n = Inr hbar_offer" for n
    by (simp add: select_asset_def wanted_asset_def object_asset_def get_prop_def nullish_def hbar_offer_def shop_challenge_def)
  have c: "read_challenge self_client w Undef \<lparr>res_status = 402, res_headers = [], res_url = v,
      res_text = Inr (emit shop_challenge)\<rparr> = Inr (shop_challenge, hbar_offer, False)" for w v
    by (simp add: read_challenge_def shop_json shop_plain self_client_def sel) (simp add: shop_challenge_def)
  let ?q = "\<lparr>q_ref = 0, q_model_id = 1, q_license = Str (js ''personal''), q_resource_url = ?u,
     q_required = shop_challenge, q_accepted = hbar_offer, q_sandbox = False, q_headers = []\<rparr>"
  let ?reg = "\<lparr>reg_quotes = [?q], reg_batch_quotes = [], reg_next = 1\<rparr>"
  obtain s1 where q: "quote_op shop_platform self_client no_registry (jnum 1) (Str (js ''personal'')) Undef s = (Inr (?q, ?reg), s1)"
    "filter is_signature (trace s1) = filter is_signature (trace s)"
    by (rule that [of "note_event (Fetched \<lparr>req_method = js ''GET'', req_url = ?u,
         req_headers = accept_json @ sandbox_header self_client, req_body = None\<rparr>) s"])
      (use u h in \<open>simp_all add: quote_op_def run_simps i [simplified] p [simplified] a f shop_reply_def c no_registry_def Let_def note_event_def\<close>)
  have v: "validate_quote shop_platform self_client ?reg ?q = Inr ()"
    using i p [simplified] a by (simp add: validate_quote_def offered_def get_prop_def nullish_def shop_challenge_def)
  obtain cs where hd: "payment_headers shop_platform self_client [] shop_challenge hbar_offer s1 =
    (Inr [(js ''PAYMENT-SIGNATURE'', js ''x'')], note_event (Called create_call cs) s1)"
    using shop_headers by blast
  show ?thesis
    using u by (simp add: buy_def run_simps q [simplified] pay_quote_def v [simplified] hd f shop_reply_def shop_json shop_plain body_if_ok_def res_ok_def note_event_def)
qed

lemma shop_purchase: "\<exists>reg' s2 r. buy_tool shop_platform no_storage (shop_config\<lparr>mc_cap := cap\<rparr>) self_client no_registry 1 (js ''personal'') None True empty_session =
    (Inr (r, reg'), s2) \<and> length (filter is_signature (trace s2)) = 1"
proof -
  obtain reg' s2 where b: "buy shop_platform self_client no_registry (jnum 1) (Str (js ''personal'')) Undef None
      (note_event (Fetched (get_request (js ''http://shop/api/v1/models/1''))) empty_session) = (Inr (shop_receipt, reg'), s2)"
    "length (filter is_signature (trace s2)) = 1"
    using shop_buy [of "note_event (Fetched (get_request (js ''http://shop/api/v1/models/1''))) empty_session"]
    by (auto simp: note_event_def empty_session_def)
  have "choose_offer c 1 (js ''personal'') shop_model = Inr None" for c
    by (simp add: choose_offer_def shop_model_def get_prop_def nullish_def over_cap_def)
  then show ?thesis
    using b by (simp add: buy_tool_def run_simps shop_get [simplified] shop_config_def optional_text_def
      download_deliverables_def buy_summary_def get_prop_def nullish_def shop_receipt_def)
qed


section \<open>Where the delivery writes\<close>

abbreviation slash :: "16 word" where
  "slash \<equiv> jc (CHR ''/'')"

lemma path_marks: "slash = 47" "jc (CHR ''.'') = 46"
  by (simp_all add: jc_def)

lemma split_on_absent: "c \<notin> set s \<Longrightarrow> split_on c s = [s]"
  by (induction s) auto

lemma split_on_append: "split_on c (a @ c # b) = split_on c a @ split_on c b"
  by (induction a) (auto split: list.splits)

lemma normal_parts_append: "normal_parts acc (ps @ qs) = normal_parts (rev (normal_parts acc ps)) qs"
  by (induction acc ps rule: normal_parts.induct) auto

text \<open>A name that stays where it is put: not empty, no separator, and not a step to a directory.\<close>

definition plain_name :: "jsstr \<Rightarrow> bool" where
  "plain_name s = (s \<noteq> [] \<and> slash \<notin> set s \<and> s \<noteq> js ''.'' \<and> s \<noteq> js ''..'')"

lemma path_join_plain: "plain_name name \<Longrightarrow> path_join dir name = dir @ [name]"
  by (simp add: path_join_def plain_name_def split_on_absent)

lemma not_absolute: "slash \<notin> set s \<Longrightarrow> \<not> absolute s"
  by (cases s) (auto simp: absolute_def starts_with_def js_def path_marks)

lemma path_resolve_plain:
  assumes "plain_name name"
  shows "path_resolve cwd dir name = path_resolve cwd dir [] @ [name]"
proof -
  have "path_parts (d @ js ''/'' @ name) = path_parts (d @ js ''/'' @ []) @ [name]" for d
    using assms
    by (simp add: path_parts_def split_on_append split_on_absent normal_parts_append plain_name_def js_def path_marks)
  moreover have "\<not> absolute name" "\<not> absolute []"
    using assms not_absolute by (auto simp: plain_name_def)
  ultimately show ?thesis
    by (simp add: path_resolve_def flip: append_assoc)
qed

text \<open>The part of a path before any character that the test rejects.\<close>

lemma plain_name_append:
  assumes "a \<noteq> []" "slash \<notin> set (a @ b)" "jc (CHR ''.'') \<notin> set a"
  shows "plain_name (a @ b)"
  using assms by (cases a) (auto simp: plain_name_def js_def path_marks)

definition tidy :: "jsstr \<Rightarrow> bool" where
  "tidy s = (s \<noteq> [] \<and> slash \<notin> set s \<and> jc (CHR ''.'') \<notin> set s)"

lemma tidy_plain: "tidy s \<Longrightarrow> plain_name s"
  using plain_name_append [of s "[]"] by (simp add: tidy_def)

text \<open>The catalogue data the names are made of: the slug of the model and the kinds of the files.\<close>

definition tidy_delivery :: "jsval \<Rightarrow> jsval \<Rightarrow> jsstr \<Rightarrow> bool" where
  "tidy_delivery result model cert_id = (tidy cert_id \<and>
     (\<forall>slug. string_of (opt_prop model (js ''slug'')) = Inr slug \<longrightarrow> tidy slug) \<and>
     (\<forall>fs v ext. opt_prop result (js ''files'') = Arr fs \<longrightarrow> v \<in> set fs \<longrightarrow>
        string_of (opt_prop v (js ''kind'')) = Inr ext \<longrightarrow> slash \<notin> set ext))"

lemma dec_str_no_slash: "slash \<notin> set (dec_str n)"
  using dec_str_digits [of n] by (auto simp: list_all_iff is_digit_def path_marks)

lemma delivery_name_plain:
  assumes "delivery_name result model cert_id name" "tidy_delivery result model cert_id"
  shows "plain_name name"
  using assms(1)
proof cases
  case (part slug fs v i)
  have fs: "opt_prop result (js ''files'') = Arr fs"
    using part(2,3) by (auto simp: or_else_def listed_Inr split: if_splits)
  have slug: "slug \<noteq> []" "slash \<notin> set slug" "jc (CHR ''.'') \<notin> set slug"
    using assms(2) part(1) by (auto simp: tidy_delivery_def tidy_def)
  have "slash \<notin> set ext" if "string_of (opt_prop v (js ''kind'')) = Inr ext" for ext
    using assms(2) fs part(3) that by (auto simp: tidy_delivery_def)
  moreover have "slash \<notin> set (js ''json'')" by (simp add: js_def path_marks)
  ultimately obtain ext where "slash \<notin> set ext"
    "name = slug @ (if 0 < i then js ''-part'' @ dec_str (i + 1) else []) @ js ''.'' @ ext"
    using part(4) by (auto simp: file_name_def get_prop_Inr split: if_splits)
  then show ?thesis
    using slug dec_str_no_slash [of "i + 1"] by (auto intro!: plain_name_append simp: js_def path_marks)
next
  case certificate
  have "plain_name (js ''printwright-certificate-'' @ (cert_id @ js ''.pdf''))"
    using assms(2) by (intro plain_name_append) (auto simp: tidy_delivery_def tidy_def js_def path_marks)
  then show ?thesis by (simp add: certificate)
next
  case proof_bundle
  then show ?thesis by (simp add: plain_name_def js_def path_marks)
next
  case (package slug)
  then show ?thesis
    using assms(2) by (auto intro!: plain_name_append simp: tidy_delivery_def tidy_def js_def path_marks)
qed

text \<open>C29. Where a purchase writes: only files with one of the delivery's names, in the directory that the
  certificate id names relative to the download directory. If the id, the slug and the file kinds
  are plain, every file is in a subdirectory of the download directory. Nothing checks that they
  are: an absolute certificate id, which the marketplace chooses, is taken as the directory itself.\<close>

theorem delivery_writes:
  assumes "download_deliverables st c result model s = (r, s')"
    and "opt_prop (opt_prop result (js ''license'')) (js ''cert_id'') = Str cert_id"
  shows "\<exists>evs. trace s' = trace s @ evs \<and>
    (\<forall>path. Called written_call [Arr (map Str path)] \<in> set evs \<longrightarrow>
      (\<exists>name. delivery_name result model cert_id name \<and>
         path = path_join (path_resolve (st_cwd st) (mc_download_dir c) cert_id) name \<and>
         (tidy_delivery result model cert_id \<longrightarrow>
            path = path_resolve (st_cwd st) (mc_download_dir c) [] @ [cert_id, name]) \<and>
         (absolute cert_id \<longrightarrow> path = path_join (path_parts cert_id) name)))"
proof -
  let ?P = "\<lambda>e. \<forall>path. e = Called written_call [Arr (map Str path)] \<longrightarrow> (\<exists>name. delivery_name result model cert_id name \<and>
     path = path_join (path_resolve (st_cwd st) (mc_download_dir c) cert_id) name)"
  have inj: "map Str p = map Str q \<Longrightarrow> p = q" for p q
    by (rule injD [OF inj_mapI [of Str]]) (simp add: inj_def)
  have "emits ?P (download_deliverables st c result model)"
    using assms(2) inj by (intro emits_download) (simp_all add: written_call_def, metis)
  then obtain evs where evs: "trace s' = trace s @ evs" "\<forall>e \<in> set evs. ?P e"
    using assms(1) by (rule emitsD)
  have tidy: "path_join (path_resolve (st_cwd st) (mc_download_dir c) cert_id) name =
      path_resolve (st_cwd st) (mc_download_dir c) [] @ [cert_id, name]"
    if "delivery_name result model cert_id name" "tidy_delivery result model cert_id" for name
    using path_join_plain [OF delivery_name_plain [OF that]] path_resolve_plain [of cert_id] tidy_plain [of cert_id] that(2)
    by (simp add: tidy_delivery_def)
  show ?thesis
    using evs tidy by (intro exI [of _ evs]) (fastforce simp: path_resolve_def)
qed

definition saving_config :: mcp_settings where
  "saving_config = shop_config\<lparr>mc_download_dir := js ''/tmp/licences''\<rparr>"

definition hostile_receipt :: jsval where
  "hostile_receipt = Obj [(js ''license'', Obj [(js ''cert_id'', Str (js ''/etc''))]),
     (js ''proof_bundle'', Obj [])]"

theorem delivery_writes_witness:
  "\<exists>r s'. download_deliverables no_storage saving_config hostile_receipt (Obj [(js ''slug'', Str (js ''hat''))]) empty_session = (r, s') \<and>
     (\<forall>path. Called written_call [Arr (map Str path)] \<in> set (trace s') \<longrightarrow> (\<exists>name. path = path_join [js ''etc''] name))"
proof -
  obtain r s' where d: "download_deliverables no_storage saving_config hostile_receipt (Obj [(js ''slug'', Str (js ''hat''))]) empty_session = (r, s')"
    by fastforce
  have "absolute (js ''/etc'')" "path_parts (js ''/etc'') = [js ''etc'']" by code_simp+
  then show ?thesis
    using delivery_writes [OF d, of "js ''/etc''"] d by (auto simp: hostile_receipt_def empty_session_def)
qed

end
