(* ===== verification/McpTools.thy ===== *)
theory McpTools
  imports Mcp
begin

text \<open>
  The registration of the MCP server's tools (\<open>mcp/server.mjs\<close>): their input schemas, and the
  handler each runs on the arguments its schema lets through. The validator of the schema library
  (zod) is a parameter: a function that refuses the arguments of a call or returns the object the
  handler destructures. All that is used of it is \<open>zod_like\<close>, that what it returns has the types of
  the schema. The lemmas show that the handlers never meet other arguments, and that of all tools
  only \<open>buy_license\<close> can ask for a signature.
\<close>

section \<open>Schemas\<close>

text \<open>The schema constructors the server uses: \<open>z.string()\<close>, \<open>z.number().int()\<close>, \<open>.positive()\<close>,
  \<open>.max(n)\<close>, \<open>z.boolean()\<close>, \<open>z.enum\<close>, \<open>.optional()\<close> and \<open>.default(v)\<close>.\<close>

datatype schema =
    ZString
  | ZInt
  | ZPositive schema
  | ZMax jsnum schema
  | ZBoolean
  | ZEnum "jsstr list"
  | ZOptional schema
  | ZDefault jsval schema

type_synonym shape = "(jsstr \<times> schema) list"

datatype tool =
    Search_Models
  | Get_Model
  | Buy_License
  | Check_License
  | Verify_Certificate
  | Get_Latest_Version

definition license_kinds :: "jsstr list" where
  "license_kinds = [js ''personal'', js ''commercial_unit'']"

definition asset_names :: "jsstr list" where
  "asset_names = [js ''usdc'', js ''hbar'']"

definition license_uses :: "jsstr list" where
  "license_uses = [js ''personal_print'', js ''commercial_print'', js ''resell_files'', js ''share_files'',
     js ''personal_remix'', js ''commercial_remix'', js ''transfer_license'', js ''sublicense'']"

text \<open>What the server tells the agent about buying depends on its configuration: the description of
  \<open>buy_license\<close>, the hint at its \<open>confirm\<close>, and the line printed when it is ready.\<close>

definition buy_description :: "jsstr \<Rightarrow> mcp_settings \<Rightarrow> jsstr" where
  "buy_description cwd c = js ''Buy a print license for a model via x402. '' @
     (if mc_sandbox c then js ''SANDBOX MODE: NO FUNDS MOVE AND NO REAL LICENSE IS ISSUED. ''
      else js ''THIS SPENDS REAL HEDERA TESTNET FUNDS. '') @
     js ''Capped at MAX_SPEND_CENTS='' @ num_str (mc_cap c) @ js ''. Requires confirm: true. '' @
     (if mc_sandbox c then js ''Returns a fake receipt and locally verifiable sandbox certificate.''
      else js ''Returns the file download URLs, certificate id and exact Mirror Node transaction link (commercial per-unit licenses also carry a unit serial; personal licenses never do). '') @
     (if mc_download_dir c = [] then []
      else js ''Also saves the printable files, certificate PDF, proof bundle and complete ZIP under '' @
        path_text (path_resolve cwd (mc_download_dir c) []) @ js '' and lists them in local_files.'')"

definition confirm_hint :: "mcp_settings \<Rightarrow> jsstr" where
  "confirm_hint c = js ''must be exactly true'' @ em_dash @
     (if mc_sandbox c then js ''confirms this zero-fund simulation'' else js ''this authorizes a real spend'')"

definition ready_line :: "mcp_settings \<Rightarrow> jsstr" where
  "ready_line c = js ''printwright mcp server ready (marketplace: '' @ mc_base c @ js '', spend cap: '' @
     num_str (mc_cap c) @ js ''c, mode: '' @
     (if mc_sandbox c then js ''SANDBOX'' @ em_dash @ js ''NO FUNDS'' else js ''real payment'') @ js '')''"

text \<open>The registrations. The hints at the fields (\<open>.describe\<close>) do not change what a schema accepts.\<close>

record registration =
  rg_name :: jsstr
  rg_description :: jsstr
  rg_shape :: shape

definition search_registration :: registration where
  "search_registration = \<lparr>rg_name = js ''search_models'',
     rg_description = js ''Search the Printwright catalog of licensed 3D-printable models. '' @
       js ''Returns id, title, prices in USD cents, and printability facts.'',
     rg_shape = [(js ''query'', ZString), (js ''max_price_cents'', ZOptional ZInt),
       (js ''material'', ZOptional ZString), (js ''supports'', ZOptional ZBoolean)]\<rparr>"

definition model_registration :: registration where
  "model_registration = \<lparr>rg_name = js ''get_model'',
     rg_description = js ''Full metadata for one model: description, tags, file hash, license offers with terms.'',
     rg_shape = [(js ''id'', ZInt)]\<rparr>"

definition buy_registration :: "jsstr \<Rightarrow> mcp_settings \<Rightarrow> registration" where
  "buy_registration cwd c = \<lparr>rg_name = js ''buy_license'', rg_description = buy_description cwd c,
     rg_shape = [(js ''model_id'', ZInt), (js ''license'', ZDefault (Str (js ''personal'')) (ZEnum license_kinds)),
       (js ''asset'', ZOptional (ZEnum asset_names)), (js ''confirm'', ZBoolean)]\<rparr>"

definition check_registration :: registration where
  "check_registration = \<lparr>rg_name = js ''check_license'',
     rg_description = js ''Answer whether one certificate permits a specific use and quantity from '' @
       js ''Printwright's structured interpretation of its anchored license terms. No payment credentials needed.'',
     rg_shape = [(js ''cert_id'', ZString), (js ''use'', ZEnum license_uses),
       (js ''qty'', ZDefault (jnum 1) (ZMax (Fin 1000000) (ZPositive ZInt)))]\<rparr>"

definition verify_registration :: registration where
  "verify_registration = \<lparr>rg_name = js ''verify_certificate'',
     rg_description = js ''Verify a license certificate: recomputes the commitment from the revealed '' @
       js ''certificate and checks it against the HCS message on the public mirror node (or the '' @
       js ''explicitly local sandbox message), returning the proof bundle plus match: true/false.'',
     rg_shape = [(js ''cert_id'', ZString)]\<rparr>"

definition latest_registration :: registration where
  "latest_registration = \<lparr>rg_name = js ''get_latest_version'',
     rg_description = js ''Check the newest printable file available to a paid x402 license holder. '' @
       js ''Requires the model_updates receipt_token returned by buy_license; reports the original '' @
       js ''certified hash, latest file hash, changelog, HCS anchor, and authenticated download endpoint.'',
     rg_shape = [(js ''cert_id'', ZString), (js ''receipt_token'', ZString)]\<rparr>"

definition registered :: "jsstr \<Rightarrow> mcp_settings \<Rightarrow> tool \<Rightarrow> registration" where
  "registered cwd c t = (case t of
     Search_Models \<Rightarrow> search_registration
   | Get_Model \<Rightarrow> model_registration
   | Buy_License \<Rightarrow> buy_registration cwd c
   | Check_License \<Rightarrow> check_registration
   | Verify_Certificate \<Rightarrow> verify_registration
   | Get_Latest_Version \<Rightarrow> latest_registration)"

lemmas registrations = registered_def search_registration_def model_registration_def buy_registration_def
  check_registration_def verify_registration_def latest_registration_def

text \<open>The values a schema can return.\<close>

primrec has_type :: "schema \<Rightarrow> jsval \<Rightarrow> bool" where
  "has_type ZString v = (case v of Str s \<Rightarrow> True | _ \<Rightarrow> False)"
| "has_type ZInt v = (case v of Num n \<Rightarrow> is_safe_integer n | _ \<Rightarrow> False)"
| "has_type (ZPositive s) v = (has_type s v \<and> (case v of Num n \<Rightarrow> num_lt (Fin 0) n | _ \<Rightarrow> False))"
| "has_type (ZMax m s) v = (has_type s v \<and> (case v of Num n \<Rightarrow> \<not> num_lt m n | _ \<Rightarrow> False))"
| "has_type ZBoolean v = (case v of Bool b \<Rightarrow> True | _ \<Rightarrow> False)"
| "has_type (ZEnum xs) v = (case v of Str s \<Rightarrow> s \<in> set xs | _ \<Rightarrow> False)"
| "has_type (ZOptional s) v = (v = Undef \<or> has_type s v)"
| "has_type (ZDefault d s) v = (v = d \<or> has_type s v)"

type_synonym validator = "shape \<Rightarrow> jsval \<Rightarrow> jsval option"

definition zod_like :: "validator \<Rightarrow> bool" where
  "zod_like z = (\<forall>shape args out. distinct (map fst shape) \<longrightarrow> z shape args = Some out \<longrightarrow>
     (\<forall>(k, s) \<in> set shape. has_type s (opt_prop out k)))"

section \<open>The calls of the tools\<close>

datatype tool_call =
    Search jsstr jsval "jsstr option" jsval
  | Get int
  | Buy int jsstr "jsstr option" bool
  | Check jsstr jsstr nat
  | Verify jsstr
  | Latest jsstr jsstr

fun as_text :: "jsval \<Rightarrow> jsstr option" where
  "as_text (Str s) = Some s"
| "as_text _ = None"

fun as_optional_text :: "jsval \<Rightarrow> jsstr option option" where
  "as_optional_text (Str s) = Some (Some s)"
| "as_optional_text Undef = Some None"
| "as_optional_text _ = None"

fun as_whole :: "jsval \<Rightarrow> int option" where
  "as_whole (Num (Fin q)) = (if rat_is_int q then Some \<lfloor>q\<rfloor> else None)"
| "as_whole _ = None"

fun as_flag :: "jsval \<Rightarrow> bool option" where
  "as_flag (Bool b) = Some b"
| "as_flag _ = None"

text \<open>The parameters of the handlers, read from the validated arguments. There is no call when they are
  not of the types the handlers are written for.\<close>

definition tool_call_of :: "tool \<Rightarrow> jsval \<Rightarrow> tool_call option" where
  "tool_call_of t v = (case t of
     Search_Models \<Rightarrow> Option.bind (as_text (opt_prop v (js ''query''))) (\<lambda>q.
       Option.bind (as_optional_text (opt_prop v (js ''material''))) (\<lambda>m.
         Some (Search q (opt_prop v (js ''max_price_cents'')) m (opt_prop v (js ''supports'')))))
   | Get_Model \<Rightarrow> map_option Get (as_whole (opt_prop v (js ''id'')))
   | Buy_License \<Rightarrow> Option.bind (as_whole (opt_prop v (js ''model_id''))) (\<lambda>i.
       Option.bind (as_text (opt_prop v (js ''license''))) (\<lambda>l.
       Option.bind (as_optional_text (opt_prop v (js ''asset''))) (\<lambda>a.
         map_option (Buy i l a) (as_flag (opt_prop v (js ''confirm''))))))
   | Check_License \<Rightarrow> Option.bind (as_text (opt_prop v (js ''cert_id''))) (\<lambda>c.
       Option.bind (as_text (opt_prop v (js ''use''))) (\<lambda>u.
       Option.bind (as_whole (opt_prop v (js ''qty''))) (\<lambda>n.
         if 0 \<le> n then Some (Check c u (nat n)) else None)))
   | Verify_Certificate \<Rightarrow> map_option Verify (as_text (opt_prop v (js ''cert_id'')))
   | Get_Latest_Version \<Rightarrow> Option.bind (as_text (opt_prop v (js ''cert_id''))) (\<lambda>c.
         map_option (Latest c) (as_text (opt_prop v (js ''receipt_token'')))))"

text \<open>The handler a tool is registered with.\<close>

definition run_tool ::
  "'w platform \<Rightarrow> 'w storage \<Rightarrow> mcp_settings \<Rightarrow> client \<Rightarrow> registry \<Rightarrow> tool_call \<Rightarrow> ('w, tool_result \<times> registry) prog" where
  "run_tool pf st c cl reg call = (case call of
     Search q p m s \<Rightarrow> bindM (search_tool pf cl q p m s) (\<lambda>r. retM (r, reg))
   | Get i \<Rightarrow> bindM (model_tool pf cl i) (\<lambda>r. retM (r, reg))
   | Buy i l a confirmed \<Rightarrow> buy_tool pf st c cl reg i l a confirmed
   | Check i u n \<Rightarrow> bindM (check_tool pf cl i u n) (\<lambda>r. retM (r, reg))
   | Verify i \<Rightarrow> bindM (verify_tool pf cl i) (\<lambda>r. retM (r, reg))
   | Latest i token \<Rightarrow> bindM (latest_version_tool pf cl i token) (\<lambda>r. retM (r, reg)))"

definition all_tools :: "tool list" where
  "all_tools = [Search_Models, Get_Model, Buy_License, Check_License, Verify_Certificate, Get_Latest_Version]"

text \<open>A call of a tool by its name: no handler runs for an unknown name, or on arguments the validator
  refuses.\<close>

definition call_tool ::
  "validator \<Rightarrow> 'w platform \<Rightarrow> 'w storage \<Rightarrow> mcp_settings \<Rightarrow> client \<Rightarrow> registry \<Rightarrow> jsstr \<Rightarrow> jsval \<Rightarrow>
     ('w, (tool_result \<times> registry) option) prog" where
  "call_tool z pf st c cl reg called args =
     (case Option.bind (List.find (\<lambda>t. rg_name (registered (st_cwd st) c t) = called) all_tools) (\<lambda>t.
         Option.bind (z (rg_shape (registered (st_cwd st) c t)) args) (tool_call_of t)) of
       None \<Rightarrow> retM None
     | Some call \<Rightarrow> bindM (run_tool pf st c cl reg call) (\<lambda>r. retM (Some r)))"

section \<open>The types of the calls\<close>

definition well_typed :: "tool_call \<Rightarrow> bool" where
  "well_typed call = (case call of
     Search q p m s \<Rightarrow> (p = Undef \<or> (\<exists>i. p = Num (Fin (of_int i)) \<and> safe_int i)) \<and> (s = Undef \<or> (\<exists>b. s = Bool b))
   | Get i \<Rightarrow> safe_int i
   | Buy i l a confirmed \<Rightarrow> safe_int i \<and> l \<in> set license_kinds \<and> set_option a \<subseteq> set asset_names
   | Check c u n \<Rightarrow> u \<in> set license_uses \<and> 1 \<le> n \<and> n \<le> 1000000
   | _ \<Rightarrow> True)"

lemma zod_likeD:
  "zod_like z \<Longrightarrow> z shape args = Some out \<Longrightarrow> distinct (map fst shape) \<Longrightarrow> (k, s) \<in> set shape \<Longrightarrow> has_type s (opt_prop out k)"
  unfolding zod_like_def by fast

lemma shape_distinct: "distinct (map fst (rg_shape (registered cwd c t)))"
  by (cases t) (simp_all add: registrations js_eval)

lemma typed_text: "has_type ZString v \<longleftrightarrow> (\<exists>s. v = Str s)"
  by (cases v) auto

lemma typed_flag: "has_type ZBoolean v \<longleftrightarrow> (\<exists>b. v = Bool b)"
  by (cases v) auto

lemma typed_enum: "has_type (ZEnum xs) v \<longleftrightarrow> (\<exists>s \<in> set xs. v = Str s)"
  by (cases v) auto

lemma typed_whole: "has_type ZInt v \<longleftrightarrow> (\<exists>i. v = Num (Fin (of_int i)) \<and> safe_int i)"
proof
  assume "has_type ZInt v"
  then obtain n where "v = Num n" "is_safe_integer n" by (auto split: jsval.splits)
  then show "\<exists>i. v = Num (Fin (of_int i)) \<and> safe_int i" by (auto elim: safe_integerE)
next
  assume "\<exists>i. v = Num (Fin (of_int i)) \<and> safe_int i"
  then obtain i where i: "v = Num (Fin (of_int i))" "safe_int i" by blast
  have "of_int \<bar>i\<bar> < (of_int 9007199254740992 :: rat)"
    using i(2) unfolding of_int_less_iff by (simp add: safe_int_def)
  then show "has_type ZInt v" by (simp add: i(1) rat_is_int_def)
qed

lemma rat_is_int_whole [simp]: "rat_is_int (of_int i)" "rat_is_int (of_nat n)"
  by (simp_all add: rat_is_int_def)

lemma as_whole_nat [simp]: "as_whole (jnum n) = Some (int n)"
  by simp

lemmas typed_values = typed_text typed_flag typed_enum typed_whole

text \<open>What the validator lets through, tool by tool.\<close>

lemma typed_quantity:
  assumes "has_type (ZDefault (jnum 1) (ZMax (Fin 1000000) (ZPositive ZInt))) v"
  obtains n where "v = jnum n" "1 \<le> n" "n \<le> 1000000"
proof (cases "v = jnum 1")
  case False
  then obtain i where i: "v = Num (Fin (of_int i))" "\<not> num_lt (Fin 1000000) (Fin (of_int i))" "num_lt (Fin 0) (Fin (of_int i))"
    using assms by (auto simp: typed_whole simp del: has_type.simps(2) num_lt.simps)
  then have "0 < i" "i \<le> 1000000" by simp_all
  then show ?thesis using that [of "nat i"] i(1) by (simp add: nat_le_iff)
qed (use that in simp)

lemma accepted:
  assumes "zod_like z" "z (rg_shape (registered cwd c t)) args = Some out"
  shows "\<forall>(k, s) \<in> set (rg_shape (registered cwd c t)). has_type s (opt_prop out k)"
  using zod_likeD [OF assms shape_distinct] by auto

lemma typed_call:
  assumes "\<forall>(k, s) \<in> set (rg_shape (registered cwd c t)). has_type s (opt_prop out k)"
  shows "\<exists>call. tool_call_of t out = Some call \<and> well_typed call"
proof (cases t)
  case Check_License
  then have "has_type (ZDefault (jnum 1) (ZMax (Fin 1000000) (ZPositive ZInt))) (opt_prop out (js ''qty''))"
    using assms by (simp add: registrations del: has_type.simps)
  then obtain n where "opt_prop out (js ''qty'') = jnum n" "1 \<le> n" "n \<le> 1000000" by (rule typed_quantity)
  then show ?thesis
    using assms Check_License
    by (auto simp: registrations tool_call_of_def well_typed_def typed_values simp del: has_type.simps as_whole.simps)
qed (use assms in \<open>auto simp: registrations tool_call_of_def well_typed_def typed_values license_kinds_def simp del: has_type.simps(1-6)\<close>)

lemma uses_not_blank: "u \<in> set license_uses \<Longrightarrow> js_trim u \<noteq> []"
proof -
  have "list_all (\<lambda>u. js_trim u \<noteq> []) license_uses" by code_simp
  then show "u \<in> set license_uses \<Longrightarrow> js_trim u \<noteq> []" by (simp add: list_all_iff)
qed

lemma can_path_typed:
  assumes "well_typed (Check c u n)" "js_trim c \<noteq> []" "encode_component c = Inr e"
  shows "can_path (Str c) (Str u) (jnum n) =
    Inr (js ''api/v1/licenses/'' @ e @ js ''/can?'' @ search_params [(js ''use'', u), (js ''qty'', dec_str n)])"
proof -
  have n: "positive_integer (jnum n)" "string_of (jnum n) = Inr (dec_str n)"
    using assms(1) by (simp_all add: well_typed_def string_of_def)
  have "required_text (Str c) ''certId'' = Inr c" using assms(2) by (simp add: required_text_Inr)
  moreover have "required_text (Str u) ''use'' = Inr u"
    using assms(1) unfolding required_text_Inr by (auto simp: well_typed_def dest: uses_not_blank)
  ultimately show ?thesis
    unfolding can_path_def using n assms(3) by simp
qed

section \<open>A validator\<close>

text \<open>The documented behaviour of the schemas on plain values: a missing value of a schema with a default
  is the default, anything else is returned as it is when it has the type. Keys that are not in the
  schema are dropped.\<close>

fun validate :: "schema \<Rightarrow> jsval \<Rightarrow> jsval option" where
  "validate (ZDefault d s) v = (if v = Undef then Some d else validate s v)"
| "validate s v = (if has_type s v then Some v else None)"

definition plain_zod :: validator where
  "plain_zod shape args = (if list_all (\<lambda>(k, s). validate s (opt_prop args k) \<noteq> None) shape
     then Some (Obj (map (\<lambda>(k, s). (k, the (validate s (opt_prop args k)))) shape)) else None)"

lemma validate_typed: "validate s v = Some w \<Longrightarrow> has_type s w"
  by (induction s v rule: validate.induct) (auto split: if_splits)

lemma plain_zod_like: "zod_like plain_zod"
  unfolding zod_like_def
proof (intro allI impI)
  fix shape args out
  assume d: "distinct (map fst (shape :: shape))" and z: "plain_zod shape args = Some out"
  show "\<forall>(k, s) \<in> set shape. has_type s (opt_prop out k)"
  proof clarify
    fix k s assume k: "(k, s) \<in> set shape"
    then have "validate s (opt_prop args k) \<noteq> None"
      using z by (auto simp: plain_zod_def list_all_iff split: if_splits)
    then obtain w where w: "validate s (opt_prop args k) = Some w" by blast
    have "map_of (map (\<lambda>(k, s). (k, the (validate s (opt_prop args k)))) shape) k = Some w"
      using k w d by (intro map_of_is_SomeI) (auto simp: comp_def case_prod_beta image_iff intro!: bexI [of _ "(k, s)"])
    then show "has_type s (opt_prop out k)"
      using z validate_typed [OF w] by (auto simp: plain_zod_def pget_def split: if_splits)
  qed
qed

section \<open>Which tool can sign\<close>

lemma quiet_tools:
  "emits (\<lambda>e. \<not> is_signature e) (search_tool pf cl q p m f)"
  "emits (\<lambda>e. \<not> is_signature e) (model_tool pf cl i)"
  "emits (\<lambda>e. \<not> is_signature e) (check_tool pf cl c u n)"
  "emits (\<lambda>e. \<not> is_signature e) (verify_tool pf cl c)"
  "emits (\<lambda>e. \<not> is_signature e) (latest_version_tool pf cl c token)"
  unfolding search_tool_def model_tool_def check_tool_def verify_tool_def latest_version_tool_def
  by (intro emits_bindM trace_rules quiet_search get_model_quiet quiet_can quiet_client_verify quiet_latest_version)+

lemma quiet_run_tool:
  "(\<And>i l a b. call \<noteq> Buy i l a b) \<Longrightarrow> emits (\<lambda>e. \<not> is_signature e) (run_tool pf st c cl reg call)"
  unfolding run_tool_def by (cases call) (auto intro!: emits_bindM trace_rules quiet_tools)

text \<open>C27. Type safety of the tools: whatever a client sends, arguments the validator lets through are a call of
  the tool on the types its handler is written for. A license is one of the two kinds, an asset one of
  the two names, ids are safe integers, and a quantity is a whole number from 1 to a million; so the
  question check_license asks the marketplace never fails on its use or quantity, only on a blank
  certificate id or one that is not text that can be encoded.\<close>

theorem accepted_calls_typed:
  assumes "zod_like z" "z (rg_shape (registered cwd c t)) args = Some out"
  shows "\<exists>call. tool_call_of t out = Some call \<and> well_typed call \<and>
    (\<forall>c u n e. call = Check c u n \<longrightarrow> js_trim c \<noteq> [] \<longrightarrow> encode_component c = Inr e \<longrightarrow>
      can_path (Str c) (Str u) (jnum n) =
        Inr (js ''api/v1/licenses/'' @ e @ js ''/can?'' @ search_params [(js ''use'', u), (js ''qty'', dec_str n)]))"
  using typed_call [OF accepted [OF assms]] can_path_typed by blast

lemma tool_named:
  "List.find (\<lambda>t. rg_name (registered cwd c t) = called) all_tools = Some t \<Longrightarrow> rg_name (registered cwd c t) = called"
  by (auto simp: find_Some_iff)

text \<open>C26. Of all the tools only buy_license asks for a signature, and one call for at most one: when the
  arguments its schema let through confirm the purchase, credentials are configured (or it is a
  rehearsal), and the model the marketplace served in this very call has an offer of the license asked
  for, one of the two kinds, whose listed price is not over the spend cap.\<close>

theorem only_buying_signs:
  assumes "zod_like z" "call_tool z pf st c cl reg called args s = (r, s')"
  shows "\<exists>evs. trace s' = trace s @ evs \<and> length (filter is_signature evs) \<le> 1 \<and>
    (\<forall>e \<in> set evs. is_signature e \<longrightarrow> called = js ''buy_license'' \<and> (\<exists>out i l model s1.
       z (rg_shape (registered (st_cwd st) c Buy_License)) args = Some out \<and> opt_prop out (js ''confirm'') = Bool True \<and>
       opt_prop out (js ''license'') = Str l \<and> l \<in> set license_kinds \<and>
       as_whole (opt_prop out (js ''model_id'')) = Some i \<and>
       get_model pf cl (Num (Fin (of_int i))) s = (Inr model, s1) \<and> within_limits c l True model))"
proof (cases "Option.bind (List.find (\<lambda>t. rg_name (registered (st_cwd st) c t) = called) all_tools) (\<lambda>t.
    Option.bind (z (rg_shape (registered (st_cwd st) c t)) args) (tool_call_of t))")
  case None
  then show ?thesis using assms(2) by (simp add: call_tool_def run_simps)
next
  case (Some call)
  then obtain t out where t: "rg_name (registered (st_cwd st) c t) = called" "z (rg_shape (registered (st_cwd st) c t)) args = Some out" "tool_call_of t out = Some call"
    by (auto simp: bind_eq_Some_conv dest: tool_named)
  obtain r1 where run: "run_tool pf st c cl reg call s = (r1, s')"
    using assms(2) Some by (auto simp: call_tool_def run_simps split: sum.splits prod.splits)
  show ?thesis
  proof (cases "\<exists>i l a b. call = Buy i l a b")
    case False
    then obtain evs where "trace s' = trace s @ evs" "\<forall>e \<in> set evs. \<not> is_signature e"
      using emitsD [OF quiet_run_tool run] by blast
    then show ?thesis by (auto simp: filter_empty_conv intro!: exI [of _ evs])
  next
    case True
    then obtain i l a b where call: "call = Buy i l a b" by blast
    then have buy: "t = Buy_License" "opt_prop out (js ''license'') = Str l" "opt_prop out (js ''confirm'') = Bool b"
      "as_whole (opt_prop out (js ''model_id'')) = Some i"
      using t(3) by (auto simp: tool_call_of_def bind_eq_Some_conv split: tool.splits if_splits elim!: as_text.elims as_flag.elims)
    have kind: "l \<in> set license_kinds"
      using typed_call [OF accepted [OF assms(1) t(2)]] t(3) call by (auto simp: well_typed_def)
    have name: "called = js ''buy_license''" using t(1) buy(1) by (simp add: registrations)
    have "buy_tool pf st c cl reg i l a b s = (r1, s')" using run by (simp add: call run_tool_def)
    then obtain evs where evs: "trace s' = trace s @ evs" "length (filter is_signature evs) \<le> 1"
      "\<forall>e \<in> set evs. is_signature e \<longrightarrow> (\<exists>model s1.
         get_model pf cl (Num (Fin (of_int i))) s = (Inr model, s1) \<and> within_limits c l b model)"
      using buy_tool_within_limits by blast
    show ?thesis
    proof (cases b)
      case True
      then have b: "b = True" by simp
      show ?thesis
        using evs kind buy(2-4) t(2) [unfolded buy(1)] unfolding name b by (intro exI [of _ evs]) blast
    next
      case False
      then show ?thesis using evs by (intro exI [of _ evs]) (auto simp: within_limits_def)
    qed
  qed
qed

section \<open>Concrete calls\<close>

definition check_arguments :: jsval where
  "check_arguments = Obj [(js ''use'', Str (js ''resell_files'')), (js ''cert_id'', Str (js ''pw-000003'')), (js ''extra'', Null)]"

theorem accepted_calls_typed_witness:
  "\<exists>out call. plain_zod (rg_shape (registered (js ''/srv'') shop_config Check_License)) check_arguments = Some out \<and>
     tool_call_of Check_License out = Some call \<and> well_typed call \<and> call = Check (js ''pw-000003'') (js ''resell_files'') 1"
proof -
  let ?out = "Obj [(js ''cert_id'', Str (js ''pw-000003'')), (js ''use'', Str (js ''resell_files'')), (js ''qty'', jnum 1)]"
  have out: "plain_zod (rg_shape (registered (js ''/srv'') shop_config Check_License)) check_arguments = Some ?out"
    by (simp add: plain_zod_def registrations check_arguments_def license_uses_def js_eval)
  have "tool_call_of Check_License ?out = Some (Check (js ''pw-000003'') (js ''resell_files'') (nat 1))"
    by (simp add: tool_call_of_def js_eval)
  then show ?thesis using out accepted_calls_typed [OF plain_zod_like out] by auto
qed

definition buy_arguments :: jsval where
  "buy_arguments = Obj [(js ''model_id'', jnum 1), (js ''confirm'', Bool True)]"

lemma buy_call:
  "call_tool plain_zod pf st c cl reg (js ''buy_license'') buy_arguments =
     bindM (buy_tool pf st c cl reg 1 (js ''personal'') None True) (\<lambda>r. retM (Some r))"
proof -
  let ?out = "Obj [(js ''model_id'', jnum 1), (js ''license'', Str (js ''personal'')), (js ''asset'', Undef), (js ''confirm'', Bool True)]"
  have f: "List.find (\<lambda>t. rg_name (registered (st_cwd st) c t) = js ''buy_license'') all_tools = Some Buy_License"
    by (simp add: all_tools_def registrations js_eval)
  have z: "plain_zod (rg_shape (registered (st_cwd st) c Buy_License)) buy_arguments = Some ?out"
    by (simp add: plain_zod_def registrations buy_arguments_def license_kinds_def js_eval)
  have t: "tool_call_of Buy_License ?out = Some (Buy 1 (js ''personal'') None True)"
    by (simp add: tool_call_of_def js_eval)
  show ?thesis unfolding call_tool_def f Option.bind.bind_lunit z t by (simp add: run_tool_def)
qed

theorem only_buying_signs_witness:
  "\<exists>r s'. call_tool plain_zod shop_platform no_storage shop_config self_client no_registry (js ''buy_license'') buy_arguments empty_session = (r, s') \<and>
     length (filter is_signature (trace s')) = 1 \<and> (\<exists>l model. l \<in> set license_kinds \<and> within_limits shop_config l True model)"
proof -
  have c: "shop_config\<lparr>mc_cap := mc_cap shop_config\<rparr> = shop_config" by simp
  obtain r reg' s' where b: "buy_tool shop_platform no_storage shop_config self_client no_registry 1 (js ''personal'') None True empty_session = (Inr (r, reg'), s')"
    "length (filter is_signature (trace s')) = 1"
    using shop_purchase [of "mc_cap shop_config"] unfolding c by blast
  then have call: "call_tool plain_zod shop_platform no_storage shop_config self_client no_registry (js ''buy_license'') buy_arguments empty_session = (Inr (Some (r, reg')), s')"
    unfolding buy_call by (simp add: run_simps)
  obtain e where "e \<in> set (trace s')" "is_signature e"
    using b(2) by (metis filter_empty_conv length_0_conv zero_neq_one)
  then show ?thesis
    using only_buying_signs [OF plain_zod_like call] call b(2) by (auto simp: empty_session_def)
qed

end
