(* ===== verification/Conformance.thy ===== *)
theory Conformance
  imports VerifierCli Client CheckoutView HederaSdk
begin

text \<open>
  The sandbox conformance suite (\<open>conformance/suite.mjs\<close>): the lint of a payment challenge and the
  run that buys a sandbox license and checks every answer. The requests go through the \<open>platform\<close>
  of \<open>Client\<close>; response headers are under lower-case names. The theorems say what an empty lint and
  a conformant seller mean, and that the suite sends sandbox payments only.
\<close>

section \<open>The lint\<close>

text \<open>\<open>/no (hedera )?funds move|simulation only/i\<close> found anywhere in the text\<close>

definition zero_funds :: "jsstr \<Rightarrow> bool" where
  "zero_funds s = (\<exists>p \<in> set [js ''no funds move'', js ''no hedera funds move'', js ''simulation only''].
     contains_text p (ascii_lower s))"

definition decode_json :: "jsstr \<Rightarrow> jsval option" where
  "decode_json s = json_parse (utf8_lossy (buffer_base64 s))"

text \<open>\<open>headers.get(name)\<close>, and the text before its decoding: \<open>value || ""\<close>.\<close>

definition header :: "http_response \<Rightarrow> string \<Rightarrow> jsstr option" where
  "header r name = map_of (res_headers r) (js name)"

definition header_text :: "jsstr option \<Rightarrow> jsstr" where
  "header_text h = (case h of None \<Rightarrow> [] | Some s \<Rightarrow> s)"

definition re_positive_decimal :: re where
  "re_positive_decimal = r_seq [RCls [(jc (CHR ''1''), jc (CHR ''9''))], RStar r_digit]"

definition lint_if :: "bool \<Rightarrow> jsstr \<Rightarrow> jsstr list" where
  "lint_if bad message = (if bad then [message] else [])"

definition positive_whole :: "jsval \<Rightarrow> bool" where
  "positive_whole v = (case v of Num n \<Rightarrow> is_integer n \<and> \<not> num_le n (Fin 0) | _ \<Rightarrow> False)"

definition lint_requirement :: "nat \<Rightarrow> jsval \<Rightarrow> js_error + jsstr list" where
  "lint_requirement i r = (let prefix = js ''accepts['' @ dec_str i @ js '']'' in
     bindE (get_prop r (js ''scheme'')) (\<lambda>scheme.
     bindE (string_of (or_else (opt_prop r (js ''amount'')) (Str []))) (\<lambda>amount.
     Inr (lint_if (scheme \<noteq> Str (js ''exact'')) (prefix @ js ''.scheme must be exact'') @
       lint_if (opt_prop r (js ''network'') \<noteq> Str (js ''hedera:sandbox'')) (prefix @ js ''.network must be hedera:sandbox'') @
       lint_if (\<not> re_test re_positive_decimal amount) (prefix @ js ''.amount must be a positive decimal string'') @
       lint_if (opt_prop r (js ''asset'') \<noteq> Str (js ''sandbox:credit'')) (prefix @ js ''.asset must be sandbox:credit'') @
       lint_if (opt_prop r (js ''payTo'') \<noteq> Str (js ''sandbox:designer'')) (prefix @ js ''.payTo must be sandbox:designer'') @
       lint_if (\<not> positive_whole (opt_prop r (js ''maxTimeoutSeconds''))) (prefix @ js ''.maxTimeoutSeconds must be a positive integer'') @
       lint_if (opt_prop (opt_prop r (js ''extra'')) (js ''feePayer'') \<noteq> Str (js ''sandbox:facilitator'') \<or>
           opt_prop (opt_prop r (js ''extra'')) (js ''sandbox'') \<noteq> Bool True)
         (prefix @ js ''.extra must identify the sandbox facilitator'')))))"

definition lint_accepts :: "jsval \<Rightarrow> js_error + jsstr list" where
  "lint_accepts accepts = (case accepts of
     Arr (r # rs) \<Rightarrow> bindE (mapE (\<lambda>(i, r). lint_requirement i r) (zip [0..<Suc (length rs)] (r # rs))) (\<lambda>es. Inr (concat es))
   | _ \<Rightarrow> Inr [js ''accepts must contain at least one requirement''])"

definition labeled_zero_funds :: "jsval \<Rightarrow> js_error + bool" where
  "labeled_zero_funds body = (if opt_prop body (js ''sandbox'') \<noteq> Bool True then Inr False
     else bindE (string_of (or_else (opt_prop body (js ''warning'')) (Str []))) (\<lambda>w. Inr (zero_funds w)))"

definition lint_payment_required :: "jsstr \<Rightarrow> jsval \<Rightarrow> jsstr option \<Rightarrow> js_error + jsstr list" where
  "lint_payment_required resource_url body encoded = (let decoded = decode_json (header_text encoded) in
     bindE (labeled_zero_funds body) (\<lambda>labeled.
     bindE (lint_accepts (opt_prop body (js ''accepts''))) (\<lambda>accepts_errors.
     Inr (lint_if (decoded = None) (js ''PAYMENT-REQUIRED is not base64 JSON'') @
       lint_if (\<not> strict_eq (opt_prop body (js ''x402Version'')) (jnum 2)) (js ''x402Version must be 2'') @
       lint_if (\<not> labeled) (js ''challenge must be unmistakably labeled as a zero-funds sandbox'') @
       lint_if (opt_prop (opt_prop body (js ''resource'')) (js ''url'') \<noteq> Str resource_url)
         (js ''resource.url must equal the requested URL'') @
       accepts_errors @
       lint_if (case decoded of None \<Rightarrow> False | Some h \<Rightarrow> truthy h \<and> canonical_wallet h \<noteq> canonical_wallet body)
         (js ''PAYMENT-REQUIRED header and body differ'')))))"

section \<open>The run\<close>

definition assert_that :: "bool \<Rightarrow> jsstr \<Rightarrow> ('w, unit) prog" where
  "assert_that b message = liftM (guardE b (PlainErr message))"

definition suite_json :: "'w platform \<Rightarrow> jsstr \<Rightarrow> ('w, jsval) prog" where
  "suite_json pf u = bindM (fetchM (p_fetch pf) (get_request u)) (\<lambda>r.
     bindM (assert_that (res_ok r) (js ''GET '' @ u @ js '' returned '' @ dec_str (res_status r))) (\<lambda>_.
     liftM (body_json r)))"

definition sandbox_get :: "jsstr \<Rightarrow> (jsstr \<times> jsstr) list \<Rightarrow> http_request" where
  "sandbox_get u extra = \<lparr>req_method = js ''GET'', req_url = u,
     req_headers = accept_json @ [(js ''X-Sandbox'', js ''true'')] @ extra, req_body = None\<rparr>"

text \<open>\<open>some\<close> and \<open>find\<close> over the offers and models of the catalogue\<close>

fun some_kind :: "jsstr \<Rightarrow> jsval list \<Rightarrow> js_error + bool" where
  "some_kind k [] = Inr False"
| "some_kind k (a # as) = bindE (get_prop a (js ''kind'')) (\<lambda>v. if v = Str k then Inr True else some_kind k as)"

definition offers_personal :: "jsval \<Rightarrow> js_error + bool" where
  "offers_personal m = bindE (get_prop m (js ''license_offers'')) (\<lambda>offers. case offers of
     Arr as \<Rightarrow> some_kind (js ''personal'') as
   | _ \<Rightarrow> if nullish offers then Inr False else Inl (TypeErr (js ''some is not a function'')))"

fun find_model :: "jsval list \<Rightarrow> js_error + jsval option" where
  "find_model [] = Inr None"
| "find_model (m # ms) = bindE (offers_personal m) (\<lambda>b. if b then Inr (Some m) else find_model ms)"

definition discovered_model :: "jsval \<Rightarrow> js_error + jsval option" where
  "discovered_model catalog = bindE (get_prop catalog (js ''models'')) (\<lambda>models. case models of
     Arr ms \<Rightarrow> find_model ms
   | _ \<Rightarrow> if nullish models then Inr None else Inl (TypeErr (js ''find is not a function'')))"

definition suite_payment :: "jsval \<Rightarrow> jsval \<Rightarrow> jsstr \<Rightarrow> jsval" where
  "suite_payment required accepted uuid = Obj [(js ''x402Version'', jnum 2),
     (js ''resource'', opt_prop required (js ''resource'')), (js ''accepted'', accepted),
     (js ''payload'', Obj [(js ''transaction'', Str (js ''sandbox:'' @ uuid))])]"

definition sandbox_header_set :: "http_response \<Rightarrow> bool" where
  "sandbox_header_set r = (header r ''x-printwright-sandbox'' = Some (js ''true''))"

text \<open>The challenge: the probe without a payment, and its lint.\<close>

definition probe_challenge :: "'w platform \<Rightarrow> jsstr \<Rightarrow> ('w, jsval) prog" where
  "probe_challenge pf u = bindM (fetchM (p_fetch pf) (sandbox_get u [])) (\<lambda>probe.
     bindM (assert_that (res_status probe = 402) (js ''unsigned sandbox probe returned '' @ dec_str (res_status probe) @ js '', expected 402'')) (\<lambda>_.
     bindM (assert_that (sandbox_header_set probe) (js ''402 is missing X-Printwright-Sandbox: true'')) (\<lambda>_.
     bindM (liftM (body_json probe)) (\<lambda>required.
     bindM (liftM (lint_payment_required u required (header probe ''payment-required''))) (\<lambda>errors.
     bindM (assert_that (errors = []) (js ''PaymentRequired is non-conformant: '' @ intersperse (js ''; '') errors)) (\<lambda>_.
       retM required))))))"

definition first_accepted :: "jsval \<Rightarrow> js_error + jsval" where
  "first_accepted required = (case opt_prop required (js ''accepts'') of
     Arr (a # as) \<Rightarrow> Inr a | _ \<Rightarrow> Inl (TypeErr []))"

definition settlement_ok :: "jsval \<Rightarrow> js_error + bool" where
  "settlement_ok v = bindE (get_prop v (js ''success'')) (\<lambda>x.
     Inr (x = Bool True \<and> opt_prop v (js ''sandbox'') = Bool True))"

text \<open>The retry with the sandbox payment.\<close>

definition paid_delivery :: "'w platform \<Rightarrow> jsstr \<Rightarrow> jsval \<Rightarrow> ('w, jsval) prog" where
  "paid_delivery pf u required = bindM (liftM (first_accepted required)) (\<lambda>accepted.
     bindM (callM (\<lambda>_. p_uuid pf) (js ''randomUUID'') []) (\<lambda>uuid.
     bindM (fetchM (p_fetch pf) (sandbox_get u [(js ''PAYMENT-SIGNATURE'',
         b64_encode (utf8_encode (joined (stringify (suite_payment required accepted uuid)))))])) (\<lambda>paid.
     bindM (assert_that (res_ok paid) (js ''signed sandbox retry returned '' @ dec_str (res_status paid))) (\<lambda>_.
     bindM (assert_that (sandbox_header_set paid) (js ''delivery is missing X-Printwright-Sandbox: true'')) (\<lambda>_.
     bindM (liftM (ofOption (PlainErr (js ''PAYMENT-RESPONSE is not base64 JSON''))
         (decode_json (header_text (header paid ''payment-response''))))) (\<lambda>settlement.
     bindM (liftM (settlement_ok settlement)) (\<lambda>ok.
     bindM (assert_that ok (js ''PAYMENT-RESPONSE is not an explicit successful sandbox settlement'')) (\<lambda>_.
     bindM (assert_that (header paid ''x-payment-response'' = header paid ''payment-response'')
         (js ''X-PAYMENT-RESPONSE compatibility header differs'')) (\<lambda>_.
       liftM (body_json paid))))))))))"

text \<open>What the delivery says of itself.\<close>

definition paid_capability :: "jsval \<Rightarrow> bool" where
  "paid_capability d = (truthy (opt_prop d (js ''model_updates'')) \<or> truthy (opt_prop d (js ''print_feedback'')))"

fun every_receipt :: "jsval list \<Rightarrow> js_error + bool" where
  "every_receipt [] = Inr True"
| "every_receipt (f # fs) = bindE (get_prop f (js ''kind'')) (\<lambda>kind.
     if kind = Str (js ''sandbox_receipt'') \<and> opt_prop f (js ''sandbox'') \<noteq> Bool False then every_receipt fs else Inr False)"

definition only_receipts :: "jsval \<Rightarrow> js_error + bool" where
  "only_receipts files = (case files of
     Arr fs \<Rightarrow> if fs = [] then Inr False else every_receipt fs
   | Str s \<Rightarrow> if s = [] then Inr False else Inl (TypeErr (js ''every is not a function''))
   | _ \<Rightarrow> bindE (number_of (opt_prop files (js ''length''))) (\<lambda>n.
       if num_lt (Fin 0) n then Inl (TypeErr (js ''every is not a function'')) else Inr False))"

definition has_field :: "jsval \<Rightarrow> jsstr \<Rightarrow> bool" where
  "has_field v k = (case v of Obj kvs \<Rightarrow> has_own kvs k | _ \<Rightarrow> False)"

definition text_or_blank :: "jsval \<Rightarrow> js_error + jsstr" where
  "text_or_blank v = string_of (or_else v (Str []))"

text \<open>The labels of a delivery; the result is the address of its first file and its certificate id.\<close>

definition delivery_labels :: "jsval \<Rightarrow> js_error + jsval \<times> jsval" where
  "delivery_labels d = bindE (get_prop d (js ''sandbox'')) (\<lambda>sb.
     bindE (guardE (sb = Bool True) (PlainErr (js ''delivery is not labeled sandbox''))) (\<lambda>_.
     bindE (text_or_blank (opt_prop d (js ''warning''))) (\<lambda>warning.
     bindE (guardE (zero_funds warning) (PlainErr (js ''delivery warning is ambiguous''))) (\<lambda>_.
     bindE (text_or_blank (opt_prop (opt_prop d (js ''license'')) (js ''cert_id''))) (\<lambda>cert_id.
     bindE (guardE (starts_with (js ''sandbox-pw-'') cert_id) (PlainErr (js ''certificate id lacks sandbox namespace''))) (\<lambda>_.
     bindE (guardE (\<not> has_field d (js ''hashscan_url'')) (PlainErr (js ''sandbox delivery carries a HashScan field''))) (\<lambda>_.
     bindE (guardE (\<not> paid_capability d) (PlainErr (js ''sandbox delivery leaked a paid-holder capability''))) (\<lambda>_.
     bindE (only_receipts (opt_prop d (js ''files''))) (\<lambda>receipts.
     bindE (guardE receipts (PlainErr (js ''sandbox delivery exposed printable files''))) (\<lambda>_.
     Inr (case opt_prop d (js ''files'') of Arr (f # fs) \<Rightarrow> opt_prop f (js ''url'') | _ \<Rightarrow> Undef,
       opt_prop (opt_prop d (js ''license'')) (js ''cert_id''))))))))))))"

definition receipt_check :: "'w platform \<Rightarrow> jsval \<Rightarrow> ('w, unit) prog" where
  "receipt_check pf address = bindM (liftM (string_of address)) (\<lambda>a.
     bindM (fetchM (p_fetch pf) \<lparr>req_method = js ''GET'', req_url = a, req_headers = [], req_body = None\<rparr>) (\<lambda>receipt.
     bindM (assert_that (res_ok receipt) (js ''sandbox receipt returned '' @ dec_str (res_status receipt))) (\<lambda>_.
     bindM (liftM (res_text receipt)) (\<lambda>t.
     assert_that (contains_text (js ''sandbox'') (ascii_lower t)) (js ''downloaded receipt is not labeled sandbox'')))))"

definition bundle_labels :: "jsval \<Rightarrow> js_error + jsval" where
  "bundle_labels bundle = bindE (get_prop bundle (js ''status'')) (\<lambda>status.
     bindE (guardE (status = Str (js ''sandbox'') \<and> opt_prop (opt_prop bundle (js ''certificate'')) (js ''sandbox'') = Bool True)
       (PlainErr (js ''certificate lookup is not labeled sandbox''))) (\<lambda>_.
     bindE (guardE (opt_prop (opt_prop bundle (js ''hedera'')) (js ''sandbox'') = Bool True)
       (PlainErr (js ''certificate pretends its local topic is HCS''))) (\<lambda>_.
     Inr (opt_prop (opt_prop bundle (js ''hedera'')) (js ''mirror_url'')))))"

text \<open>The suite's own canonical JSON is the wallet's, line for line; its commitment takes the nonce as a
  string.\<close>

definition suite_canonical :: "jsval \<Rightarrow> jsstr option" where
  "suite_canonical v = canonical_wallet v"

definition suite_commitment :: "(bytes \<Rightarrow> bytes) \<Rightarrow> jsval \<Rightarrow> jsval \<Rightarrow> js_error + jsstr" where
  "suite_commitment hash certificate nonce = bindE (string_of nonce) (\<lambda>s.
     bindE (ofOption (TypeErr []) (suite_canonical certificate)) (\<lambda>text.
       Inr (commitment_hash hash (hex_decode s) text)))"

definition mirrored_message :: "'w platform \<Rightarrow> jsval \<Rightarrow> js_error + jsval" where
  "mirrored_message pf mirror = bindE (get_prop mirror (js ''message'')) (\<lambda>m.
     bindE (ofOption (TypeErr []) (p_buffer pf m)) (\<lambda>bs. ofOption SyntaxErr (json_parse (utf8_lossy bs))))"

definition certificate_check :: "'w platform \<Rightarrow> jsstr \<Rightarrow> jsval \<Rightarrow> ('w, unit) prog" where
  "certificate_check pf base cert_id =
     bindM (liftM (bindE (string_of cert_id) encode_component)) (\<lambda>c.
     bindM (suite_json pf (base @ js ''/api/v1/certificates/'' @ c)) (\<lambda>bundle.
     bindM (liftM (bindE (bundle_labels bundle) (\<lambda>m. bindE (string_of m) (\<lambda>ms.
        ofOption (TypeErr (js ''Invalid URL'')) (p_resolve pf ms (base @ js ''/'')))))) (\<lambda>mu.
     bindM (suite_json pf mu) (\<lambda>mirror.
     bindM (liftM (mirrored_message pf mirror)) (\<lambda>msg.
     bindM (liftM (get_prop msg (js ''type''))) (\<lambda>type.
     bindM (assert_that (type = Str (js ''printwright-license-commitment''))
       (js ''sandbox message is not a commitment envelope'' @ em_dash @ js ''the rehearsal differs from the real path'')) (\<lambda>_.
     bindM (liftM (suite_commitment (p_hash pf) (opt_prop bundle (js ''certificate'')) (opt_prop bundle (js ''blinding_nonce'')))) (\<lambda>h.
     assert_that (opt_prop msg (js ''commitment'') = Str h) (js ''local commitment does not cover the revealed certificate'')))))))))"

definition suite_checks :: "jsstr list" where
  "suite_checks = [js ''catalog discovery'', js ''HTTP 402 challenge'', js ''PaymentRequired v2 body/header contract'',
     js ''signed retry + settlement response'', js ''no funds/license/geometry claims'', js ''non-printable receipt'',
     js ''local certificate commitment equality'']"

definition run_conformance :: "'w platform \<Rightarrow> jsstr \<Rightarrow> ('w, jsval) prog" where
  "run_conformance pf base_url = (let base = drop_slash base_url in
     bindM (suite_json pf (base @ js ''/api/v1/models?q=cable%20clip'')) (\<lambda>catalog.
     bindM (liftM (discovered_model catalog)) (\<lambda>found.
     bindM (assert_that (found \<noteq> None) (js ''catalog has no model with a personal offer'')) (\<lambda>_.
     bindM (liftM (string_of (opt_prop (the found) (js ''id'')))) (\<lambda>i.
     let u = base @ js ''/api/v1/models/'' @ i @ js ''/download?license=personal'' in
     bindM (probe_challenge pf u) (\<lambda>required.
     bindM (paid_delivery pf u required) (\<lambda>delivery.
     bindM (liftM (delivery_labels delivery)) (\<lambda>(address, cert_id).
     bindM (receipt_check pf address) (\<lambda>_.
     bindM (certificate_check pf base cert_id) (\<lambda>_.
       retM (Obj [(js ''conformant'', Bool True), (js ''seller'', Str base), (js ''cert_id'', cert_id),
         (js ''checks'', Arr (map Str suite_checks))])))))))))))"

text \<open>The command line: \<open>--url\<close>, or the environment, or the default of the suite.\<close>

fun url_argument :: "jsstr list \<Rightarrow> jsstr option option" where
  "url_argument [] = None"
| "url_argument (a # as) = (if a = js ''--url'' then Some (case as of [] \<Rightarrow> None | b # bs \<Rightarrow> Some b) else url_argument as)"

definition suite_base :: "jsstr list \<Rightarrow> jsstr option \<Rightarrow> jsstr" where
  "suite_base argv env = (case (case url_argument argv of Some given \<Rightarrow> given | None \<Rightarrow> env) of
     None \<Rightarrow> js ''http://localhost:3000'' | Some u \<Rightarrow> u)"

definition suite_main :: "'w platform \<Rightarrow> jsstr list \<Rightarrow> jsstr option \<Rightarrow> 'w session \<Rightarrow> (jsstr \<times> nat) \<times> 'w session" where
  "suite_main pf argv env s = (case run_conformance pf (suite_base argv env) s of
     (Inr v, s') \<Rightarrow> ((joined (stringify_indent [] v), 0), s')
   | (Inl e, s') \<Rightarrow> ((js ''x402 sandbox conformance failed: '' @ error_message e, 1), s'))"

section \<open>What an empty lint means\<close>

lemma lint_if_Nil [simp]: "lint_if bad m = [] \<longleftrightarrow> \<not> bad"
  by (simp add: lint_if_def)

definition sandbox_requirement :: "jsval \<Rightarrow> bool" where
  "sandbox_requirement r = (opt_prop r (js ''scheme'') = Str (js ''exact'') \<and>
     opt_prop r (js ''network'') = Str (js ''hedera:sandbox'') \<and>
     (\<exists>amount. string_of (or_else (opt_prop r (js ''amount'')) (Str [])) = Inr amount \<and> re_test re_positive_decimal amount) \<and>
     opt_prop r (js ''asset'') = Str (js ''sandbox:credit'') \<and> opt_prop r (js ''payTo'') = Str (js ''sandbox:designer'') \<and>
     positive_whole (opt_prop r (js ''maxTimeoutSeconds'')) \<and>
     opt_prop (opt_prop r (js ''extra'')) (js ''feePayer'') = Str (js ''sandbox:facilitator'') \<and>
     opt_prop (opt_prop r (js ''extra'')) (js ''sandbox'') = Bool True)"

lemma lint_requirement_clean: "lint_requirement i r = Inr [] \<longleftrightarrow> sandbox_requirement r"
  unfolding lint_requirement_def sandbox_requirement_def Let_def
  by (cases r) (auto simp: get_prop_Inr nullish_def)

lemma concat_mapE_Nil:
  "bindE (mapE (\<lambda>(i, r). f i r) xs) (\<lambda>es. Inr (concat es)) = Inr [] \<longleftrightarrow> (\<forall>(i, r) \<in> set xs. f i r = Inr [])"
  by (induction xs) (auto simp: bindE_assoc)

lemma lint_accepts_clean:
  "lint_accepts accepts = Inr [] \<longleftrightarrow> (\<exists>rs. accepts = Arr rs \<and> rs \<noteq> [] \<and> (\<forall>r \<in> set rs. sandbox_requirement r))"
proof (cases "\<exists>r rs. accepts = Arr (r # rs)")
  case True
  then obtain r rs where a: "accepts = Arr (r # rs)" by blast
  have "(\<forall>(i, q) \<in> set (zip [0..<Suc (length rs)] (r # rs)). sandbox_requirement q) \<longleftrightarrow> (\<forall>q \<in> set (r # rs). sandbox_requirement q)"
    by (metis (no_types, lifting) case_prodD case_prodI2 in_set_impl_in_set_zip2 length_Cons length_upt minus_nat.diff_0 set_zip_rightD)
  then show ?thesis
    unfolding a lint_accepts_def jsval.case list.case concat_mapE_Nil lint_requirement_clean by simp
next
  case False
  then show ?thesis by (auto simp: lint_accepts_def split: jsval.splits list.splits)
qed

text \<open>C31. The lint of a payment challenge finds nothing exactly when the challenge is labelled as a
  zero-funds sandbox of version 2 for the requested URL, with at least one requirement and every
  requirement a sandbox one, and the header is the JSON of the same challenge up to the order of
  keys; a header that decodes to a falsy value such as \<open>null\<close> also passes, whatever the body.\<close>

theorem lint_clean_iff:
  "lint_payment_required u body encoded = Inr [] \<longleftrightarrow>
     opt_prop body (js ''sandbox'') = Bool True \<and>
     (\<exists>w. string_of (or_else (opt_prop body (js ''warning'')) (Str [])) = Inr w \<and> zero_funds w) \<and>
     strict_eq (opt_prop body (js ''x402Version'')) (jnum 2) \<and>
     opt_prop (opt_prop body (js ''resource'')) (js ''url'') = Str u \<and>
     (\<exists>rs. opt_prop body (js ''accepts'') = Arr rs \<and> rs \<noteq> [] \<and> (\<forall>r \<in> set rs. sandbox_requirement r)) \<and>
     (\<exists>h. decode_json (header_text encoded) = Some h \<and> (truthy h \<longrightarrow> canonical_wallet h = canonical_wallet body))"
proof -
  have "labeled_zero_funds body = Inr True \<longleftrightarrow> opt_prop body (js ''sandbox'') = Bool True \<and>
     (\<exists>w. string_of (or_else (opt_prop body (js ''warning'')) (Str [])) = Inr w \<and> zero_funds w)"
    by (auto simp: labeled_zero_funds_def)
  moreover have "lint_payment_required u body encoded = Inr [] \<longleftrightarrow> labeled_zero_funds body = Inr True \<and>
     strict_eq (opt_prop body (js ''x402Version'')) (jnum 2) \<and>
     opt_prop (opt_prop body (js ''resource'')) (js ''url'') = Str u \<and> lint_accepts (opt_prop body (js ''accepts'')) = Inr [] \<and>
     (\<exists>h. decode_json (header_text encoded) = Some h \<and> (truthy h \<longrightarrow> canonical_wallet h = canonical_wallet body))"
    unfolding lint_payment_required_def Let_def by (auto split: option.splits)
  ultimately show ?thesis by (simp only: lint_accepts_clean) blast
qed

text \<open>On a well-formed nonce the suite recomputes the commitment of the client and the verifier;
  but where they refuse a bundle without a nonce, the suite computes a commitment over no nonce at
  all, so its rehearsal accepts what the real verification rejects.\<close>

theorem suite_commitment_lenient:
  "suite_commitment hash c Undef = bindE (ofOption (TypeErr []) (canonical_wallet c)) (\<lambda>text. Inr (commitment_hash hash [] text)) \<and>
   license_commitment hash c Undef = Inl (PrintwrightError (js ''proof bundle has no usable blinding_nonce'') None None) \<and>
   compute_commitment hash c Undef = Inl (invalid_input (js ''blinding_nonce must be hex'')) \<and>
   (canonical_wallet c = canonical_client c \<longrightarrow> re_test re_hex_pairs n \<longrightarrow>
     suite_commitment hash c (Str n) = license_commitment hash c (Str n))"
proof -
  have "hex_decode (js ''undefined'') = []" by code_simp
  moreover have "\<not> re_test re_hex_pairs []" "\<not> re_test re_hex (js ''undefined'')" by code_simp+
  ultimately show ?thesis
    by (auto simp: suite_commitment_def suite_canonical_def license_commitment_def compute_commitment_def string_of_def coalesce_def nullish_def
        nonce_buffer_def hex_pairs_def)
qed

theorem suite_commitment_lenient_witness:
  "suite_commitment (\<lambda>bs. [1]) (Obj []) (Str (js ''00'')) = license_commitment (\<lambda>bs. [1]) (Obj []) (Str (js ''00''))"
proof -
  have "canonical_wallet (Obj []) = canonical_client (Obj [])" "re_test re_hex_pairs (js ''00'')" by code_simp+
  then show ?thesis using suite_commitment_lenient [of "\<lambda>bs. [1]" "Obj []" "js ''00''"] by blast
qed

definition rehearsal_requirement :: jsval where
  "rehearsal_requirement = Obj [(js ''scheme'', Str (js ''exact'')), (js ''network'', Str (js ''hedera:sandbox'')),
     (js ''amount'', Str (js ''25'')), (js ''asset'', Str (js ''sandbox:credit'')), (js ''payTo'', Str (js ''sandbox:designer'')),
     (js ''maxTimeoutSeconds'', jnum 60),
     (js ''extra'', Obj [(js ''feePayer'', Str (js ''sandbox:facilitator'')), (js ''sandbox'', Bool True)])]"

definition rehearsal_challenge :: jsval where
  "rehearsal_challenge = Obj [(js ''x402Version'', jnum 2), (js ''sandbox'', Bool True),
     (js ''warning'', Str (js ''Sandbox: No Funds Move'')), (js ''resource'', Obj [(js ''url'', Str (js ''u''))]),
     (js ''accepts'', Arr [rehearsal_requirement])]"

theorem lint_clean_iff_witness:
  "lint_payment_required (js ''u'') rehearsal_challenge (Some (js ''bnVsbA=='')) = Inr []"
proof -
  have "buffer_base64 (js ''bnVsbA=='') = [110, 117, 108, 108]"
    by (simp add: buffer_base64_def js_def jc_def map_filter_simps sextet_def b64_val_def)
  moreover have "ascii (js ''null'')" by (simp add: ascii_js)
  then have "utf8_lossy [110, 117, 108, 108] = js ''null''"
    using utf8_lossy_encode [OF ascii_well_formed, of "js ''null''"] utf8_encode_ascii [of "js ''null''"]
    by (simp add: js_def)
  moreover have "json_parse (js ''null'') = Some Null" using json_parse_emit [of Null] by simp
  moreover have "zero_funds (js ''Sandbox: No Funds Move'')" by code_simp
  moreover have "re_test re_positive_decimal (js ''25'')" by code_simp
  ultimately show ?thesis
    unfolding lint_clean_iff
    by (simp add: rehearsal_challenge_def rehearsal_requirement_def sandbox_requirement_def positive_whole_def
      or_else_def string_of_def header_text_def decode_json_def num_le_def num_eq_def rat_is_int_def)
qed

section \<open>What the run does and shows\<close>

text \<open>A request without a body that pays, if at all, with a sandbox payload under the sandbox header;
  and no library call but the one that draws the payload's identifier.\<close>

definition signature_header :: jsstr where
  "signature_header = js ''PAYMENT-SIGNATURE''"

fun rehearses :: "event \<Rightarrow> bool" where
  "rehearses (Fetched req) = (req_method req = js ''GET'' \<and> req_body req = None \<and>
     (\<forall>v. (signature_header, v) \<in> set (req_headers req) \<longrightarrow> (js ''X-Sandbox'', js ''true'') \<in> set (req_headers req) \<and>
        (\<exists>required accepted uuid. v = b64_encode (utf8_encode (joined (stringify (suite_payment required accepted uuid)))))))"
| "rehearses (Called name args) = (name = js ''randomUUID'')"
| "rehearses (Slept n) = False"

lemma rehearses_get: "rehearses (Fetched (get_request u))" "rehearses (Fetched (sandbox_get u []))"
  "rehearses (Fetched \<lparr>req_method = js ''GET'', req_url = u, req_headers = [], req_body = None\<rparr>)"
  "rehearses (Fetched (sandbox_get u [(js ''PAYMENT-SIGNATURE'',
     b64_encode (utf8_encode (joined (stringify (suite_payment required accepted uuid)))))]))"
  by (auto simp: get_request_def sandbox_get_def accept_json_def signature_header_def)

lemma emits_assert_that [trace_rules]: "emits P (assert_that b m)"
  by (simp add: assert_that_def trace_rules)

lemma emits_suite_json [trace_rules]: "emits rehearses (suite_json pf u)"
  unfolding suite_json_def by (intro emits_bindM trace_rules rehearses_get)

lemma suite_emits: "emits rehearses (run_conformance pf base_url)"
proof -
  have "emits rehearses (probe_challenge pf u)" for u
    unfolding probe_challenge_def by (intro emits_bindM trace_rules rehearses_get)
  moreover have "emits rehearses (paid_delivery pf u required)" for u required
    unfolding paid_delivery_def by (intro emits_bindM trace_rules rehearses_get) simp
  moreover have "emits rehearses (receipt_check pf a)" for a
    unfolding receipt_check_def by (intro emits_bindM trace_rules rehearses_get)
  moreover have "emits rehearses (certificate_check pf b c)" for b c
    unfolding certificate_check_def by (intro emits_bindM trace_rules)
  ultimately show ?thesis
    unfolding run_conformance_def Let_def by (auto intro!: emits_bindM trace_rules split: prod.splits)
qed

lemma assert_that_Inr [run_iffs]: "assert_that b m s = (Inr x, s') \<longleftrightarrow> b \<and> s' = s"
  by (auto simp: assert_that_def run_iffs)

definition covered :: "'w platform \<Rightarrow> jsval \<Rightarrow> bool" where
  "covered pf bundle = (\<exists>mirror msg h. mirrored_message pf mirror = Inr msg \<and>
     suite_commitment (p_hash pf) (opt_prop bundle (js ''certificate'')) (opt_prop bundle (js ''blinding_nonce'')) = Inr h \<and>
     opt_prop msg (js ''type'') = Str (js ''printwright-license-commitment'') \<and> opt_prop msg (js ''commitment'') = Str h)"

lemma certificate_checked:
  assumes "certificate_check pf base cert_id s = (Inr x, s')"
  shows "\<exists>bundle m. bundle_labels bundle = Inr m \<and> covered pf bundle"
  using assms unfolding certificate_check_def covered_def by (simp add: run_iffs get_prop_Inr) blast

lemma challenge_linted:
  assumes "probe_challenge pf u s = (Inr required, s')"
  shows "\<exists>encoded. lint_payment_required u required encoded = Inr []"
  using assms unfolding probe_challenge_def by (auto simp: run_iffs)



end
