(* ===== verification/LoadSanity.thy ===== *)
theory LoadSanity
  imports ClientBase JsMath
begin

text \<open>
  The load test of \<open>scripts/load-sanity.mjs\<close>: its command line, the workers that share one counter,
  and the report. The workers are a transition system: between two of their awaits nothing else
  runs, so every step is atomic and any interleaving of the answers is a path. The lemmas say that
  every request is made once and accounted for once, whatever the interleaving; that the percentiles
  are samples; and that the command line only accepts safe targets.
\<close>

section \<open>The command line\<close>

record load_options =
  lo_base :: "jsstr option"
  lo_path :: "jsstr option"
  lo_requests :: nat
  lo_concurrency :: nat
  lo_timeout :: nat
  lo_json :: bool

definition load_defaults :: "jsstr option \<Rightarrow> load_options" where
  "load_defaults base = \<lparr>lo_base = base, lo_path = Some (js ''/api/v1/models''), lo_requests = 100,
     lo_concurrency = 10, lo_timeout = 10000, lo_json = False\<rparr>"

definition re_digits :: re where
  "re_digits = r_plus r_digit"

text \<open>The result of \<open>integer\<close> is a whole number, as its text is all digits.\<close>

definition integer_option :: "jsstr option \<Rightarrow> string \<Rightarrow> nat \<Rightarrow> nat \<Rightarrow> js_error + nat" where
  "integer_option v name least greatest = (let s = (case v of None \<Rightarrow> [] | Some t \<Rightarrow> t) in
     if \<not> re_test re_digits s then Inl (PlainErr (js ''--'' @ js name @ js '' must be an integer''))
     else (let parsed = number_of_str s in
       if num_lt parsed (Fin (of_nat least)) \<or> num_lt (Fin (of_nat greatest)) parsed
       then Inl (PlainErr (js ''--'' @ js name @ js '' must be between '' @ dec_str least @ js '' and '' @ dec_str greatest))
       else (case parsed of Fin q \<Rightarrow> Inr (nat \<lfloor>q\<rfloor>) | _ \<Rightarrow> Inl (PlainErr []))))"

text \<open>\<open>argv[++i]\<close>, which is \<open>undefined\<close> past the end.\<close>

definition next_argument :: "jsstr list \<Rightarrow> jsstr option" where
  "next_argument as = (case as of [] \<Rightarrow> None | a # _ \<Rightarrow> Some a)"

text \<open>\<open>None\<close> is the request for help.\<close>

fun scan_load :: "jsstr list \<Rightarrow> load_options \<Rightarrow> js_error + load_options option" where
  "scan_load [] opts = Inr (Some opts)"
| "scan_load (a # as) opts =
     (if a = js ''--url'' then scan_load (tl as) (opts\<lparr>lo_base := next_argument as\<rparr>)
      else if a = js ''--path'' then scan_load (tl as) (opts\<lparr>lo_path := next_argument as\<rparr>)
      else if a = js ''--requests'' then bindE (integer_option (next_argument as) ''requests'' 1 10000)
        (\<lambda>n. scan_load (tl as) (opts\<lparr>lo_requests := n\<rparr>))
      else if a = js ''--concurrency'' then bindE (integer_option (next_argument as) ''concurrency'' 1 200)
        (\<lambda>n. scan_load (tl as) (opts\<lparr>lo_concurrency := n\<rparr>))
      else if a = js ''--timeout-ms'' then bindE (integer_option (next_argument as) ''timeout-ms'' 100 60000)
        (\<lambda>n. scan_load (tl as) (opts\<lparr>lo_timeout := n\<rparr>))
      else if a = js ''--json'' then scan_load as (opts\<lparr>lo_json := True\<rparr>)
      else if a = js ''--help'' then Inr None
      else Inl (PlainErr (js ''unknown argument: '' @ a)))"

text \<open>What \<open>new URL\<close> says of the target.\<close>

record parsed_url =
  pu_protocol :: jsstr
  pu_hostname :: jsstr

definition local_host :: "parsed_url \<Rightarrow> bool" where
  "local_host u = (pu_hostname u \<in> {js ''localhost'', js ''127.0.0.1'', js ''::1''})"

definition safe_target :: "parsed_url \<Rightarrow> bool" where
  "safe_target u = (pu_protocol u = js ''https:'' \<or> local_host u \<and> pu_protocol u = js ''http:'')"

definition safe_path :: "jsstr option \<Rightarrow> bool" where
  "safe_path p = (case p of None \<Rightarrow> False | Some s \<Rightarrow> starts_with (js ''/'') s \<and> \<not> starts_with (js ''//'') s)"

definition parse_load :: "(jsstr \<Rightarrow> parsed_url option) \<Rightarrow> jsstr option \<Rightarrow> jsstr list \<Rightarrow> js_error + load_options option" where
  "parse_load url env argv = bindE (scan_load argv (load_defaults env)) (\<lambda>parsed. case parsed of
       None \<Rightarrow> Inr None
     | Some opts \<Rightarrow>
         if lo_base opts = None \<or> lo_base opts = Some [] then Inl (PlainErr (js ''--url or PRINTWRIGHT_URL is required''))
         else if \<not> safe_path (lo_path opts) then Inl (PlainErr (js ''--path must be a relative path beginning with /''))
         else bindE (ofOption (TypeErr (js ''Invalid URL'')) (url (the (lo_base opts)))) (\<lambda>u.
           if \<not> safe_target u then Inl (PlainErr (js ''non-local load targets must use https''))
           else Inr (Some opts)))"

section \<open>The workers\<close>

datatype worker = Ready | Waiting nat | Finished

record load_state =
  ls_next :: nat
  ls_workers :: "worker list"
  ls_latencies :: "rat list"
  ls_statuses :: "(nat \<times> nat) list"
  ls_errors :: "(nat \<times> jsval) list"

definition load_start :: "nat \<Rightarrow> load_state" where
  "load_start concurrency = \<lparr>ls_next = 0, ls_workers = replicate concurrency Ready, ls_latencies = [],
     ls_statuses = [], ls_errors = []\<rparr>"

text \<open>The head of a worker's loop: take the next number, or stop.\<close>

definition take_turn :: "nat \<Rightarrow> nat \<Rightarrow> load_state \<Rightarrow> load_state" where
  "take_turn requests i s = (if ls_next s < requests
     then s\<lparr>ls_next := ls_next s + 1, ls_workers := (ls_workers s)[i := Waiting (ls_next s)]\<rparr>
     else s\<lparr>ls_workers := (ls_workers s)[i := Finished]\<rparr>)"

text \<open>\<open>statuses.set(k, (statuses.get(k) || 0) + 1)\<close>: a new key goes to the end.\<close>

fun count_status :: "nat \<Rightarrow> (nat \<times> nat) list \<Rightarrow> (nat \<times> nat) list" where
  "count_status k [] = [(k, 1)]"
| "count_status k ((j, n) # xs) = (if j = k then (j, n + 1) # xs else (j, n) # count_status k xs)"

definition answered_with :: "nat \<Rightarrow> rat \<Rightarrow> nat \<Rightarrow> load_state \<Rightarrow> load_state" where
  "answered_with i latency status s = s\<lparr>ls_latencies := ls_latencies s @ [latency],
     ls_statuses := count_status status (ls_statuses s), ls_workers := (ls_workers s)[i := Ready]\<rparr>"

definition broken_off :: "nat \<Rightarrow> nat \<Rightarrow> jsval \<Rightarrow> load_state \<Rightarrow> load_state" where
  "broken_off i n e s = s\<lparr>ls_errors := ls_errors s @ [(n + 1, e)], ls_workers := (ls_workers s)[i := Ready]\<rparr>"

inductive load_step :: "nat \<Rightarrow> load_state \<Rightarrow> load_state \<Rightarrow> bool" for requests where
  turn: "i < length (ls_workers s) \<Longrightarrow> ls_workers s ! i = Ready \<Longrightarrow> load_step requests s (take_turn requests i s)"
| response: "i < length (ls_workers s) \<Longrightarrow> ls_workers s ! i = Waiting n \<Longrightarrow> load_step requests s (answered_with i latency status s)"
| rejection: "i < length (ls_workers s) \<Longrightarrow> ls_workers s ! i = Waiting n \<Longrightarrow> load_step requests s (broken_off i n e s)"

definition all_finished :: "load_state \<Rightarrow> bool" where
  "all_finished s = list_all ((=) Finished) (ls_workers s)"

section \<open>The report\<close>

definition rounded :: "jsnum \<Rightarrow> jsnum" where
  "rounded v = num_div (num_round (num_mul v (Fin 100))) 100"

definition percentile_index :: "nat \<Rightarrow> nat \<Rightarrow> jsnum" where
  "percentile_index n wanted = num_max (Fin 0)
     (num_add (num_ceiling (num_mul (num_div (Fin (of_nat wanted)) 100) (Fin (of_nat n)))) (Fin (- 1)))"

definition percentile :: "rat list \<Rightarrow> nat \<Rightarrow> jsnum option" where
  "percentile ordered wanted = (if ordered = [] then None
     else (case percentile_index (length ordered) wanted of
       Fin q \<Rightarrow> Some (rounded (Fin (ordered ! nat \<lfloor>q\<rfloor>))) | _ \<Rightarrow> Some NaN))"

record load_summary =
  rp_requests :: nat
  rp_concurrency :: nat
  rp_duration :: jsnum
  rp_rate :: jsnum
  rp_latency :: "jsnum option list"
  rp_statuses :: "(nat \<times> nat) list"
  rp_errors :: "(nat \<times> jsval) list"

definition per_second :: "nat \<Rightarrow> jsnum \<Rightarrow> jsnum" where
  "per_second requests duration = (case num_div duration 1000 of
       Fin q \<Rightarrow> if q = 0 then PosInf else num_div (Fin (of_nat requests)) q
     | NaN \<Rightarrow> NaN | _ \<Rightarrow> Fin 0)"

definition load_report :: "nat \<Rightarrow> nat \<Rightarrow> jsnum \<Rightarrow> load_state \<Rightarrow> load_summary" where
  "load_report requests concurrency duration s = \<lparr>rp_requests = requests, rp_concurrency = concurrency,
     rp_duration = rounded duration, rp_rate = rounded (per_second requests duration),
     rp_latency = map (percentile (sort (ls_latencies s))) [0, 50, 95, 99, 100],
     rp_statuses = sort_key fst (ls_statuses s), rp_errors = ls_errors s\<rparr>"

text \<open>The exit status of the script after a run.\<close>

definition load_exit :: "load_summary \<Rightarrow> nat" where
  "load_exit r = (if rp_errors r \<noteq> [] \<or> list_ex (\<lambda>(status, n). \<not> starts_with (js ''2'') (dec_str status)) (rp_statuses r)
     then 1 else 0)"

text \<open>What the script prints of a run: the lines for a reader.\<close>

definition latency_text :: "jsnum option \<Rightarrow> jsstr" where
  "latency_text v = (case v of None \<Rightarrow> js ''null'' | Some x \<Rightarrow> num_str x)"

definition statuses_object :: "(nat \<times> nat) list \<Rightarrow> jsval" where
  "statuses_object xs = Obj (map (\<lambda>(status, n). (dec_str status, jnum n)) xs)"

definition print_human :: "jsstr \<Rightarrow> nat \<Rightarrow> load_summary \<Rightarrow> jsstr list" where
  "print_human target warmup_status r = (let ms = (\<lambda>i. latency_text (rp_latency r ! i)) in
     [js ''Load sanity: '' @ target,
      js ''Warm-up status: '' @ dec_str warmup_status,
      dec_str (rp_requests r) @ js '' requests at concurrency '' @ dec_str (rp_concurrency r) @ js '' in '' @
        num_str (rp_duration r) @ js '' ms'',
      js ''Throughput: '' @ num_str (rp_rate r) @ js '' req/s'',
      js ''Latency ms: min '' @ ms 0 @ js '' | p50 '' @ ms 1 @ js '' | p95 '' @ ms 2 @ js '' | p99 '' @ ms 3 @ js '' | max '' @ ms 4,
      js ''Statuses: '' @ joined (stringify (statuses_object (rp_statuses r))) @ js '' | transport errors: '' @
        dec_str (length (rp_errors r))])"

text \<open>\<open>runLoadSanity\<close>: the warm-up, then any run of the workers until all have finished.\<close>

definition load_headers :: "(jsstr \<times> jsstr) list" where
  "load_headers = [(js ''accept'', js ''application/json''), (js ''user-agent'', js ''printwright-load-sanity/0.1'')]"

definition warm_up :: "'w fetcher \<Rightarrow> jsstr \<Rightarrow> ('w, nat) prog" where
  "warm_up f target = bindM (fetchM f \<lparr>req_method = js ''GET'', req_url = target, req_headers = load_headers,
       req_body = None\<rparr>) (\<lambda>r. bindM (liftM (res_text r)) (\<lambda>_.
     if res_ok r then retM (res_status r)
     else throwM (PlainErr (js ''warm-up GET returned '' @ dec_str (res_status r)))))"

inductive load_result :: "nat \<Rightarrow> nat \<Rightarrow> load_summary \<Rightarrow> bool" where
  "rtranclp (load_step requests) (load_start concurrency) s \<Longrightarrow> all_finished s \<Longrightarrow>
   load_result requests concurrency (load_report requests concurrency duration s)"

section \<open>The script\<close>

definition usage_lines :: "jsstr list" where
  "usage_lines = [js ''Usage: node scripts/load-sanity.mjs --url https://market.example [options]'',
     js ''Options: --path /api/v1/models --requests 100 --concurrency 10 --timeout-ms 10000 --json'',
     js ''Read-only GET requests only. Non-local targets must use HTTPS.'']"

definition maybe_number :: "jsnum option \<Rightarrow> jsval" where
  "maybe_number v = (case v of None \<Rightarrow> Null | Some x \<Rightarrow> Num x)"

definition report_object :: "jsstr \<Rightarrow> nat \<Rightarrow> load_summary \<Rightarrow> jsval" where
  "report_object target warmup_status r = Obj [(js ''target'', Str target), (js ''warmup_status'', jnum warmup_status),
     (js ''requests'', jnum (rp_requests r)), (js ''concurrency'', jnum (rp_concurrency r)),
     (js ''duration_ms'', Num (rp_duration r)), (js ''requests_per_second'', Num (rp_rate r)),
     (js ''latency_ms'', Obj (zip [js ''min'', js ''p50'', js ''p95'', js ''p99'', js ''max''] (map maybe_number (rp_latency r)))),
     (js ''statuses'', statuses_object (rp_statuses r)),
     (js ''errors'', Arr (map (\<lambda>(n, e). Obj [(js ''request'', jnum n), (js ''error'', e)]) (rp_errors r)))]"

text \<open>The script given the outcome of its run: what it prints on standard output and standard error, and its
  exit status.\<close>

definition load_main ::
  "(jsstr \<Rightarrow> parsed_url option) \<Rightarrow> jsstr option \<Rightarrow> jsstr list \<Rightarrow>
     (load_options \<Rightarrow> js_error + jsstr \<times> nat \<times> load_summary) \<Rightarrow> jsstr list \<times> jsstr list \<times> nat" where
  "load_main url env argv run = (case bindE (parse_load url env argv) (\<lambda>found. case found of
         None \<Rightarrow> Inr (usage_lines, [], 0)
       | Some opts \<Rightarrow> bindE (run opts) (\<lambda>(target, warmup_status, r).
           Inr (if lo_json opts then [joined (stringify (report_object target warmup_status r))]
             else print_human target warmup_status r, [], load_exit r))) of
       Inl e \<Rightarrow> (usage_lines, [js ''load sanity failed: '' @ error_message e], 1)
     | Inr out \<Rightarrow> out)"

text \<open>The script exits with 0 only for help, or after a run without errors in which every status was a
  success.\<close>

lemma load_exit_0: "load_exit r = 0 \<longleftrightarrow> rp_errors r = [] \<and>
    list_all (\<lambda>(status, n). starts_with (js ''2'') (dec_str status)) (rp_statuses r)"
  by (auto simp: load_exit_def list_ex_iff list_all_iff)

lemma load_main_exit:
  assumes "load_main url env argv run = (out, err, 0)"
  shows "out = usage_lines \<or> (\<exists>opts target warmup_status r. parse_load url env argv = Inr (Some opts) \<and>
     run opts = Inr (target, warmup_status, r) \<and> rp_errors r = [] \<and>
     list_all (\<lambda>(status, n). starts_with (js ''2'') (dec_str status)) (rp_statuses r))"
proof (cases "parse_load url env argv")
  case (Inl e)
  then show ?thesis using assms by (simp add: load_main_def)
next
  case (Inr found)
  show ?thesis
  proof (cases found)
    case None
    then show ?thesis using assms Inr by (simp add: load_main_def)
  next
    case (Some opts)
    show ?thesis
    proof (cases "run opts")
      case (Inr x)
      obtain target w r where x: "x = (target, w, r)" by (cases x)
      have "load_exit r = 0" using assms Inr Some x \<open>parse_load url env argv = Inr found\<close> by (simp add: load_main_def)
      then show ?thesis using Inr Some x \<open>parse_load url env argv = Inr found\<close> by (simp add: load_exit_0)
    qed (use assms Inr Some in \<open>simp add: load_main_def\<close>)
  qed
qed

section \<open>What the command line accepts\<close>

definition options_in_range :: "load_options \<Rightarrow> bool" where
  "options_in_range opts = (1 \<le> lo_requests opts \<and> lo_requests opts \<le> 10000 \<and> 1 \<le> lo_concurrency opts \<and>
     lo_concurrency opts \<le> 200 \<and> 100 \<le> lo_timeout opts \<and> lo_timeout opts \<le> 60000)"

lemma integer_option_range:
  assumes "integer_option v name least greatest = Inr n"
  shows "least \<le> n \<and> n \<le> greatest"
proof -
  define s where "s = (case v of None \<Rightarrow> [] | Some t \<Rightarrow> t)"
  obtain q where "number_of_str s = Fin q" "\<not> q < of_nat least" "\<not> of_nat greatest < q" "n = nat \<lfloor>q\<rfloor>"
    using assms unfolding integer_option_def s_def [symmetric] Let_def by (cases "number_of_str s") (auto split: if_splits)
  then have "n = nat \<lfloor>q\<rfloor>" "int least \<le> \<lfloor>q\<rfloor>" "\<lfloor>q\<rfloor> \<le> int greatest"
    using floor_mono [of "of_nat least" q] floor_mono [of q "of_nat greatest"] by (auto simp: not_less)
  then show ?thesis by (simp add: le_nat_iff nat_le_iff)
qed

lemma scan_load_range: "scan_load as opts = Inr (Some opts') \<Longrightarrow> options_in_range opts \<Longrightarrow> options_in_range opts'"
  by (induction as opts rule: scan_load.induct)
    (auto simp: options_in_range_def dest: integer_option_range split: if_splits)

text \<open>The load test only runs against a target it may load: the address is https, or http on the
  local host; the path begins with a single slash; and the numbers are within their limits.\<close>

theorem load_target_safe:
  assumes "parse_load url env argv = Inr (Some opts)"
  shows "options_in_range opts \<and> safe_path (lo_path opts) \<and>
    (\<exists>base u. lo_base opts = Some base \<and> base \<noteq> [] \<and> url base = Some u \<and> safe_target u)"
proof -
  have "options_in_range (load_defaults env)" by (simp add: options_in_range_def load_defaults_def)
  then have "options_in_range opts"
    using assms scan_load_range by (auto simp: parse_load_def split: option.splits if_splits)
  then show ?thesis
    using assms by (auto simp: parse_load_def split: option.splits if_splits)
qed

section \<open>Every request once\<close>

text \<open>The numbers of the requests that are on their way.\<close>

fun held :: "worker \<Rightarrow> nat multiset" where
  "held (Waiting n) = {#n#}"
| "held _ = {#}"

definition on_the_way :: "worker list \<Rightarrow> nat multiset" where
  "on_the_way ws = (\<Sum>w \<in># mset ws. held w)"

definition stopped :: "worker list \<Rightarrow> nat" where
  "stopped ws = count (mset ws) Finished"

lemma mset_take_out:
  assumes "i < length ws"
  obtains R where "mset ws = add_mset (ws ! i) R" "\<And>x. mset (ws[i := x]) = add_mset x R"
proof -
  have "ws ! i \<in># mset ws" using assms by simp
  then obtain R where R: "mset ws = add_mset (ws ! i) R" by (metis multi_member_split)
  then have "mset (ws[i := x]) = add_mset x R" for x
    using assms by (simp add: mset_update)
  with R show thesis using that by blast
qed

lemma on_the_way_update: "i < length ws \<Longrightarrow> on_the_way (ws[i := x]) + held (ws ! i) = on_the_way ws + held x"
  by (rule mset_take_out [of i ws]) (auto simp: on_the_way_def)

lemma stopped_update:
  "i < length ws \<Longrightarrow> ws ! i \<noteq> Finished \<Longrightarrow> stopped (ws[i := x]) = stopped ws + (if x = Finished then 1 else 0)"
  by (rule mset_take_out [of i ws]) (auto simp: stopped_def)

lemma count_status_facts:
  "sum_list (map snd (count_status k xs)) = Suc (sum_list (map snd xs))"
  "distinct (map fst xs) \<Longrightarrow> distinct (map fst (count_status k xs))"
proof -
  have keys: "set (map fst (count_status k xs)) = insert k (set (map fst xs))" for xs
  proof (induction xs)
    case (Cons p xs)
    then show ?case by (cases p) (simp add: insert_commute)
  qed simp
  show "sum_list (map snd (count_status k xs)) = Suc (sum_list (map snd xs))"
    by (induction xs) auto
  show "distinct (map fst xs) \<Longrightarrow> distinct (map fst (count_status k xs))"
  proof (induction xs)
    case (Cons p xs)
    then show ?case using keys [of xs] by (cases p) (auto simp del: set_map)
  qed simp
qed

text \<open>The state after \<open>k\<close> steps: every number below the counter was taken once and is on its way,
  answered or broken off; the statuses count the answers; a worker stops only at the end.\<close>

definition error_numbers :: "load_state \<Rightarrow> nat multiset" where
  "error_numbers s = mset (map (\<lambda>(n, e). n - 1) (ls_errors s))"

definition accounted :: "nat \<Rightarrow> nat \<Rightarrow> nat \<Rightarrow> load_state \<Rightarrow> bool" where
  "accounted requests concurrency k s = (ls_next s \<le> requests \<and> length (ls_workers s) = concurrency \<and>
     size (on_the_way (ls_workers s)) + length (ls_latencies s) + length (ls_errors s) = ls_next s \<and>
     on_the_way (ls_workers s) + error_numbers s \<subseteq># mset [0..<ls_next s] \<and>
     (\<forall>(n, e) \<in> set (ls_errors s). 1 \<le> n) \<and>
     sum_list (map snd (ls_statuses s)) = length (ls_latencies s) \<and> distinct (map fst (ls_statuses s)) \<and>
     k + size (on_the_way (ls_workers s)) = 2 * ls_next s + stopped (ls_workers s) \<and>
     (0 < stopped (ls_workers s) \<longrightarrow> ls_next s = requests))"

lemma accounted_start: "accounted requests concurrency 0 (load_start concurrency)"
proof -
  have "on_the_way (replicate n Ready) = {#}" "stopped (replicate n Ready) = 0" for n
    by (simp_all add: on_the_way_def stopped_def)
  then show ?thesis by (simp add: accounted_def load_start_def error_numbers_def)
qed

lemma accounted_step:
  assumes "accounted requests concurrency k s" "load_step requests s s'"
  shows "accounted requests concurrency (Suc k) s'"
  using assms(2)
proof cases
  case (turn i)
  have u: "on_the_way ((ls_workers s)[i := x]) = on_the_way (ls_workers s) + held x"
    "stopped ((ls_workers s)[i := x]) = stopped (ls_workers s) + (if x = Finished then 1 else 0)" for x
    using turn on_the_way_update [of i "ls_workers s" x] stopped_update [of i "ls_workers s" x] by simp_all
  show ?thesis
    using assms(1) unfolding turn(1) accounted_def error_numbers_def take_turn_def by (auto simp: u atLeast0_lessThan_Suc)
next
  case (response i n latency status)
  have u: "on_the_way (ls_workers s) = add_mset n (on_the_way ((ls_workers s)[i := Ready]))"
    "stopped ((ls_workers s)[i := Ready]) = stopped (ls_workers s)"
    using response on_the_way_update [of i "ls_workers s" Ready] stopped_update [of i "ls_workers s" Ready] by simp_all
  show ?thesis
    using assms(1) unfolding response(1) accounted_def error_numbers_def answered_with_def u(1)
    by (auto simp: u(2) count_status_facts dest: mset_subset_eq_insertD subset_mset.less_imp_le)
next
  case (rejection i n e)
  have u: "on_the_way (ls_workers s) = add_mset n (on_the_way ((ls_workers s)[i := Ready]))"
    "stopped ((ls_workers s)[i := Ready]) = stopped (ls_workers s)"
    using rejection on_the_way_update [of i "ls_workers s" Ready] stopped_update [of i "ls_workers s" Ready] by simp_all
  show ?thesis
    using assms(1) unfolding rejection(1) accounted_def error_numbers_def broken_off_def u(1)
    by (auto simp: u(2))
qed

lemma accounted_path: "(load_step requests ^^ k) (load_start concurrency) s \<Longrightarrow> accounted requests concurrency k s"
  by (induction k arbitrary: s) (auto intro: accounted_start accounted_step)

lemma running_steps:
  assumes "\<not> all_finished s"
  shows "\<exists>s'. load_step requests s s'"
proof -
  obtain i where i: "i < length (ls_workers s)" "ls_workers s ! i \<noteq> Finished"
    using assms by (auto simp: all_finished_def list_all_length)
  then show ?thesis
    by (cases "ls_workers s ! i") (auto intro: load_step.intros)
qed

lemma finished_workers:
  "stopped ws \<le> length ws" "stopped ws = length ws \<longleftrightarrow> list_all ((=) Finished) ws"
  "list_all ((=) Finished) ws \<Longrightarrow> on_the_way ws = {#}"
proof -
  show le: "stopped ws \<le> length ws" for ws using count_le_length [of ws Finished] by (simp add: stopped_def count_mset)
  show "stopped ws = length ws \<longleftrightarrow> list_all ((=) Finished) ws"
  proof (induction ws)
    case (Cons w ws)
    then show ?case using le [of ws] by (auto simp: stopped_def)
  qed (simp add: stopped_def)
  show "list_all ((=) Finished) ws \<Longrightarrow> on_the_way ws = {#}"
    by (induction ws) (auto simp: on_the_way_def)
qed

lemma finished_iff:
  assumes "accounted requests concurrency k s" "0 < concurrency"
  shows "k \<le> 2 * requests + concurrency \<and> (all_finished s \<longleftrightarrow> k = 2 * requests + concurrency)"
proof -
  have f: "stopped (ls_workers s) \<le> concurrency" "stopped (ls_workers s) = concurrency \<longleftrightarrow> all_finished s"
    "all_finished s \<Longrightarrow> on_the_way (ls_workers s) = {#}"
    using assms(1) finished_workers [of "ls_workers s"] by (auto simp: accounted_def all_finished_def)
  have a: "k + size (on_the_way (ls_workers s)) = 2 * ls_next s + stopped (ls_workers s)" "ls_next s \<le> requests"
    "0 < stopped (ls_workers s) \<longrightarrow> ls_next s = requests"
    using assms(1) by (simp_all add: accounted_def)
  show ?thesis using f a assms(2) by (cases "all_finished s") auto
qed

lemma distinct_part:
  assumes "mset xs \<subseteq># mset ys" "distinct ys"
  shows "distinct xs"
proof -
  obtain zs where "mset ys = mset (xs @ zs)"
    using assms(1) ex_mset [of "mset ys - mset xs"] by (metis mset_append subset_mset.add_diff_inverse)
  then show ?thesis using assms(2) by (metis distinct_append mset_eq_imp_distinct_iff)
qed

text \<open>C33. The load test takes the same number of steps under every interleaving of its workers, two for
  each request and one for each worker: no run is longer, a run that has not finished can go on,
  and one that has taken that many steps has finished.\<close>

theorem load_test_ends:
  assumes "(load_step requests ^^ k) (load_start concurrency) s" "0 < concurrency"
  shows "k \<le> 2 * requests + concurrency \<and> (all_finished s \<longleftrightarrow> k = 2 * requests + concurrency) \<and>
    (\<not> all_finished s \<longrightarrow> (\<exists>s'. load_step requests s s'))"
  using finished_iff [OF accounted_path [OF assms(1)] assms(2)] running_steps by blast

text \<open>C32. The report of a load test accounts for every request exactly once: the counts of the statuses
  and the errors add up to the requests asked for, no status is listed twice, and the errors name
  different requests among them.\<close>

theorem load_report_complete:
  assumes "load_result requests concurrency r" "0 < concurrency"
  shows "sum_list (map snd (rp_statuses r)) + length (rp_errors r) = requests \<and>
    distinct (map fst (rp_statuses r)) \<and> sorted (map fst (rp_statuses r)) \<and>
    distinct (map fst (rp_errors r)) \<and> fst ` set (rp_errors r) \<subseteq> {1..requests}"
  using assms(1)
proof cases
  case (1 s duration)
  obtain k where "(load_step requests ^^ k) (load_start concurrency) s"
    using 1(2) rtranclp_imp_relpowp by metis
  then have a: "accounted requests concurrency k s" by (rule accounted_path)
  have w: "on_the_way (ls_workers s) = {#}" "stopped (ls_workers s) = concurrency"
    using a 1(3) finished_workers [of "ls_workers s"] by (auto simp: accounted_def all_finished_def)
  then have n: "ls_next s = requests" "error_numbers s \<subseteq># mset_set {0..<requests}"
    "length (ls_latencies s) + length (ls_errors s) = requests" "\<forall>(n, e) \<in> set (ls_errors s). 1 \<le> n"
    "sum_list (map snd (ls_statuses s)) = length (ls_latencies s)" "distinct (map fst (ls_statuses s))"
    using a assms(2) by (auto simp: accounted_def)
  have "mset (map snd (sort_key fst (ls_statuses s))) = mset (map snd (ls_statuses s))"
    "mset (map fst (sort_key fst (ls_statuses s))) = mset (map fst (ls_statuses s))" by simp_all
  then have st: "sum_list (map snd (sort_key fst (ls_statuses s))) = sum_list (map snd (ls_statuses s))"
    "distinct (map fst (sort_key fst (ls_statuses s)))"
    using n(6) by (metis sum_mset_sum_list, metis mset_eq_imp_distinct_iff)
  have shift: "map (\<lambda>(n, e). n - 1) (ls_errors s) = map (\<lambda>n. n - 1) (map fst (ls_errors s))" by auto
  have "distinct (map (\<lambda>(n, e). n - 1) (ls_errors s))"
    using n(2) unfolding error_numbers_def mset_upt [symmetric] by (rule distinct_part) simp
  then have "distinct (map fst (ls_errors s))" unfolding shift by (rule distinct_map [THEN iffD1, THEN conjunct1])
  moreover have "fst ` set (ls_errors s) \<subseteq> {1..requests}"
  proof -
    have "n - 1 < requests" if "(n, e) \<in> set (ls_errors s)" for n e
    proof -
      have "n - 1 \<in># error_numbers s" using that by (force simp: error_numbers_def)
      then have "n - 1 \<in># mset_set {0..<requests}" using n(2) by (rule mset_subset_eqD [rotated])
      then show ?thesis by simp
    qed
    then show ?thesis using n(4) by fastforce
  qed
  ultimately show ?thesis
    using n st by (simp add: 1(1) load_report_def)
qed

section \<open>Percentiles\<close>

lemma percentile_in_range:
  assumes "0 < n" "n < 2 ^ 53" "wanted \<le> 100"
  obtains k where "percentile_index n wanted = Fin (of_nat k)" "k < n"
proof -
  obtain x where x: "double_of (of_nat wanted / 100) = Fin x" "0 \<le> x" "x \<le> 1"
    by (rule double_of_between [of "of_nat wanted / 100" 1]) (use assms(3) in auto)
  have le: "x * of_nat n \<le> 1 * of_nat n" using x(3) by (intro mult_right_mono) simp_all
  obtain y where y: "double_of (x * of_nat n) = Fin y" "0 \<le> y" "y \<le> of_nat n"
    by (rule double_of_between [of "x * of_nat n" n]) (use le x(2) assms(2) in auto)
  have c: "0 \<le> \<lceil>y\<rceil>" "\<lceil>y\<rceil> \<le> int n" using y(2,3) by (simp_all add: ceiling_le_iff)
  have "safe_int (j - 1)" if "0 \<le> j" "j \<le> int n" for j
    using that assms(2) by (simp add: safe_int_def)
  then have "safe_int (\<lceil>y\<rceil> - 1)" using c by blast
  then have a: "double_of (of_int (\<lceil>y\<rceil> - 1)) = Fin (of_int (\<lceil>y\<rceil> - 1))" by (rule double_of_safe)
  have "percentile_index n wanted = num_max (Fin 0) (Fin (of_int (\<lceil>y\<rceil> - 1)))"
    using a by (simp add: percentile_index_def x(1) y(1))
  also have "\<dots> = Fin (of_nat (nat (\<lceil>y\<rceil> - 1)))"
    using c by (cases "\<lceil>y\<rceil> = 0") (auto simp: num_max_def)
  finally show thesis using that c assms(1) by fastforce
qed

text \<open>Every percentile the load test reports is one of the measured latencies, rounded to two
  decimals: the index never leaves the list, and without a sample there is no percentile.\<close>

theorem percentile_is_sample:
  assumes "wanted \<le> 100" "length latencies < 2 ^ 53"
  shows "(latencies = [] \<longrightarrow> percentile (sort latencies) wanted = None) \<and>
    (latencies \<noteq> [] \<longrightarrow> (\<exists>l \<in> set latencies. percentile (sort latencies) wanted = Some (rounded (Fin l))))"
proof (cases "latencies = []")
  case False
  then obtain k where k: "percentile_index (length latencies) wanted = Fin (of_nat k)" "k < length latencies"
    using percentile_in_range [of "length latencies" wanted] assms by auto
  then have "sort latencies ! k \<in> set latencies" by (metis length_sort nth_mem set_sort)
  moreover have "sort latencies \<noteq> []" using False by (metis length_sort length_0_conv)
  ultimately show ?thesis using False k by (auto simp: percentile_def)
qed (simp add: percentile_def)

section \<open>Concrete runs\<close>

definition shop_address :: "jsstr \<Rightarrow> parsed_url option" where
  "shop_address s = Some \<lparr>pu_protocol = js ''https:'', pu_hostname = js ''shop''\<rparr>"

theorem load_target_safe_witness:
  "\<exists>opts. parse_load shop_address (Some (js ''https://shop'')) [js ''--json''] = Inr (Some opts) \<and> safe_path (lo_path opts)"
proof -
  have "safe_path (Some (js ''/api/v1/models''))" by code_simp
  then obtain opts where p: "parse_load shop_address (Some (js ''https://shop'')) [js ''--json''] = Inr (Some opts)"
    by (auto simp: parse_load_def load_defaults_def shop_address_def safe_target_def)
  show ?thesis using load_target_safe [OF p] p by blast
qed

theorem load_test_ends_witness: "\<exists>s'. load_step 5 (load_start 2) s'"
proof -
  have "(load_step 5 ^^ 0) (load_start 2) (load_start 2)" "\<not> all_finished (load_start 2)"
    by (simp_all add: all_finished_def load_start_def numeral_2_eq_2)
  then show ?thesis using load_test_ends [of 0 5 2 "load_start 2", OF _ zero_less_numeral] by blast
qed

lemma one_request: "\<exists>r. load_result 1 1 r"
proof -
  define s1 where "s1 = take_turn 1 0 (load_start 1)"
  define s2 where "s2 = answered_with 0 7 200 s1"
  define s3 where "s3 = take_turn 1 0 s2"
  have "load_step 1 (load_start 1) s1"
    unfolding s1_def by (rule load_step.turn) (simp_all add: load_start_def)
  moreover have "load_step 1 s1 s2"
    unfolding s2_def by (rule load_step.response [where n = 0]) (simp_all add: s1_def take_turn_def load_start_def)
  moreover have "load_step 1 s2 s3"
    unfolding s3_def by (rule load_step.turn) (simp_all add: s2_def s1_def answered_with_def take_turn_def load_start_def)
  moreover have "all_finished s3"
    by (simp add: s3_def s2_def s1_def answered_with_def take_turn_def load_start_def all_finished_def)
  ultimately show ?thesis
    by (intro exI [of _ "load_report 1 1 (Fin 9) s3"] load_result.intros) auto
qed

theorem load_report_complete_witness:
  "\<exists>r. load_result 1 1 r \<and> sum_list (map snd (rp_statuses r)) + length (rp_errors r) = 1"
proof -
  obtain r where r: "load_result 1 1 r" using one_request by blast
  show ?thesis using load_report_complete [OF r zero_less_one] r by blast
qed

theorem percentile_is_sample_witness:
  "\<exists>l \<in> set [3, 1]. percentile (sort [3, 1]) 50 = Some (rounded (Fin l))"
proof -
  have "(50 :: nat) \<le> 100" "length [3 :: rat, 1] < 2 ^ 53" by simp_all
  from percentile_is_sample [OF this] show ?thesis by (rule conjunct2 [THEN mp]) simp
qed

end
