(* ===== verification/CertificatePoll.thy ===== *)
theory CertificatePoll
  imports Client
begin

text \<open>
  Waiting for a certificate to be anchored (\<open>scripts/certificate-poll.mjs\<close>, with its default number
  of attempts and delay, which its caller uses) and the lines that report its proof
  (\<open>scripts/proof-links.mjs\<close>). The loop is an instance of the retry contract of \<open>Env\<close>: a
  certificate that is not anchored yet and an error that may pass are both reasons to go round.
\<close>

section \<open>The loop\<close>

definition poll_attempts :: nat where
  "poll_attempts = 11"

definition poll_delay :: nat where
  "poll_delay = 2000"

definition anchored_status :: "jsval \<Rightarrow> bool" where
  "anchored_status v = (v \<in> {Str (js ''anchored''), Str (js ''sandbox'')})"

fun retryable_verification :: "js_error \<Rightarrow> bool" where
  "retryable_verification (PrintwrightError m status b) = (case status of None \<Rightarrow> True
     | Some n \<Rightarrow> n = Fin 429 \<or> num_le (Fin 500) n)"
| "retryable_verification _ = False"

text \<open>The variables of the loop, with the log of its attempts and pauses for the statements below.\<close>

datatype poll_event = Attempt | Pause nat

record 'w polling =
  po_session :: "'w session"
  po_last :: "jsval option"
  po_waited :: bool
  po_log :: "poll_event list"

text \<open>One attempt: the end of the loop (\<open>Inr\<close>) with a certificate or an error to throw, or the reason
  to go round (\<open>Inl\<close>), with the certificate and the error that are kept for the end.\<close>

type_synonym poll_reason = "jsval option \<times> js_error option"

definition poll_once ::
  "('w, jsval) prog \<Rightarrow> 'w polling \<Rightarrow> (poll_reason + (js_error + jsval)) \<times> 'w polling" where
  "poll_once verify p = (case verify (po_session p) of
     (Inr c, s) \<Rightarrow>
       (let p' = p\<lparr>po_session := s, po_last := Some c, po_log := po_log p @ [Attempt]\<rparr> in
        (case get_prop c (js ''status'') of
           Inl e \<Rightarrow> (Inr (Inl e), p')
         | Inr status \<Rightarrow> (if anchored_status status then Inr (Inr c) else Inl (Some c, None), p')))
   | (Inl e, s) \<Rightarrow>
       (if retryable_verification e then Inl (po_last p, Some e) else Inr (Inl e),
        p\<lparr>po_session := s, po_log := po_log p @ [Attempt]\<rparr>))"

text \<open>Before the next attempt: \<open>onWait\<close> after the first one, then the delay.\<close>

definition poll_pause :: "nat \<Rightarrow> 'w polling \<Rightarrow> 'w polling" where
  "poll_pause n p = p\<lparr>po_session := note_event (Slept poll_delay) (po_session p),
     po_waited := (po_waited p \<or> n = 1), po_log := po_log p @ [Pause n]\<rparr>"

text \<open>After the last attempt: the last certificate, if there was any, else the last error. (Without a
  certificate every attempt failed, so there is an error.)\<close>

definition poll_end :: "poll_reason \<Rightarrow> js_error + jsval" where
  "poll_end r = (case r of (Some c, e) \<Rightarrow> if truthy c then Inr c
       else (case e of Some e \<Rightarrow> Inl e | None \<Rightarrow> Inl (PlainErr (js ''undefined'')))
     | (None, Some e) \<Rightarrow> Inl e | (None, None) \<Rightarrow> Inl (PlainErr (js ''undefined'')))"

function poll_from :: "('w, jsval) prog \<Rightarrow> nat \<Rightarrow> 'w polling \<Rightarrow> (js_error + jsval) \<times> 'w polling" where
  "poll_from verify n p = (case poll_once verify p of
     (Inr r, p') \<Rightarrow> (r, p')
   | (Inl reason, p') \<Rightarrow> if n < poll_attempts then poll_from verify (Suc n) (poll_pause n p')
       else (poll_end reason, p'))"
  by pat_completeness auto
termination
  by (relation "measure (\<lambda>(verify, n, p). poll_attempts - n)") auto

declare poll_from.simps [simp del]

definition polling_start :: "'w session \<Rightarrow> 'w polling" where
  "polling_start s = \<lparr>po_session = s, po_last = None, po_waited = False, po_log = []\<rparr>"

definition wait_for_certificate :: "('w, jsval) prog \<Rightarrow> 'w session \<Rightarrow> (js_error + jsval) \<times> 'w polling" where
  "wait_for_certificate verify s = poll_from verify 1 (polling_start s)"

section \<open>The proof links\<close>

text \<open>\<open>url.replace(/\\/messages\\/\\d+$/, "")\<close>\<close>

definition drop_message :: "jsstr \<Rightarrow> jsstr" where
  "drop_message u = (let digits = takeWhile is_digit (rev u); r = drop (length digits) (rev u); m = rev (js ''/messages/'') in
     if digits \<noteq> [] \<and> take (length m) r = m then rev (drop (length m) r) else u)"

definition proof_lines :: "jsval \<Rightarrow> jsstr \<Rightarrow> jsval \<Rightarrow> js_error + jsstr list" where
  "proof_lines cert base_url cert_id = (let hedera = opt_prop cert (js ''hedera''); mirror = opt_prop hedera (js ''mirror_url'') in
     if truthy mirror then
       bindE (if truthy (opt_prop hedera (js ''sandbox''))
         then bindE (string_of (opt_prop hedera (js ''topic_id''))) (\<lambda>t. Inr (t @ js '' (LOCAL SANDBOX ONLY)''))
         else (case mirror of Str u \<Rightarrow> Inr (drop_message u) | _ \<Rightarrow> Inl (TypeErr (js ''replace is not a function'')))) (\<lambda>topic.
       bindE (string_of mirror) (\<lambda>m. bindE (string_of (coalesce (opt_prop cert (js ''commitment'')) (Str (js ''(pending)'')))) (\<lambda>c.
       Inr [js ''   HCS topic:   '' @ topic, js ''   Mirror node: '' @ m, js ''   Commitment:  '' @ c])))
     else bindE (string_of (coalesce (opt_prop cert (js ''status'')) (Str (js ''unknown'')))) (\<lambda>status.
       bindE (string_of cert_id) (\<lambda>i. Inr
       [js ''   HCS topic:   pending '' @ [0x2014] @ js '' the certificate is still minting (status: '' @ status @ js '')'',
        js ''   Mirror node: pending '' @ [0x2014] @ js '' the anchor appears once minting completes'',
        js ''   Re-run:      node verifier/cli.js '' @ base_url @ js ''/api/v1/certificates/'' @ i,
        js ''                (fetches the bundle live, so it verifies as soon as it anchors)''])))"

section \<open>The schedule of the loop\<close>

lemma poll_once_log: "po_log (snd (poll_once verify p)) = po_log p @ [Attempt]"
  by (auto simp: poll_once_def Let_def split: prod.splits sum.splits)

interpretation poll: bounded_retry "poll_once verify" poll_pause "\<lambda>r. True" poll_end poll_attempts
    "poll_from verify" po_log Attempt Pause for verify
proof
  show "poll_from verify n s = (case poll_once verify s of
       (Inl e, s') \<Rightarrow> if True \<and> n < poll_attempts then poll_from verify (Suc n) (poll_pause n s') else (poll_end e, s')
     | (Inr r, s') \<Rightarrow> (r, s'))" if "1 \<le> n" "n \<le> poll_attempts" for n s
    by (subst poll_from.simps) (auto split: prod.splits sum.splits)
qed (simp_all add: poll_once_log poll_pause_def)

lemma poll_once_Inr:
  assumes "poll_once verify p = (Inr (Inr c), p')"
  shows "anchored_status (opt_prop c (js ''status''))"
  using assms by (auto simp: poll_once_def Let_def get_prop_def split: prod.splits sum.splits if_splits)

lemma poll_once_thrown:
  assumes "poll_once verify p = (Inr (Inl e), p')"
  shows "\<not> retryable_verification e"
  using assms by (auto simp: poll_once_def Let_def get_prop_def split: prod.splits sum.splits if_splits)

text \<open>C34. The buyer's script asks for the certificate between one and eleven times, with a pause before
  every further attempt, and always comes to an end. It ends early only with an anchored
  certificate or with an error that waiting cannot cure; otherwise it has made all eleven attempts.\<close>

theorem certificate_poll_bounded:
  assumes "wait_for_certificate verify s = (r, p)"
  shows "\<exists>m. 1 \<le> m \<and> m \<le> 11 \<and> po_log p = Attempt # concat (map (\<lambda>k. [Pause k, Attempt]) [1..<m]) \<and>
    (m < 11 \<longrightarrow> (\<forall>c. r = Inr c \<longrightarrow> anchored_status (opt_prop c (js ''status''))) \<and> (\<forall>e. r = Inl e \<longrightarrow> \<not> retryable_verification e))"
proof -
  obtain m out where m: "1 \<le> m" "m \<le> poll_attempts"
    "po_log (snd (poll_from verify 1 (polling_start s))) = po_log (polling_start s) @ poll.schedule 1 m"
    "fst (poll_from verify 1 (polling_start s)) = (case out of Inl e \<Rightarrow> poll_end e | Inr r \<Rightarrow> r)"
    "\<forall>e. out = Inl e \<longrightarrow> True \<longrightarrow> m = poll_attempts"
    "\<exists>s1. poll_once verify s1 = (out, snd (poll_from verify 1 (polling_start s)))"
    using poll.run_schedule [of verify "polling_start s"] by (auto simp: poll_attempts_def)
  have w: "poll_from verify 1 (polling_start s) = (r, p)" using assms by (simp add: wait_for_certificate_def)
  have log: "po_log p = Attempt # concat (map (\<lambda>k. [Pause k, Attempt]) [1..<m])"
    using m(3) w by (simp add: poll.schedule_def polling_start_def)
  obtain s1 where s1: "poll_once verify s1 = (out, p)" using m(6) w by auto
  have "(\<forall>c. r = Inr c \<longrightarrow> anchored_status (opt_prop c (js ''status''))) \<and> (\<forall>e. r = Inl e \<longrightarrow> \<not> retryable_verification e)" if "m < 11"
  proof -
    have "out = Inr r" using m(4,5) w that by (auto simp: poll_attempts_def split: sum.splits)
    then show ?thesis using s1 poll_once_Inr poll_once_thrown by blast
  qed
  then show ?thesis using m(1,2) log by (intro exI [of _ m]) (auto simp: poll_attempts_def)
qed

theorem certificate_poll_bounded_witness:
  "\<exists>r p. wait_for_certificate (client_verify self_platform self_client (Str (js ''c''))) empty_session = (r, p) \<and>
     length (po_log p) \<le> 21"
proof -
  obtain r and p :: "unit polling" where w: "wait_for_certificate (client_verify self_platform self_client (Str (js ''c''))) empty_session = (r, p)"
    by fastforce
  obtain m where "m \<le> 11" "po_log p = Attempt # concat (map (\<lambda>k. [Pause k, Attempt]) [1..<m])"
    using certificate_poll_bounded [OF w] by blast
  moreover have "length (concat (map (\<lambda>k. [Pause k, Attempt]) [1..<m])) = 2 * (m - 1)"
    by (simp add: length_concat sum_list_triv comp_def)
  ultimately show ?thesis using w by auto
qed

end
