(* ===== verification/Script.thy ===== *)
theory Script
  imports Env
begin

text \<open>
  The command-line programs of the repository: a program of \<open>Env\<close> that may also end the process. What
  it prints with \<open>console.log\<close> is an event of the trace; the message it dies with goes to standard
  error and is the value it ends in.
\<close>

datatype stop =
    Died jsstr
  | Usage
  | Quit
  | Threw js_error

type_synonym ('w, 'a) script = "('w session, stop, 'a) act"

definition run_js :: "('w, 'a) prog \<Rightarrow> ('w, 'a) script" where
  "run_js p = (\<lambda>s. case p s of (Inl e, s') \<Rightarrow> (Inl (Threw e), s') | (Inr x, s') \<Rightarrow> (Inr x, s'))"

definition log_call :: jsstr where
  "log_call = js ''console.log''"

definition say :: "jsstr \<Rightarrow> ('w, unit) script" where
  "say line = (\<lambda>s. (Inr (), note_event (Called log_call [Str line]) s))"

definition die_if :: "bool \<Rightarrow> jsstr \<Rightarrow> ('w, unit) script" where
  "die_if b m = (if b then throwM (Died m) else retM ())"

definition newline :: jsstr where
  "newline = [10]"

lemma emits_run_js [trace_rules]: "emits P p \<Longrightarrow> emits P (run_js p)"
  unfolding emits_def run_js_def by (auto split: prod.splits sum.splits)

lemma at_most_run_js: "at_most Q n p \<Longrightarrow> at_most Q n (run_js p)"
  unfolding at_most_def run_js_def by (auto split: prod.splits sum.splits)

lemma run_js_Inr [run_iffs]: "run_js p s = (Inr x, s') \<longleftrightarrow> p s = (Inr x, s')"
  by (auto simp: run_js_def split: prod.splits sum.splits)

text \<open>\<open>fetch(url)\<close> with no further options\<close>

definition plain_get :: "jsstr \<Rightarrow> http_request" where
  "plain_get url = \<lparr>req_method = js ''GET'', req_url = url, req_headers = [], req_body = None\<rparr>"

lemma die_if_Inr [run_iffs]: "die_if b m s = (Inr x, s') \<longleftrightarrow> \<not> b \<and> s' = s"
  by (auto simp: die_if_def run_iffs)

lemma quiet_die_if: "emits P (die_if b m)"
  unfolding die_if_def by (auto intro: trace_rules)

end
