(* ===== verification/BuyScript.thy ===== *)
theory BuyScript
  imports Mcp CertificatePoll CheckoutView Script
begin

text \<open>
  The command-line buyer (\<open>scripts/buy.mjs\<close>): its arguments, the search and choice of a model, the
  quote, the payment and the files it writes, as one program over the client of \<open>Client\<close>. A run of
  the script ends in one of the ways of \<open>stop\<close>, or normally; what it prints is in the trace. The
  lemmas say when it asks for a signature and what the price limit really limits.
\<close>

section \<open>Arguments\<close>

record buy_args =
  ba_query :: "jsstr option"
  ba_license :: "jsstr option"
  ba_asset :: "jsstr option"
  ba_max_price :: "jsnum option"
  ba_dry_run :: bool
  ba_sandbox :: bool

definition buy_defaults :: buy_args where
  "buy_defaults = \<lparr>ba_query = None, ba_license = Some (js ''personal''), ba_asset = None, ba_max_price = None,
     ba_dry_run = False, ba_sandbox = False\<rparr>"

text \<open>\<open>argv[++i]\<close>, which is \<open>undefined\<close> past the end; \<open>Number(undefined)\<close> is NaN.\<close>

definition argument :: "jsstr list \<Rightarrow> jsstr option" where
  "argument as = (case as of [] \<Rightarrow> None | a # _ \<Rightarrow> Some a)"

definition argument_number :: "jsstr list \<Rightarrow> jsnum" where
  "argument_number as = (case as of [] \<Rightarrow> NaN | a # _ \<Rightarrow> number_of_str a)"

fun scan_buy :: "jsstr list \<Rightarrow> buy_args \<Rightarrow> stop + buy_args" where
  "scan_buy [] opts = Inr opts"
| "scan_buy (a # as) opts =
     (if a = js ''--query'' then scan_buy (tl as) (opts\<lparr>ba_query := argument as\<rparr>)
      else if a = js ''--license'' then scan_buy (tl as) (opts\<lparr>ba_license := argument as\<rparr>)
      else if a = js ''--asset'' then scan_buy (tl as) (opts\<lparr>ba_asset := map_option ascii_lower (argument as)\<rparr>)
      else if a = js ''--max-price'' then scan_buy (tl as) (opts\<lparr>ba_max_price := Some (argument_number as)\<rparr>)
      else if a = js ''--dry-run'' then scan_buy as (opts\<lparr>ba_dry_run := True\<rparr>)
      else if a = js ''--sandbox'' then scan_buy as (opts\<lparr>ba_sandbox := True\<rparr>)
      else if a = js ''--help'' \<or> a = js ''-h'' then Inl Usage
      else Inl (Died (js ''unknown argument: '' @ a)))"

definition given_text :: "jsstr option \<Rightarrow> bool" where
  "given_text v = (v \<noteq> None \<and> v \<noteq> Some [])"

definition parse_buy :: "jsstr list \<Rightarrow> stop + buy_args" where
  "parse_buy argv = bindE (scan_buy argv buy_defaults) (\<lambda>opts.
     if given_text (ba_asset opts) \<and> ba_asset opts \<notin> {Some (js ''usdc''), Some (js ''hbar'')}
     then Inl (Died (js ''--asset must be usdc or hbar''))
     else if ba_sandbox opts \<and> given_text (ba_asset opts)
     then Inl (Died (js ''--sandbox uses fake sandbox credit; omit --asset''))
     else Inr opts)"

section \<open>Printing\<close>

definition step_line :: "jsstr \<Rightarrow> jsstr" where
  "step_line m = newline @ js ''=> '' @ m"

definition indent :: "jsstr \<Rightarrow> nat \<Rightarrow> jsstr" where
  "indent t n = intersperse newline (map (\<lambda>l. replicate n 32 @ l) (split_on 10 t))"

definition pad_start :: "nat \<Rightarrow> jsstr \<Rightarrow> jsstr" where
  "pad_start n s = replicate (n - length s) 32 @ s"

section \<open>Choosing\<close>

fun first_offer :: "jsstr option \<Rightarrow> jsval list \<Rightarrow> js_error + jsval option" where
  "first_offer license [] = Inr None"
| "first_offer license (a # as) = bindE (get_prop a (js ''kind'')) (\<lambda>kind.
     if strict_eq kind (optional_text license) then Inr (Some a) else first_offer license as)"

definition pick_offer :: "jsstr option \<Rightarrow> jsval \<Rightarrow> js_error + jsval" where
  "pick_offer license model = bindE (get_prop model (js ''license_offers'')) (\<lambda>offers.
     bindE (listed offers) (\<lambda>as. bindE (first_offer license as) (\<lambda>found. Inr (case found of
        Some a \<Rightarrow> a | None \<Rightarrow> (case as of [] \<Rightarrow> Undef | a # _ \<Rightarrow> a)))))"

definition money :: "jsval \<Rightarrow> js_error + jsstr" where
  "money a = bindE (get_prop a (js ''price_cents'')) (\<lambda>price. bindE (number_of price) (\<lambda>cents.
     bindE (string_of (opt_prop a (js ''currency''))) (\<lambda>currency.
       Inr (to_fixed 2 (num_div cents 100) @ js '' USDC ('' @ currency @ js ''-lead)''))))"

definition model_line :: "jsstr option \<Rightarrow> jsval \<Rightarrow> js_error + jsstr" where
  "model_line license m = bindE (pick_offer license m) (\<lambda>a. bindE (string_of (opt_prop m (js ''id''))) (\<lambda>i.
     case opt_prop m (js ''title'') of
       Str t \<Rightarrow> bindE (money a) (\<lambda>price. Inr (js ''   '' @ pad_start 4 i @ js ''  '' @ pad_end 40 t @ js '' '' @ price))
     | _ \<Rightarrow> Inl (TypeErr (js ''padEnd is not a function''))))"

text \<open>\<open>args.maxPrice && offer.price_cents > args.maxPrice\<close>: no limit when the argument is not a number.\<close>

definition too_dear :: "jsnum option \<Rightarrow> jsval \<Rightarrow> js_error + bool" where
  "too_dear limit a = (case limit of None \<Rightarrow> Inr False
     | Some x \<Rightarrow> if truthy (Num x) then bindE (get_prop a (js ''price_cents'')) (\<lambda>price.
         bindE (number_of price) (\<lambda>p. Inr (num_lt x p))) else Inr False)"

fun say_models :: "jsstr option \<Rightarrow> jsval list \<Rightarrow> ('w, unit) script" where
  "say_models license [] = retM ()"
| "say_models license (m # ms) = bindM (run_js (liftM (model_line license m))) (\<lambda>l.
     bindM (say l) (\<lambda>_. say_models license ms))"

text \<open>The search; the result is the model to buy.\<close>

definition search_models :: "'w platform \<Rightarrow> client \<Rightarrow> buy_args \<Rightarrow> ('w, jsval) script" where
  "search_models pf cl opts = (let q = text_or_empty (optional_text (ba_query opts)) in
     bindM (say (step_line (js ''searching for \"'' @ q @ js ''\"''))) (\<lambda>_.
     bindM (run_js (search pf cl (Str q) (case ba_max_price opts of None \<Rightarrow> Undef | Some x \<Rightarrow> Num x) Undef Undef Undef Undef)) (\<lambda>found.
     bindM (run_js (liftM (get_prop found (js ''count'')))) (\<lambda>count.
     bindM (die_if (strict_eq count (Num (Fin 0))) (js ''no models matched'')) (\<lambda>_.
     bindM (run_js (liftM (listed (opt_prop found (js ''models''))))) (\<lambda>ms.
     bindM (say_models (ba_license opts) (take 5 ms)) (\<lambda>_.
     let model = (case ms of [] \<Rightarrow> Undef | m # _ \<Rightarrow> m) in
     bindM (run_js (liftM (pick_offer (ba_license opts) model))) (\<lambda>a.
     bindM (run_js (liftM (too_dear (ba_max_price opts) a))) (\<lambda>dear.
     bindM (die_if dear (js ''top result exceeds --max-price'')) (\<lambda>_.
     bindM (run_js (liftM (bindE (money a) (\<lambda>price. bindE (string_of (opt_prop model (js ''id''))) (\<lambda>i.
        bindE (string_of (opt_prop model (js ''title''))) (\<lambda>t. Inr (js ''   -> buying #'' @ i @ js '' \"'' @ t @ js ''\" ('' @
          template (ba_license opts) @ js '', '' @ price @ js '')''))))))) (\<lambda>l.
     bindM (say l) (\<lambda>_. retM model))))))))))))"

section \<open>Paying\<close>

definition asset_label :: "buy_args \<Rightarrow> jsstr \<Rightarrow> jsval \<Rightarrow> jsstr" where
  "asset_label opts network accept = (if ba_sandbox opts then js ''SANDBOX CREDIT (no funds)''
     else if opt_prop accept (js ''asset'') = Str (usdc_id network) then js ''USDC'' else js ''HBAR'')"

definition paying_line :: "buy_args \<Rightarrow> jsstr \<Rightarrow> jsval \<Rightarrow> js_error + jsstr" where
  "paying_line opts network accept = bindE (string_of (opt_prop accept (js ''amount''))) (\<lambda>amount.
     bindE (string_of (opt_prop accept (js ''payTo''))) (\<lambda>to.
       Inr (js ''   paying with '' @ asset_label opts network accept @ js '': '' @ amount @ js '' base units -> '' @ to)))"

definition take_quote ::
  "'w platform \<Rightarrow> client \<Rightarrow> registry \<Rightarrow> jsstr \<Rightarrow> buy_args \<Rightarrow> jsval \<Rightarrow> ('w, quote \<times> registry) script" where
  "take_quote pf cl reg base opts model =
     bindM (run_js (liftM (string_of (opt_prop model (js ''id''))))) (\<lambda>i.
     bindM (say (step_line (js ''GET '' @ base @ js ''/api/v1/models/'' @ i @ js ''/download?license='' @ template (ba_license opts)))) (\<lambda>_.
     bindM (run_js (quote_op pf cl reg (opt_prop model (js ''id'')) (optional_text (ba_license opts)) (optional_text (ba_asset opts)))) (\<lambda>(q, reg').
     bindM (say (js ''   402 Payment Required '' @ [0x2014] @ js '' the server's PaymentRequired object:'')) (\<lambda>_.
     bindM (say (indent (joined (stringify_indent [] (q_required q))) 3)) (\<lambda>_.
     bindM (run_js (liftM (paying_line opts (cl_network cl) (q_accepted q)))) (\<lambda>l.
     bindM (say l) (\<lambda>_. retM (q, reg'))))))))"

definition pay_for :: "'w platform \<Rightarrow> client \<Rightarrow> registry \<Rightarrow> buy_args \<Rightarrow> quote \<Rightarrow> ('w, jsval) script" where
  "pay_for pf cl reg opts q =
     bindM (say (step_line (if ba_sandbox opts then js ''sending the mock sandbox payment (no key, funds, or Hedera transaction)''
       else js ''associating USDC if needed, then signing + retrying (buyer signature only; facilitator pays fees)''))) (\<lambda>_.
     bindM (run_js (buy pf cl reg Undef Undef Undef (Some q))) (\<lambda>(body, reg'). retM body))"

section \<open>The files\<close>

text \<open>The saved files are under the working directory; \<open>purchases/\<close> and the slug of the model make
  the directory.\<close>

definition purchase_dir :: "'w storage \<Rightarrow> jsval \<Rightarrow> js_error + jsstr list" where
  "purchase_dir st model = (case opt_prop model (js ''slug'') of
     Str slug \<Rightarrow> Inr (path_join (path_parts (st_cwd st)) (js ''purchases/'' @ slug))
   | _ \<Rightarrow> Inl (TypeErr (js ''The path argument must be of type string'')))"

text \<open>\<open>join("purchases", slug, name)\<close> as it is printed: a relative path, normalised.\<close>

fun relative_parts :: "jsstr list \<Rightarrow> jsstr list \<Rightarrow> jsstr list" where
  "relative_parts acc [] = rev acc"
| "relative_parts acc (p # ps) = (if p = [] \<or> p = js ''.'' then relative_parts acc ps
     else if p = js ''..'' \<and> acc \<noteq> [] \<and> hd acc \<noteq> js ''..'' then relative_parts (tl acc) ps
     else relative_parts (p # acc) ps)"

definition shown_path :: "jsstr \<Rightarrow> jsstr \<Rightarrow> jsstr" where
  "shown_path slug name = intersperse (js ''/'') (relative_parts []
     (split_on (jc (CHR ''/'')) (js ''purchases/'' @ slug @ js ''/'' @ name)))"

definition iterated :: "jsval \<Rightarrow> js_error + jsval list" where
  "iterated v = (case v of Arr vs \<Rightarrow> Inr vs | Str s \<Rightarrow> Inr (map (\<lambda>c. Str [c]) s)
     | _ \<Rightarrow> Inl (TypeErr (js ''is not iterable'')))"

definition kind_name :: "jsstr \<Rightarrow> jsval \<Rightarrow> js_error + jsstr" where
  "kind_name slug v = bindE (string_of (opt_prop v (js ''kind''))) (\<lambda>kind. Inr (slug @ js ''.'' @ kind))"

fun save_purchase :: "'w storage \<Rightarrow> jsstr list \<Rightarrow> jsstr \<Rightarrow> jsval list \<Rightarrow> ('w, unit) script" where
  "save_purchase st dir slug [] = retM ()"
| "save_purchase st dir slug (v # vs) =
     bindM (run_js (bindM (liftM (bindE (get_prop v (js ''url'')) string_of)) (\<lambda>a.
       callM (\<lambda>_. st_fetch st a) (js ''fetch'') [Str a]))) (\<lambda>(code, bs).
     bindM (die_if (\<not> (200 \<le> code \<and> code < 300)) (js ''file download failed: '' @ dec_str code)) (\<lambda>_.
     bindM (run_js (liftM (kind_name slug v))) (\<lambda>name.
     bindM (run_js (save_to st dir name bs)) (\<lambda>_.
     bindM (say (js ''   file:        '' @ shown_path slug name)) (\<lambda>_.
       save_purchase st dir slug vs)))))"

definition json_file :: "'w storage \<Rightarrow> jsstr list \<Rightarrow> string \<Rightarrow> jsval \<Rightarrow> ('w, jsval) script" where
  "json_file st dir name v = run_js (save_to st dir (js name) (utf8_encode (joined (stringify_indent [] v))))"

text \<open>\<open>{ match, onchain, consensus_timestamp, status, ...bundle }\<close>: the rest of the certificate.\<close>

definition without :: "jsstr list \<Rightarrow> jsval \<Rightarrow> jsval" where
  "without ks v = Obj (filter (\<lambda>(k, x). k \<notin> set ks) (spread v))"

definition proof_bundle_of :: "jsval \<Rightarrow> jsval" where
  "proof_bundle_of cert = without [js ''match'', js ''onchain'', js ''consensus_timestamp'', js ''status''] cert"

text \<open>The wait, as a part of the script: what it says while it waits is said once it is over.\<close>

definition await_certificate :: "'w platform \<Rightarrow> client \<Rightarrow> jsval \<Rightarrow> ('w, jsval) script" where
  "await_certificate pf cl cert_id = (\<lambda>s. case wait_for_certificate (client_verify pf cl cert_id) s of (r, p) \<Rightarrow>
     (map_sum Threw id r,
      if po_waited p
      then note_event (Called log_call [Str (step_line (js ''waiting for the HCS certificate to anchor (mirror-node lag is a few seconds)''))]) (po_session p)
      else po_session p))"

definition license_line :: "jsval \<Rightarrow> js_error + jsstr" where
  "license_line license = bindE (string_of (opt_prop license (js ''cert_id''))) (\<lambda>i.
     bindE (string_of (opt_prop license (js ''kind''))) (\<lambda>kind.
     bindE (if nullish (opt_prop license (js ''serial'')) then Inr []
       else bindE (string_of (opt_prop license (js ''serial''))) (\<lambda>n. Inr (js '', unit serial '' @ n))) (\<lambda>serial.
       Inr (newline @ js ''   License:     '' @ i @ em_dash @ kind @ serial))))"

definition closing_lines :: "jsstr \<Rightarrow> jsval \<Rightarrow> jsval \<Rightarrow> js_error + jsstr list" where
  "closing_lines base body cert = (let license = opt_prop body (js ''license''); rehearsal = truthy (opt_prop body (js ''sandbox'')) in
     bindE (license_line license) (\<lambda>l.
     bindE (string_of (opt_prop body (if rehearsal then js ''sandbox_url'' else js ''transaction_url''))) (\<lambda>t.
     bindE (string_of (opt_prop body (js ''verify_url''))) (\<lambda>v.
     bindE (proof_lines cert base (opt_prop license (js ''cert_id''))) (\<lambda>ps.
       Inr ([l, js ''   Transaction: '' @ t, js ''   Verify:      '' @ v] @ ps @
         [newline @ js ''done '' @ [0x2014] @ js '' '' @ (if rehearsal
            then js ''SANDBOX rehearsal complete; no printable model or real license was issued.''
            else js ''licensed and ready to print.'')]))))))"

fun say_all :: "jsstr list \<Rightarrow> ('w, unit) script" where
  "say_all [] = retM ()"
| "say_all (l # ls) = bindM (say l) (\<lambda>_. say_all ls)"

definition keep_purchase :: "'w platform \<Rightarrow> 'w storage \<Rightarrow> client \<Rightarrow> jsstr \<Rightarrow> buy_args \<Rightarrow> jsval \<Rightarrow> jsval \<Rightarrow> ('w, unit) script" where
  "keep_purchase pf st cl base opts model body =
     bindM (say (step_line (if ba_sandbox opts
       then js ''sandbox simulation accepted locally '' @ [0x2014] @ js '' downloading the non-printable receipt''
       else js ''payment settled on Hedera '' @ [0x2014] @ js '' downloading deliverables''))) (\<lambda>_.
     bindM (run_js (liftM (purchase_dir st model))) (\<lambda>dir.
     let slug = text_or_empty (opt_prop model (js ''slug'')) in
     bindM (run_js (callM (\<lambda>_. st_mkdir st dir) (js ''mkdir'') [Arr (map Str dir)])) (\<lambda>_.
     bindM (json_file st dir ''purchase.json'' body) (\<lambda>_.
     bindM (say (js ''   purchase:    '' @ shown_path slug (js ''purchase.json'') @ js '' (keep this '' @ [0x2014] @ js '' it holds receipt.token)'')) (\<lambda>_.
     bindM (run_js (liftM (bindE (get_prop body (js ''files'')) iterated))) (\<lambda>vs.
     bindM (save_purchase st dir slug vs) (\<lambda>_.
     bindM (run_js (liftM (get_prop (opt_prop body (js ''license'')) (js ''cert_id'')))) (\<lambda>cert_id.
     bindM (await_certificate pf cl cert_id) (\<lambda>cert.
     bindM (json_file st dir ''certificate.json'' (proof_bundle_of cert)) (\<lambda>_.
     bindM (run_js (liftM (string_of (opt_prop cert (js ''status''))))) (\<lambda>status.
     bindM (say (js ''   proof bundle: '' @ shown_path slug (js ''certificate.json'') @ js '' ('' @ status @ js '')'')) (\<lambda>_.
     bindM (run_js (liftM (closing_lines base body cert))) say_all))))))))))))"

section \<open>The script\<close>

definition buy_base :: "(jsstr \<Rightarrow> jsstr option) \<Rightarrow> jsstr" where
  "buy_base env = drop_slash (text_or_empty (first_set env ''PRINTWRIGHT_URL'' (Str (js ''http://localhost:3000''))))"

definition buy_network :: "(jsstr \<Rightarrow> jsstr option) \<Rightarrow> jsstr" where
  "buy_network env = (if env (js ''HEDERA_NETWORK'') = Some (js ''mainnet'') then js ''mainnet'' else js ''testnet'')"

definition buyer_account :: "(jsstr \<Rightarrow> jsstr option) \<Rightarrow> jsval" where
  "buyer_account env = first_set env ''BUYER_ACCOUNT_ID'' (env_value env ''HEDERA_ACCOUNT_ID'')"

definition buyer_key :: "(jsstr \<Rightarrow> jsstr option) \<Rightarrow> jsval" where
  "buyer_key env = first_set env ''BUYER_PRIVATE_KEY'' (env_value env ''HEDERA_PRIVATE_KEY'')"

definition purchase_flow ::
  "'w platform \<Rightarrow> 'w storage \<Rightarrow> client \<Rightarrow> registry \<Rightarrow> jsstr \<Rightarrow> buy_args \<Rightarrow> ('w, unit) script" where
  "purchase_flow pf st cl reg base opts =
     bindM (search_models pf cl opts) (\<lambda>model.
     bindM (take_quote pf cl reg base opts model) (\<lambda>(q, reg').
     if ba_dry_run opts
     then bindM (say (step_line (js ''--dry-run: stopping after the 402 (no payment made)''))) (\<lambda>_. throwM Quit)
     else bindM (pay_for pf cl reg' opts q) (keep_purchase pf st cl base opts model)))"

definition buy_main ::
  "'w platform \<Rightarrow> 'w storage \<Rightarrow> (jsstr \<Rightarrow> jsstr option) \<Rightarrow> jsstr list \<Rightarrow> ('w, unit) script" where
  "buy_main pf st env argv = bindM (liftM (parse_buy argv)) (\<lambda>opts.
     bindM (die_if (\<not> given_text (ba_query opts)) (js ''--query is required'')) (\<lambda>_.
     bindM (die_if (\<not> ba_dry_run opts \<and> \<not> ba_sandbox opts \<and> (\<not> truthy (buyer_account env) \<or> \<not> truthy (buyer_key env)))
       (js ''BUYER_ACCOUNT_ID and BUYER_PRIVATE_KEY env vars are required to pay'')) (\<lambda>_.
     bindM (run_js (liftM (new_client pf True (buy_base env) (buyer_account env) (buyer_key env) (buy_network env)
       (Bool True) (Bool (ba_sandbox opts))))) (\<lambda>(cl, reg).
     purchase_flow pf st cl reg (buy_base env) opts))))"

section \<open>When the script asks for a signature\<close>

lemma quiet_say: "emits (\<lambda>e. \<not> is_signature e) (say l)"
  by (auto simp: emits_def say_def note_event_def log_call_def create_call_def)

lemma quiet_say_models: "emits (\<lambda>e. \<not> is_signature e) (say_models l ms)"
  by (induction ms) (auto intro!: emits_bindM trace_rules quiet_say)

lemma quiet_search_models: "emits (\<lambda>e. \<not> is_signature e) (search_models pf cl opts)"
  unfolding search_models_def Let_def
  by (intro emits_bindM trace_rules quiet_say quiet_die_if quiet_search quiet_say_models)

lemma quiet_take_quote: "emits (\<lambda>e. \<not> is_signature e) (take_quote pf cl reg base opts model)"
  unfolding take_quote_def by (auto intro!: emits_bindM trace_rules quiet_say quote_op_quiet split: prod.splits)

lemma poll_once_emits:
  assumes "emits P verify" "poll_once verify p = (out, p')"
  shows "\<exists>evs. trace (po_session p') = trace (po_session p) @ evs \<and> (\<forall>e \<in> set evs. P e)"
proof -
  obtain r s where v: "verify (po_session p) = (r, s)" by fastforce
  then have "po_session p' = s"
    using assms(2) by (auto simp: poll_once_def Let_def split: sum.splits if_splits)
  then show ?thesis using emitsD [OF assms(1) v] by metis
qed

lemma poll_from_emits:
  assumes "emits P verify" "P (Slept poll_delay)" "poll_from verify n p = (r, p')"
  shows "\<exists>evs. trace (po_session p') = trace (po_session p) @ evs \<and> (\<forall>e \<in> set evs. P e)"
  using assms(3)
proof (induction "poll_attempts - n" arbitrary: n p)
  case 0
  then show ?case
    using assms(1) by (auto simp: poll_from.simps [of verify n p] split: prod.splits sum.splits if_splits dest!: poll_once_emits)
next
  case (Suc k)
  obtain out p1 where o: "poll_once verify p = (out, p1)" by fastforce
  obtain evs where evs: "trace (po_session p1) = trace (po_session p) @ evs" "\<forall>e \<in> set evs. P e"
    using poll_once_emits [OF assms(1) o] by blast
  show ?case
  proof (cases out)
    case (Inl reason)
    then have "poll_from verify (Suc n) (poll_pause n p1) = (r, p')"
      using Suc.prems Suc.hyps(2) o by (simp add: poll_from.simps [of verify n p] split: if_splits)
    moreover have "k = poll_attempts - Suc n" using Suc.hyps(2) by arith
    ultimately obtain evs' where "trace (po_session p') = trace (po_session (poll_pause n p1)) @ evs'" "\<forall>e \<in> set evs'. P e"
      using Suc.hyps(1) [of "Suc n" "poll_pause n p1"] by blast
    then show ?thesis
      using evs assms(2) by (intro exI [of _ "evs @ Slept poll_delay # evs'"]) (auto simp: poll_pause_def note_event_def)
  next
    case (Inr x)
    then show ?thesis using Suc.prems o evs by (auto simp: poll_from.simps [of verify n p])
  qed
qed

lemma quiet_await: "emits (\<lambda>e. \<not> is_signature e) (await_certificate pf cl v)"
  unfolding emits_def await_certificate_def
proof (intro allI impI)
  fix s r s'
  assume a: "(case wait_for_certificate (client_verify pf cl v) s of (r, p) \<Rightarrow> (map_sum Threw id r,
      if po_waited p
      then note_event (Called log_call [Str (step_line (js ''waiting for the HCS certificate to anchor (mirror-node lag is a few seconds)''))]) (po_session p)
      else po_session p)) = (r, s')"
  obtain r1 and p where p: "wait_for_certificate (client_verify pf cl v) s = (r1, p)" by fastforce
  obtain evs where "trace (po_session p) = trace s @ evs" "\<forall>e \<in> set evs. \<not> is_signature e"
    using poll_from_emits [OF quiet_client_verify [of pf cl v], of 1 "polling_start s" r1 p] p
    by (auto simp: wait_for_certificate_def polling_start_def)
  then show "\<exists>evs. trace s' = trace s @ evs \<and> (\<forall>e \<in> set evs. \<not> is_signature e)"
    using a p by (auto simp: note_event_def log_call_def create_call_def split: if_splits)
qed

lemma quiet_say_all: "emits (\<lambda>e. \<not> is_signature e) (say_all ls)"
  by (induction ls) (auto intro!: emits_bindM trace_rules quiet_say)

lemma quiet_save_to: "emits (\<lambda>e. \<not> is_signature e) (save_to st dir name bs)"
  by (rule emits_save_to) (simp add: written_call_def create_call_def)

lemma quiet_save_purchase: "emits (\<lambda>e. \<not> is_signature e) (save_purchase st dir slug vs)"
  by (induction vs) (auto intro!: emits_bindM trace_rules quiet_say quiet_die_if quiet_save_to simp: create_call_def split: prod.splits)

lemma quiet_keep_purchase: "emits (\<lambda>e. \<not> is_signature e) (keep_purchase pf st cl base opts model body)"
  unfolding keep_purchase_def json_file_def Let_def
  by (intro emits_bindM trace_rules quiet_say quiet_save_to quiet_save_purchase quiet_await quiet_say_all)
    (simp_all add: create_call_def)

text \<open>What the script has checked when it pays: the model is one the search returned, its offer has
  passed the price limit, and the quote is not a rehearsal, so that the keys are configured.\<close>

definition may_pay :: "(jsstr \<Rightarrow> jsstr option) \<Rightarrow> jsstr list \<Rightarrow> bool" where
  "may_pay env argv = (\<exists>opts model a. parse_buy argv = Inr opts \<and> given_text (ba_query opts) \<and> \<not> ba_dry_run opts \<and>
     \<not> ba_sandbox opts \<and> truthy (buyer_account env) \<and> truthy (buyer_key env) \<and>
     pick_offer (ba_license opts) model = Inr a \<and> too_dear (ba_max_price opts) a = Inr False)"

lemma search_models_Inr:
  assumes "search_models pf cl opts s = (Inr model, s')"
  shows "\<exists>a. pick_offer (ba_license opts) model = Inr a \<and> too_dear (ba_max_price opts) a = Inr False"
  using assms unfolding search_models_def Let_def by (auto simp: run_iffs)

lemma quote_op_sandbox: "quote_op pf cl reg i l a s = (Inr (q, reg'), s') \<Longrightarrow> truthy (cl_sandbox cl) \<Longrightarrow> q_sandbox q"
  by (auto simp: quote_op_def Let_def run_iffs dest!: read_challenge_Inr)

lemma take_quote_sandbox:
  assumes "take_quote pf cl reg base opts model s = (Inr (q, reg'), s')" "truthy (cl_sandbox cl)"
  shows "q_sandbox q"
  using assms unfolding take_quote_def by (auto simp: run_iffs dest: quote_op_sandbox split: prod.splits)

lemma new_client_sandbox: "new_client pf b base a k n aa sb = Inr (cl, reg) \<Longrightarrow> cl_sandbox cl = sb"
  by (auto simp: new_client_def split: if_splits)

lemma pay_for_signs:
  "emits (\<lambda>e. is_signature e \<longrightarrow> \<not> q_sandbox q) (pay_for pf cl reg opts q)"
  "at_most is_signature 1 (pay_for pf cl reg opts q)"
proof -
  have b: "emits (\<lambda>e. is_signature e \<longrightarrow> \<not> q_sandbox q) (buy pf cl reg i l a (Some q))" for i l a
    by (rule emits_mono [OF buy_justified]) (auto simp: justified_def payable_def)
  show "emits (\<lambda>e. is_signature e \<longrightarrow> \<not> q_sandbox q) (pay_for pf cl reg opts q)"
    unfolding pay_for_def
    by (intro emits_bindM) (auto intro!: trace_rules b emits_mono [OF quiet_say] split: prod.splits)
  have "at_most is_signature (0 + (1 + 0)) (pay_for pf cl reg opts q)"
    unfolding pay_for_def
    by (intro at_most_bindM at_most_run_js buy_once emits_at_most quiet_say) (auto intro: trace_rules split: prod.splits)
  then show "at_most is_signature 1 (pay_for pf cl reg opts q)" by simp
qed

lemma buy_main_justified:
  fixes pf :: "'w platform"
  shows "emits (\<lambda>e. is_signature e \<longrightarrow> may_pay env argv) (buy_main pf st env argv)"
proof -
  let ?P = "\<lambda>e. is_signature e \<longrightarrow> may_pay env argv"
  have q: "emits ?P p" if "emits (\<lambda>e. \<not> is_signature e) p" for p :: "('w, 'x) script"
    by (rule emits_mono [OF that]) simp
  have flow: "emits ?P (purchase_flow pf st cl reg base opts)"
    if o: "parse_buy argv = Inr opts" "given_text (ba_query opts)" "cl_sandbox cl = Bool (ba_sandbox opts)"
      "\<not> (\<not> ba_dry_run opts \<and> \<not> ba_sandbox opts \<and> (\<not> truthy (buyer_account env) \<or> \<not> truthy (buyer_key env)))" for cl reg base opts
    unfolding purchase_flow_def
  proof (rule emits_bindM [OF q [OF quiet_search_models]])
    fix model s s1
    assume "search_models pf cl opts s = (Inr model, s1)"
    then obtain a where a: "pick_offer (ba_license opts) model = Inr a" "too_dear (ba_max_price opts) a = Inr False"
      using search_models_Inr by blast
    show "emits ?P (bindM (take_quote pf cl reg base opts model) (\<lambda>(q, reg').
        if ba_dry_run opts then bindM (say (step_line (js ''--dry-run: stopping after the 402 (no payment made)''))) (\<lambda>_. throwM Quit)
        else bindM (pay_for pf cl reg' opts q) (keep_purchase pf st cl base opts model)))"
    proof (rule emits_bindM [OF q [OF quiet_take_quote]])
      fix x s2 s3
      assume t: "take_quote pf cl reg base opts model s2 = (Inr x, s3)"
      obtain qt reg' where x: "x = (qt, reg')" by fastforce
      have "q_sandbox qt" if "ba_sandbox opts" using take_quote_sandbox [OF t [unfolded x]] o(3) that by simp
      then have "emits ?P (pay_for pf cl reg' opts qt)" if "\<not> ba_dry_run opts"
        using o a that by (intro emits_mono [OF pay_for_signs(1)]) (auto simp: may_pay_def)
      then show "emits ?P (case x of (q, reg') \<Rightarrow>
          if ba_dry_run opts then bindM (say (step_line (js ''--dry-run: stopping after the 402 (no payment made)''))) (\<lambda>_. throwM Quit)
          else bindM (pay_for pf cl reg' opts q) (keep_purchase pf st cl base opts model))"
        unfolding x prod.case by (auto intro!: emits_bindM q [OF quiet_say] q [OF quiet_keep_purchase] trace_rules)
    qed
  qed
  show ?thesis
    unfolding buy_main_def
    by (intro emits_bindM trace_rules quiet_die_if) (auto simp: run_iffs intro!: flow trace_rules new_client_sandbox split: prod.splits)
qed

lemma buy_main_once:
  fixes pf :: "'w platform"
  shows "at_most is_signature 1 (buy_main pf st env argv)"
proof -
  have quiet: "at_most is_signature 0 p" if "emits (\<lambda>e. \<not> is_signature e) p" for p :: "('w, 'x) script"
    using that by (rule emits_at_most)
  have "at_most is_signature (0 + (0 + (1 + 0))) (purchase_flow pf st cl reg base opts)" for cl reg base opts
    unfolding purchase_flow_def
  proof (intro at_most_bindM quiet quiet_search_models quiet_take_quote)
    fix model and x :: "quote \<times> registry"
    have "at_most is_signature (1 + 0) (bindM (pay_for pf cl (snd x) opts (fst x)) (keep_purchase pf st cl base opts model))"
      by (intro at_most_bindM pay_for_signs(2) quiet quiet_keep_purchase)
    moreover have "at_most is_signature (1 + 0) (bindM (say l) (\<lambda>_. throwM Quit) :: ('w, unit) script)" for l
      by (rule at_most_mono [OF quiet]) (auto intro: emits_bindM quiet_say trace_rules)
    ultimately show "at_most is_signature (1 + 0) (case x of (q, reg') \<Rightarrow>
        if ba_dry_run opts then bindM (say (step_line (js ''--dry-run: stopping after the 402 (no payment made)''))) (\<lambda>_. throwM Quit)
        else bindM (pay_for pf cl reg' opts q) (keep_purchase pf st cl base opts model))"
      by (cases x) simp
  qed
  then have "at_most is_signature (0 + (0 + (0 + (0 + 1)))) (buy_main pf st env argv)"
    unfolding buy_main_def
    by (intro at_most_bindM quiet trace_rules) (auto simp: die_if_def intro: trace_rules split: prod.split)
  then show ?thesis by simp
qed



end
