(* ===== verification/Smoke.thy ===== *)
theory Smoke
  imports BuyScript VerifierCli
begin

text \<open>
  The smoke gate (\<open>scripts/smoke.mjs\<close>): the boot checks, one real purchase with the buying script, the
  wait for its certificate and the verdict of the verifier's command line. The two child processes
  are the programs of \<open>BuyScript\<close> and \<open>VerifierCli\<close>, run on the same network; their output is what
  the gate reads. The watchdog is checked after everything the gate awaits: the clock is a parameter
  for the time spent in the network and the children, to which the pauses of the trace are added.
\<close>

section \<open>Settings\<close>

record 'w smoke_setup =
  sm_platform :: "'w platform"
  sm_storage :: "'w storage"
  sm_new_url :: "jsstr \<Rightarrow> url option"
  sm_read_file :: "jsstr \<Rightarrow> 'w \<Rightarrow> (js_error + jsstr) \<times> 'w"
  sm_spawn :: "'w \<Rightarrow> (js_error + unit) \<times> 'w"
  sm_clock :: "'w \<Rightarrow> nat"
  sm_reason :: "js_error \<Rightarrow> jsstr"

text \<open>\<open>sm_reason e\<close> is \<open>e.cause?.code ?? e.message\<close>.\<close>

definition smoke_app :: "environment \<Rightarrow> jsstr" where
  "smoke_app env = drop_slash (env_or env ''PRINTWRIGHT_URL'' (js ''http://localhost:3000''))"

definition smoke_sidecar :: "environment \<Rightarrow> jsstr" where
  "smoke_sidecar env = drop_slash (env_or env ''HEDERA_SIDECAR_URL'' (js ''http://localhost:4021''))"

definition smoke_facilitator :: "environment \<Rightarrow> jsstr" where
  "smoke_facilitator env = drop_slash (env_or env ''X402_FACILITATOR_URL'' (js ''https://api.testnet.blocky402.com''))"

definition smoke_query :: "environment \<Rightarrow> jsstr" where
  "smoke_query env = env_or env ''SMOKE_QUERY'' (js ''snap cable clip'')"

definition smoke_license :: "environment \<Rightarrow> jsstr" where
  "smoke_license env = env_or env ''SMOKE_LICENSE'' (js ''commercial_unit'')"

definition smoke_usdc :: "environment \<Rightarrow> jsstr" where
  "smoke_usdc env = (if env (js ''HEDERA_NETWORK'') = Some (js ''mainnet'') then js ''0.0.456858'' else js ''0.0.429274'')"

definition smoke_net :: "environment \<Rightarrow> jsstr" where
  "smoke_net env = (if env (js ''HEDERA_NETWORK'') = Some (js ''mainnet'') then js ''mainnet'' else js ''testnet'')"

section \<open>The watchdog\<close>

definition deadline_ms :: nat where
  "deadline_ms = 120000"

fun slept :: "event list \<Rightarrow> nat" where
  "slept [] = 0"
| "slept (Slept ms # evs) = ms + slept evs"
| "slept (_ # evs) = slept evs"

definition elapsed_ms :: "'w smoke_setup \<Rightarrow> 'w session \<Rightarrow> nat" where
  "elapsed_ms w s = sm_clock w (net s) + slept (trace s)"

definition overdue :: "'w smoke_setup \<Rightarrow> 'w session \<Rightarrow> bool" where
  "overdue w s = (deadline_ms \<le> elapsed_ms w s)"

definition exceeded :: stop where
  "exceeded = Died (js ''smoke exceeded 120s'')"

text \<open>What is awaited; when it is over the timer may have fired.\<close>

definition awaited :: "'w smoke_setup \<Rightarrow> ('w, 'a) script \<Rightarrow> ('w, 'a) script" where
  "awaited w p = (\<lambda>s. case p s of (r, s') \<Rightarrow> (if overdue w s' then Inl exceeded else r, s'))"

definition smoke_fail :: "jsstr \<Rightarrow> ('w, 'a) script" where
  "smoke_fail m = throwM (Died m)"

definition smoke_ok :: "jsstr \<Rightarrow> ('w, unit) script" where
  "smoke_ok m = say (js ''ok '' @ m)"

section \<open>Requests\<close>

definition smoke_get :: "'w smoke_setup \<Rightarrow> jsstr \<Rightarrow> ('w, http_response) script" where
  "smoke_get w u = awaited w (\<lambda>s. case fetchM (p_fetch (sm_platform w)) (get_request u) s of
     (Inl e, s') \<Rightarrow> (Inl (Died (js ''GET '' @ u @ js '' failed: '' @ sm_reason w e)), s')
   | (Inr res, s') \<Rightarrow> (Inr res, s'))"

definition read_json :: "'w smoke_setup \<Rightarrow> http_response \<Rightarrow> ('w, jsval) script" where
  "read_json w res = awaited w (run_js (liftM (body_json res)))"

definition smoke_json :: "'w smoke_setup \<Rightarrow> jsstr \<Rightarrow> string \<Rightarrow> ('w, jsval) script" where
  "smoke_json w u who = bindM (smoke_get w u) (\<lambda>res.
     if \<not> res_ok res then smoke_fail (js who @ js '': GET '' @ u @ js '' -> '' @ dec_str (res_status res))
     else read_json w res)"

definition property :: "jsval \<Rightarrow> string \<Rightarrow> ('w, jsval) script" where
  "property v name = run_js (liftM (get_prop v (js name)))"

definition shown :: "jsval \<Rightarrow> ('w, jsstr) script" where
  "shown v = run_js (liftM (string_of v))"

section \<open>Boot checks\<close>

definition check_app :: "'w smoke_setup \<Rightarrow> environment \<Rightarrow> ('w, unit) script" where
  "check_app w env = (let app = smoke_app env in
     bindM (smoke_get w (app @ js ''/up'')) (\<lambda>res.
     if res_status res \<noteq> 200
     then smoke_fail (js ''app: GET '' @ app @ js ''/up -> '' @ dec_str (res_status res) @ js '' (start it: bin/dev)'')
     else smoke_ok (js ''app up ('' @ app @ js '')'')))"

definition check_sidecar :: "'w smoke_setup \<Rightarrow> environment \<Rightarrow> ('w, unit) script" where
  "check_sidecar w env =
     bindM (smoke_json w (smoke_sidecar env @ js ''/healthz'') ''sidecar (start it: node sidecar/server.mjs)'') (\<lambda>health.
     bindM (property health ''ok'') (\<lambda>alive.
     if \<not> strict_eq alive (Bool True) then smoke_fail (js ''sidecar unhealthy: '' @ template (stringify health))
     else if \<not> truthy (opt_prop health (js ''topicId''))
     then smoke_fail (js ''sidecar has no HCS topic configured (HEDERA_HCS_TOPIC_ID)'')
     else bindM (shown (opt_prop health (js ''network''))) (\<lambda>network. bindM (shown (opt_prop health (js ''topicId''))) (\<lambda>topic.
       smoke_ok (js ''sidecar up (network '' @ network @ js '', topic '' @ topic @ js '')'')))))"

fun find_kind :: "jsstr \<Rightarrow> jsval list \<Rightarrow> js_error + jsval" where
  "find_kind network [] = Inr Undef"
| "find_kind network (k # ks) = bindE (get_prop k (js ''scheme'')) (\<lambda>scheme.
     if strict_eq scheme (Str (js ''exact'')) \<and> strict_eq (opt_prop k (js ''network'')) (Str network) then Inr k
     else find_kind network ks)"

text \<open>\<open>(v || []).find(...)\<close>\<close>

definition found_in :: "(jsval list \<Rightarrow> js_error + jsval) \<Rightarrow> jsval \<Rightarrow> js_error + jsval" where
  "found_in finder v = (if \<not> truthy v then finder [] else (case v of
     Arr vs \<Rightarrow> finder vs | _ \<Rightarrow> Inl (TypeErr (js ''find is not a function''))))"

definition check_supported :: "'w smoke_setup \<Rightarrow> environment \<Rightarrow> ('w, unit) script" where
  "check_supported w env = (let network = js ''hedera:'' @ smoke_net env in
     bindM (smoke_json w (smoke_facilitator env @ js ''/supported'') ''facilitator'') (\<lambda>supported.
     bindM (property supported ''kinds'') (\<lambda>kinds.
     bindM (run_js (liftM (found_in (find_kind network) kinds))) (\<lambda>kind.
     if \<not> truthy kind then smoke_fail (js ''facilitator does not list exact/'' @ network @ js '': '' @ template (stringify kinds))
     else bindM (shown (coalesce (opt_prop (opt_prop kind (js ''extra'')) (js ''feePayer'')) (Str (js ''n/a'')))) (\<lambda>payer.
       smoke_ok (js ''facilitator supports exact/'' @ network @ js '' (feePayer '' @ payer @ js '')''))))))"

section \<open>The buyer's funds\<close>

fun find_token :: "jsstr \<Rightarrow> jsval list \<Rightarrow> js_error + jsval" where
  "find_token token [] = Inr Undef"
| "find_token token (t # ts) = bindE (get_prop t (js ''token_id'')) (\<lambda>i.
     if strict_eq i (Str token) then Inr t else find_token token ts)"

definition buyer_holds :: "jsstr \<Rightarrow> jsval \<Rightarrow> js_error + jsnum \<times> jsnum" where
  "buyer_holds token account = bindE (get_prop account (js ''balance'')) (\<lambda>balance.
     bindE (found_in (find_token token) (opt_prop balance (js ''tokens''))) (\<lambda>t.
     bindE (number_of (coalesce (opt_prop balance (js ''balance'')) (jnum 0))) (\<lambda>hbar.
     bindE (number_of (coalesce (opt_prop t (js ''balance'')) (jnum 0))) (\<lambda>usdc. Inr (hbar, usdc)))))"

definition in_hbar :: "jsnum \<Rightarrow> jsstr" where
  "in_hbar n = to_fixed 2 (num_div n 100000000) @ [32, 0x210F]"

definition in_usdc :: "jsnum \<Rightarrow> jsstr" where
  "in_usdc n = to_fixed 2 (num_div n 1000000) @ js '' USDC''"

definition nearly_out :: "jsnum \<Rightarrow> jsnum \<Rightarrow> bool" where
  "nearly_out hbar usdc = (num_lt hbar (Fin 400000000) \<and> num_lt usdc (Fin 500000))"

definition fetch_account :: "'w smoke_setup \<Rightarrow> jsstr \<Rightarrow> ('w, js_error + jsval) prog" where
  "fetch_account w u = catchM (bindM (fetchM (p_fetch (sm_platform w)) (plain_get u)) (\<lambda>res.
     bindM (if \<not> res_ok res then throwM (PlainErr (js ''mirror returned '' @ dec_str (res_status res)))
       else liftM (body_json res)) (\<lambda>v. retM (Inr v)))) (\<lambda>e. retM (Inl e))"

definition check_buyer_funds :: "'w smoke_setup \<Rightarrow> environment \<Rightarrow> ('w, unit) script" where
  "check_buyer_funds w env = (let base = env_or env ''MIRROR_NODE_URL'' (js ''https://'' @ smoke_net env @ js ''.mirrornode.hedera.com'');
       buyer = template (env (js ''BUYER_ACCOUNT_ID'')) in
     bindM (awaited w (run_js (fetch_account w (base @ js ''/api/v1/accounts/'' @ buyer)))) (\<lambda>r. case r of
         Inl e \<Rightarrow> say (js ''   (skipped buyer balance check: '' @ error_message e @ js '')'')
       | Inr account \<Rightarrow> bindM (run_js (liftM (buyer_holds (smoke_usdc env) account))) (\<lambda>(hbar, usdc).
           bindM (smoke_ok (js ''buyer '' @ buyer @ js '' holds '' @ in_hbar hbar @ [32, 183, 32] @ in_usdc usdc)) (\<lambda>_.
           if nearly_out hbar usdc
           then smoke_fail (js ''buyer is nearly out of funds ('' @ in_hbar hbar @ js '', '' @ in_usdc usdc @ js '')'' @ [32, 0x2014, 32] @
             js ''top up at https://portal.hedera.com/dashboard before demoing'')
           else retM ()))))"

section \<open>The purchase\<close>

text \<open>What a part of the run printed, as the text on standard output.\<close>

fun printed :: "event \<Rightarrow> jsstr" where
  "printed (Called name [Str l]) = (if name = log_call then l @ newline else [])"
| "printed _ = []"

definition output_since :: "'w session \<Rightarrow> 'w session \<Rightarrow> jsstr" where
  "output_since s s' = concat (map printed (drop (length (trace s)) (trace s')))"

text \<open>The buying script as a process: its exit code and its output, standard error included.\<close>

fun buyer_exit :: "stop + unit \<Rightarrow> nat \<times> jsstr" where
  "buyer_exit (Inl (Died m)) = (1, newline @ js ''error: '' @ m @ newline)"
| "buyer_exit (Inl (Threw e)) = (1, error_message e)"
| "buyer_exit _ = (0, [])"

definition buyer_process :: "'w smoke_setup \<Rightarrow> environment \<Rightarrow> jsstr list \<Rightarrow> ('w, nat \<times> jsstr) script" where
  "buyer_process w env argv = (\<lambda>s. case buy_main (sm_platform w) (sm_storage w) env argv s of (r, s') \<Rightarrow>
     (Inr (case buyer_exit r of (code, err) \<Rightarrow> (code, output_since s s' @ err)), s'))"

definition spawned :: "'w smoke_setup \<Rightarrow> jsstr \<Rightarrow> ('w, unit) script" where
  "spawned w name = (\<lambda>s. case callM (\<lambda>_. sm_spawn w) (js ''spawn'') [Str name] s of
     (Inl e, s') \<Rightarrow> (Inl (Died (js ''could not run '' @ name @ js '': '' @ error_message e)), s')
   | (Inr x, s') \<Rightarrow> (Inr (), s'))"

definition run_buy :: "'w smoke_setup \<Rightarrow> environment \<Rightarrow> jsstr list \<Rightarrow> ('w, jsstr) script" where
  "run_buy w env argv = awaited w (bindM (spawned w (js ''buy.mjs'')) (\<lambda>_.
     bindM (buyer_process w env argv) (\<lambda>(code, out).
       if code \<noteq> 0 then smoke_fail (js ''buy.mjs exited '' @ dec_str code) else retM out)))"

text \<open>\<open>out.match(/label\\s+(\\S+)/)?.[1]\<close>\<close>

fun word_after :: "jsstr \<Rightarrow> jsstr \<Rightarrow> jsstr option" where
  "word_after label [] = None"
| "word_after label (c # cs) = (let rest = drop (length label) (c # cs); word = takeWhile (\<lambda>x. \<not> is_space x) (dropWhile is_space rest) in
     if take (length label) (c # cs) = label \<and> takeWhile is_space rest \<noteq> [] \<and> word \<noteq> [] then Some word
     else word_after label cs)"

section \<open>Waiting\<close>

text \<open>A pause of two seconds, unless the watchdog ends the process first.\<close>

definition after_pause :: "'w session \<Rightarrow> 'w session" where
  "after_pause s = note_event (Slept 2000) s"

definition remaining :: "'w session \<Rightarrow> nat" where
  "remaining s = deadline_ms - slept (trace s)"

lemma slept_append [simp]: "slept (xs @ ys) = slept xs + slept ys"
  by (induction xs rule: slept.induct) auto

lemma emits_awaited [trace_rules]: "emits P p \<Longrightarrow> emits P (awaited w p)"
  unfolding emits_def awaited_def by (auto split: prod.splits)

lemma emits_smoke_get: "(\<And>u. P (Fetched (get_request u))) \<Longrightarrow> emits P (smoke_get w u)"
  unfolding smoke_get_def
  by (intro trace_rules) (auto simp: emits_def fetchM_def split: prod.splits sum.splits)

lemma emits_read_json [trace_rules]: "emits P (read_json w res)"
  unfolding read_json_def by (intro trace_rules)

lemma emits_smoke_fail [trace_rules]: "emits P (smoke_fail m)"
  unfolding smoke_fail_def by (intro trace_rules)

lemma emits_smoke_json: "(\<And>u. P (Fetched (get_request u))) \<Longrightarrow> emits P (smoke_json w u who)"
  unfolding smoke_json_def by (auto intro!: emits_bindM emits_smoke_get trace_rules)

lemma slept_mono:
  assumes "emits (\<lambda>e. True) p" "p s = (r, s')"
  shows "slept (trace s) \<le> slept (trace s')"
proof -
  obtain evs where "trace s' = trace s @ evs" by (rule emitsD [OF assms])
  then show ?thesis by simp
qed

lemma pause_remaining:
  assumes "slept (trace s) \<le> slept (trace s1)" "\<not> overdue w (after_pause s1)"
  shows "remaining (after_pause s1) < remaining s"
proof -
  have "slept (trace (after_pause s1)) = slept (trace s1) + 2000" by (simp add: after_pause_def)
  moreover have "slept (trace (after_pause s1)) < deadline_ms" using assms(2) by (simp add: overdue_def elapsed_ms_def)
  ultimately show ?thesis using assms(1) by (simp add: remaining_def)
qed

lemma emits_property: "emits P (property v n)" "emits P (shown v)"
  unfolding property_def shown_def by (intro trace_rules)+

text \<open>One turn of each loop: the result, or nothing yet.\<close>

definition anchored_once :: "'w smoke_setup \<Rightarrow> jsstr \<Rightarrow> ('w, jsval option) script" where
  "anchored_once w u = bindM (smoke_json w u ''certificate api'') (\<lambda>v. bindM (property v ''status'') (\<lambda>status.
     retM (if strict_eq status (Str (js ''anchored'')) then Some v else None)))"

definition mirror_once :: "'w smoke_setup \<Rightarrow> jsstr \<Rightarrow> ('w, jsval option) script" where
  "mirror_once w u = bindM (smoke_get w u) (\<lambda>res.
     if res_ok res then bindM (read_json w res) (\<lambda>v. retM (Some v))
     else if res_status res \<noteq> 404 then smoke_fail (js ''mirror node: GET '' @ u @ js '' -> '' @ dec_str (res_status res))
     else retM None)"

lemma emits_once:
  "(\<And>u. P (Fetched (get_request u))) \<Longrightarrow> emits P (anchored_once w u)"
  "(\<And>u. P (Fetched (get_request u))) \<Longrightarrow> emits P (mirror_once w u)"
  unfolding anchored_once_def mirror_once_def
  by (auto intro!: emits_bindM emits_smoke_json emits_smoke_get emits_property trace_rules)

lemma once_remaining:
  "(x, s1) = anchored_once w u s \<Longrightarrow> \<not> overdue w (after_pause s1) \<Longrightarrow> remaining (after_pause s1) < remaining s"
  "(x, s1) = mirror_once w u s \<Longrightarrow> \<not> overdue w (after_pause s1) \<Longrightarrow> remaining (after_pause s1) < remaining s"
  by (rule pause_remaining [OF slept_mono [OF emits_once(1) [OF TrueI]]], erule sym, assumption)
    (rule pause_remaining [OF slept_mono [OF emits_once(2) [OF TrueI]]], erule sym, assumption)

function wait_anchored :: "'w smoke_setup \<Rightarrow> jsstr \<Rightarrow> ('w, jsval) script" where
  "wait_anchored w u s = (case anchored_once w u s of
     (Inl e, s1) \<Rightarrow> (Inl e, s1)
   | (Inr (Some v), s1) \<Rightarrow> (Inr v, s1)
   | (Inr None, s1) \<Rightarrow> if overdue w (after_pause s1) then (Inl exceeded, after_pause s1)
       else wait_anchored w u (after_pause s1))"
  by pat_completeness auto
termination
  by (relation "measure (\<lambda>(w, u, s). remaining s)") (auto intro: once_remaining)

function wait_for_mirror :: "'w smoke_setup \<Rightarrow> jsstr \<Rightarrow> ('w, jsval) script" where
  "wait_for_mirror w u s = (case mirror_once w u s of
     (Inl e, s1) \<Rightarrow> (Inl e, s1)
   | (Inr (Some v), s1) \<Rightarrow> (Inr v, s1)
   | (Inr None, s1) \<Rightarrow> if overdue w (after_pause s1) then (Inl exceeded, after_pause s1)
       else wait_for_mirror w u (after_pause s1))"
  by pat_completeness auto
termination
  by (relation "measure (\<lambda>(w, u, s). remaining s)") (auto intro: once_remaining)

declare wait_anchored.simps [simp del] wait_for_mirror.simps [simp del]

text \<open>The contract of such a loop: what it adds to the trace, what its result has been, and how many
  turns the watchdog leaves it.\<close>

locale watched_loop =
  fixes w :: "'w smoke_setup"
    and once :: "('w, 'a option) script"
    and loop :: "('w, 'a) script"
  assumes once_appends: "emits (\<lambda>e. True) once"
    and loop_step: "loop s = (case once s of
       (Inl e, s1) \<Rightarrow> (Inl e, s1)
     | (Inr (Some v), s1) \<Rightarrow> (Inr v, s1)
     | (Inr None, s1) \<Rightarrow> if overdue w (after_pause s1) then (Inl exceeded, after_pause s1) else loop (after_pause s1))"
begin

inductive turns :: "nat \<Rightarrow> 'w session \<Rightarrow> stop + 'a \<Rightarrow> 'w session \<Rightarrow> bool" where
  ended: "once s = (Inl e, s') \<Longrightarrow> turns 0 s (Inl e) s'"
| found: "once s = (Inr (Some v), s') \<Longrightarrow> turns 0 s (Inr v) s'"
| late: "once s = (Inr None, s1) \<Longrightarrow> overdue w (after_pause s1) \<Longrightarrow> turns 0 s (Inl exceeded) (after_pause s1)"
| again: "once s = (Inr None, s1) \<Longrightarrow> \<not> overdue w (after_pause s1) \<Longrightarrow> turns n (after_pause s1) r s' \<Longrightarrow>
    turns (Suc n) s r s'"

lemma loop_turns: "\<exists>n. turns n s (fst (loop s)) (snd (loop s))"
proof (induction "remaining s" arbitrary: s rule: less_induct)
  case less
  obtain x s1 where o: "once s = (x, s1)" by fastforce
  show ?case
  proof (cases "x = Inr None \<and> \<not> overdue w (after_pause s1)")
    case True
    then have "remaining (after_pause s1) < remaining s"
      using o by (intro pause_remaining slept_mono [OF once_appends]) auto
    from less [OF this] obtain n where "turns n (after_pause s1) (fst (loop (after_pause s1))) (snd (loop (after_pause s1)))" by blast
    then show ?thesis using True o by (auto simp: loop_step [of s] intro: turns.again)
  next
    case False
    then show ?thesis
      using o by (cases x) (auto simp: loop_step [of s] intro: turns.ended turns.found turns.late split: option.splits)
  qed
qed

lemma turns_emit:
  assumes "turns n s r s'" "emits P once" "P (Slept 2000)"
  shows "\<exists>evs. trace s' = trace s @ evs \<and> (\<forall>e \<in> set evs. P e)"
  using assms(1)
proof (induction rule: turns.induct)
  case (late s s1)
  obtain evs where "trace s1 = trace s @ evs" "\<forall>e \<in> set evs. P e" by (rule emitsD [OF assms(2) late(1)])
  then show ?case using assms(3) by (intro exI [of _ "evs @ [Slept 2000]"]) (auto simp: after_pause_def)
next
  case (again s s1 n r s')
  obtain evs where "trace s1 = trace s @ evs" "\<forall>e \<in> set evs. P e" by (rule emitsD [OF assms(2) again(1)])
  moreover obtain evs' where "trace s' = trace (after_pause s1) @ evs'" "\<forall>e \<in> set evs'. P e" using again.IH by blast
  ultimately show ?case using assms(3) by (intro exI [of _ "evs @ Slept 2000 # evs'"]) (auto simp: after_pause_def)
qed (use assms(2) in \<open>auto simp: emits_def\<close>)

lemma loop_emits: "emits P once \<Longrightarrow> P (Slept 2000) \<Longrightarrow> emits P loop"
  unfolding emits_def [of P loop] using turns_emit loop_turns by (metis fst_conv snd_conv)

text \<open>Every further turn costs two of the 120 seconds.\<close>

lemma turns_bound: "turns n s r s' \<Longrightarrow> n \<le> 60"
proof -
  have "turns n s r s' \<Longrightarrow> 0 < n \<Longrightarrow> slept (trace s) + 2000 * n < deadline_ms" for n s r s'
  proof (induction rule: turns.induct)
    case (again s s1 n r s')
    have "slept (trace s) \<le> slept (trace s1)" by (rule slept_mono [OF once_appends again(1)])
    moreover have "slept (trace (after_pause s1)) = slept (trace s1) + 2000" by (simp add: after_pause_def)
    moreover have "slept (trace (after_pause s1)) < deadline_ms" using again(2) by (simp add: overdue_def elapsed_ms_def)
    ultimately show ?case using again.IH by (cases n) auto
  qed auto
  then show "turns n s r s' \<Longrightarrow> n \<le> 60" by (force simp: deadline_ms_def)
qed

lemma loop_result: "loop s = (Inr v, s') \<Longrightarrow> \<exists>s1. once s1 = (Inr (Some v), s')"
proof -
  have "turns n s r s' \<Longrightarrow> r = Inr v \<Longrightarrow> \<exists>s1. once s1 = (Inr (Some v), s')" for n s r s'
    by (induction rule: turns.induct) auto
  then show "loop s = (Inr v, s') \<Longrightarrow> \<exists>s1. once s1 = (Inr (Some v), s')" using loop_turns [of s] by auto
qed

end

interpretation anchoring: watched_loop w "anchored_once w u" "wait_anchored w u" for w u
  by unfold_locales (rule emits_once, rule TrueI, rule wait_anchored.simps)

interpretation mirroring: watched_loop w "mirror_once w u" "wait_for_mirror w u" for w u
  by unfold_locales (rule emits_once, rule TrueI, rule wait_for_mirror.simps)

section \<open>The verdict\<close>

definition verifier_process :: "'w smoke_setup \<Rightarrow> jsstr \<Rightarrow> ('w, nat \<times> jsstr) script" where
  "verifier_process w input = (\<lambda>s. case cli_main (p_hash (sm_platform w)) (sm_new_url w) (p_fetch (sm_platform w))
       (sm_read_file w) (\<lambda>n. (Inr input, n)) [js ''-''] s of (run, s') \<Rightarrow>
     (Inr (exit_status run, concat (map (\<lambda>l. l @ newline) (out_lines run @ err_lines run))), s'))"

fun contains :: "jsstr \<Rightarrow> jsstr \<Rightarrow> bool" where
  "contains part [] = (part = [])"
| "contains part (c # cs) = (take (length part) (c # cs) = part \<or> contains part cs)"

definition line_end :: "jsunit \<Rightarrow> bool" where
  "line_end c = (c \<in> {10, 13, 0x2028, 0x2029})"

text \<open>\<open>out.match(/label\\s+(.+)/)?.[1]?.trim()\<close>: what follows on the line of the first character that
  is not white space; if there is none, a white space that does not end a line is captured, of
  which nothing is left.\<close>

fun line_after :: "jsstr \<Rightarrow> jsstr \<Rightarrow> jsstr option" where
  "line_after label [] = None"
| "line_after label (c # cs) = (let rest = drop (length label) (c # cs); gap = takeWhile is_space rest; tail = dropWhile is_space rest in
     if take (length label) (c # cs) = label \<and> gap \<noteq> [] \<and> tail \<noteq> [] then Some (js_trim (takeWhile (\<lambda>x. \<not> line_end x) tail))
     else if take (length label) (c # cs) = label \<and> (\<exists>x \<in> set (drop 1 gap). \<not> line_end x) then Some []
     else line_after label cs)"

definition verify_with_cli :: "'w smoke_setup \<Rightarrow> jsval \<Rightarrow> ('w, jsstr) script" where
  "verify_with_cli w v = awaited w (bindM (spawned w (js ''verifier/cli.js'')) (\<lambda>_.
     bindM (verifier_process w (joined (stringify v))) (\<lambda>(code, out).
       if code \<noteq> 0 \<or> \<not> contains (js ''=> VERIFIED'') out
       then smoke_fail (js ''independent verification failed (exit '' @ dec_str code @ js ''):'' @ newline @ out)
       else retM (case line_after (js ''Hedera anchoring'') out of Some a \<Rightarrow> a | None \<Rightarrow> js ''VERIFIED''))))"

section \<open>The gate\<close>

definition buyer_set :: "environment \<Rightarrow> bool" where
  "buyer_set env = (env_set env ''BUYER_ACCOUNT_ID'' \<and> env_set env ''BUYER_PRIVATE_KEY'')"

definition boot_checks :: "'w smoke_setup \<Rightarrow> environment \<Rightarrow> ('w, unit) script" where
  "boot_checks w env = bindM (die_if (\<not> buyer_set env) (js ''BUYER_ACCOUNT_ID and BUYER_PRIVATE_KEY must be set (the settle is real)'')) (\<lambda>_.
     bindM (check_app w env) (\<lambda>_. bindM (check_sidecar w env) (\<lambda>_. bindM (check_supported w env) (\<lambda>_. check_buyer_funds w env))))"

definition real_settle :: "'w smoke_setup \<Rightarrow> environment \<Rightarrow> ('w, jsstr \<times> jsstr option) script" where
  "real_settle w env =
     bindM (say (newline @ js ''-- settling for real: buy.mjs --query \"'' @ smoke_query env @ js ''\" --license '' @ smoke_license env @ newline)) (\<lambda>_.
     bindM (run_buy w env [js ''--query'', smoke_query env, js ''--license'', smoke_license env]) (\<lambda>out.
     case word_after (js ''License:'') out of
       None \<Rightarrow> smoke_fail (js ''could not find the license cert id in buy.mjs output'')
     | Some cert_id \<Rightarrow> bindM (smoke_ok (js ''settled'' @ em_dash @ js ''license '' @ cert_id)) (\<lambda>_.
         retM (cert_id, word_after (js ''Transaction:'') out))))"

definition anchored_bundle :: "'w smoke_setup \<Rightarrow> environment \<Rightarrow> jsstr \<Rightarrow> ('w, jsval) script" where
  "anchored_bundle w env cert_id = bindM (wait_anchored w (smoke_app env @ js ''/api/v1/certificates/'' @ cert_id)) (\<lambda>v.
     bindM (property v ''hedera'') (\<lambda>hedera. bindM (property hedera ''mirror_url'') (\<lambda>mu. bindM (shown mu) (\<lambda>u.
     bindM (wait_for_mirror w u) (\<lambda>mirror. bindM (property mirror ''consensus_timestamp'') (\<lambda>ts.
     if \<not> truthy ts then smoke_fail (js ''mirror has no message at '' @ u)
     else bindM (shown (opt_prop hedera (js ''topic_id''))) (\<lambda>topic. bindM (shown (opt_prop hedera (js ''sequence_number''))) (\<lambda>seq.
       bindM (shown ts) (\<lambda>time. bindM (smoke_ok (js ''commitment anchored (topic '' @ topic @ js '' seq '' @ seq @ js '', consensus '' @ time @ js '')''))
       (\<lambda>_. retM v))))))))))"

definition summary_lines :: "jsnum \<Rightarrow> jsstr option \<Rightarrow> jsval \<Rightarrow> js_error + jsstr list" where
  "summary_lines ms tx v = (case opt_prop (opt_prop v (js ''hedera'')) (js ''mirror_url'') of
     Str u \<Rightarrow> bindE (string_of (opt_prop v (js ''commitment''))) (\<lambda>c. Inr
       [newline @ js ''SMOKE GREEN in '' @ to_fixed 1 (num_div ms 1000) @ js ''s'',
        js ''  settle tx:  '' @ (case tx of Some t \<Rightarrow> t | None \<Rightarrow> js ''(see buy.mjs output above)''),
        js ''  topic:      '' @ drop_message u,
        js ''  mirror:     '' @ u,
        js ''  commitment: '' @ c])
   | _ \<Rightarrow> Inl (TypeErr (js ''replace is not a function'')))"

definition final_summary :: "'w smoke_setup \<Rightarrow> jsstr option \<Rightarrow> jsval \<Rightarrow> ('w, jsstr list) script" where
  "final_summary w tx v = (\<lambda>s. run_js (liftM (summary_lines (double_of (of_nat (elapsed_ms w s))) tx v)) s)"

definition smoke_main :: "'w smoke_setup \<Rightarrow> environment \<Rightarrow> ('w, jsval) script" where
  "smoke_main w env = bindM (boot_checks w env) (\<lambda>_.
     bindM (real_settle w env) (\<lambda>(cert_id, tx).
     bindM (anchored_bundle w env cert_id) (\<lambda>v.
     bindM (verify_with_cli w v) (\<lambda>verdict.
     bindM (smoke_ok (js ''proof bundle verified by verifier/cli.js'' @ em_dash @ verdict)) (\<lambda>_.
     bindM (final_summary w tx v) (\<lambda>lines. bindM (say_all lines) (\<lambda>_. retM v)))))))"

section \<open>What a green run has seen\<close>

lemmas quiet_rules = trace_rules quiet_say quiet_die_if emits_smoke_get emits_smoke_json quiet_say_all

lemma unsigned_fetch [simp]: "\<not> is_signature (Fetched req)" "\<not> is_signature (Slept ms)"
  by simp_all

lemma quiet_ok: "emits (\<lambda>e. \<not> is_signature e) (smoke_ok m)"
  by (simp add: smoke_ok_def quiet_say)

lemma quiet_funds: "emits (\<lambda>e. \<not> is_signature e) (check_buyer_funds w env)"
  unfolding check_buyer_funds_def fetch_account_def Let_def
  by (auto intro!: emits_bindM emits_catchM quiet_ok quiet_rules split: sum.split)

lemma quiet_boot: "emits (\<lambda>e. \<not> is_signature e) (boot_checks w env)"
  unfolding boot_checks_def check_app_def check_sidecar_def check_supported_def Let_def
  by (auto intro!: emits_bindM quiet_funds quiet_ok emits_property quiet_rules)

lemma quiet_waits: "emits (\<lambda>e. \<not> is_signature e) (wait_anchored w u)" "emits (\<lambda>e. \<not> is_signature e) (wait_for_mirror w u)"
  by (intro anchoring.loop_emits mirroring.loop_emits emits_once; simp)+

lemma quiet_anchored: "emits (\<lambda>e. \<not> is_signature e) (anchored_bundle w env cert_id)"
  unfolding anchored_bundle_def by (auto intro!: emits_bindM quiet_waits quiet_ok emits_property quiet_rules)

lemma quiet_verify_bundle: "emits (\<lambda>e. \<not> is_signature e) (verify_bundle hash new_url (Some f) expected v)"
proof -
  have "\<forall>e \<in> set (mirror_events u m). \<not> is_signature e" for u m
    by (auto simp: mirror_events_def)
  then show ?thesis
    unfolding emits_def using verify_bundle_trace by (metis append_Nil2 empty_iff list.set(1))
qed

lemma spawned_quiet: "emits (\<lambda>e. \<not> is_signature e) (spawned w name)"
  by (auto simp: emits_def spawned_def callM_def create_call_def split: prod.splits sum.splits)

lemma quiet_load_stdin: "emits (\<lambda>e. \<not> is_signature e) (cli_load_bundle f read_file read_stdin (js ''-''))"
  unfolding cli_load_bundle_def by (auto intro!: emits_bindM trace_rules simp: create_call_def)

lemma scan_stdin: "parse_arguments [js ''-''] = Inr (Run False (js ''-''))"
  by (simp add: parse_arguments_def)

lemma quiet_verifier: "emits (\<lambda>e. \<not> is_signature e) (verifier_process w input)"
  unfolding emits_def
proof (intro allI impI)
  fix s r s'
  assume v: "verifier_process w input s = (r, s')"
  let ?p = "bindM (cli_load_bundle (p_fetch (sm_platform w)) (sm_read_file w) (\<lambda>n. (Inr input, n)) (js ''-''))
    (\<lambda>v. verify_bundle (p_hash (sm_platform w)) (sm_new_url w) (Some (p_fetch (sm_platform w))) Null v)"
  obtain x s1 where x: "?p s = (x, s1)" by fastforce
  have "s1 = s'" using v x by (auto simp: verifier_process_def cli_main_def scan_stdin split: sum.splits prod.splits)
  moreover have "emits (\<lambda>e. \<not> is_signature e) ?p" by (intro emits_bindM quiet_load_stdin quiet_verify_bundle)
  ultimately show "\<exists>evs. trace s' = trace s @ evs \<and> (\<forall>e \<in> set evs. \<not> is_signature e)"
    using x unfolding emits_def by blast
qed

lemma verifier_accepts:
  assumes "verifier_process w input s = (Inr (0, out), s')"
  shows "\<exists>v s1 result. json_parse input = Some v \<and>
    verify_bundle (p_hash (sm_platform w)) (sm_new_url w) (Some (p_fetch (sm_platform w))) Null v s1 = (Inr result, s') \<and>
    vr_verified result"
proof -
  let ?load = "cli_load_bundle (p_fetch (sm_platform w)) (sm_read_file w) (\<lambda>n. (Inr input, n)) (js ''-'')"
  let ?verify = "\<lambda>v. verify_bundle (p_hash (sm_platform w)) (sm_new_url w) (Some (p_fetch (sm_platform w))) Null v"
  obtain run where run: "cli_main (p_hash (sm_platform w)) (sm_new_url w) (p_fetch (sm_platform w)) (sm_read_file w)
      (\<lambda>n. (Inr input, n)) [js ''-''] s = (run, s')" "exit_status run = 0"
    using assms by (auto simp: verifier_process_def split: prod.splits)
  obtain x s1 where x: "bindM ?load ?verify s = (x, s1)" by fastforce
  show ?thesis
  proof (cases x)
    case (Inl e)
    then show ?thesis using run x by (auto simp: cli_main_def scan_stdin failed_run_def)
  next
    case (Inr result)
    then have "run = finish_run False result" "s1 = s'" using run x by (auto simp: cli_main_def scan_stdin)
    then have "vr_verified result" using run(2) finish_run_status by blast
    moreover obtain v s2 where "?load s = (Inr v, s2)" "?verify v s2 = (Inr result, s1)"
      using x Inr by (auto simp: run_iffs)
    moreover have "json_parse input = Some v"
      using \<open>?load s = (Inr v, s2)\<close> by (auto simp: cli_load_bundle_def run_iffs callM_def)
    ultimately show ?thesis using \<open>s1 = s'\<close> by blast
  qed
qed

lemma awaited_Inr: "awaited w p s = (Inr x, s') \<longleftrightarrow> p s = (Inr x, s') \<and> \<not> overdue w s'"
  by (auto simp: awaited_def split: prod.splits if_splits)

lemma verify_with_cli_Inr:
  assumes "verify_with_cli w v s = (Inr verdict, s')"
  shows "\<not> overdue w s'" "\<exists>b s1 result. json_parse (joined (stringify v)) = Some b \<and>
    verify_bundle (p_hash (sm_platform w)) (sm_new_url w) (Some (p_fetch (sm_platform w))) Null b s1 = (Inr result, s') \<and>
    vr_verified result"
proof -
  show "\<not> overdue w s'" using assms by (simp add: verify_with_cli_def awaited_Inr)
  obtain out s1 where "verifier_process w (joined (stringify v)) s1 = (Inr (0, out), s')"
    using assms by (auto simp: verify_with_cli_def awaited_Inr run_iffs smoke_fail_def split: if_splits)
  then show "\<exists>b s1 result. json_parse (joined (stringify v)) = Some b \<and>
    verify_bundle (p_hash (sm_platform w)) (sm_new_url w) (Some (p_fetch (sm_platform w))) Null b s1 = (Inr result, s') \<and>
    vr_verified result"
    by (rule verifier_accepts)
qed

lemma anchored_once_Inr: "anchored_once w u s = (Inr (Some v), s') \<Longrightarrow> opt_prop v (js ''status'') = Str (js ''anchored'')"
  by (auto simp: anchored_once_def run_iffs property_def get_prop_Inr split: if_splits)

lemma anchored_bundle_Inr:
  assumes "anchored_bundle w env cert_id s = (Inr v, s')"
  shows "opt_prop v (js ''status'') = Str (js ''anchored'')"
proof -
  obtain s1 where "wait_anchored w (smoke_app env @ js ''/api/v1/certificates/'' @ cert_id) s = (Inr v, s1)"
    using assms by (auto simp: anchored_bundle_def run_iffs smoke_fail_def split: if_splits)
  then show ?thesis using anchoring.loop_result anchored_once_Inr by blast
qed

lemma say_elapsed: "say l s = (r, s') \<Longrightarrow> overdue w s' = overdue w s"
  by (auto simp: say_def note_event_def overdue_def elapsed_ms_def)

lemma say_all_elapsed: "say_all ls s = (r, s') \<Longrightarrow> overdue w s' = overdue w s"
  by (induction ls arbitrary: s) (auto simp: run_simps say_def note_event_def overdue_def elapsed_ms_def)

lemma final_summary_run: "final_summary w tx v s = (r, s') \<Longrightarrow> s' = s"
  by (auto simp: final_summary_def run_js_def liftM_def split: sum.splits)

lemma emits_final_summary: "emits P (final_summary w tx v)"
  unfolding emits_def using final_summary_run by force

lemma smoke_signs: "at_most is_signature 1 (smoke_main w env)"
proof -
  have quiet: "at_most is_signature 0 p" if "emits (\<lambda>e. \<not> is_signature e) p" for p :: "('w, 'x) script"
    using that by (rule emits_at_most)
  have child: "at_most is_signature 1 (buyer_process w env argv)" for argv
    unfolding at_most_def
  proof (intro allI impI)
    fix s r s'
    assume "buyer_process w env argv s = (r, s')"
    then obtain x where "buy_main (sm_platform w) (sm_storage w) env argv s = (x, s')"
      by (auto simp: buyer_process_def split: prod.splits)
    then show "\<exists>evs. trace s' = trace s @ evs \<and> length (filter is_signature evs) \<le> 1"
      using buy_main_once [of "sm_platform w" "sm_storage w" env argv] unfolding at_most_def by blast
  qed
  have "at_most is_signature (0 + (1 + 0)) (bindM (spawned w (js ''buy.mjs'')) (\<lambda>_.
     bindM (buyer_process w env argv) (\<lambda>(code, out).
       if code \<noteq> 0 then smoke_fail (js ''buy.mjs exited '' @ dec_str code) else retM out)))" for argv
    by (intro at_most_bindM child quiet spawned_quiet) (auto intro: quiet_rules split: prod.split)
  then have "at_most is_signature 1 (run_buy w env argv)" for argv
    unfolding run_buy_def at_most_def awaited_def by (auto split: prod.splits)
  then have "at_most is_signature (0 + (1 + 0)) (real_settle w env)"
    unfolding real_settle_def
    by (intro at_most_bindM quiet quiet_say) (auto intro!: quiet_rules emits_bindM quiet_ok split: option.split)
  moreover have "emits (\<lambda>e. \<not> is_signature e) (verify_with_cli w v)" for v
    unfolding verify_with_cli_def by (auto intro!: quiet_rules emits_bindM spawned_quiet quiet_verifier split: prod.split)
  ultimately have "at_most is_signature (0 + (1 + (0 + (0 + 0)))) (smoke_main w env)"
    unfolding smoke_main_def
    by (intro at_most_bindM quiet quiet_boot)
      (auto intro!: at_most_bindM [of _ 0 _ 0, simplified] quiet quiet_anchored quiet_ok quiet_rules emits_bindM emits_final_summary
         split: prod.split)
  then show ?thesis by simp
qed

text \<open>C38. However a run of the smoke gate ends, it has asked for at most one signature. When it ends green,
  the buyer was configured, the certificate is anchored according to the marketplace, the bundle it
  served verifies for the independent verifier, and the watchdog had not fired: the whole took less
  than two minutes.\<close>

theorem smoke_green:
  assumes "smoke_main w env s = (r, s')"
  shows "(\<exists>evs. trace s' = trace s @ evs \<and> length (filter is_signature evs) \<le> 1) \<and>
    (\<forall>v. r = Inr v \<longrightarrow> buyer_set env \<and> opt_prop v (js ''status'') = Str (js ''anchored'') \<and> elapsed_ms w s' < 120000 \<and>
      (\<exists>b s1 s2 result. json_parse (joined (stringify v)) = Some b \<and>
        verify_bundle (p_hash (sm_platform w)) (sm_new_url w) (Some (p_fetch (sm_platform w))) Null b s1 = (Inr result, s2) \<and>
        vr_verified result))"
proof -
  have "buyer_set env \<and> opt_prop v (js ''status'') = Str (js ''anchored'') \<and> elapsed_ms w s' < 120000 \<and>
      (\<exists>b s1 s2 result. json_parse (joined (stringify v)) = Some b \<and>
        verify_bundle (p_hash (sm_platform w)) (sm_new_url w) (Some (p_fetch (sm_platform w))) Null b s1 = (Inr result, s2) \<and>
        vr_verified result)" if "r = Inr v" for v
  proof -
    have m0: "smoke_main w env s = (Inr v, s')" using assms that by simp
    obtain s1 s2 s3 s4 s5 s6 cert_id tx verdict lines where m: "boot_checks w env s = (Inr (), s1)"
      "real_settle w env s1 = (Inr (cert_id, tx), s2)" "anchored_bundle w env cert_id s2 = (Inr v, s3)"
      "verify_with_cli w v s3 = (Inr verdict, s4)"
      "smoke_ok (js ''proof bundle verified by verifier/cli.js'' @ em_dash @ verdict) s4 = (Inr (), s5)"
      "final_summary w tx v s5 = (Inr lines, s6)" "say_all lines s6 = (Inr (), s')"
      using m0 unfolding smoke_main_def run_iffs by (clarsimp simp: run_iffs)
    have "overdue w s' = overdue w s4"
      using say_all_elapsed [OF m(7)] final_summary_run [OF m(6)] say_elapsed [OF m(5) [unfolded smoke_ok_def]] by simp
    then have "elapsed_ms w s' < 120000"
      using verify_with_cli_Inr(1) [OF m(4)] by (simp add: overdue_def deadline_ms_def)
    moreover have "buyer_set env" using m(1) by (simp add: boot_checks_def run_iffs)
    ultimately show ?thesis using anchored_bundle_Inr [OF m(3)] verify_with_cli_Inr(2) [OF m(4)] by blast
  qed
  moreover have "\<exists>evs. trace s' = trace s @ evs \<and> length (filter is_signature evs) \<le> 1"
    using smoke_signs assms unfolding at_most_def by blast
  ultimately show ?thesis by blast
qed

definition sample_setup :: "unit smoke_setup" where
  "sample_setup = \<lparr>sm_platform = shop_platform, sm_storage = no_storage, sm_new_url = (\<lambda>u. None),
     sm_read_file = (\<lambda>p w. (Inl (PlainErr []), w)), sm_spawn = (\<lambda>w. (Inr (), w)), sm_clock = (\<lambda>w. 0), sm_reason = error_message\<rparr>"

definition configured :: environment where
  "configured = [js ''BUYER_ACCOUNT_ID'' \<mapsto> js ''0.0.7'', js ''BUYER_PRIVATE_KEY'' \<mapsto> js ''k'']"

theorem smoke_green_witness:
  "\<exists>r s'. smoke_main sample_setup configured empty_session = (r, s') \<and> length (filter is_signature (trace s')) \<le> 1"
proof -
  obtain r s' where m: "smoke_main sample_setup configured empty_session = (r, s')" by fastforce
  show ?thesis using conjunct1 [OF smoke_green [OF m]] m by (auto simp: empty_session_def)
qed

section \<open>Funds\<close>

text \<open>The check of the funds is not only advisory: an account that is not an object ends the run.\<close>

lemma null_account_throws: "\<exists>e. buyer_holds token Null = Inl e"
  by (simp add: buyer_holds_def get_prop_def nullish_def)

end
