(* ===== verification/BuyerFunding.thy ===== *)
theory BuyerFunding
  imports Smoke HederaSdk JsMath
begin

text \<open>
  The script that tops up the demo buyer (\<open>scripts/fund-buyer.mjs\<close>): its flags and environment, the
  reports of the buyer's balance, and the transfer from the operator's account. The Hedera SDK is the
  record \<open>funder\<close>: its parsers, what \<open>new Hbar(n)\<close> and a token amount are in the smallest unit, and
  the execution of a transfer with its receipt. The lemmas show what the script ever submits.
\<close>

section \<open>Flags and environment\<close>

fun value_after :: "jsstr \<Rightarrow> jsnum \<Rightarrow> jsstr list \<Rightarrow> jsnum" where
  "value_after name other [] = other"
| "value_after name other (a # as) = (if a = name then argument_number as else value_after name other as)"

definition fund_flag :: "jsstr list \<Rightarrow> string \<Rightarrow> jsnum \<Rightarrow> jsnum" where
  "fund_flag argv name other = value_after (js ''--'' @ js name) other argv"

definition fund_hbar :: "jsstr list \<Rightarrow> jsnum" where
  "fund_hbar argv = fund_flag argv ''hbar'' (Fin 200)"

definition fund_usdc :: "jsstr list \<Rightarrow> jsnum" where
  "fund_usdc argv = fund_flag argv ''usdc'' (Fin 20)"

definition fund_dry_run :: "jsstr list \<Rightarrow> bool" where
  "fund_dry_run argv = (js ''--dry-run'' \<in> set argv)"

definition fund_net :: "environment \<Rightarrow> jsstr" where
  "fund_net env = (if env (js ''HEDERA_NETWORK'') = Some (js ''mainnet'') then js ''mainnet'' else js ''testnet'')"

definition fund_token :: "environment \<Rightarrow> jsstr" where
  "fund_token env = (if fund_net env = js ''mainnet'' then js ''0.0.456858'' else js ''0.0.429274'')"

definition fund_mirror :: "environment \<Rightarrow> jsstr" where
  "fund_mirror env = env_or env ''MIRROR_NODE_URL'' (js ''https://'' @ fund_net env @ js ''.mirrornode.hedera.com'')"

definition fund_from :: "environment \<Rightarrow> jsstr" where
  "fund_from env = env_or env ''HEDERA_ACCOUNT_ID'' []"

definition fund_to :: "environment \<Rightarrow> jsstr" where
  "fund_to env = env_or env ''BUYER_ACCOUNT_ID'' []"

definition fund_key :: "environment \<Rightarrow> jsstr" where
  "fund_key env = env_or env ''HEDERA_PRIVATE_KEY'' []"

section \<open>The transfer\<close>

record 'w funder =
  fu_fetch :: "'w fetcher"
  fu_account :: "jsstr \<Rightarrow> js_error + jsstr"
  fu_token :: "jsstr \<Rightarrow> js_error + jsstr"
  fu_key :: "jsstr \<Rightarrow> js_error + jsval"
  fu_tinybars :: "jsnum \<Rightarrow> js_error + int"
  fu_units :: "jsnum \<Rightarrow> js_error + int"
  fu_execute :: "transfer \<Rightarrow> jsval \<Rightarrow> 'w \<Rightarrow> (js_error + jsstr \<times> jsstr) \<times> 'w"

text \<open>The two lines that move an amount: \<open>add...Transfer(from, -n)\<close> and \<open>add...Transfer(to, n)\<close>.\<close>

definition moved ::
  "'w funder \<Rightarrow> (jsnum \<Rightarrow> js_error + int) \<Rightarrow> jsstr option \<Rightarrow> jsstr \<Rightarrow> jsstr \<Rightarrow> jsnum \<Rightarrow> js_error + transfer_entry list" where
  "moved fu smallest token from to n =
     bindE (smallest (num_neg n)) (\<lambda>debit. bindE (fu_account fu from) (\<lambda>a.
     bindE (smallest n) (\<lambda>credit. bindE (fu_account fu to) (\<lambda>b.
       Inr [\<lparr>te_token = token, te_account = a, te_amount = debit\<rparr>,
            \<lparr>te_token = token, te_account = b, te_amount = credit\<rparr>]))))"

definition token_units :: "jsnum \<Rightarrow> jsnum" where
  "token_units usdc = num_round (num_mul usdc (Fin 1000000))"

definition fund_lines :: "'w funder \<Rightarrow> environment \<Rightarrow> jsstr list \<Rightarrow> js_error + transfer_entry list" where
  "fund_lines fu env argv =
     bindE (if num_lt (Fin 0) (fund_hbar argv)
       then moved fu (fu_tinybars fu) None (fund_from env) (fund_to env) (fund_hbar argv) else Inr []) (\<lambda>hs.
     bindE (if num_lt (Fin 0) (fund_usdc argv)
       then bindE (fu_token fu (fund_token env)) (\<lambda>token.
         moved fu (fu_units fu) (Some token) (fund_from env) (fund_to env) (token_units (fund_usdc argv)))
       else Inr []) (\<lambda>ts. Inr (hs @ ts)))"

definition fund_transfer :: "'w funder \<Rightarrow> environment \<Rightarrow> jsstr list \<Rightarrow> js_error + jsval \<times> transfer" where
  "fund_transfer fu env argv = bindE (fu_account fu (fund_from env)) (\<lambda>operator.
     bindE (fu_key fu (fund_key env)) (\<lambda>key. bindE (fund_lines fu env argv) (\<lambda>es.
       Inr (key, \<lparr>tx_entries = es, tx_payer = Some operator, tx_memo = Str (js ''printwright: fund demo buyer'')\<rparr>))))"

text \<open>The page of the mirror node that shows a transaction. The pattern has one \<open>@\<close>, and its groups have
  no other characters than digits and the two points of the account.\<close>

definition re_transaction :: re where
  "re_transaction = r_seq [r_plus r_digit, r_ch (CHR ''.''), r_plus r_digit, r_ch (CHR ''.''), r_plus r_digit,
     r_ch (CHR ''@''), r_plus r_digit, r_ch (CHR ''.''), r_between 1 9 r_digit]"

definition fund_transaction_url :: "environment \<Rightarrow> jsstr \<Rightarrow> js_error + jsstr" where
  "fund_transaction_url env t = (let
       account = takeWhile (\<lambda>c. c \<noteq> jc (CHR ''@'')) t; rest = drop (Suc (length account)) t;
       seconds = takeWhile (\<lambda>c. c \<noteq> jc (CHR ''.'')) rest; nanos = drop (Suc (length seconds)) rest in
     if \<not> re_test re_transaction t
     then bindE (encode_component t) (\<lambda>e. Inr (fund_mirror env @ js ''/api/v1/transactions?transactionid='' @ e))
     else Inr (fund_mirror env @ js ''/api/v1/transactions/'' @ account @ js ''-'' @ seconds @ js ''-'' @ nanos))"

section \<open>The run\<close>

definition held_by_buyer :: "environment \<Rightarrow> jsval \<Rightarrow> js_error + jsnum \<times> jsnum" where
  "held_by_buyer env body = bindE (get_prop body (js ''balance'')) (\<lambda>balance.
     bindE (get_prop balance (js ''tokens'')) (\<lambda>tokens. bindE (found_in (find_token (fund_token env)) tokens) (\<lambda>t.
     bindE (number_of (opt_prop balance (js ''balance''))) (\<lambda>hbar.
     bindE (number_of (coalesce (opt_prop t (js ''balance'')) (jnum 0))) (\<lambda>usdc. Inr (hbar, usdc))))))"

definition fund_report :: "'w funder \<Rightarrow> environment \<Rightarrow> string \<Rightarrow> ('w, unit) script" where
  "fund_report fu env label =
     bindM (run_js (fetchM (fu_fetch fu) (plain_get (fund_mirror env @ js ''/api/v1/accounts/'' @ fund_to env)))) (\<lambda>res.
     if \<not> res_ok res then say (js ''  ('' @ js label @ js '': mirror returned '' @ dec_str (res_status res) @ js '')'')
     else bindM (run_js (liftM (bindE (body_json res) (held_by_buyer env)))) (\<lambda>(hbar, usdc).
       say (js ''  '' @ js label @ js '': '' @ in_hbar hbar @ [32, 183, 32] @ in_usdc usdc)))"

definition funding_call :: jsstr where
  "funding_call = js ''TransferTransaction.execute''"

fun entry_value :: "transfer_entry \<Rightarrow> jsval" where
  "entry_value e = Obj [(js ''token'', optional_text (te_token e)), (js ''account'', Str (te_account e)),
     (js ''amount'', Num (Fin (of_int (te_amount e))))]"

definition funding_event :: "transfer \<Rightarrow> event" where
  "funding_event tx = Called funding_call (map entry_value (tx_entries tx))"

definition not_associated_hint :: "environment \<Rightarrow> jsstr" where
  "not_associated_hint env = newline @ js ''(if this is TOKEN_NOT_ASSOCIATED_TO_ACCOUNT, the buyer must associate '' @
     fund_token env @ js '' first'' @ em_dash @ js ''scripts/buy.mjs does this automatically on its first USDC purchase)''"

definition submit_funding :: "'w funder \<Rightarrow> environment \<Rightarrow> jsval \<Rightarrow> transfer \<Rightarrow> ('w, unit) script" where
  "submit_funding fu env key tx = catchM
     (bindM (run_js (callM (\<lambda>_. fu_execute fu tx key) funding_call (map entry_value (tx_entries tx)))) (\<lambda>(status, t).
      bindM (say (newline @ status @ em_dash @ t)) (\<lambda>_.
      bindM (run_js (liftM (fund_transaction_url env t))) say)))
     (\<lambda>st. case st of Threw e \<Rightarrow> throwM (Died (error_message e @ not_associated_hint env)) | _ \<Rightarrow> throwM st)"

definition fund_headline :: "environment \<Rightarrow> jsstr list \<Rightarrow> jsstr" where
  "fund_headline env argv = js ''funding '' @ fund_to env @ js '' from '' @ fund_from env @ js '' on '' @ fund_net env @
     js '': '' @ num_str (fund_hbar argv) @ [32, 0x210F] @ js '' + '' @ num_str (fund_usdc argv) @ js '' USDC''"

definition fund_main :: "'w funder \<Rightarrow> environment \<Rightarrow> jsstr list \<Rightarrow> ('w, unit) script" where
  "fund_main fu env argv =
     bindM (die_if (fund_from env = [] \<or> fund_to env = [] \<or> fund_key env = [])
       (js ''HEDERA_ACCOUNT_ID, HEDERA_PRIVATE_KEY and BUYER_ACCOUNT_ID are required'')) (\<lambda>_.
     bindM (die_if (fund_from env = fund_to env)
       (js ''operator and buyer are the same account ('' @ fund_from env @ js '')'' @ em_dash @ js ''nothing to move'')) (\<lambda>_.
     bindM (die_if (\<not> num_le (Fin 0) (fund_hbar argv) \<or> \<not> num_le (Fin 0) (fund_usdc argv))
       (js ''--hbar and --usdc must be non-negative numbers'')) (\<lambda>_.
     bindM (say (fund_headline env argv)) (\<lambda>_.
     bindM (fund_report fu env ''before'') (\<lambda>_.
     if fund_dry_run argv then bindM (say (js ''--dry-run: nothing sent'')) (\<lambda>_. throwM Quit)
     else bindM (run_js (liftM (fund_transfer fu env argv))) (\<lambda>(key, tx).
       bindM (submit_funding fu env key tx) (\<lambda>_. fund_report fu env ''after'')))))))"

section \<open>What the script submits\<close>

text \<open>The documented behaviour of the conversions: \<open>new Hbar\<close> is the same amount for a number and, negated, for
  its negation, and positive for a positive one; a safe integer is taken over as a token amount.\<close>

definition exact_amounts :: "'w funder \<Rightarrow> bool" where
  "exact_amounts fu = ((\<forall>x a. fu_tinybars fu x = Inr a \<longrightarrow> fu_tinybars fu (num_neg x) = Inr (- a)) \<and>
     (\<forall>x a. num_lt (Fin 0) x \<longrightarrow> fu_tinybars fu x = Inr a \<longrightarrow> 0 \<le> a) \<and>
     (\<forall>i. safe_int i \<longrightarrow> fu_units fu (Fin (of_int i)) = Inr i))"

fun is_funding :: "event \<Rightarrow> bool" where
  "is_funding (Called name args) = (name = funding_call)"
| "is_funding _ = False"

text \<open>Every line takes from the operator or gives to the buyer.\<close>

definition from_operator_to_buyer :: "'w funder \<Rightarrow> environment \<Rightarrow> transfer_entry list \<Rightarrow> bool" where
  "from_operator_to_buyer fu env es = (\<forall>l \<in> set es.
     fu_account fu (fund_from env) = Inr (te_account l) \<and> te_amount l \<le> 0 \<or>
     fu_account fu (fund_to env) = Inr (te_account l) \<and> 0 \<le> te_amount l)"

lemma moved_balanced:
  assumes "moved fu smallest token (fund_from env) (fund_to env) n = Inr es"
    and "\<And>a. smallest n = Inr a \<Longrightarrow> smallest (num_neg n) = Inr (- a) \<and> 0 \<le> a"
  shows "net_amount t es = 0 \<and> from_operator_to_buyer fu env es \<and>
    (\<forall>l \<in> set es. te_token l = token \<and> smallest n = Inr \<bar>te_amount l\<bar>)"
  using assms by (auto simp: moved_def from_operator_to_buyer_def)

lemma units_whole:
  assumes "num_lt (Fin 0) usdc" "num_le usdc (Fin 9007199254)"
  obtains i where "token_units usdc = Fin (of_int i)" "0 \<le> i" "safe_int i"
proof -
  obtain q where q: "usdc = Fin q" "0 < q" "q \<le> 9007199254"
    using assms by (cases usdc) (auto simp: num_le_def num_eq_def)
  obtain r where r: "double_of (q * 1000000) = Fin r" "0 \<le> r" "r \<le> of_nat 9007199254000000"
    by (rule double_of_between [of "q * 1000000" 9007199254000000]) (use q in simp_all)
  have "\<lfloor>r + 1 / 2\<rfloor> \<le> 9007199254000000" using r(3) by (simp add: floor_le_iff)
  moreover have "0 \<le> \<lfloor>r + 1 / 2\<rfloor>" using r(2) by simp
  ultimately show ?thesis
    using that [of "\<lfloor>r + 1 / 2\<rfloor>"] q(1) r(1) by (simp add: token_units_def safe_int_def)
qed

lemma fund_lines_balanced:
  assumes "exact_amounts fu" "num_le (fund_usdc argv) (Fin 9007199254)" "fund_lines fu env argv = Inr es"
  shows "balanced es \<and> from_operator_to_buyer fu env es"
proof -
  obtain hs ts where es: "es = hs @ ts"
    and h: "num_lt (Fin 0) (fund_hbar argv) \<and> moved fu (fu_tinybars fu) None (fund_from env) (fund_to env) (fund_hbar argv) = Inr hs \<or> hs = []"
    and t: "num_lt (Fin 0) (fund_usdc argv) \<and> (\<exists>token. moved fu (fu_units fu) (Some token) (fund_from env) (fund_to env)
        (token_units (fund_usdc argv)) = Inr ts) \<or> ts = []"
    using assms(3) by (auto simp: fund_lines_def split: if_splits)
  have ht: "fu_tinybars fu (num_neg x) = Inr (- a) \<and> 0 \<le> a" if "fu_tinybars fu x = Inr a" "num_lt (Fin 0) x" for x a
    using assms(1) that unfolding exact_amounts_def by blast
  have hs: "net_amount k hs = 0 \<and> from_operator_to_buyer fu env hs" for k
    using h moved_balanced [where smallest = "fu_tinybars fu" and n = "fund_hbar argv" and es = hs and fu = fu and env = env] ht
    by (auto simp: from_operator_to_buyer_def)
  have ts: "net_amount k ts = 0 \<and> from_operator_to_buyer fu env ts" for k
  proof (cases "ts = []")
    case False
    then obtain token where m: "num_lt (Fin 0) (fund_usdc argv)"
      "moved fu (fu_units fu) (Some token) (fund_from env) (fund_to env) (token_units (fund_usdc argv)) = Inr ts"
      using t by blast
    obtain i where i: "token_units (fund_usdc argv) = Fin (of_int i)" "0 \<le> i" "safe_int i"
      by (rule units_whole [OF m(1) assms(2)])
    have "fu_units fu (Fin (of_int i)) = Inr i" "fu_units fu (Fin (of_int (- i))) = Inr (- i)"
      using assms(1) i(3) unfolding exact_amounts_def safe_int_def by (metis abs_minus_cancel)+
    then show ?thesis using moved_balanced [OF m(2), of k] i by simp
  qed (simp add: from_operator_to_buyer_def)
  show ?thesis using hs ts by (auto simp: es balanced_iff from_operator_to_buyer_def)
qed

lemma quiet_funding:
  "emits (\<lambda>e. \<not> is_funding e) (say l)" "emits (\<lambda>e. \<not> is_funding e) (fund_report fu env label)"
proof -
  show s: "emits (\<lambda>e. \<not> is_funding e) (say l)" for l :: jsstr and w :: 'w
    by (auto simp: emits_def say_def log_call_def funding_call_def)
  show "emits (\<lambda>e. \<not> is_funding e) (fund_report fu env label)"
    unfolding fund_report_def by (auto intro!: emits_bindM trace_rules s split: prod.splits)
qed

text \<open>One execution, of the transfer it was given.\<close>

lemma submit_funding_emits:
  "emits (\<lambda>e. is_funding e \<longrightarrow> e = funding_event tx) (submit_funding fu env key tx)"
  "at_most is_funding 1 (submit_funding fu env key tx)"
proof -
  have q: "emits (\<lambda>e. is_funding e \<longrightarrow> e = funding_event tx) (say l)" for l
    by (rule emits_mono [OF quiet_funding(1)]) blast
  show "emits (\<lambda>e. is_funding e \<longrightarrow> e = funding_event tx) (submit_funding fu env key tx)"
    unfolding submit_funding_def
    by (auto intro!: emits_catchM emits_bindM trace_rules q [unfolded funding_event_def] simp: funding_event_def split: prod.splits stop.splits)
  have z: "at_most is_funding 0 p" if "emits (\<lambda>e. \<not> is_funding e) p" for p :: "('w, 'x) script"
    by (rule emits_at_most [OF that])
  have body: "at_most is_funding (1 + 0) (bindM (run_js (callM (\<lambda>_. fu_execute fu tx key) funding_call (map entry_value (tx_entries tx)))) (\<lambda>(status, t).
      bindM (say (newline @ status @ em_dash @ t)) (\<lambda>_. bindM (run_js (liftM (fund_transaction_url env t))) say)))"
    by (intro at_most_bindM at_most_run_js at_most_callM)
      (auto intro!: emits_at_most emits_bindM trace_rules quiet_funding(1) split: prod.splits)
  have "at_most is_funding (1 + 0 + 0) (submit_funding fu env key tx)"
    unfolding submit_funding_def
    by (rule at_most_catchM [OF body]) (auto intro!: emits_at_most trace_rules split: stop.splits)
  then show "at_most is_funding 1 (submit_funding fu env key tx)" by simp
qed

lemma fund_main_emits:
  "emits (\<lambda>e. is_funding e \<longrightarrow> fund_from env \<noteq> fund_to env \<and> \<not> fund_dry_run argv \<and>
     (\<exists>key tx. fund_transfer fu env argv = Inr (key, tx) \<and> e = funding_event tx)) (fund_main fu env argv)"
proof -
  have q: "emits (\<lambda>e. is_funding e \<longrightarrow> R e) (say l)" "emits (\<lambda>e. is_funding e \<longrightarrow> R e) (fund_report fu env label)" for R l label
    by (rule emits_mono [OF quiet_funding(1)], blast) (rule emits_mono [OF quiet_funding(2)], blast)
  show ?thesis
    unfolding fund_main_def
    by (intro emits_bindM quiet_die_if q)
      (auto intro!: emits_bindM trace_rules q quiet_funding(1) submit_funding_emits(1) simp: run_iffs split: prod.splits)
qed

lemma fund_main_once: "at_most is_funding 1 (fund_main fu env argv)"
proof -
  have z: "at_most is_funding 0 p" if "emits (\<lambda>e. \<not> is_funding e) p" for p :: "('w, 'x) script"
    by (rule emits_at_most [OF that])
  have send: "at_most is_funding (0 + (1 + 0)) (bindM (run_js (liftM (fund_transfer fu env argv))) (\<lambda>(key, tx).
       bindM (submit_funding fu env key tx) (\<lambda>_. fund_report fu env ''after'')))"
    by (rule at_most_bindM) (auto intro!: z trace_rules at_most_bindM [of _ 1 _ 0, simplified] submit_funding_emits(2) [simplified] quiet_funding split: prod.splits)
  have "at_most is_funding (0 + (0 + (0 + (0 + (0 + 1))))) (fund_main fu env argv)"
    unfolding fund_main_def
  proof (intro at_most_bindM z quiet_die_if quiet_funding)
    show "at_most is_funding 1 (if fund_dry_run argv then bindM (say (js ''--dry-run: nothing sent'')) (\<lambda>_. throwM Quit)
       else bindM (run_js (liftM (fund_transfer fu env argv))) (\<lambda>(key, tx).
         bindM (submit_funding fu env key tx) (\<lambda>_. fund_report fu env ''after'')))"
      using send by (auto intro!: at_most_mono [OF z] emits_bindM quiet_funding trace_rules)
  qed
  then show ?thesis by simp
qed

text \<open>C39. A run of the script submits at most one transfer, and only one that moves money from the operator to
  the buyer: the two are different accounts, it is not a dry run, the lines of the transfer add up to
  nothing for HBAR and for the token, and each takes from the operator or gives to the buyer. For token
  amounts up to 9007199254, beyond which the script's arithmetic on numbers is not exact.\<close>

theorem funding_balanced:
  assumes "exact_amounts fu" "num_le (fund_usdc argv) (Fin 9007199254)" "fund_main fu env argv s = (r, s')"
  shows "\<exists>evs. trace s' = trace s @ evs \<and> length (filter is_funding evs) \<le> 1 \<and>
    (\<forall>e \<in> set evs. is_funding e \<longrightarrow> fund_from env \<noteq> fund_to env \<and> \<not> fund_dry_run argv \<and>
       (\<exists>key tx. fund_transfer fu env argv = Inr (key, tx) \<and> e = funding_event tx \<and>
          balanced (tx_entries tx) \<and> from_operator_to_buyer fu env (tx_entries tx)))"
proof -
  obtain evs where evs: "trace s' = trace s @ evs" "\<forall>e \<in> set evs. is_funding e \<longrightarrow>
      fund_from env \<noteq> fund_to env \<and> \<not> fund_dry_run argv \<and> (\<exists>key tx. fund_transfer fu env argv = Inr (key, tx) \<and> e = funding_event tx)"
    by (rule emitsD [OF fund_main_emits assms(3)])
  have "length (filter is_funding evs) \<le> 1"
    using fund_main_once assms(3) evs(1) unfolding at_most_def by fastforce
  moreover have "balanced (tx_entries tx) \<and> from_operator_to_buyer fu env (tx_entries tx)"
    if "fund_transfer fu env argv = Inr (key, tx)" for key tx
    using that fund_lines_balanced [OF assms(1,2)] by (auto simp: fund_transfer_def)
  ultimately show ?thesis using evs by blast
qed

section \<open>A concrete run\<close>

fun sample_tinybars :: "jsnum \<Rightarrow> js_error + int" where
  "sample_tinybars (Fin q) = (if rat_is_int (q * 100000000) then Inr \<lfloor>q * 100000000\<rfloor> else Inl (PlainErr (js ''decimals'')))"
| "sample_tinybars _ = Inl (PlainErr (js ''decimals''))"

definition sample_funder :: "unit funder" where
  "sample_funder = \<lparr>fu_fetch = (\<lambda>req w. (Inr \<lparr>res_status = 503, res_headers = [], res_url = req_url req, res_text = Inr []\<rparr>, w)),
     fu_account = Inr, fu_token = Inr, fu_key = (\<lambda>k. Inr (Str k)), fu_tinybars = sample_tinybars, fu_units = whole_number,
     fu_execute = (\<lambda>tx key w. (Inr (js ''SUCCESS'', js ''0.0.1@5.6''), w))\<rparr>"

definition sample_operator :: environment where
  "sample_operator name = (if name = js ''HEDERA_ACCOUNT_ID'' then Some (js ''0.0.1'')
     else if name = js ''HEDERA_PRIVATE_KEY'' then Some (js ''key'')
     else if name = js ''BUYER_ACCOUNT_ID'' then Some (js ''0.0.2'') else None)"

lemma exact_sample_funder: "exact_amounts sample_funder"
proof -
  have "sample_tinybars (num_neg x) = Inr (- a) \<and> (num_lt (Fin 0) x \<longrightarrow> 0 \<le> a)" if t: "sample_tinybars x = Inr a" for x a
  proof -
    obtain q where q: "x = Fin q" "rat_is_int (q * 100000000)" "a = \<lfloor>q * 100000000\<rfloor>"
      using t by (cases x) (auto split: if_splits)
    have w: "q * 100000000 = of_int a"
      unfolding q(3) by (rule q(2) [unfolded rat_is_int_def, symmetric])
    then have "- q * 100000000 = of_int (- a)" by simp
    then show ?thesis using q(1) w by (simp add: rat_is_int_def flip: of_int_minus)
  qed
  moreover have "whole_number (Fin (of_int i)) = Inr i" for i by (simp add: rat_is_int_def)
  ultimately show ?thesis by (simp add: exact_amounts_def sample_funder_def)
qed

definition sample_lines :: "transfer_entry list" where
  "sample_lines =
     [\<lparr>te_token = None, te_account = js ''0.0.1'', te_amount = -20000000000\<rparr>,
      \<lparr>te_token = None, te_account = js ''0.0.2'', te_amount = 20000000000\<rparr>,
      \<lparr>te_token = Some (js ''0.0.429274''), te_account = js ''0.0.1'', te_amount = -20000000\<rparr>,
      \<lparr>te_token = Some (js ''0.0.429274''), te_account = js ''0.0.2'', te_amount = 20000000\<rparr>]"

lemma sample_flags: "fund_hbar [] = Fin 200" "fund_usdc [] = Fin 20" "\<not> fund_dry_run []"
  by (simp_all add: fund_hbar_def fund_usdc_def fund_flag_def fund_dry_run_def)

lemma sample_accounts: "fund_from sample_operator = js ''0.0.1''" "fund_to sample_operator = js ''0.0.2''"
    "fund_key sample_operator = js ''key''" "fund_token sample_operator = js ''0.0.429274''"
  by (simp_all add: fund_from_def fund_to_def fund_key_def fund_token_def fund_net_def env_or_def sample_operator_def js_eval)

lemma sample_funding: "fund_transfer sample_funder sample_operator [] =
    Inr (Str (js ''key''), \<lparr>tx_entries = sample_lines, tx_payer = Some (js ''0.0.1''), tx_memo = Str (js ''printwright: fund demo buyer'')\<rparr>)"
proof -
  have u: "token_units (Fin 20) = Fin 20000000"
    by (simp add: token_units_def double_of_numeral floor_eq_iff)
  show ?thesis
    by (simp add: fund_transfer_def fund_lines_def moved_def sample_flags sample_accounts sample_funder_def u sample_lines_def rat_is_int_simps)
qed

lemma sample_report: "fund_report sample_funder sample_operator label s = (Inr (),
     s\<lparr>trace := trace s @ [Fetched (plain_get (fund_mirror sample_operator @ js ''/api/v1/accounts/'' @ js ''0.0.2'')),
        Called log_call [Str (js ''  ('' @ js label @ js '': mirror returned '' @ dec_str 503 @ js '')'')]]\<rparr>)"
  by (cases s) (simp add: fund_report_def run_simps run_js_def fetchM_def sample_funder_def sample_accounts res_ok_def say_def note_event_def)

theorem funding_balanced_witness:
  "\<exists>r s'. fund_main sample_funder sample_operator [] empty_session = (r, s') \<and>
     filter is_funding (trace s') = [Called funding_call (map entry_value sample_lines)] \<and> balanced sample_lines"
proof -
  have u: "fund_transaction_url sample_operator (js ''0.0.1@5.6'') = Inr (fund_mirror sample_operator @ js ''/api/v1/transactions/0.0.1-5-6'')"
    unfolding fund_transaction_url_def by code_simp
  obtain r s' where m: "fund_main sample_funder sample_operator [] empty_session = (r, s')" by fastforce
  have n: "js ''0.0.1'' \<noteq> []" "js ''0.0.2'' \<noteq> []" "js ''key'' \<noteq> []" "js ''0.0.1'' \<noteq> js ''0.0.2''" "log_call \<noteq> funding_call"
    by (simp_all add: js_eval log_call_def funding_call_def)
  have e: "fu_execute sample_funder tx key w = (Inr (js ''SUCCESS'', js ''0.0.1@5.6''), w)" for tx key w
    by (simp add: sample_funder_def)
  have f: "filter is_funding (trace s') = [Called funding_call (map entry_value sample_lines)]"
    using m n by (simp add: fund_main_def run_simps run_js_def sample_flags sample_accounts die_if_def num_le_def num_eq_def
      sample_report sample_funding submit_funding_def callM_def e u say_def note_event_def)
      (auto simp: empty_session_def sample_lines_def)
  have "num_le (fund_usdc []) (Fin 9007199254)" by (simp add: sample_flags num_le_def)
  from funding_balanced [OF exact_sample_funder this m]
  obtain e where "is_funding e" "e \<in> set (trace s')" "\<exists>key tx. fund_transfer sample_funder sample_operator [] = Inr (key, tx) \<and> balanced (tx_entries tx)"
    using f by (auto simp: empty_session_def) (metis Cons_eq_filterD in_set_conv_decomp)
  then show ?thesis using m f by (auto simp: sample_funding)
qed

end
