(* ===== verification/ListingEditor.thy ===== *)
theory ListingEditor
  imports CheckoutView JsMath
begin

text \<open>
  The editor of a listing (\<open>app/javascript/controllers/listing_editor_controller.js\<close>): the unsaved
  changes it tracks, the warnings before leaving, and the preview of title, tags, shelves, facts,
  render and prices. The state is the record \<open>listing\<close>; what the page holds when a handler runs is the
  record \<open>listing_form\<close>. Lower-casing of arbitrary text is a parameter. The lemmas say when the editor
  warns, that a saving editor has stopped tracking, and what the net price can be.
\<close>

section \<open>What the handlers read\<close>

datatype form_value =
    TextValue jsstr
  | FileValue jsstr nat nat

record selected_option =
  so_label :: jsstr
  so_description :: "jsstr option"
  so_suggestions :: "jsstr option"

record category_choice =
  cc_value :: jsstr
  cc_selected :: "selected_option option"

record license_card =
  lc_removed :: bool
  lc_price :: "jsstr option"
  lc_has_net :: bool

record listing_form =
  lf_entries :: "(jsstr \<times> form_value) list option"
  lf_category :: "category_choice option"
  lf_collections :: "jsval list"
  lf_materials :: "jsstr option"
  lf_supports :: bool
  lf_minutes :: "jsstr option"
  lf_bed :: "jsstr option"
  lf_cards :: "license_card list"

text \<open>The field an input event comes from.\<close>

record field =
  fd_name :: jsstr
  fd_value :: jsstr
  fd_is_render :: bool
  fd_file_type :: "jsstr option"

section \<open>The state\<close>

record listing =
  le_dirty :: bool
  le_submitting :: bool
  le_object_url :: "jsstr option"
  le_live_urls :: "jsstr list"
  le_initial_form :: jsstr
  le_initial_status :: jsstr
  le_save_text :: jsstr
  le_save_state :: jsstr
  le_status :: jsstr
  le_title :: jsstr
  le_description :: jsstr
  le_tags :: jsstr
  le_category :: jsstr
  le_collections :: jsstr
  le_printability :: jsstr
  le_price :: jsstr
  le_nets :: "jsstr option list"
  le_help :: jsstr
  le_suggestions :: "jsstr \<times> jsstr list"
  le_image :: "jsstr option"

text \<open>\<open>formState\<close>: without a form, the empty text.\<close>

fun entry_value :: "jsstr \<times> form_value \<Rightarrow> jsval" where
  "entry_value (name, TextValue v) = Arr [Str name, Str v]"
| "entry_value (name, FileValue f n modified) = Arr [Str name, Str f, jnum n, jnum modified]"

definition form_state :: "listing_form \<Rightarrow> jsstr" where
  "form_state form = (case lf_entries form of None \<Rightarrow> []
     | Some es \<Rightarrow> joined (stringify (Arr (map entry_value es))))"

definition connect_listing :: "listing_form \<Rightarrow> listing \<Rightarrow> listing" where
  "connect_listing form s = s\<lparr>le_dirty := False, le_submitting := False, le_object_url := None,
     le_initial_form := form_state form, le_initial_status := js_trim (le_status s)\<rparr>"

section \<open>The preview\<close>

text \<open>\<open>text || other\<close>\<close>

definition text_or :: "jsstr \<Rightarrow> jsstr \<Rightarrow> jsstr" where
  "text_or t other = (if t = [] then other else t)"

definition comma_list :: "jsstr list \<Rightarrow> jsstr" where
  "comma_list ts = intersperse (js '', '') ts"

definition tags_of :: "jsstr \<Rightarrow> jsstr list" where
  "tags_of t = filter (\<lambda>x. x \<noteq> []) (map js_trim (split_on (jc (CHR '','')) t))"

definition preview_discovery :: "listing_form \<Rightarrow> listing \<Rightarrow> listing" where
  "preview_discovery form s = (let names = lf_collections form in
     s\<lparr>le_category := (case lf_category form of
          Some c \<Rightarrow> if cc_value c = [] then js ''No buyer category yet''
            else js ''Category: '' @ (case cc_selected c of Some so \<Rightarrow> js_trim (so_label so) | None \<Rightarrow> [])
        | None \<Rightarrow> js ''No buyer category yet''),
       le_collections := (if names = [] then js ''No collection shelves selected''
          else js ''Browse shelves: '' @ comma_list (map (\<lambda>v. case v of Str n \<Rightarrow> n | _ \<Rightarrow> []) names))\<rparr>)"

text \<open>\<open>materials.split(/[,\\s]+/).filter(Boolean)\<close>\<close>

fun words_of :: "jsstr \<Rightarrow> jsstr \<Rightarrow> jsstr list" where
  "words_of acc [] = (if acc = [] then [] else [rev acc])"
| "words_of acc (c # s) = (if c = jc (CHR '','') \<or> is_space c
     then (if acc = [] then words_of [] s else rev acc # words_of [] s) else words_of (c # acc) s)"

definition fact_of :: "jsstr option \<Rightarrow> (jsstr \<Rightarrow> jsstr) \<Rightarrow> jsstr list" where
  "fact_of v f = (case v of None \<Rightarrow> [] | Some t \<Rightarrow> if js_trim t = [] then [] else [f (js_trim t)])"

definition fact_lines :: "listing_form \<Rightarrow> jsstr list" where
  "fact_lines form = fact_of (lf_materials form) (\<lambda>t. intersperse (js '' / '') (words_of [] t)) @
     [if lf_supports form then js ''supports needed'' else js ''support-free''] @
     fact_of (lf_minutes form) (\<lambda>t. t @ js '' min'') @ fact_of (lf_bed form) (\<lambda>t. t @ js '' mm bed'')"

definition preview_print :: "listing_form \<Rightarrow> listing \<Rightarrow> listing" where
  "preview_print form s = s\<lparr>le_printability :=
     js ''Print facts: '' @ intersperse middle_dot (fact_lines form)\<rparr>"

definition price_in_cents :: "license_card \<Rightarrow> jsnum option" where
  "price_in_cents lc = (let price = parse_float (case lc_price lc of None \<Rightarrow> [] | Some t \<Rightarrow> t) in
     if is_finite price \<and> num_lt (Fin 0) price then Some (num_round (num_mul price (Fin 100))) else None)"

definition platform_fee :: "jsnum \<Rightarrow> jsnum \<Rightarrow> jsnum" where
  "platform_fee fee_bps cents = num_floor (num_div (num_mul cents fee_bps) 10000)"

definition dollars :: "jsnum \<Rightarrow> jsstr" where
  "dollars cents = to_fixed 2 (num_div cents 100) @ js '' USDC''"

definition net_text :: "jsnum \<Rightarrow> license_card \<Rightarrow> jsstr option" where
  "net_text fee_bps lc = (if lc_has_net lc then Some (case price_in_cents lc of
        None \<Rightarrow> js ''Set a price''
      | Some cents \<Rightarrow> dollars (num_add cents (num_neg (platform_fee fee_bps cents)))) else None)"

definition listed_prices :: "license_card list \<Rightarrow> jsnum list" where
  "listed_prices cards = List.map_filter (\<lambda>lc. if lc_removed lc then None else price_in_cents lc) cards"

definition preview_offers :: "jsnum \<Rightarrow> listing_form \<Rightarrow> listing \<Rightarrow> listing" where
  "preview_offers fee_bps form s = (let prices = listed_prices (lf_cards form) in
     s\<lparr>le_nets := map (net_text fee_bps) (lf_cards form),
       le_price := (if prices = [] then js ''Price not set'' else dollars (foldr num_min prices PosInf))\<rparr>)"

section \<open>The handlers\<close>

text \<open>A handler runs over the state and may throw, leaving what it has already changed.\<close>

type_synonym 'a handler = "(listing, js_error, 'a) act"

definition update :: "(listing \<Rightarrow> listing) \<Rightarrow> unit handler" where
  "update f = (\<lambda>s. (Inr (), f s))"

text \<open>The suggestions for a category: a list of texts, which are the values of the buttons.\<close>

definition suggestion_list :: "selected_option option \<Rightarrow> jsval" where
  "suggestion_list so = (case so of None \<Rightarrow> Arr []
     | Some o1 \<Rightarrow> (case json_parse (text_or (case so_suggestions o1 of None \<Rightarrow> [] | Some t \<Rightarrow> t) (js ''[]'')) of
         None \<Rightarrow> Arr [] | Some v \<Rightarrow> v))"

definition category_help :: "selected_option option \<Rightarrow> jsstr" where
  "category_help so = text_or (case so of Some o1 \<Rightarrow> (case so_description o1 of Some d \<Rightarrow> d | None \<Rightarrow> []) | None \<Rightarrow> [])
     (js ''Choose the single category that best matches what the buyer will print.'')"

definition suggestions_label :: "selected_option option \<Rightarrow> jsval list \<Rightarrow> jsstr" where
  "suggestions_label so vs = (if vs = [] then js ''Choose a category to see optional tag suggestions.''
     else js ''Suggestions for '' @ (case so of Some o1 \<Rightarrow> js_trim (so_label o1) | None \<Rightarrow> []) @ js '':'')"

definition update_suggestions :: "listing_form \<Rightarrow> unit handler" where
  "update_suggestions form = (let so = (case lf_category form of Some c \<Rightarrow> cc_selected c | None \<Rightarrow> None) in
     bindM (update (\<lambda>s. s\<lparr>le_help := category_help so\<rparr>)) (\<lambda>_.
     bindM (liftM (case suggestion_list so of Arr vs \<Rightarrow> bindE (mapE string_of vs) (\<lambda>ts. Inr (suggestions_label so vs, ts))
        | _ \<Rightarrow> Inl (TypeErr (js ''suggestions.map is not a function'')))) (\<lambda>shown.
     update (\<lambda>s. s\<lparr>le_suggestions := shown\<rparr>))))"

text \<open>\<open>URL.revokeObjectURL\<close> and \<open>URL.createObjectURL\<close>, which makes an address that is not in use.\<close>

definition release_url :: "listing \<Rightarrow> listing" where
  "release_url s = (case le_object_url s of None \<Rightarrow> s
     | Some u \<Rightarrow> s\<lparr>le_live_urls := remove1 u (le_live_urls s), le_object_url := None\<rparr>)"

definition preview_render :: "jsstr \<Rightarrow> jsstr option \<Rightarrow> listing \<Rightarrow> listing" where
  "preview_render fresh kind s = (case kind of
     Some t \<Rightarrow> if starts_with (js ''image/'') t
       then (release_url s)\<lparr>le_live_urls := fresh # le_live_urls (release_url s), le_object_url := Some fresh, le_image := Some fresh\<rparr>
       else s
   | None \<Rightarrow> s)"

definition update_preview :: "jsnum \<Rightarrow> jsstr \<Rightarrow> field \<Rightarrow> listing_form \<Rightarrow> unit handler" where
  "update_preview fee_bps fresh fd form = (let name = fd_name fd in
     if name = js ''model3d[title]'' then
       update (\<lambda>s. s\<lparr>le_title := text_or (js_trim (fd_value fd)) (js ''Untitled model'')\<rparr>)
     else if name = js ''model3d[description]'' then
       update (\<lambda>s. s\<lparr>le_description := text_or (js_trim (fd_value fd)) (js ''Add a description so buyers know what is included.'')\<rparr>)
     else if name = js ''model3d[tags_text]'' then
       update (\<lambda>s. s\<lparr>le_tags := (let ts = tags_of (fd_value fd) in
          if ts = [] then js ''No discovery tags yet'' else js ''Tags: '' @ comma_list ts)\<rparr>)
     else if name = js ''model3d[category]'' then
       bindM (update (preview_discovery form)) (\<lambda>_. update_suggestions form)
     else if name = js ''model3d[collections][]'' then update (preview_discovery form)
     else if starts_with (js ''model3d[printability]'') name then update (preview_print form)
     else if ends_with (js ''[price_usdc]'') name \<or> ends_with (js ''[_destroy]'') name then update (preview_offers fee_bps form)
     else if fd_is_render fd then update (preview_render fresh (fd_file_type fd))
     else retM ())"

definition track_changes :: "listing_form \<Rightarrow> listing \<Rightarrow> listing" where
  "track_changes form s = (let dirty = (form_state form \<noteq> le_initial_form s) in
     s\<lparr>le_dirty := dirty,
       le_save_text := (if dirty then js ''Unsaved changes'' else js ''All changes saved''),
       le_save_state := (if dirty then js ''dirty'' else js ''saved''),
       le_status := (if dirty then js ''Local preview'' @ [32, 0x2014, 32] @ js ''save to update the storefront.''
          else le_initial_status s)\<rparr>)"

definition changed :: "jsnum \<Rightarrow> jsstr \<Rightarrow> field \<Rightarrow> listing_form \<Rightarrow> unit handler" where
  "changed fee_bps fresh fd form = (\<lambda>s. if le_submitting s then (Inr (), s)
     else bindM (update_preview fee_bps fresh fd form) (\<lambda>_. update (track_changes form)) s)"

definition saving :: "listing \<Rightarrow> listing" where
  "saving s = s\<lparr>le_submitting := True, le_dirty := False, le_save_text := js ''Saving'' @ [0x2026], le_save_state := js ''saving''\<rparr>"

text \<open>The tags field after a click on a suggestion; the click then changes the field.\<close>

definition with_suggested_tag :: "(jsstr \<Rightarrow> jsstr) \<Rightarrow> jsstr \<Rightarrow> jsstr \<Rightarrow> jsstr" where
  "with_suggested_tag lower suggestion t = (let ts = tags_of t in
     comma_list (if list_ex (\<lambda>x. lower x = lower suggestion) ts then ts else ts @ [suggestion]))"

text \<open>Whether leaving the page is held up: on unloading, and on a visit inside the application, where the
  user may agree to leave.\<close>

definition warns_unload :: "listing \<Rightarrow> bool" where
  "warns_unload s = (le_dirty s \<and> \<not> le_submitting s)"

definition stops_visit :: "bool \<Rightarrow> listing \<Rightarrow> bool" where
  "stops_visit confirmed s = (\<not> (le_submitting s \<or> \<not> le_dirty s \<or> confirmed))"

datatype editor_event =
    Connected listing_form
  | Input jsstr field listing_form
  | Saving
  | Disconnected

fun editor_next :: "jsnum \<Rightarrow> editor_event \<Rightarrow> listing \<Rightarrow> listing" where
  "editor_next fee_bps (Connected form) s = connect_listing form s"
| "editor_next fee_bps (Input fresh fd form) s = snd (changed fee_bps fresh fd form s)"
| "editor_next fee_bps Saving s = saving s"
| "editor_next fee_bps Disconnected s = release_url s"

section \<open>Unsaved changes\<close>

lemma changed_submitting: "le_submitting s \<Longrightarrow> changed fee_bps fresh fd form s = (Inr (), s)"
  by (simp add: changed_def)

lemma release_url_sel [simp]:
  "le_submitting (release_url s) = le_submitting s" "le_dirty (release_url s) = le_dirty s"
  "le_save_text (release_url s) = le_save_text s" "le_initial_form (release_url s) = le_initial_form s"
  "le_object_url (release_url s) = None"
  by (simp_all add: release_url_def split: option.splits)

lemma preview_keeps:
  assumes "update_preview fee_bps fresh fd form s = (r, s')"
  shows "le_initial_form s' = le_initial_form s \<and> le_submitting s' = le_submitting s \<and> le_dirty s' = le_dirty s"
  using assms
  by (auto simp: update_preview_def update_suggestions_def update_def preview_discovery_def preview_print_def preview_offers_def
      preview_render_def Let_def run_simps split: if_splits option.splits sum.splits)

text \<open>While it is not saving, a completed change leaves the editor warning exactly when the form differs
  from what it was.\<close>

lemma editor_tracks:
  assumes "changed fee_bps fresh fd form s = (Inr (), s')" "\<not> le_submitting s"
  shows "warns_unload s' \<longleftrightarrow> form_state form \<noteq> le_initial_form s" "le_initial_form s' = le_initial_form s"
proof -
  obtain s1 where s1: "update_preview fee_bps fresh fd form s = (Inr (), s1)" "s' = track_changes form s1"
    using assms by (auto simp: changed_def update_def run_iffs)
  then show "warns_unload s' \<longleftrightarrow> form_state form \<noteq> le_initial_form s" "le_initial_form s' = le_initial_form s"
    using preview_keeps [OF s1(1)] assms(2) by (simp_all add: warns_unload_def track_changes_def Let_def)
qed

text \<open>Once the editor is told that it is saving, it never tracks a change again: whatever the user
  then edits, it shows that it is saving and lets the user leave without a warning, until the page
  is loaded anew. The save buttons tell it so on their click, before the browser has checked the
  form, so a click that the browser stops at an empty title has this effect.\<close>

theorem saving_editor_forgets:
  assumes "\<forall>ev \<in> set evs. \<forall>form. ev \<noteq> Connected form"
  shows "\<not> warns_unload (foldl (\<lambda>s ev. editor_next fee_bps ev s) (saving s) evs) \<and>
    \<not> stops_visit confirmed (foldl (\<lambda>s ev. editor_next fee_bps ev s) (saving s) evs) \<and>
    le_save_text (foldl (\<lambda>s ev. editor_next fee_bps ev s) (saving s) evs) = js ''Saving'' @ [0x2026]"
proof -
  have "le_submitting (foldl (\<lambda>s ev. editor_next fee_bps ev s) s1 evs) \<and>
      le_save_text (foldl (\<lambda>s ev. editor_next fee_bps ev s) s1 evs) = js ''Saving'' @ [0x2026]"
    if "le_submitting s1" "le_save_text s1 = js ''Saving'' @ [0x2026]" for s1
    using assms that
  proof (induction evs arbitrary: s1)
    case (Cons ev evs)
    have "le_submitting (editor_next fee_bps ev s1) \<and> le_save_text (editor_next fee_bps ev s1) = js ''Saving'' @ [0x2026]"
      using Cons.prems by (cases ev) (simp_all add: changed_submitting saving_def)
    then show ?case using Cons by simp
  qed simp
  from this [of "saving s"] show ?thesis by (simp add: saving_def warns_unload_def stops_visit_def)
qed

section \<open>The render preview holds one address\<close>

text \<open>The addresses that are still allocated: only the one on show.\<close>

definition urls_held :: "listing \<Rightarrow> bool" where
  "urls_held s = (le_live_urls s = (case le_object_url s of None \<Rightarrow> [] | Some u \<Rightarrow> [u]))"

lemma urls_held_release: "urls_held s \<Longrightarrow> urls_held (release_url s) \<and> le_live_urls (release_url s) = []"
  by (auto simp: urls_held_def release_url_def split: option.splits)

lemma urls_held_preview:
  assumes "update_preview fee_bps fresh fd form s = (r, s')" "urls_held s"
  shows "urls_held s'"
proof -
  have "urls_held (preview_render fresh kind s)" for kind
    using urls_held_release [OF assms(2)] assms(2) by (auto simp: preview_render_def urls_held_def split: option.splits)
  then show ?thesis
    using assms
    by (auto simp: update_preview_def update_suggestions_def update_def preview_discovery_def preview_print_def preview_offers_def
        urls_held_def Let_def run_simps split: if_splits option.splits sum.splits)
qed

text \<open>The editor leaves no address behind: in any sequence of events from an editor that holds at most the
  one on show, and after a disconnection none.\<close>

lemma urls_held_next: "urls_held s \<Longrightarrow> (\<And>form. ev \<noteq> Connected form) \<Longrightarrow> urls_held (editor_next fee_bps ev s)"
proof (cases ev)
  case (Input fresh fd form)
  assume s: "urls_held s"
  obtain r s1 where p: "update_preview fee_bps fresh fd form s = (r, s1)" by fastforce
  have "urls_held s1" by (rule urls_held_preview [OF p s])
  then show ?thesis
    using s p by (auto simp: Input changed_def run_simps update_def track_changes_def Let_def urls_held_def split: sum.splits)
next
  case Saving
  then show "urls_held s \<Longrightarrow> ?thesis" by (simp add: saving_def urls_held_def)
next
  case Disconnected
  then show "urls_held s \<Longrightarrow> ?thesis" using urls_held_release by simp
qed auto

lemma no_url_left:
  assumes "\<forall>ev \<in> set evs. \<forall>form. ev \<noteq> Connected form" "urls_held s"
  shows "le_live_urls (editor_next fee_bps Disconnected (foldl (\<lambda>s ev. editor_next fee_bps ev s) s evs)) = []"
  using assms
proof (induction evs arbitrary: s)
  case Nil
  then show ?case using urls_held_release by simp
next
  case (Cons ev evs)
  then show ?case using urls_held_next [of s ev] by simp
qed

section \<open>Prices\<close>

lemma fee_between:
  assumes "b \<le> 10000" "n * 10000 < 2 ^ 53"
  obtains f where "platform_fee (Fin (of_nat b)) (Fin (of_nat n)) = Fin (of_nat f)" "f \<le> n"
proof -
  have nb: "n * b \<le> n * 10000" using assms(1) by simp
  have "double_of (of_nat (n * b)) = Fin (of_nat (n * b))"
    by (rule double_of_nat) (use nb assms(2) in linarith)
  then have m: "num_mul (Fin (of_nat n)) (Fin (of_nat b)) = Fin (of_nat (n * b))" by simp
  have "(of_nat (n * b) :: rat) \<le> of_nat (n * 10000)" using nb by (simp only: of_nat_le_iff)
  then have "(of_nat (n * b) :: rat) / 10000 \<le> of_nat n" by (simp add: divide_le_eq)
  then obtain r where r: "double_of (of_nat (n * b) / 10000) = Fin r" "0 \<le> r" "r \<le> of_nat n"
    by (rule double_of_between [of "of_nat (n * b) / 10000" n, rotated]) (use assms(2) in auto)
  have "platform_fee (Fin (of_nat b)) (Fin (of_nat n)) = Fin (of_int \<lfloor>r\<rfloor>)"
    unfolding platform_fee_def m by (simp add: r(1) [unfolded of_nat_mult])
  moreover have "0 \<le> \<lfloor>r\<rfloor>" "\<lfloor>r\<rfloor> \<le> int n" using r(2,3) floor_mono [OF r(3)] by simp_all
  ultimately show thesis using that [of "nat \<lfloor>r\<rfloor>"] by (simp add: nat_le_iff)
qed

text \<open>The net price the editor shows is exact and within the price: for a price of a whole number of
  cents and a platform fee of at most 100 percent, the fee is a whole number of cents between
  nothing and the price, and price minus fee is computed without rounding.\<close>

theorem net_price_within:
  assumes "bps \<le> 10000" "cents * 10000 < 2 ^ 53"
  shows "\<exists>fee \<le> cents. platform_fee (Fin (of_nat bps)) (Fin (of_nat cents)) = Fin (of_nat fee) \<and>
    num_add (Fin (of_nat cents)) (num_neg (platform_fee (Fin (of_nat bps)) (Fin (of_nat cents)))) = Fin (of_nat (cents - fee))"
proof -
  obtain fee where f: "platform_fee (Fin (of_nat bps)) (Fin (of_nat cents)) = Fin (of_nat fee)" "fee \<le> cents"
    using fee_between [OF assms] by blast
  have "(of_nat cents :: rat) - of_nat fee = of_nat (cents - fee)" using f(2) by (simp add: of_nat_diff)
  moreover have "double_of (of_nat (cents - fee)) = Fin (of_nat (cents - fee))"
    by (rule double_of_nat) (use assms(2) in linarith)
  ultimately show ?thesis using f by auto
qed

theorem net_price_within_witness:
  "\<exists>fee \<le> 250. num_add (Fin (of_nat 250)) (num_neg (platform_fee (Fin (of_nat 1000)) (Fin (of_nat 250)))) = Fin (of_nat (250 - fee))"
proof -
  have "(1000 :: nat) \<le> 10000" "250 * 10000 < (2 :: nat) ^ 53" by simp_all
  from net_price_within [OF this] show ?thesis by blast
qed

section \<open>A concrete editor\<close>

definition sample_form :: listing_form where
  "sample_form = \<lparr>lf_entries = Some [(js ''model3d[title]'', TextValue (js ''Hat''))], lf_category = None, lf_collections = [],
     lf_materials = None, lf_supports = False, lf_minutes = None, lf_bed = None, lf_cards = []\<rparr>"

definition sample_listing :: listing where
  "sample_listing = \<lparr>le_dirty = False, le_submitting = False, le_object_url = None, le_live_urls = [], le_initial_form = [],
     le_initial_status = [], le_save_text = [], le_save_state = [], le_status = [], le_title = [], le_description = [],
     le_tags = [], le_category = [], le_collections = [], le_printability = [], le_price = [], le_nets = [], le_help = [],
     le_suggestions = ([], []), le_image = None\<rparr>"

definition title_field :: field where
  "title_field = \<lparr>fd_name = js ''model3d[title]'', fd_value = js ''Cap'', fd_is_render = False, fd_file_type = None\<rparr>"

theorem saving_editor_forgets_witness:
  "\<not> warns_unload (editor_next (Fin 1000) (Input [] title_field sample_form) (saving (connect_listing sample_form sample_listing)))"
  using saving_editor_forgets [of "[Input [] title_field sample_form]" "Fin 1000" "connect_listing sample_form sample_listing"] by simp

end
