(* ===== verification/SearchBox.thy ===== *)
theory SearchBox
  imports ClientBase
begin

text \<open>
  The search box of the catalogue (\<open>app/javascript/controllers/catalog_search_controller.js\<close>) as a
  state machine: the input, the timer that delays a search, the frame that loads results, and whether
  the results are shown. The lemmas say that what is announced to assistive technology agrees with
  what is shown, and that a dismissal does not stop a search that is under way.
\<close>

section \<open>The state\<close>

record search_box =
  sb_text :: jsstr
  sb_clear_hidden :: bool
  sb_results_hidden :: bool
  sb_expanded :: bool
  sb_timer :: "jsstr option"
  sb_loading :: "jsstr option"
  sb_focus :: "nat option"

text \<open>\<open>sb_expanded\<close> is the attribute \<open>aria-expanded\<close>; \<open>sb_focus\<close> is the result link that has the focus.\<close>

definition sync_clear :: "search_box \<Rightarrow> search_box" where
  "sync_clear b = b\<lparr>sb_clear_hidden := (length (sb_text b) = 0)\<rparr>"

definition dismiss :: "search_box \<Rightarrow> search_box" where
  "dismiss b = b\<lparr>sb_results_hidden := True, sb_expanded := False\<rparr>"

definition queue_search :: "search_box \<Rightarrow> search_box" where
  "queue_search b = (let b1 = sync_clear (b\<lparr>sb_timer := None\<rparr>); query = js_trim (sb_text b) in
     if length query < 2 then dismiss b1 else b1\<lparr>sb_timer := Some query\<rparr>)"

text \<open>The timer: the frame starts to load, unless the query cannot be encoded.\<close>

definition timer_fires :: "jsstr \<Rightarrow> search_box \<Rightarrow> search_box" where
  "timer_fires url b = (case sb_timer b of None \<Rightarrow> b
     | Some query \<Rightarrow> (case encode_uri_component query of
         None \<Rightarrow> b\<lparr>sb_timer := None\<rparr>
       | Some q \<Rightarrow> b\<lparr>sb_timer := None, sb_loading := Some (url @ js ''?q='' @ q)\<rparr>))"

definition results_loaded :: "search_box \<Rightarrow> search_box" where
  "results_loaded b = b\<lparr>sb_loading := None, sb_results_hidden := False, sb_expanded := True\<rparr>"

definition clear_box :: "search_box \<Rightarrow> search_box" where
  "clear_box b = dismiss (sync_clear (b\<lparr>sb_timer := None, sb_text := []\<rparr>))"

text \<open>A click elsewhere dismisses; a click inside the element does not.\<close>

definition clicked :: "bool \<Rightarrow> search_box \<Rightarrow> search_box" where
  "clicked inside b = (if inside then b else dismiss b)"

datatype key = Escape | ArrowDown | ArrowUp | OtherKey

text \<open>A key in the input, with the number of result links.\<close>

definition input_key :: "key \<Rightarrow> nat \<Rightarrow> search_box \<Rightarrow> search_box" where
  "input_key k links b = (case k of
       Escape \<Rightarrow> dismiss b
     | ArrowDown \<Rightarrow> if links = 0 \<or> sb_results_hidden b then b else b\<lparr>sb_focus := Some 0\<rparr>
     | _ \<Rightarrow> b)"

text \<open>A key on a result: the neighbour, around the ends.\<close>

definition result_key :: "key \<Rightarrow> nat \<Rightarrow> search_box \<Rightarrow> search_box" where
  "result_key k links b = (if k \<notin> {ArrowDown, ArrowUp} then b
     else (case sb_focus b of None \<Rightarrow> b
       | Some i \<Rightarrow> if links \<le> i then b
           else b\<lparr>sb_focus := Some (nat ((int i + (if k = ArrowDown then 1 else - 1) + int links) mod int links))\<rparr>))"

definition connect_box :: "search_box \<Rightarrow> search_box" where
  "connect_box b = sync_clear b"

definition disconnect_box :: "search_box \<Rightarrow> search_box" where
  "disconnect_box b = b\<lparr>sb_timer := None\<rparr>"

text \<open>The form is submitted: the results are dismissed and the browser visits the page of the search.\<close>

definition submit_search :: "(jsstr \<Rightarrow> jsstr \<Rightarrow> jsstr \<Rightarrow> jsstr) \<Rightarrow> jsstr \<Rightarrow> (jsstr \<times> jsstr) list \<Rightarrow> search_box \<Rightarrow> search_box \<times> jsstr" where
  "submit_search with_parts action params b = (dismiss b, with_parts action (search_params params) (js ''models''))"

section \<open>The machine\<close>

datatype search_event =
    Typed jsstr
  | TimerFires
  | ResultsLoaded
  | ClearPressed
  | Clicked bool
  | KeyInInput key nat
  | KeyOnResult key nat
  | Submitted
  | BoxRemoved

fun search_next :: "jsstr \<Rightarrow> search_event \<Rightarrow> search_box \<Rightarrow> search_box" where
  "search_next url (Typed t) b = queue_search (b\<lparr>sb_text := t\<rparr>)"
| "search_next url TimerFires b = timer_fires url b"
| "search_next url ResultsLoaded b = results_loaded b"
| "search_next url ClearPressed b = clear_box b"
| "search_next url (Clicked inside) b = clicked inside b"
| "search_next url (KeyInInput k links) b = input_key k links b"
| "search_next url (KeyOnResult k links) b = result_key k links b"
| "search_next url Submitted b = dismiss b"
| "search_next url BoxRemoved b = disconnect_box b"

text \<open>The timer fires only when it is set, and the frame reports only what it was loading.\<close>

inductive search_step :: "jsstr \<Rightarrow> search_box \<Rightarrow> search_event \<Rightarrow> search_box \<Rightarrow> bool" for url where
  step: "(ev = TimerFires \<Longrightarrow> sb_timer b \<noteq> None) \<Longrightarrow> (ev = ResultsLoaded \<Longrightarrow> sb_loading b \<noteq> None) \<Longrightarrow>
    search_step url b ev (search_next url ev b)"

inductive_cases search_stepE: "search_step url b ev b'"

inductive search_path :: "jsstr \<Rightarrow> search_box \<Rightarrow> search_event list \<Rightarrow> search_box \<Rightarrow> bool" for url where
  here: "search_path url b [] b"
| more: "search_path url b evs b1 \<Longrightarrow> search_step url b1 ev b2 \<Longrightarrow> search_path url b (evs @ [ev]) b2"

definition initial_box :: search_box where
  "initial_box = connect_box \<lparr>sb_text = [], sb_clear_hidden = False, sb_results_hidden = True, sb_expanded = False,
     sb_timer = None, sb_loading = None, sb_focus = None\<rparr>"

section \<open>What holds of every run\<close>

definition box_ok :: "search_box \<Rightarrow> bool" where
  "box_ok b = (sb_expanded b = (\<not> sb_results_hidden b) \<and> sb_clear_hidden b = (sb_text b = []) \<and>
     (\<forall>q. sb_timer b = Some q \<longrightarrow> 2 \<le> length q \<and> q = js_trim (sb_text b)))"

lemmas box_defs = sync_clear_def dismiss_def queue_search_def timer_fires_def results_loaded_def clear_box_def
  clicked_def input_key_def result_key_def connect_box_def disconnect_box_def Let_def

lemma box_ok_next: "box_ok b \<Longrightarrow> box_ok (search_next url ev b)"
  by (cases ev) (auto simp: box_ok_def box_defs split: option.splits key.splits)

lemma box_ok_path: "search_path url b evs b' \<Longrightarrow> box_ok b \<Longrightarrow> box_ok b'"
  by (induction rule: search_path.induct) (auto elim!: search_stepE intro: box_ok_next)

text \<open>In every run of the search box the announced state agrees with what is shown, the clear button
  is hidden exactly when there is nothing to clear, and a delayed search is always for the trimmed
  text of the input, of at least two characters. But a search that is already loading outlives
  every dismissal: after the box is cleared its results are shown over the empty input.\<close>

theorem search_box_runs:
  assumes "search_path url initial_box evs b"
  shows "sb_expanded b = (\<not> sb_results_hidden b) \<and> sb_clear_hidden b = (sb_text b = []) \<and>
    (\<forall>q. sb_timer b = Some q \<longrightarrow> 2 \<le> length q \<and> q = js_trim (sb_text b)) \<and>
    (sb_loading b \<noteq> None \<longrightarrow> (\<exists>b'. search_path url initial_box (evs @ [ClearPressed, ResultsLoaded]) b' \<and>
       sb_text b' = [] \<and> \<not> sb_results_hidden b'))"
proof -
  have "box_ok initial_box" by (simp add: box_ok_def initial_box_def box_defs)
  then have ok: "box_ok b" by (rule box_ok_path [OF assms])
  have "\<exists>b'. search_path url initial_box (evs @ [ClearPressed, ResultsLoaded]) b' \<and> sb_text b' = [] \<and> \<not> sb_results_hidden b'"
    if l: "sb_loading b \<noteq> None"
  proof -
    have "search_path url initial_box (evs @ [ClearPressed]) (clear_box b)"
      using search_path.more [OF assms, of ClearPressed] search_step.step [of ClearPressed b url] by simp
    moreover have "search_step url (clear_box b) ResultsLoaded (results_loaded (clear_box b))"
      using search_step.step [of ResultsLoaded "clear_box b" url] l by (simp add: box_defs)
    ultimately have "search_path url initial_box ((evs @ [ClearPressed]) @ [ResultsLoaded]) (results_loaded (clear_box b))"
      by (rule search_path.more)
    then show ?thesis
      by (intro exI [of _ "results_loaded (clear_box b)"]) (simp add: box_defs)
  qed
  then show ?thesis using ok by (simp add: box_ok_def)
qed

theorem search_box_runs_witness:
  "\<exists>b. search_path (js ''/search'') initial_box [Typed (js ''hat''), TimerFires] b \<and>
     (\<exists>b'. search_path (js ''/search'') initial_box [Typed (js ''hat''), TimerFires, ClearPressed, ResultsLoaded] b' \<and>
        sb_text b' = [] \<and> \<not> sb_results_hidden b')"
proof -
  have t: "js_trim (js ''hat'') = js ''hat''" "encode_uri_component (js ''hat'') = Some (js ''hat'')" by code_simp+
  define b1 where "b1 = search_next (js ''/search'') (Typed (js ''hat'')) initial_box"
  have "search_path (js ''/search'') initial_box ([] @ [Typed (js ''hat'')]) b1"
    unfolding b1_def by (rule search_path.more [OF search_path.here]) (rule search_step.step; simp)
  moreover have timer: "sb_timer b1 = Some (js ''hat'')"
    by (simp add: b1_def box_defs t)
  then have "search_step (js ''/search'') b1 TimerFires (search_next (js ''/search'') TimerFires b1)"
    by (intro search_step.step) simp_all
  ultimately have p: "search_path (js ''/search'') initial_box (([] @ [Typed (js ''hat'')]) @ [TimerFires])
      (search_next (js ''/search'') TimerFires b1)"
    by (rule search_path.more)
  moreover have "sb_loading (search_next (js ''/search'') TimerFires b1) \<noteq> None"
    by (simp add: box_defs timer t)
  ultimately show ?thesis using search_box_runs [OF p] by auto
qed

text \<open>The focus moves within the results.\<close>

lemma focus_in_range: "sb_focus b = Some i \<Longrightarrow> i < links \<Longrightarrow> sb_focus (result_key k links b) = Some j \<Longrightarrow> j < links"
proof -
  assume a: "sb_focus b = Some i" "i < links" "sb_focus (result_key k links b) = Some j"
  have "0 \<le> x mod int links" "x mod int links < int links" for x using a(2) by simp_all
  then have "nat (x mod int links) < links" for x by (metis nat_less_iff)
  then show "j < links" using a by (auto simp: result_key_def split: if_splits)
qed

end
