(* ===== verification/Turntable.thy ===== *)
theory Turntable
  imports JsMath JsString "HOL-Library.Signed_Division"
begin

text \<open>
  The rendered views of a model (\<open>app/javascript/controllers/render_turntable_controller.js\<close>): the
  frame on show, the zoom, and the drag that turns the model. Positions of the pointer are whole
  numbers of pixels. The invariant says that the frame is always one of the frames and the zoom stays
  between 1 and 2.5.
\<close>

section \<open>The state\<close>

record turntable =
  tt_frames :: "jsstr list"
  tt_frame :: nat
  tt_scale :: jsnum
  tt_drag :: "(int \<times> nat) option"
  tt_dragging :: bool
  tt_image :: "jsstr option"
  tt_shown :: "jsstr option"
  tt_transform :: "jsstr option"
  tt_status :: jsstr
  tt_preloaded :: "jsstr list"

text \<open>\<open>((index % n) + n) % n\<close>, where \<open>%\<close> takes the sign of its first operand.\<close>

definition wrap :: "nat \<Rightarrow> int \<Rightarrow> nat" where
  "wrap n index = nat ((index smod int n + int n) smod int n)"

definition zoom_text :: "jsnum \<Rightarrow> jsstr" where
  "zoom_text scale = (if num_lt (Fin 1) scale
     then [32, 183, 32] @ num_str (num_round (num_mul scale (Fin 100))) @ js ''% zoom'' else [])"

definition update_status :: "turntable \<Rightarrow> turntable" where
  "update_status t = (if length (tt_frames t) < 2 then t\<lparr>tt_status := js ''Designer render.''\<rparr>
     else t\<lparr>tt_status := js ''Rendered view '' @ dec_str (tt_frame t + 1) @ js '' of '' @ dec_str (length (tt_frames t)) @
       [32, 0x2014, 32] @ js ''drag to change view, scroll to zoom'' @ zoom_text (tt_scale t) @ js ''.''\<rparr>)"

definition show_frame :: "turntable \<Rightarrow> turntable" where
  "show_frame t = (if tt_frames t = [] then t
     else update_status (t\<lparr>tt_image := Some (tt_frames t ! tt_frame t), tt_shown := Some (dec_str (tt_frame t))\<rparr>))"

text \<open>\<open>new Image().src = url\<close> for every frame but the first.\<close>

definition preload_frames :: "turntable \<Rightarrow> turntable" where
  "preload_frames t = t\<lparr>tt_preloaded := drop 1 (tt_frames t)\<rparr>"

definition connect_turntable :: "turntable \<Rightarrow> turntable" where
  "connect_turntable t = show_frame (preload_frames (t\<lparr>tt_frame := 0, tt_scale := Fin 1\<rparr>))"

section \<open>Turning\<close>

definition start_drag :: "int \<Rightarrow> turntable \<Rightarrow> turntable" where
  "start_drag x t = (if length (tt_frames t) < 2 then t else t\<lparr>tt_drag := Some (x, tt_frame t), tt_dragging := True\<rparr>)"

text \<open>\<open>Math.round((clientX - dragStartX) / 24)\<close>\<close>

definition drag_steps :: "int \<Rightarrow> int \<Rightarrow> int" where
  "drag_steps x x0 = (case num_round (num_div (Fin (of_int (x - x0))) 24) of Fin q \<Rightarrow> \<lfloor>q\<rfloor> | _ \<Rightarrow> 0)"

definition move_drag :: "int \<Rightarrow> turntable \<Rightarrow> turntable" where
  "move_drag x t = (case tt_drag t of None \<Rightarrow> t
     | Some (x0, f0) \<Rightarrow> show_frame (t\<lparr>tt_frame := wrap (length (tt_frames t)) (int f0 - drag_steps x x0)\<rparr>))"

definition stop_drag :: "turntable \<Rightarrow> turntable" where
  "stop_drag t = t\<lparr>tt_drag := None, tt_dragging := False\<rparr>"

section \<open>Zooming\<close>

definition zoom_step :: jsnum where
  "zoom_step = double_of (15 / 100)"

definition zoom_by :: "jsnum \<Rightarrow> turntable \<Rightarrow> turntable" where
  "zoom_by change t = (let scale = num_min (Fin (5 / 2)) (num_max (Fin 1) (num_add (tt_scale t) change)) in
     update_status (t\<lparr>tt_scale := scale, tt_transform := Some (js ''scale('' @ num_str scale @ js '')'')\<rparr>))"

definition zoom_wheel :: "int \<Rightarrow> turntable \<Rightarrow> turntable" where
  "zoom_wheel dy t = zoom_by (if dy < 0 then zoom_step else num_neg zoom_step) t"

datatype turn_key = KeyLeft | KeyRight | KeyPlus | KeyMinus

text \<open>The arrow keys; without any frame the index is not a number, which nothing reads.\<close>

definition turn :: "int \<Rightarrow> turntable \<Rightarrow> turntable" where
  "turn d t = (if tt_frames t = [] then t
     else show_frame (t\<lparr>tt_frame := wrap (length (tt_frames t)) (int (tt_frame t) + d)\<rparr>))"

fun press_key :: "turn_key \<Rightarrow> turntable \<Rightarrow> turntable" where
  "press_key KeyLeft t = turn (- 1) t"
| "press_key KeyRight t = turn 1 t"
| "press_key KeyPlus t = zoom_by zoom_step t"
| "press_key KeyMinus t = zoom_by (num_neg zoom_step) t"

datatype turn_event = DragStart int | DragMove int | DragStop | Wheel int | Key turn_key

fun turn_next :: "turn_event \<Rightarrow> turntable \<Rightarrow> turntable" where
  "turn_next (DragStart x) t = start_drag x t"
| "turn_next (DragMove x) t = move_drag x t"
| "turn_next DragStop t = stop_drag t"
| "turn_next (Wheel dy) t = zoom_wheel dy t"
| "turn_next (Key k) t = press_key k t"

section \<open>The frame and the zoom stay in range\<close>

lemma wrap_mod: "0 < n \<Longrightarrow> wrap n i = nat (i mod int n)"
proof -
  assume c: "0 < n"
  have "- int n < i smod int n" "i smod int n < int n"
    using c smod_int_range [of "int n" i] by auto
  then have s: "0 \<le> i smod int n + int n" by simp
  have nonneg: "x smod int n = x mod int n" if "0 \<le> x" for x
    using that c by (cases "x = 0") (simp_all add: smod_int_alt_def)
  have "i smod int n mod int n = i mod int n"
    by (simp add: signed_modulo_int_eq_modulo_int mod_diff_eq [symmetric])
  then show ?thesis by (simp add: wrap_def nonneg [OF s])
qed

lemma wrap_less: "0 < n \<Longrightarrow> wrap n i < n"
  by (simp add: wrap_mod nat_less_iff)

definition turntable_ok :: "turntable \<Rightarrow> bool" where
  "turntable_ok t = ((tt_frames t \<noteq> [] \<longrightarrow> tt_frame t < length (tt_frames t) \<and> tt_image t = Some (tt_frames t ! tt_frame t)) \<and>
     (\<exists>q. tt_scale t = Fin q \<and> 1 \<le> q \<and> q \<le> 5 / 2) \<and> (tt_drag t \<noteq> None \<longrightarrow> 2 \<le> length (tt_frames t)))"

lemma update_status_sel [simp]:
  "tt_frames (update_status t) = tt_frames t" "tt_frame (update_status t) = tt_frame t"
  "tt_scale (update_status t) = tt_scale t" "tt_drag (update_status t) = tt_drag t" "tt_image (update_status t) = tt_image t"
  by (simp_all add: update_status_def)

lemma show_frame_sel [simp]:
  "tt_frames (show_frame t) = tt_frames t" "tt_frame (show_frame t) = tt_frame t" "tt_scale (show_frame t) = tt_scale t"
  "tt_drag (show_frame t) = tt_drag t" "tt_frames t \<noteq> [] \<Longrightarrow> tt_image (show_frame t) = Some (tt_frames t ! tt_frame t)"
  by (simp_all add: show_frame_def)

lemma double_of_not_NaN: "double_of q \<noteq> NaN"
  by (simp add: double_of_def Let_def)

lemma zoom_in_range:
  assumes "change \<noteq> NaN"
  shows "\<exists>q. num_min (Fin (5 / 2)) (num_max (Fin 1) (num_add (Fin p) change)) = Fin q \<and> 1 \<le> q \<and> q \<le> 5 / 2"
proof -
  have "num_add (Fin p) change \<noteq> NaN"
    using assms by (cases change) (simp_all add: double_of_not_NaN)
  then show ?thesis
    by (cases "num_add (Fin p) change") (auto simp: num_min_def num_max_def intro: exI [of _ "5 / 2"])
qed

lemma turntable_ok_frame:
  "turntable_ok t \<Longrightarrow> turntable_ok (show_frame (t\<lparr>tt_frame := wrap (length (tt_frames t)) i\<rparr>))"
  by (cases "tt_frames t = []") (auto simp: turntable_ok_def wrap_less show_frame_def)

lemma turntable_ok_zoom: "turntable_ok t \<Longrightarrow> change \<noteq> NaN \<Longrightarrow> turntable_ok (zoom_by change t)"
  using zoom_in_range [of change] by (auto simp: turntable_ok_def zoom_by_def Let_def)

lemma zoom_steps: "zoom_step \<noteq> NaN" "num_neg zoom_step \<noteq> NaN"
  by (simp add: zoom_step_def double_of_not_NaN, cases zoom_step) (simp_all add: zoom_step_def double_of_not_NaN)

lemma turntable_ok_next: "turntable_ok t \<Longrightarrow> turntable_ok (turn_next ev t)"
proof (cases ev)
  case (DragStart x)
  then show "turntable_ok t \<Longrightarrow> ?thesis" by (auto simp: start_drag_def turntable_ok_def)
next
  case (DragMove x)
  then show "turntable_ok t \<Longrightarrow> ?thesis"
    by (auto simp: move_drag_def split: option.splits intro: turntable_ok_frame)
next
  case DragStop
  then show "turntable_ok t \<Longrightarrow> ?thesis" by (auto simp: stop_drag_def turntable_ok_def)
next
  case (Wheel dy)
  then show "turntable_ok t \<Longrightarrow> ?thesis" by (simp add: zoom_wheel_def turntable_ok_zoom zoom_steps)
next
  case (Key k)
  then show "turntable_ok t \<Longrightarrow> ?thesis"
    by (cases k) (auto simp: turn_def turntable_ok_zoom zoom_steps intro: turntable_ok_frame)
qed

text \<open>However the viewer is dragged, scrolled and operated by keys, it shows one of its frames, the one
  its counter names, with a zoom between 1 and 2.5, and it drags only when there is something to
  turn.\<close>

theorem turntable_in_range:
  "turntable_ok (foldl (\<lambda>t ev. turn_next ev t) (connect_turntable (t\<lparr>tt_drag := None\<rparr>)) evs)"
proof -
  have "turntable_ok (foldl (\<lambda>t ev. turn_next ev t) s evs)" if "turntable_ok s" for s
    using that by (induction evs arbitrary: s) (simp_all add: turntable_ok_next)
  moreover have "turntable_ok (connect_turntable (t\<lparr>tt_drag := None\<rparr>))"
    by (auto simp: connect_turntable_def preload_frames_def turntable_ok_def show_frame_def)
  ultimately show ?thesis by blast
qed

text \<open>A full turn of the arrow keys comes back to the frame it started from.\<close>

lemma wrap_turn: "f < n \<Longrightarrow> wrap n (int f + int n) = f"
  by (simp add: wrap_mod)

end
