(* ===== verification/Background.thy ===== *)
theory Background
  imports JsMath
begin

text \<open>
  The contour lines behind the pages (\<open>app/javascript/controllers/texture_controller.js\<close>): when the
  canvas is redrawn, and what is drawn on it. The window, the tokens of the style sheet and the
  functions of \<open>Math\<close> whose values the platform chooses are parameters. The lemmas show that both
  loops of the drawing end, within the turns given, and that a resized window is drawn once.
\<close>

section \<open>The drawing\<close>

record viewport =
  vp_width :: jsnum
  vp_height :: jsnum
  vp_ratio :: jsnum
  vp_colour :: jsstr
  vp_alpha :: jsstr
  vp_context :: bool

record trigonometry =
  tr_sin :: "jsnum \<Rightarrow> jsnum"
  tr_cos :: "jsnum \<Rightarrow> jsnum"
  tr_hypot :: "jsnum \<Rightarrow> jsnum \<Rightarrow> jsnum"

datatype stroke_op =
    SetScale jsnum
  | Clear jsnum jsnum
  | StrokeStyle jsstr
  | Alpha jsnum
  | LineWidth nat
  | BeginPath
  | MoveTo jsnum jsnum
  | LineTo jsnum jsnum
  | Stroke

text \<open>\<open>for (let x = first; goes_on(x); x += step)\<close>: the values of \<open>x\<close>, \<open>None\<close> if \<open>n\<close> turns are not enough.\<close>

primrec counting :: "nat \<Rightarrow> (jsnum \<Rightarrow> bool) \<Rightarrow> jsnum \<Rightarrow> jsnum \<Rightarrow> jsnum list option" where
  "counting 0 goes_on step x = None"
| "counting (Suc n) goes_on step x =
     (if goes_on x then map_option ((#) x) (counting n goes_on step (num_add x step)) else Some [])"

definition dec :: "rat \<Rightarrow> jsnum" where
  "dec q = double_of q"
  \<comment> \<open>a decimal literal\<close>

definition math_pi :: jsnum where
  "math_pi = Fin (884279719003555 / 281474976710656)"

definition angle_limit :: jsnum where
  "angle_limit = num_add (num_mul math_pi (Fin 2)) (dec (1 / 100))"

definition ring_radius :: "trigonometry \<Rightarrow> jsnum \<Rightarrow> jsnum \<Rightarrow> jsnum" where
  "ring_radius tr r a = num_mul r (num_add (num_add (Fin 1)
     (num_mul (dec (11 / 100)) (tr_sin tr (num_add (num_mul a (Fin 3)) (num_mul r (dec (12 / 1000)))))))
     (num_mul (dec (5 / 100)) (tr_cos tr (num_mul a (Fin 5)))))"

definition ring_point :: "trigonometry \<Rightarrow> jsnum \<Rightarrow> jsnum \<Rightarrow> jsnum \<Rightarrow> jsnum \<Rightarrow> stroke_op" where
  "ring_point tr cx cy r a = (let rr = ring_radius tr r a;
       x = num_add cx (num_mul (tr_cos tr a) rr);
       y = num_add cy (num_mul (num_mul (tr_sin tr a) rr) (dec (72 / 100)))
     in if num_eq a (Fin 0) then MoveTo x y else LineTo x y)"

definition draw_ring :: "nat \<Rightarrow> trigonometry \<Rightarrow> jsnum \<Rightarrow> jsnum \<Rightarrow> jsnum \<Rightarrow> stroke_op list option" where
  "draw_ring n tr cx cy r = map_option (\<lambda>as. BeginPath # map (ring_point tr cx cy r) as @ [Stroke])
     (counting n (\<lambda>a. num_le a angle_limit) (dec (5 / 100)) (Fin 0))"

definition or_number :: "jsnum \<Rightarrow> jsnum \<Rightarrow> jsnum" where
  "or_number a b = (if a = NaN \<or> a = Fin 0 then b else a)"

definition outer_radius :: "trigonometry \<Rightarrow> viewport \<Rightarrow> jsnum" where
  "outer_radius tr vp = num_mul (tr_hypot tr (vp_width vp) (vp_height vp)) (dec (72 / 100))"

definition draw_rings :: "nat \<Rightarrow> trigonometry \<Rightarrow> viewport \<Rightarrow> stroke_op list option" where
  "draw_rings n tr vp = Option.bind (counting n (\<lambda>r. num_lt r (outer_radius tr vp)) (Fin 14) (Fin 14)) (\<lambda>rs.
     map_option concat (those (map (draw_ring n tr (num_mul (vp_width vp) (Fin (1 / 2)))
       (num_mul (vp_height vp) (dec (46 / 100)))) rs)))"

text \<open>The size of the canvas, which clears it, and what is drawn on it.\<close>

definition draw :: "nat \<Rightarrow> trigonometry \<Rightarrow> viewport \<Rightarrow> ((jsnum \<times> jsnum) \<times> stroke_op list) option" where
  "draw n tr vp = (let dpr = or_number (vp_ratio vp) (Fin 1);
       size = (num_mul (vp_width vp) dpr, num_mul (vp_height vp) dpr) in
     if \<not> vp_context vp then Some (size, [])
     else map_option (\<lambda>rings. (size,
       [SetScale dpr, Clear (vp_width vp) (vp_height vp), StrokeStyle (js_trim (vp_colour vp)),
        Alpha (or_number (parse_float (vp_alpha vp)) (dec (5 / 100))), LineWidth 1] @ rings)) (draw_rings n tr vp))"

section \<open>The loops end\<close>

text \<open>A counting loop ends when a measure of its variable drops in every turn.\<close>

lemma counting_ends:
  assumes "\<And>x. ok x \<Longrightarrow> goes_on x \<Longrightarrow> ok (num_add x step) \<and> m (num_add x step) < (m x :: nat)"
  shows "ok x \<Longrightarrow> m x < n \<Longrightarrow> \<exists>xs. counting n goes_on step x = Some xs \<and> length xs \<le> m x \<and> list_all goes_on xs"
proof (induction n arbitrary: x)
  case (Suc n)
  show ?case
  proof (cases "goes_on x")
    case True
    then have s: "ok (num_add x step)" "m (num_add x step) < m x" using assms Suc.prems(1) by blast+
    obtain xs where "counting n goes_on step (num_add x step) = Some xs" "length xs \<le> m (num_add x step)" "list_all goes_on xs"
      using Suc.IH [OF s(1)] s(2) Suc.prems(2) by auto
    then show ?thesis using True s(2) by auto
  qed simp
qed simp

lemma dec_near:
  assumes "0 \<le> q" "q < 8"
  obtains r where "dec q = Fin r" "q - 1 / 1000 \<le> r" "r \<le> q + 1 / 1000"
  unfolding dec_def by (rule double_of_near [OF assms])

lemma angle_limit_bound: "\<exists>l. angle_limit = Fin l \<and> l \<le> 7"
proof -
  obtain p where p: "num_mul math_pi (Fin 2) = Fin p" "0 \<le> p" "p \<le> 65 / 10"
    by (rule double_of_near [of "884279719003555 / 281474976710656 * 2"]) (auto simp: math_pi_def)
  obtain c where c: "dec (1 / 100) = Fin c" "0 \<le> c" "c \<le> 2 / 100"
    by (rule dec_near [of "1 / 100"]) auto
  obtain l where "double_of (p + c) = Fin l" "l \<le> p + c + 1 / 1000"
    by (rule double_of_near [of "p + c"]) (use p c in auto)
  then show ?thesis using p c by (auto simp: angle_limit_def)
qed

definition angles_left :: "jsnum \<Rightarrow> nat" where
  "angles_left a = (case a of Fin q \<Rightarrow> nat \<lceil>(8 - q) * 25\<rceil> | _ \<Rightarrow> 0)"

lemma angles_end:
  assumes "200 < n"
  shows "\<exists>as. counting n (\<lambda>a. num_le a angle_limit) (dec (5 / 100)) (Fin 0) = Some as \<and> length as \<le> 200"
proof -
  define ok where "ok x = (\<exists>q. x = Fin q \<and> 0 \<le> q \<and> q < 8)" for x
  have step: "ok (num_add x (dec (5 / 100))) \<and> angles_left (num_add x (dec (5 / 100))) < angles_left x"
    if ok: "ok x" and le: "num_le x angle_limit" for x
  proof -
    obtain l where l: "angle_limit = Fin l" "l \<le> 7" using angle_limit_bound by blast
    have "num_le x (Fin l)" using le l(1) by simp
    then obtain q where q: "x = Fin q" "0 \<le> q" "q \<le> 7"
      using ok l(2) by (auto simp: ok_def num_le_def num_eq_def)
    obtain d where d: "dec (5 / 100) = Fin d" "49 / 1000 \<le> d" "d \<le> 51 / 1000"
      by (rule dec_near [of "5 / 100"]) auto
    obtain y where y: "double_of (q + d) = Fin y" "q + d - 1 / 1000 \<le> y" "y \<le> q + d + 1 / 1000"
      by (rule double_of_near [of "q + d"]) (use q d in auto)
    have "\<lceil>(8 - y) * 25\<rceil> \<le> \<lceil>(8 - q) * 25 - 1\<rceil>" using y(2) d(2) by (intro ceiling_mono) simp
    also have "\<dots> = \<lceil>(8 - q) * 25\<rceil> - 1" by (rule ceiling_diff_one)
    finally have "\<lceil>(8 - y) * 25\<rceil> < \<lceil>(8 - q) * 25\<rceil>" by simp
    moreover have "0 < \<lceil>(8 - q) * 25\<rceil>" using q(3) by simp
    ultimately show ?thesis using q d y by (simp add: ok_def angles_left_def nat_mono_iff)
  qed
  have z: "ok (Fin 0)" "angles_left (Fin 0) < n" using assms by (simp_all add: ok_def angles_left_def)
  from counting_ends [where ok = ok and m = angles_left and goes_on = "\<lambda>a. num_le a angle_limit", OF step z]
  show ?thesis by (auto simp: angles_left_def)
qed

text \<open>The radii are exact: multiples of 14, far below \<open>2 ^ 53\<close>.\<close>

lemma radii_end:
  assumes "outer = Fin q" "q \<le> of_nat (14 * k)" "k < 2 ^ 40" "k < n"
  shows "\<exists>rs. counting n (\<lambda>r. num_lt r outer) (Fin 14) (Fin 14) = Some rs \<and> length rs \<le> k"
proof -
  define ok where "ok x = (\<exists>i. x = Fin (of_nat (14 * i)) \<and> i \<le> k + 1)" for x
  define left where "left x = (case x of Fin p \<Rightarrow> k + 1 - nat \<lfloor>p / 14\<rfloor> | _ \<Rightarrow> 0)" for x
  have l: "left (Fin (of_nat (14 * i))) = k + 1 - i" for i
    by (simp add: left_def)
  have step: "ok (num_add x (Fin 14)) \<and> left (num_add x (Fin 14)) < left x" if xo: "ok x" and xl: "num_lt x outer" for x
  proof -
    obtain i where i: "x = Fin (of_nat (14 * i))" using xo unfolding ok_def by blast
    have "(of_nat (14 * i) :: rat) < of_nat (14 * k)" using xl i assms(1,2) by simp
    then have ik: "i < k" by (simp only: of_nat_less_iff)
    have "num_add x (Fin 14) = double_of (of_int (int (14 * (i + 1))))" by (simp add: i add.commute)
    also have "\<dots> = Fin (of_int (int (14 * (i + 1))))" using ik assms(3) by (intro double_of_int) simp
    finally have a: "num_add x (Fin 14) = Fin (of_nat (14 * (i + 1)))" by simp
    show ?thesis using ik unfolding a unfolding i l by (auto simp: ok_def intro!: exI [of _ "i + 1"])
  qed
  have o: "ok (Fin (of_nat (14 * 1)))" unfolding ok_def by (rule exI [of _ 1]) simp
  have z: "left (Fin (of_nat (14 * 1))) < n" using assms(4) unfolding l by simp
  from counting_ends [where ok = ok and m = left and goes_on = "\<lambda>r. num_lt r outer", OF step o z]
  show ?thesis unfolding l by auto
qed

lemma those_map_Some: "(\<And>x. x \<in> set xs \<Longrightarrow> \<exists>y. f x = Some y) \<Longrightarrow> \<exists>ys. those (map f xs) = Some ys"
  by (induction xs) (auto, fastforce)

text \<open>The drawing ends. For a window whose outer radius is at most \<open>14 * k\<close> it makes at most \<open>k\<close> rings,
  and no loop takes more than \<open>max k 200\<close> turns.\<close>

lemma draw_ends:
  assumes "outer_radius tr vp = Fin q" "q \<le> of_nat (14 * k)" "k < 2 ^ 40" "k < n" "200 < n"
  shows "\<exists>size ops. draw n tr vp = Some (size, ops)"
proof -
  obtain rs where rs: "counting n (\<lambda>r. num_lt r (outer_radius tr vp)) (Fin 14) (Fin 14) = Some rs"
    using radii_end [OF assms(1-4)] by blast
  have "\<exists>ops. draw_ring n tr cx cy r = Some ops" for cx cy r
    using angles_end [OF assms(5)] by (auto simp: draw_ring_def)
  then have "\<exists>ys. those (map (draw_ring n tr cx cy) rs) = Some ys" for cx cy
    by (intro those_map_Some)
  then have "\<exists>ops. draw_rings n tr vp = Some ops" by (auto simp: draw_rings_def rs)
  then show ?thesis by (auto simp: draw_def Let_def)
qed

section \<open>When it is drawn\<close>

text \<open>The controller between \<open>connect\<close> and \<open>disconnect\<close>: the window as it is, the windows drawn so far, and
  the timer that \<open>onResize\<close> restarts. A cleared timer does not fire.\<close>

record texture =
  tx_window :: viewport
  tx_drawn :: "viewport list"
  tx_timer :: bool
  tx_listening :: bool

datatype texture_event = Resized viewport | ThemeChanged viewport | TimerFires

definition draw_texture :: "texture \<Rightarrow> texture" where
  "draw_texture t = t\<lparr>tx_drawn := tx_drawn t @ [tx_window t]\<rparr>"

definition connect_texture :: "texture \<Rightarrow> texture" where
  "connect_texture t = (draw_texture t)\<lparr>tx_listening := True\<rparr>"

definition disconnect_texture :: "texture \<Rightarrow> texture" where
  "disconnect_texture t = t\<lparr>tx_listening := False, tx_timer := False\<rparr>"

text \<open>\<open>onResize\<close> clears the pending timer and starts one of 160 ms.\<close>

definition on_resize :: "texture \<Rightarrow> texture" where
  "on_resize t = t\<lparr>tx_timer := True\<rparr>"

fun texture_next :: "texture_event \<Rightarrow> texture \<Rightarrow> texture" where
  "texture_next (Resized vp) t = (let t1 = t\<lparr>tx_window := vp\<rparr> in if tx_listening t then on_resize t1 else t1)"
| "texture_next (ThemeChanged vp) t = (let t1 = t\<lparr>tx_window := vp\<rparr> in if tx_listening t then draw_texture t1 else t1)"
| "texture_next TimerFires t = (if tx_timer t then draw_texture (t\<lparr>tx_timer := False\<rparr>) else t)"

definition texture_run :: "texture_event list \<Rightarrow> texture \<Rightarrow> texture" where
  "texture_run evs t = fold texture_next evs t"

text \<open>After \<open>disconnect\<close> nothing is drawn, whatever happens to the window.\<close>

lemma disconnected_texture_rests: "tx_drawn (texture_run evs (disconnect_texture t)) = tx_drawn t"
proof -
  have "tx_drawn (texture_run evs u) = tx_drawn u" if "\<not> tx_listening u" "\<not> tx_timer u" for u
    using that unfolding texture_run_def
  proof (induction evs arbitrary: u)
    case (Cons e evs)
    then show ?case by (cases e) (simp_all add: Let_def)
  qed simp
  then show ?thesis by (simp add: disconnect_texture_def)
qed

text \<open>However often the window is resized before the timer fires, it is drawn once, as it is then.\<close>

lemma resizes_drawn_once:
  assumes "tx_listening t" "vps \<noteq> []"
  shows "tx_drawn (texture_run (map Resized vps @ [TimerFires, TimerFires]) t) = tx_drawn t @ [last vps]"
proof -
  have "texture_run (map Resized vps) u = u\<lparr>tx_window := last vps, tx_timer := True\<rparr>" if "tx_listening u" for u
    using that assms(2) unfolding texture_run_def
    by (induction vps arbitrary: u) (auto simp: Let_def on_resize_def)
  from this [OF assms(1)] show ?thesis
    by (simp add: texture_run_def draw_texture_def)
qed

end
