(* ===== verification/Facilitator.thy ===== *)
theory Facilitator
  imports Script JsMath Canonical
begin

text \<open>
  The self-hosted facilitator (\<open>selfhost-facilitator/server.mjs\<close>): its configuration, the check of the
  fee payer's key against the mirror node before it listens, and its four routes. The x402
  facilitator behind the routes and the key derivation are not under \<open>src/\<close>: they are the record
  \<open>facilitator\<close>. A run of the module ends in a message and exit status 1 (\<open>Died\<close>), in an uncaught
  error (\<open>Threw\<close>) or in a listening server. The lemmas say what a server that listens has checked,
  and which requests make it settle.
\<close>

section \<open>Configuration\<close>

text \<open>\<open>Number.parseInt(s, 10)\<close>: the digits at the front, whatever follows them.\<close>

definition parse_int :: "jsstr \<Rightarrow> jsnum" where
  "parse_int s = (let t = dropWhile is_space s; sign = take 1 t;
      digits = takeWhile is_digit (if sign = js ''-'' \<or> sign = js ''+'' then tl t else t);
      n = double_of (of_nat (digits_val digits)) in
    if digits = [] then NaN else if sign = js ''-'' then num_neg n else n)"

record facilitator_settings =
  fc_port :: jsnum
  fc_network :: jsstr
  fc_account :: jsstr
  fc_key :: jsstr

definition port_ok :: "jsnum \<Rightarrow> bool" where
  "port_ok n = (is_integer n \<and> \<not> num_lt n (Fin 1) \<and> \<not> num_lt (Fin 65535) n)"

definition facilitator_config :: "environment \<Rightarrow> stop + facilitator_settings" where
  "facilitator_config env =
     (let port = parse_int (env_or env ''PORT'' (js ''4023'')); network = env_or env ''HEDERA_NETWORK'' (js ''testnet'') in
      if \<not> env_set env ''HEDERA_ACCOUNT_ID'' \<or> \<not> env_set env ''HEDERA_PRIVATE_KEY''
      then Inl (Died (js ''HEDERA_ACCOUNT_ID and HEDERA_PRIVATE_KEY (ECDSA fee-payer) are required''))
      else if network \<noteq> js ''testnet'' \<and> network \<noteq> js ''mainnet''
      then Inl (Died (js ''HEDERA_NETWORK must be \"testnet\" or \"mainnet\" (got \"'' @ network @ js ''\")''))
      else if \<not> port_ok port
      then Inl (Died (js ''PORT must be a number 1-65535 (got \"'' @ template (env (js ''PORT'')) @ js ''\")''))
      else Inr \<lparr>fc_port = port, fc_network = network, fc_account = env_or env ''HEDERA_ACCOUNT_ID'' [],
        fc_key = env_or env ''HEDERA_PRIVATE_KEY'' []\<rparr>)"

definition network_id :: "facilitator_settings \<Rightarrow> jsstr" where
  "network_id c = js ''hedera:'' @ fc_network c"

definition mirror_base :: "jsstr \<Rightarrow> jsstr" where
  "mirror_base network = (if network = js ''mainnet'' then js ''https://mainnet-public.mirrornode.hedera.com''
     else js ''https://testnet.mirrornode.hedera.com'')"

section \<open>The x402 facilitator\<close>

text \<open>A rejection of the library is an error object or something else (\<open>None\<close>). \<open>fa_derive\<close> is
  \<open>PrivateKey.fromStringECDSA\<close> with the raw public key of the result.\<close>

record 'w facilitator =
  fa_derive :: "jsstr \<Rightarrow> js_error + jsstr"
  fa_supported :: "'w \<Rightarrow> (js_error + jsval) \<times> 'w"
  fa_verify :: "jsval list \<Rightarrow> 'w \<Rightarrow> (js_error option + jsval) \<times> 'w"
  fa_settle :: "jsval list \<Rightarrow> 'w \<Rightarrow> (js_error option + jsval) \<times> 'w"

text \<open>What the hooks log after a settlement.\<close>

definition or_mark :: "jsval \<Rightarrow> js_error + jsstr" where
  "or_mark v = string_of (coalesce v (Str (js ''?'')))"

definition settled_line :: "jsval \<Rightarrow> js_error + jsstr" where
  "settled_line ctx = (let r = coalesce (opt_prop (opt_prop ctx (js ''response'')) (js ''result'')) (opt_prop ctx (js ''result'')) in
     bindE (or_mark (opt_prop r (js ''transaction''))) (\<lambda>t. bindE (or_mark (opt_prop r (js ''payer''))) (\<lambda>p.
       Inr (js ''settled: '' @ t @ js '' payer='' @ p))))"

definition failure_line :: "jsval \<Rightarrow> js_error + jsval list" where
  "failure_line ctx = (let err = opt_prop ctx (js ''error'') in
     bindE (if nullish (opt_prop err (js ''message'')) then bindE (string_of (coalesce err (Str (js ''unknown'')))) (\<lambda>m. Inr (Str m))
       else Inr (opt_prop err (js ''message''))) (\<lambda>m. Inr [Str (js ''settle failure:''), m]))"

section \<open>The routes\<close>

text \<open>The routing and the body parser are express: a request that reaches a handler is its route and
  what \<open>req.body\<close> is.\<close>

datatype facilitator_route = Supported | Health | VerifyPayment | SettlePayment

type_synonym answer = "nat \<times> jsval"

definition answer_error :: "nat \<Rightarrow> jsstr \<Rightarrow> answer" where
  "answer_error status m = (status, Obj [(js ''error'', Str m)])"

definition answer_of :: "js_error option + jsval \<Rightarrow> answer" where
  "answer_of r = (case r of Inr v \<Rightarrow> (200, v)
     | Inl e \<Rightarrow> answer_error 500 (case e of Some e \<Rightarrow> error_message e | None \<Rightarrow> js ''unknown error''))"

definition payment_route ::
  "(jsval list \<Rightarrow> 'w \<Rightarrow> (js_error option + jsval) \<times> 'w) \<Rightarrow> jsstr \<Rightarrow> jsval \<Rightarrow> ('w, answer) prog" where
  "payment_route operation name body = (let payload = opt_prop body (js ''paymentPayload''); required = opt_prop body (js ''paymentRequirements'') in
     if \<not> truthy payload \<or> \<not> truthy required
     then retM (answer_error 400 (js ''missing paymentPayload or paymentRequirements''))
     else bindM (callM (\<lambda>args w. case operation args w of (r, w') \<Rightarrow> (Inr r, w')) name [payload, required])
       (\<lambda>r. retM (answer_of r)))"

definition verify_route :: "'w facilitator \<Rightarrow> jsval \<Rightarrow> ('w, answer) prog" where
  "verify_route fa body = payment_route (fa_verify fa) (js ''verify'') body"

definition settle_route :: "'w facilitator \<Rightarrow> jsval \<Rightarrow> ('w, answer) prog" where
  "settle_route fa body = payment_route (fa_settle fa) (js ''settle'') body"

definition supported_route :: "'w facilitator \<Rightarrow> ('w, answer) prog" where
  "supported_route fa = bindM (callM (\<lambda>_. fa_supported fa) (js ''getSupported'') []) (\<lambda>kinds. retM (200, kinds))"

fun facilitator_handle :: "'w facilitator \<Rightarrow> facilitator_route \<Rightarrow> jsval \<Rightarrow> ('w, answer) prog" where
  "facilitator_handle fa Supported body = supported_route fa"
| "facilitator_handle fa Health body = retM (200, Obj [(js ''status'', Str (js ''ok''))])"
| "facilitator_handle fa VerifyPayment body = verify_route fa body"
| "facilitator_handle fa SettlePayment body = settle_route fa body"

section \<open>The check of the fee payer's key\<close>

definition account_url :: "facilitator_settings \<Rightarrow> jsstr" where
  "account_url c = mirror_base (fc_network c) @ js ''/api/v1/accounts/'' @ fc_account c"

text \<open>What the mirror says the account's key is; \<open>Inl\<close> is the warning that replaces it.\<close>

definition onchain_key :: "'w fetcher \<Rightarrow> facilitator_settings \<Rightarrow> ('w, js_error + jsval) prog" where
  "onchain_key f c = catchM
     (bindM (fetchM f (plain_get (account_url c))) (\<lambda>res.
      bindM (if \<not> res_ok res then throwM (PlainErr (js ''mirror returned '' @ dec_str (res_status res)))
        else liftM (bindE (body_json res) (\<lambda>v. get_prop v (js ''key'')))) (\<lambda>k. retM (Inr k))))
     (\<lambda>e. retM (Inl e))"

definition mismatch_message :: "facilitator_settings \<Rightarrow> jsstr \<Rightarrow> jsval \<Rightarrow> js_error + jsstr" where
  "mismatch_message c public onchain = bindE (string_of (opt_prop onchain (js ''_type''))) (\<lambda>kind.
     bindE (string_of (opt_prop onchain (js ''key''))) (\<lambda>key.
     Inr (js ''HEDERA_PRIVATE_KEY does not match '' @ fc_account c @ js '' on '' @ fc_network c @ js ''.'' @ newline @
       js ''  account's on-chain key: '' @ kind @ js '' '' @ key @ newline @
       js ''  key you supplied derives: ECDSA_SECP256K1 '' @ public @ newline @
       (if opt_prop onchain (js ''_type'') = Str (js ''ED25519'')
        then js ''  That account is ED25519. This facilitator needs an ECDSA fee-payer '' @ [0x2014, 10] @
          js ''  create one in the portal rather than reusing an ED25519 key.''
        else js ''  Check you copied the private key for this account.''))))"

text \<open>The derived key is hexadecimal, so that only the case of ASCII letters matters.\<close>

definition check_fee_payer :: "'w fetcher \<Rightarrow> facilitator_settings \<Rightarrow> jsstr \<Rightarrow> ('w, unit) script" where
  "check_fee_payer f c public = bindM (run_js (onchain_key f c)) (\<lambda>r. case r of
       Inl e \<Rightarrow> say (js ''warning: could not verify fee-payer key against the mirror ('' @ error_message e @ js '')'')
     | Inr onchain \<Rightarrow> (let k = opt_prop onchain (js ''key'') in
         if \<not> truthy k then retM ()
         else (case k of
             Str hex \<Rightarrow> if ascii_lower hex \<noteq> ascii_lower public
               then bindM (run_js (liftM (mismatch_message c public onchain))) (\<lambda>m. throwM (Died m)) else retM ()
           | _ \<Rightarrow> throwM (Threw (TypeErr (js ''toLowerCase is not a function''))))))"

section \<open>The module\<close>

definition listening_line :: "facilitator_settings \<Rightarrow> jsstr" where
  "listening_line c = js ''self-host x402 facilitator on http://localhost:'' @ num_str (fc_port c) @
     js '' (fee-payer '' @ fc_account c @ js '', '' @ network_id c @ js '')''"

definition listening :: "'w facilitator \<Rightarrow> facilitator_settings \<Rightarrow> ('w, unit) script" where
  "listening fa c = bindM (say (listening_line c)) (\<lambda>_.
     bindM (run_js (callM (\<lambda>_. fa_supported fa) (js ''getSupported'') [])) (\<lambda>supported.
     bindM (run_js (liftM (get_prop supported (js ''kinds'')))) (\<lambda>kinds.
       say (js ''kinds: '' @ template (stringify kinds)))))"

definition start_facilitator :: "'w facilitator \<Rightarrow> 'w fetcher \<Rightarrow> environment \<Rightarrow> ('w, facilitator_settings) script" where
  "start_facilitator fa f env = bindM (liftM (facilitator_config env)) (\<lambda>c.
     bindM (run_js (liftM (fa_derive fa (fc_key c)))) (\<lambda>public.
     bindM (check_fee_payer f c public) (\<lambda>_. retM c)))"

section \<open>What the check makes sure of\<close>

text \<open>The mirror contradicts a key when it answers with another one, as a text.\<close>

definition mirror_names :: "js_error + http_response \<Rightarrow> jsstr \<Rightarrow> bool" where
  "mirror_names answer hex = (\<exists>res v. answer = Inr res \<and> res_ok res \<and> body_json res = Inr v \<and>
     opt_prop (opt_prop v (js ''key'')) (js ''key'') = Str hex \<and> hex \<noteq> [])"

lemma onchain_key_run:
  "onchain_key f c s = (Inr (case fst (f (plain_get (account_url c)) (net s)) of
      Inl e \<Rightarrow> Inl e
    | Inr res \<Rightarrow> if \<not> res_ok res then Inl (PlainErr (js ''mirror returned '' @ dec_str (res_status res)))
        else bindE (body_json res) (\<lambda>v. get_prop v (js ''key''))),
     snd (fetchM f (plain_get (account_url c)) s))"
  by (cases "f (plain_get (account_url c)) (net s)")
    (auto simp: onchain_key_def run_simps fetchM_def split: sum.splits)

lemma check_fee_payer_Inr:
  assumes "check_fee_payer f c public s = (Inr u, s')"
  shows "\<exists>lines. trace s' = trace s @ Fetched (plain_get (account_url c)) # map (\<lambda>l. Called log_call [Str l]) lines \<and>
    (\<forall>hex. mirror_names (fst (f (plain_get (account_url c)) (net s))) hex \<longrightarrow> ascii_lower hex = ascii_lower public)"
proof -
  let ?a = "fst (f (plain_get (account_url c)) (net s))"
  define s1 where "s1 = snd (fetchM f (plain_get (account_url c)) s)"
  obtain r where k: "onchain_key f c s = (Inr r, s1)"
    and r: "r = (case ?a of Inl e \<Rightarrow> Inl e
      | Inr res \<Rightarrow> if \<not> res_ok res then Inl (PlainErr (js ''mirror returned '' @ dec_str (res_status res)))
          else bindE (body_json res) (\<lambda>v. get_prop v (js ''key'')))"
    by (simp add: onchain_key_run s1_def)
  have t: "trace s1 = trace s @ [Fetched (plain_get (account_url c))]" by (simp add: s1_def)
  show ?thesis
  proof (cases r)
    case (Inl e)
    then have "trace s' = trace s1 @ [Called log_call [Str (js ''warning: could not verify fee-payer key against the mirror ('' @ error_message e @ js '')'')]]"
      using assms k by (auto simp: check_fee_payer_def run_iffs say_def)
    moreover have "\<not> mirror_names ?a hex" for hex
      using Inl r by (auto simp: mirror_names_def get_prop_def nullish_def split: if_splits)
    ultimately show ?thesis using t
      by (intro exI [of _ "[js ''warning: could not verify fee-payer key against the mirror ('' @ error_message e @ js '')'']"]) auto
  next
    case (Inr onchain)
    have "s' = s1 \<and> (\<forall>hex. opt_prop onchain (js ''key'') = Str hex \<longrightarrow> hex \<noteq> [] \<longrightarrow> ascii_lower hex = ascii_lower public)"
      using assms k Inr by (auto simp: check_fee_payer_def run_iffs Let_def split: if_splits jsval.splits)
    moreover have "opt_prop onchain (js ''key'') = Str hex" if "mirror_names ?a hex" for hex
      using that Inr r by (auto simp: mirror_names_def get_prop_Inr)
    ultimately show ?thesis using t by (intro exI [of _ "[]"]) (auto simp: mirror_names_def)
  qed
qed

lemma facilitator_config_Inr:
  assumes "facilitator_config env = Inr c"
  shows "fc_network c \<in> {js ''testnet'', js ''mainnet''}" "port_ok (fc_port c)" "fc_account c \<noteq> []" "fc_key c \<noteq> []"
  using assms by (auto simp: facilitator_config_def Let_def env_set_def split: if_splits)

text \<open>C36. A facilitator that listens is on one of the two networks, with a port from 1 to 65535 and its
  credentials set; all it has asked is the mirror of that network for its own account, once, and
  if the mirror named a key it is the one derived from the configured private key, up to the case
  of letters. A mirror that does not answer, or names no key, does not stop it.\<close>

theorem facilitator_start_checked:
  assumes "start_facilitator fa f env s = (Inr c, s')"
  shows "fc_network c \<in> {js ''testnet'', js ''mainnet''} \<and> (\<exists>p. fc_port c = Fin (of_nat p) \<and> 1 \<le> p \<and> p \<le> 65535) \<and>
    fc_account c \<noteq> [] \<and> (\<exists>public lines. fa_derive fa (fc_key c) = Inr public \<and>
      trace s' = trace s @ Fetched (plain_get (account_url c)) # map (\<lambda>l. Called log_call [Str l]) lines \<and>
      (\<forall>hex. mirror_names (fst (f (plain_get (account_url c)) (net s))) hex \<longrightarrow> ascii_lower hex = ascii_lower public))"
proof -
  obtain public where c: "facilitator_config env = Inr c" and d: "fa_derive fa (fc_key c) = Inr public"
    and k: "check_fee_payer f c public s = (Inr (), s')"
    using assms by (auto simp: start_facilitator_def run_iffs)
  have "\<exists>p. fc_port c = Fin (of_nat p) \<and> 1 \<le> p \<and> p \<le> (65535::nat)"
  proof -
    obtain q where q: "fc_port c = Fin q" "rat_is_int q" "1 \<le> q" "q \<le> 65535"
      using facilitator_config_Inr(2) [OF c] by (cases "fc_port c") (auto simp: port_ok_def)
    then obtain i where "q = of_int i" by (auto simp: rat_is_int_def)
    then show ?thesis using q by (intro exI [of _ "nat i"]) auto
  qed
  then show ?thesis
    using facilitator_config_Inr [OF c] check_fee_payer_Inr [OF k] d by blast
qed

definition sample_facilitator :: "unit facilitator" where
  "sample_facilitator = \<lparr>fa_derive = (\<lambda>k. Inr (js ''02AB'')), fa_supported = (\<lambda>w. (Inr (Obj []), w)),
     fa_verify = (\<lambda>args w. (Inr (Bool True), w)), fa_settle = (\<lambda>args w. (Inl None, w))\<rparr>"

definition sample_env :: environment where
  "sample_env = [js ''HEDERA_ACCOUNT_ID'' \<mapsto> js ''0.0.5'', js ''HEDERA_PRIVATE_KEY'' \<mapsto> js ''k'']"

definition no_mirror :: "unit fetcher" where
  "no_mirror = (\<lambda>req w. (Inl (PlainErr (js ''offline'')), w))"

lemma default_port: "parse_int (js ''4023'') = Fin 4023"
proof -
  have "dropWhile is_space (js ''4023'') = js ''4023''" "takeWhile is_digit (js ''4023'') = js ''4023''"
    "digits_val (js ''4023'') = 4023" "take 1 (js ''4023'') = js ''4''"
    by code_simp+
  then show ?thesis by (simp add: parse_int_def js_eval)
qed

theorem facilitator_start_checked_witness:
  "\<exists>c s'. start_facilitator sample_facilitator no_mirror sample_env \<lparr>net = (), trace = []\<rparr> = (Inr c, s') \<and>
     hd (trace s') = Fetched (plain_get (js ''https://testnet.mirrornode.hedera.com/api/v1/accounts/0.0.5''))"
proof -
  define c where "c = \<lparr>fc_port = Fin 4023, fc_network = js ''testnet'', fc_account = js ''0.0.5'', fc_key = js ''k''\<rparr>"
  have "env_or sample_env ''PORT'' x = x" "env_or sample_env ''HEDERA_NETWORK'' x = x"
    "env_or sample_env ''HEDERA_ACCOUNT_ID'' x = js ''0.0.5''" "env_or sample_env ''HEDERA_PRIVATE_KEY'' x = js ''k''" for x
    by (simp_all add: env_or_def sample_env_def js_Cons)
  then have "facilitator_config sample_env = Inr c"
    by (simp add: facilitator_config_def c_def env_set_def default_port port_ok_def rat_is_int_simps)
  then obtain s' where s': "start_facilitator sample_facilitator no_mirror sample_env \<lparr>net = (), trace = []\<rparr> = (Inr c, s')"
    by (simp add: start_facilitator_def run_simps sample_facilitator_def check_fee_payer_def onchain_key_def run_js_def
        no_mirror_def fetchM_def say_def)
  show ?thesis
    using facilitator_start_checked [OF s'] s' by (auto simp: c_def account_url_def mirror_base_def js_append [symmetric])
qed

section \<open>What reaches the facilitator\<close>

text \<open>C37. Every request for a verification or a settlement is answered with 200, 400 or 500. It is
  answered with 400 exactly when it lacks the payload or the requirements, and then nothing is
  called; otherwise the payload and the requirements are handed on once, to the operation asked
  for. No other route verifies or settles.\<close>

theorem facilitator_answers:
  assumes "facilitator_handle fa route body s = (r, s')"
  shows "\<exists>evs. trace s' = trace s @ evs \<and>
    (if route \<in> {VerifyPayment, SettlePayment} then
       (let payload = opt_prop body (js ''paymentPayload''); required = opt_prop body (js ''paymentRequirements'');
            whole = truthy payload \<and> truthy required in
        (\<exists>status v. r = Inr (status, v) \<and> status \<in> {200, 400, 500} \<and> (status = 400 \<longleftrightarrow> \<not> whole)) \<and>
        evs = (if whole then [Called (if route = SettlePayment then js ''settle'' else js ''verify'') [payload, required]] else []))
     else \<forall>e \<in> set evs. \<forall>args. e \<noteq> Called (js ''verify'') args \<and> e \<noteq> Called (js ''settle'') args)"
proof -
  have answer: "\<exists>v. answer_of x = (200, v) \<or> answer_of x = (500, v)" for x
    by (auto simp: answer_of_def answer_error_def split: sum.split)
  have pay: "\<exists>evs. trace s' = trace s @ evs \<and>
      (\<exists>status v. r = Inr (status, v) \<and> status \<in> {200, 400, 500} \<and>
        (status = 400 \<longleftrightarrow> \<not> (truthy (opt_prop body (js ''paymentPayload'')) \<and> truthy (opt_prop body (js ''paymentRequirements''))))) \<and>
      evs = (if truthy (opt_prop body (js ''paymentPayload'')) \<and> truthy (opt_prop body (js ''paymentRequirements''))
        then [Called name [opt_prop body (js ''paymentPayload''), opt_prop body (js ''paymentRequirements'')]] else [])"
    if "payment_route operation name body s = (r, s')" for operation name
  proof (cases "truthy (opt_prop body (js ''paymentPayload'')) \<and> truthy (opt_prop body (js ''paymentRequirements''))")
    case True
    obtain x w where "operation [opt_prop body (js ''paymentPayload''), opt_prop body (js ''paymentRequirements'')] (net s) = (x, w)"
      by fastforce
    then have "r = Inr (answer_of x)"
      "trace s' = trace s @ [Called name [opt_prop body (js ''paymentPayload''), opt_prop body (js ''paymentRequirements'')]]"
      using that True by (auto simp: payment_route_def Let_def run_simps callM_def)
    then show ?thesis using True answer [of x] by auto
  next
    case False
    then show ?thesis using that by (auto simp: payment_route_def Let_def run_simps answer_error_def)
  qed
  show ?thesis
  proof (cases route)
    case Supported
    then show ?thesis
      using assms by (auto simp: supported_route_def run_simps callM_def split: prod.splits sum.splits)
  next
    case Health
    then show ?thesis using assms by (auto simp: run_simps)
  next
    case VerifyPayment
    then show ?thesis using assms pay [of "fa_verify fa" "js ''verify''"] by (simp add: verify_route_def Let_def)
  next
    case SettlePayment
    then show ?thesis using assms pay [of "fa_settle fa" "js ''settle''"] by (simp add: settle_route_def Let_def)
  qed
qed

theorem facilitator_answers_witness:
  "\<exists>r s'. facilitator_handle sample_facilitator SettlePayment (Obj []) \<lparr>net = (), trace = []\<rparr> = (r, s') \<and> trace s' = []"
proof -
  obtain r s' where h: "facilitator_handle sample_facilitator SettlePayment (Obj []) \<lparr>net = (), trace = []\<rparr> = (r, s')"
    by fastforce
  show ?thesis using facilitator_answers [OF h] h by (auto simp: pget_def)
qed

text \<open>The port is what precedes the first character that is not a digit.\<close>

lemma parse_int_prefix: "parse_int (js ''80 or so'') = Fin 80"
proof -
  have "dropWhile is_space (js ''80 or so'') = js ''80 or so''" "takeWhile is_digit (js ''80 or so'') = js ''80''"
    "digits_val (js ''80'') = 80" "take 1 (js ''80 or so'') = js ''8''"
    by code_simp+
  then show ?thesis by (simp add: parse_int_def js_eval)
qed

end
