(* ===== verification/DemoWallet.thy ===== *)
theory DemoWallet
  imports Client Script
begin

text \<open>
  The demo wallet (\<open>scripts/demo-wallet.mjs\<close>): a local server that holds the demo buyer's key and signs
  one offer of the challenge it is sent. The x402 client behind it is a parameter. The lemmas say
  which requests make it sign, and what.
\<close>

section \<open>Settings and requests\<close>

record wallet_settings =
  ws_port :: jsnum
  ws_origin :: jsstr
  ws_account :: jsstr
  ws_key :: jsstr

definition wallet_settings_of :: "environment \<Rightarrow> js_error + wallet_settings" where
  "wallet_settings_of env = (let account = env_or env ''BUYER_ACCOUNT_ID'' (env_or env ''HEDERA_ACCOUNT_ID'' []);
       key = env_or env ''BUYER_PRIVATE_KEY'' (env_or env ''HEDERA_PRIVATE_KEY'' []) in
     if account = [] \<or> key = [] then Inl (PlainErr (js ''BUYER_ACCOUNT_ID / BUYER_PRIVATE_KEY required''))
     else Inr \<lparr>ws_port = number_of_str (env_or env ''DEMO_WALLET_PORT'' (js ''4022'')),
       ws_origin = env_or env ''DEMO_WALLET_ORIGIN'' (js ''http://localhost:3000''), ws_account = account, ws_key = key\<rparr>)"

record wallet_request =
  wr_method :: jsstr
  wr_url :: jsstr
  wr_origin :: "jsstr option"
  wr_chunks :: "js_error + bytes list"

text \<open>A reply: status, headers, and the body unless there is none.\<close>

type_synonym wallet_reply = "nat \<times> (jsstr \<times> jsstr) list \<times> jsval option"

definition cors :: "wallet_settings \<Rightarrow> (jsstr \<times> jsstr) list" where
  "cors c = [(js ''access-control-allow-origin'', ws_origin c),
     (js ''access-control-allow-methods'', js ''POST, GET, OPTIONS''),
     (js ''access-control-allow-headers'', js ''content-type'')]"

definition send :: "wallet_settings \<Rightarrow> nat \<Rightarrow> jsval \<Rightarrow> ('w, wallet_reply) prog" where
  "send c status body = retM (status, (js ''content-type'', js ''application/json'') # cors c, Some body)"

definition send_error :: "wallet_settings \<Rightarrow> nat \<Rightarrow> jsstr \<Rightarrow> ('w, wallet_reply) prog" where
  "send_error c status m = send c status (Obj [(js ''error'', Str m)])"

section \<open>Signing\<close>

record 'w demo_signer =
  ds_create :: "jsval list \<Rightarrow> 'w \<Rightarrow> (js_error + jsval) \<times> 'w"
  ds_encode :: "jsval \<Rightarrow> js_error + jsval"

fun offers_in :: "jsval \<Rightarrow> jsval list \<Rightarrow> js_error + jsval list" where
  "offers_in asset [] = Inr []"
| "offers_in asset (a # as) = bindE (get_prop a (js ''asset'')) (\<lambda>x.
     bindE (offers_in asset as) (\<lambda>rest. Inr (if strict_eq x asset then a # rest else rest)))"

definition offers_for :: "jsval \<Rightarrow> jsval \<Rightarrow> js_error + jsval" where
  "offers_for required asset = bindE (get_prop required (js ''accepts'')) (\<lambda>accepts.
     if truthy asset then (case accepts of
         Arr as \<Rightarrow> bindE (offers_in asset as) (\<lambda>kept. Inr (Arr kept))
       | _ \<Rightarrow> Inl (TypeErr (js ''filter is not a function'')))
     else Inr accepts)"

text \<open>\<open>accepts.length\<close> and \<open>accepts[0]\<close> of whatever the challenge has there.\<close>

fun first_entry :: "jsval \<Rightarrow> js_error + jsval option" where
  "first_entry Undef = Inl (TypeErr (js ''Cannot read properties of undefined''))"
| "first_entry Null = Inl (TypeErr (js ''Cannot read properties of null''))"
| "first_entry (Arr as) = Inr (case as of [] \<Rightarrow> None | a # _ \<Rightarrow> Some a)"
| "first_entry (Str s) = Inr (case s of [] \<Rightarrow> None | c # _ \<Rightarrow> Some (Str [c]))"
| "first_entry (Obj kvs) = Inr (if truthy (pget kvs (js ''length'')) then Some (pget kvs (js ''0'')) else None)"
| "first_entry _ = Inr None"

definition signed_log :: "jsval \<Rightarrow> js_error + jsval list" where
  "signed_log offer = bindE (get_prop offer (js ''amount'')) (\<lambda>a. bindE (string_of a) (\<lambda>amount.
     bindE (string_of (opt_prop offer (js ''asset''))) (\<lambda>asset. bindE (string_of (opt_prop offer (js ''payTo''))) (\<lambda>to.
       Inr [Str (js ''signed: '' @ amount @ js '' of '' @ asset @ js '' -> '' @ to)]))))"

definition print_call :: jsstr where
  "print_call = js ''console''"

definition print_values :: "jsval list \<Rightarrow> ('w, unit) prog" where
  "print_values vs = callM (\<lambda>args w. (Inr (), w)) print_call vs"

definition sign_offer :: "'w demo_signer \<Rightarrow> wallet_settings \<Rightarrow> jsval \<Rightarrow> jsval \<Rightarrow> ('w, wallet_reply) prog" where
  "sign_offer ds c required offer =
     bindM (callM (ds_create ds) create_call [Str (ws_account c), Str (ws_key c), restricted_challenge required offer]) (\<lambda>payload.
     bindM (liftM (ds_encode ds payload)) (\<lambda>headers.
     bindM (liftM (signed_log offer)) (\<lambda>line.
     bindM (print_values line) (\<lambda>_.
       send c 200 (Obj [(js ''headers'', headers), (js ''accept'', offer), (js ''payer'', Str (ws_account c))])))))"

definition sign_body :: "'w demo_signer \<Rightarrow> wallet_settings \<Rightarrow> bytes list \<Rightarrow> ('w, wallet_reply) prog" where
  "sign_body ds c chunks =
     bindM (liftM (ofOption SyntaxErr (json_parse (utf8_lossy (concat chunks))))) (\<lambda>body.
     bindM (liftM (get_prop body (js ''paymentRequired''))) (\<lambda>required.
     bindM (liftM (bindE (offers_for required (opt_prop body (js ''asset''))) first_entry)) (\<lambda>first. case first of
         None \<Rightarrow> send_error c 422 (js ''no acceptable payment option'')
       | Some offer \<Rightarrow> sign_offer ds c required offer)))"

section \<open>The server\<close>

text \<open>\<open>String(error.message || error)\<close>\<close>

fun error_name :: "js_error \<Rightarrow> jsstr" where
  "error_name (TypeErr m) = js ''TypeError''"
| "error_name (PrintwrightError m s b) = js ''PrintwrightError''"
| "error_name (VerificationError m c r) = js ''VerificationError''"
| "error_name RangeErr = js ''RangeError''"
| "error_name SyntaxErr = js ''SyntaxError''"
| "error_name UriErr = js ''URIError''"
| "error_name _ = js ''Error''"

definition error_words :: "js_error \<Rightarrow> jsstr" where
  "error_words e = (if error_message e = [] then error_name e else error_message e)"

definition origin_refused :: "wallet_settings \<Rightarrow> wallet_request \<Rightarrow> bool" where
  "origin_refused c req = (case wr_origin req of None \<Rightarrow> False | Some origin \<Rightarrow> origin \<noteq> [] \<and> origin \<noteq> ws_origin c)"

definition demo_wallet :: "'w demo_signer \<Rightarrow> wallet_settings \<Rightarrow> wallet_request \<Rightarrow> ('w, wallet_reply) prog" where
  "demo_wallet ds c req =
     (if wr_method req = js ''OPTIONS'' then retM (204, cors c, None)
      else if wr_method req = js ''GET'' \<and> wr_url req = js ''/healthz''
      then send c 200 (Obj [(js ''ok'', Bool True), (js ''account'', Str (ws_account c))])
      else if wr_method req \<noteq> js ''POST'' \<or> wr_url req \<noteq> js ''/sign'' then send_error c 404 (js ''not_found'')
      else if origin_refused c req then send_error c 403 (js ''origin_not_allowed'')
      else catchM (bindM (liftM (wr_chunks req)) (sign_body ds c))
        (\<lambda>e. bindM (print_values [Str (error_words e)]) (\<lambda>_. send_error c 500 (error_words e))))"

section \<open>What it signs\<close>

text \<open>The offer is one the challenge lists, of the asset asked for; an object or a text in the place of
  the list offers what it has at its start.\<close>

definition offered :: "jsval \<Rightarrow> jsval \<Rightarrow> jsval \<Rightarrow> bool" where
  "offered required asset offer = (if truthy asset
     then (\<exists>as. opt_prop required (js ''accepts'') = Arr as \<and> offer \<in> set as \<and> strict_eq (opt_prop offer (js ''asset'')) asset)
     else first_entry (opt_prop required (js ''accepts'')) = Inr (Some offer))"

lemma offers_in_Inr: "offers_in asset as = Inr kept \<Longrightarrow>
    set kept \<subseteq> {a \<in> set as. strict_eq (opt_prop a (js ''asset'')) asset}"
  by (induction as arbitrary: kept) (auto simp: get_prop_Inr split: if_splits)

lemma offers_for_offered:
  assumes "bindE (offers_for required asset) first_entry = Inr (Some offer)"
  shows "offered required asset offer"
proof (cases "truthy asset")
  case True
  then obtain as kept where k: "opt_prop required (js ''accepts'') = Arr as" "offers_in asset as = Inr kept"
    "first_entry (Arr kept) = Inr (Some offer)"
    using assms by (auto simp: offers_for_def get_prop_Inr split: jsval.splits)
  then have "offer \<in> set kept" by (auto split: list.splits)
  then show ?thesis using offers_in_Inr [OF k(2)] True k(1) by (auto simp: offered_def)
qed (use assms in \<open>auto simp: offers_for_def get_prop_Inr offered_def\<close>)

definition wallet_signs :: "wallet_settings \<Rightarrow> wallet_request \<Rightarrow> event \<Rightarrow> bool" where
  "wallet_signs c req e = (is_signature e \<longrightarrow> wr_method req = js ''POST'' \<and> wr_url req = js ''/sign'' \<and>
     wr_origin req \<in> {None, Some [], Some (ws_origin c)} \<and>
     (\<exists>chunks body offer. wr_chunks req = Inr chunks \<and> json_parse (utf8_lossy (concat chunks)) = Some body \<and>
       offered (opt_prop body (js ''paymentRequired'')) (opt_prop body (js ''asset'')) offer \<and>
       e = Called create_call [Str (ws_account c), Str (ws_key c),
         restricted_challenge (opt_prop body (js ''paymentRequired'')) offer]))"

lemma quiet_send: "emits P (send c st b)" "emits P (send_error c st m)"
  unfolding send_error_def send_def by (intro trace_rules)+

lemma quiet_print: "emits (\<lambda>e. \<not> is_signature e) (print_values vs)"
  unfolding print_values_def by (intro trace_rules) (simp add: print_call_def create_call_def)

lemma sign_offer_emits:
  "P (Called create_call [Str (ws_account c), Str (ws_key c), restricted_challenge required offer]) \<Longrightarrow>
   (\<And>e. \<not> is_signature e \<Longrightarrow> P e) \<Longrightarrow> emits P (sign_offer ds c required offer)"
  unfolding sign_offer_def by (intro emits_bindM trace_rules quiet_send emits_mono [OF quiet_print]) simp_all

lemma sign_body_signs:
  assumes "wr_method req = js ''POST''" "wr_url req = js ''/sign''" "\<not> origin_refused c req" "wr_chunks req = Inr chunks"
  shows "emits (wallet_signs c req) (sign_body ds c chunks)"
  unfolding sign_body_def
proof (intro emits_bindM trace_rules)
  fix body s s1 required sa sb first sc sd
  assume b: "liftM (ofOption SyntaxErr (json_parse (utf8_lossy (concat chunks)))) s = (Inr body, s1)"
    and r: "liftM (get_prop body (js ''paymentRequired'')) sa = (Inr required, sb)"
    and o: "liftM (bindE (offers_for required (opt_prop body (js ''asset''))) first_entry) sc = (Inr first, sd)"
  show "emits (wallet_signs c req) (case first of None \<Rightarrow> send_error c 422 (js ''no acceptable payment option'')
      | Some offer \<Rightarrow> sign_offer ds c required offer)"
  proof (cases first)
    case (Some offer)
    have "offered required (opt_prop body (js ''asset'')) offer"
      using o Some by (intro offers_for_offered) (simp add: run_iffs)
    moreover have "required = opt_prop body (js ''paymentRequired'')" using r by (simp add: run_iffs get_prop_Inr)
    moreover have "json_parse (utf8_lossy (concat chunks)) = Some body" using b by (simp add: run_iffs)
    moreover have "wr_origin req \<in> {None, Some [], Some (ws_origin c)}"
      using assms(3) by (auto simp: origin_refused_def split: option.splits)
    ultimately show ?thesis
      using Some assms by (auto intro!: sign_offer_emits simp: wallet_signs_def)
  qed (simp add: quiet_send)
qed

lemma quiet_failure: "emits (\<lambda>e. \<not> is_signature e) (bindM (print_values vs) (\<lambda>_. send_error c 500 m))"
  by (intro emits_bindM quiet_print quiet_send)

lemma demo_wallet_emits: "emits (wallet_signs c req) (demo_wallet ds c req)"
proof -
  have failure: "emits (wallet_signs c req) (bindM (print_values vs) (\<lambda>_. send_error c 500 m))" for vs m
    by (rule emits_mono [OF quiet_failure]) (simp add: wallet_signs_def)
  have "emits (wallet_signs c req) (bindM (liftM (wr_chunks req)) (sign_body ds c))"
    if "wr_method req = js ''POST''" "wr_url req = js ''/sign''" "\<not> origin_refused c req"
    using that by (intro emits_bindM sign_body_signs trace_rules) (simp_all add: run_iffs)
  then show ?thesis
    unfolding demo_wallet_def by (auto intro!: emits_catchM failure quiet_send trace_rules)
qed

lemma sign_body_once: "at_most is_signature 1 (sign_body ds c chunks)"
proof -
  have quiet: "at_most is_signature 0 p" if "emits (\<lambda>e. \<not> is_signature e) p" for p :: "('a, 'x) prog"
    using that by (rule emits_at_most)
  have "at_most is_signature (1 + (0 + (0 + (0 + 0)))) (sign_offer ds c required offer)" for required offer
    unfolding sign_offer_def by (intro at_most_bindM at_most_callM quiet trace_rules quiet_print quiet_send)
  then have "at_most is_signature (0 + (0 + (0 + 1))) (sign_body ds c chunks)"
    unfolding sign_body_def
    by (intro at_most_bindM quiet trace_rules)
      (auto intro: at_most_mono [OF quiet [OF quiet_send(2)]] split: option.split)
  then show ?thesis by simp
qed

text \<open>C40. Every request to the demo wallet is answered, and it makes at most one signature: only for a POST
  of \<open>/sign\<close> whose origin, if it names one, is the allowed one, and then of the challenge in the
  request restricted to one offer, of the asset asked for. It has no limit on the amount.\<close>

theorem demo_wallet_signs:
  assumes "demo_wallet ds c req s = (r, s')"
  shows "(\<exists>reply. r = Inr reply) \<and> (\<exists>evs. trace s' = trace s @ evs \<and> length (filter is_signature evs) \<le> 1 \<and>
    (\<forall>e \<in> set evs. is_signature e \<longrightarrow> wr_method req = js ''POST'' \<and> wr_url req = js ''/sign'' \<and>
       wr_origin req \<in> {None, Some [], Some (ws_origin c)} \<and>
       (\<exists>chunks body offer. wr_chunks req = Inr chunks \<and> json_parse (utf8_lossy (concat chunks)) = Some body \<and>
         offered (opt_prop body (js ''paymentRequired'')) (opt_prop body (js ''asset'')) offer \<and>
         e = Called create_call [Str (ws_account c), Str (ws_key c),
           restricted_challenge (opt_prop body (js ''paymentRequired'')) offer])))"
proof -
  obtain evs where e: "trace s' = trace s @ evs" "\<forall>e \<in> set evs. wallet_signs c req e"
    by (rule emitsD [OF demo_wallet_emits assms])
  have quiet: "at_most is_signature 0 p" if "emits (\<lambda>e. \<not> is_signature e) p" for p :: "('a, 'x) prog"
    using that by (rule emits_at_most)
  have few: "at_most is_signature 1 p" if "emits (\<lambda>e. \<not> is_signature e) p" for p :: "('a, 'x) prog"
    by (rule at_most_mono [OF quiet [OF that]]) simp
  have "at_most is_signature ((0 + 1) + 0) (catchM (bindM (liftM (wr_chunks req)) (sign_body ds c))
        (\<lambda>e. bindM (print_values [Str (error_words e)]) (\<lambda>_. send_error c 500 (error_words e))))"
    by (intro at_most_catchM at_most_bindM sign_body_once quiet quiet_failure trace_rules)
  then have "at_most is_signature 1 (demo_wallet ds c req)"
    unfolding demo_wallet_def by (auto intro: few [simplified] quiet_send trace_rules)
  then obtain evs' where "trace s' = trace s @ evs'" "length (filter is_signature evs') \<le> 1"
    using assms unfolding at_most_def by blast
  moreover have "\<exists>reply. r = Inr reply"
    using assms by (auto simp: demo_wallet_def send_def send_error_def print_values_def callM_def catchM_def bindM_def
        retM_def split: if_splits prod.splits sum.splits)
  ultimately show ?thesis using e unfolding wallet_signs_def by auto
qed

definition blind_signer :: "unit demo_signer" where
  "blind_signer = \<lparr>ds_create = (\<lambda>args w. (Inr Null, w)), ds_encode = Inr\<rparr>"

theorem demo_wallet_signs_witness:
  "\<exists>c r s'. demo_wallet blind_signer c \<lparr>wr_method = js ''POST'', wr_url = js ''/sign'', wr_origin = Some (js ''http://evil''),
      wr_chunks = Inr []\<rparr> empty_session = (r, s') \<and> ws_origin c = js ''http://localhost:3000'' \<and>
     (\<forall>e \<in> set (trace s'). \<not> is_signature e)"
proof -
  define c where "c = \<lparr>ws_port = Fin 4022, ws_origin = js ''http://localhost:3000'', ws_account = js ''0.0.7'', ws_key = js ''k''\<rparr>"
  obtain r s' where d: "demo_wallet blind_signer c \<lparr>wr_method = js ''POST'', wr_url = js ''/sign'', wr_origin = Some (js ''http://evil''),
      wr_chunks = Inr []\<rparr> empty_session = (r, s')" by fastforce
  show ?thesis
    using demo_wallet_signs [OF d] d by (intro exI [of _ c]) (auto simp: empty_session_def c_def)
qed

end
