(* ===== verification/PageControllers.thy ===== *)
theory PageControllers
  imports Env
begin

text \<open>
  The small controllers of the pages (\<open>app/javascript/controllers/\<close>): the theme button, the lazy loading
  of the wallet module, the signing of a payout proof, the copy buttons, the sticky header and the
  chat log. Elements are the texts and flags they show; a promise is what it has settled to. The
  lemmas say that the theme button names what it does, that the wallet module is imported once even
  if that one import fails, and when a copy button gets its label back.
\<close>

section \<open>The theme button\<close>

datatype theme = Light | Dark

record theme_page =
  tp_selected :: "theme option"
  tp_system_dark :: bool
  tp_stored :: "theme option"
  tp_text :: jsstr
  tp_label :: jsstr
  tp_pressed :: bool
  tp_listening :: bool

text \<open>\<open>tp_selected\<close> is \<open>data-theme\<close>, when it is one of the two themes.\<close>

definition current_theme :: "theme_page \<Rightarrow> theme" where
  "current_theme p = (case tp_selected p of Some t \<Rightarrow> t | None \<Rightarrow> if tp_system_dark p then Dark else Light)"

definition refresh :: "theme_page \<Rightarrow> theme_page" where
  "refresh p = (let dark = (current_theme p = Dark) in
     p\<lparr>tp_text := if dark then js ''Light mode'' else js ''Dark mode'',
       tp_label := if dark then js ''Switch to light mode'' else js ''Switch to dark mode'', tp_pressed := dark\<rparr>)"

definition connect_theme :: "theme_page \<Rightarrow> theme_page" where
  "connect_theme p = refresh (p\<lparr>tp_listening := True\<rparr>)"

definition disconnect_theme :: "theme_page \<Rightarrow> theme_page" where
  "disconnect_theme p = p\<lparr>tp_listening := False\<rparr>"

text \<open>The storage may refuse, which is ignored.\<close>

definition toggle :: "bool \<Rightarrow> theme_page \<Rightarrow> theme_page" where
  "toggle stores p = (let t = (if current_theme p = Dark then Light else Dark); p1 = p\<lparr>tp_selected := Some t\<rparr> in
     refresh (if stores then p1\<lparr>tp_stored := Some t\<rparr> else p1))"

definition system_changes :: "bool \<Rightarrow> theme_page \<Rightarrow> theme_page" where
  "system_changes dark p = (let p1 = p\<lparr>tp_system_dark := dark\<rparr> in if tp_listening p1 then refresh p1 else p1)"

datatype theme_event = Toggled bool | SystemChanged bool

fun theme_next :: "theme_event \<Rightarrow> theme_page \<Rightarrow> theme_page" where
  "theme_next (Toggled stores) p = toggle stores p"
| "theme_next (SystemChanged dark) p = system_changes dark p"

definition button_agrees :: "theme_page \<Rightarrow> bool" where
  "button_agrees p = (tp_listening p \<and> tp_pressed p = (current_theme p = Dark) \<and>
     (tp_text p = js ''Light mode'') = (current_theme p = Dark) \<and> (tp_label p = js ''Switch to light mode'') = (current_theme p = Dark))"

lemma refresh_sel [simp]: "current_theme (refresh p) = current_theme p" "tp_selected (refresh p) = tp_selected p"
  "tp_listening (refresh p) = tp_listening p"
  by (simp_all add: refresh_def current_theme_def Let_def)

lemma button_agrees_refresh: "tp_listening p \<Longrightarrow> button_agrees (refresh p)"
  by (simp add: button_agrees_def) (simp add: refresh_def Let_def current_theme_def)

lemma theme_button_agrees: "button_agrees (foldl (\<lambda>p ev. theme_next ev p) (connect_theme p) evs)"
proof -
  have next_ok: "button_agrees (theme_next ev q)" if "button_agrees q" for ev q
    using that by (cases ev) (auto simp: toggle_def system_changes_def Let_def button_agrees_def [of q] intro: button_agrees_refresh)
  have "button_agrees q \<Longrightarrow> button_agrees (foldl (\<lambda>p ev. theme_next ev p) q evs)" for q
    by (induction evs arbitrary: q) (simp_all add: next_ok)
  moreover have "button_agrees (connect_theme p)" by (simp add: connect_theme_def button_agrees_refresh)
  ultimately show ?thesis by blast
qed

text \<open>A choice holds against the system, and each click changes the theme.\<close>

lemma toggle_theme: "current_theme (toggle stores p) \<noteq> current_theme p"
  by (auto simp: toggle_def Let_def current_theme_def split: option.splits)

lemma choice_kept: "tp_selected p \<noteq> None \<Longrightarrow> current_theme (system_changes dark p) = current_theme p"
  by (auto simp: system_changes_def Let_def current_theme_def split: option.splits)

section \<open>Loading the wallet module\<close>

text \<open>The promise kept in \<open>this.loading\<close>, and the calls that wait for it. What the wallet does when it
  is asked to connect or disconnect is a parameter: an error, or nothing to report.\<close>

datatype 'a module_load = Importing | Imported 'a | ImportFailed js_error

datatype wallet_action = ConnectWallet | DisconnectWallet

record 'a loader =
  ld_loading :: "'a module_load option"
  ld_imports :: nat
  ld_waiting :: "wallet_action list"
  ld_reports :: "jsstr list"

definition report_text :: "js_error \<Rightarrow> jsstr" where
  "report_text e = (if error_message e = [] then js ''Wallet unavailable'' else error_message e)"

definition report :: "js_error \<Rightarrow> 'a loader \<Rightarrow> 'a loader" where
  "report e l = l\<lparr>ld_reports := ld_reports l @ [report_text e]\<rparr>"

definition load_module :: "'a loader \<Rightarrow> 'a loader" where
  "load_module l = (if ld_loading l = None then l\<lparr>ld_loading := Some Importing, ld_imports := Suc (ld_imports l)\<rparr> else l)"

definition continue :: "('a \<Rightarrow> wallet_action \<Rightarrow> js_error option) \<Rightarrow> wallet_action \<Rightarrow> 'a loader \<Rightarrow> 'a loader" where
  "continue call a l = (case ld_loading l of
       Some (Imported w) \<Rightarrow> (case call w a of None \<Rightarrow> l | Some e \<Rightarrow> report e l)
     | Some (ImportFailed e) \<Rightarrow> report e l
     | _ \<Rightarrow> l\<lparr>ld_waiting := ld_waiting l @ [a]\<rparr>)"

definition wallet_button :: "('a \<Rightarrow> wallet_action \<Rightarrow> js_error option) \<Rightarrow> wallet_action \<Rightarrow> 'a loader \<Rightarrow> 'a loader" where
  "wallet_button call a l = continue call a (load_module l)"

text \<open>The import settles; what waited for it goes on, in order.\<close>

definition import_settles :: "('a \<Rightarrow> wallet_action \<Rightarrow> js_error option) \<Rightarrow> js_error + 'a \<Rightarrow> 'a loader \<Rightarrow> 'a loader" where
  "import_settles call r l = (if ld_loading l = Some Importing
     then foldl (\<lambda>l a. continue call a l)
       (l\<lparr>ld_loading := Some (case r of Inl e \<Rightarrow> ImportFailed e | Inr w \<Rightarrow> Imported w), ld_waiting := []\<rparr>) (ld_waiting l)
     else l)"

datatype 'a loader_event = Pressed wallet_action | LoadCalled | Settles "js_error + 'a"

fun loader_next :: "('a \<Rightarrow> wallet_action \<Rightarrow> js_error option) \<Rightarrow> 'a loader_event \<Rightarrow> 'a loader \<Rightarrow> 'a loader" where
  "loader_next call (Pressed a) l = wallet_button call a l"
| "loader_next call LoadCalled l = load_module l"
| "loader_next call (Settles r) l = import_settles call r l"

definition loader_run :: "('a \<Rightarrow> wallet_action \<Rightarrow> js_error option) \<Rightarrow> 'a loader_event list \<Rightarrow> 'a loader \<Rightarrow> 'a loader" where
  "loader_run call evs l = foldl (\<lambda>l ev. loader_next call ev l) l evs"

definition new_loader :: "'a loader" where
  "new_loader = \<lparr>ld_loading = None, ld_imports = 0, ld_waiting = [], ld_reports = []\<rparr>"

lemma continue_sel [simp]: "ld_loading (continue call a l) = ld_loading l" "ld_imports (continue call a l) = ld_imports l"
  by (simp_all add: continue_def report_def split: option.splits module_load.splits)

lemma foldl_continue_sel [simp]:
  "ld_loading (foldl (\<lambda>l a. continue call a l) l as) = ld_loading l"
  "ld_imports (foldl (\<lambda>l a. continue call a l) l as) = ld_imports l"
  by (induction as arbitrary: l) simp_all

definition imports_ok :: "'a loader \<Rightarrow> bool" where
  "imports_ok l = (ld_imports l = (if ld_loading l = None then 0 else 1))"

lemma imports_ok_next: "imports_ok l \<Longrightarrow> imports_ok (loader_next call ev l)"
  by (cases ev) (auto simp: imports_ok_def wallet_button_def load_module_def import_settles_def)

lemma imports_ok_run: "imports_ok l \<Longrightarrow> imports_ok (loader_run call evs l)"
  unfolding loader_run_def by (induction evs arbitrary: l) (simp_all add: imports_ok_next)

lemma failed_stays:
  assumes "ld_loading l = Some (ImportFailed e)"
  shows "ld_loading (loader_run call evs l) = Some (ImportFailed e) \<and> ld_reports (loader_run call evs l) =
    ld_reports l @ replicate (length (filter (\<lambda>ev. \<exists>a. ev = Pressed a) evs)) (report_text e)"
  using assms unfolding loader_run_def
proof (induction evs arbitrary: l)
  case (Cons ev evs)
  let ?l = "loader_next call ev l"
  have "ld_loading ?l = Some (ImportFailed e)" "ld_reports ?l = ld_reports l @ (if \<exists>a. ev = Pressed a then [report_text e] else [])"
    using Cons.prems by (cases ev; simp add: wallet_button_def load_module_def continue_def report_def import_settles_def)+
  then show ?case using Cons.IH [of ?l] by auto
qed simp

text \<open>The wallet module is imported at most once in the life of the page. If that import fails, its
  failure is kept: every later press of a wallet button reports the same error and nothing is tried
  again, although a new import might succeed.\<close>

theorem wallet_imported_once:
  "ld_imports (loader_run call evs new_loader) \<le> 1 \<and>
   (ld_loading (loader_run call evs new_loader) = Some (ImportFailed e) \<longrightarrow>
      ld_imports (loader_run call (evs @ later) new_loader) = 1 \<and>
      ld_reports (loader_run call (evs @ later) new_loader) = ld_reports (loader_run call evs new_loader) @
        replicate (length (filter (\<lambda>ev. \<exists>a. ev = Pressed a) later)) (report_text e))"
proof -
  have ok: "imports_ok (loader_run call es new_loader)" for es
    by (rule imports_ok_run) (simp add: imports_ok_def new_loader_def)
  have split: "loader_run call (evs @ later) new_loader = loader_run call later (loader_run call evs new_loader)"
    by (simp add: loader_run_def)
  show ?thesis
    using ok [of evs] ok [of "evs @ later"] failed_stays [of "loader_run call evs new_loader" e call later]
    unfolding split imports_ok_def by auto
qed

theorem wallet_imported_once_witness:
  "ld_reports (loader_run (\<lambda>w a. None) [Pressed ConnectWallet, Settles (Inl (PlainErr (js ''offline''))), Pressed ConnectWallet]
     (new_loader :: unit loader)) = [js ''offline'', js ''offline'']"
proof -
  let ?evs = "[Pressed ConnectWallet, Settles (Inl (PlainErr (js ''offline'')))] :: unit loader_event list"
  have r: "ld_loading (loader_run (\<lambda>w a. None) ?evs new_loader) = Some (ImportFailed (PlainErr (js ''offline'')))"
    "ld_reports (loader_run (\<lambda>w a. None) ?evs new_loader) = [js ''offline'']"
    by (simp_all add: loader_run_def new_loader_def wallet_button_def load_module_def continue_def import_settles_def
        report_def report_text_def)
  show ?thesis
    using wallet_imported_once [of "\<lambda>w a. None" ?evs "PlainErr (js ''offline'')" "[Pressed ConnectWallet]"] r
    by (simp add: report_text_def)
qed

section \<open>Signing a payout proof\<close>

record proof_form =
  pf_disabled :: bool
  pf_status :: jsstr
  pf_signature :: jsval
  pf_submitted :: nat

definition begin_signing :: "proof_form \<Rightarrow> proof_form" where
  "begin_signing p = p\<lparr>pf_disabled := True, pf_status := js ''Opening wallet'' @ [0x2026]\<rparr>"

text \<open>The outcome of loading the wallet and of its signature; without a loader there is no wallet.\<close>

definition wallet_signature :: "(js_error + (js_error + jsval)) option \<Rightarrow> js_error + jsval" where
  "wallet_signature loaded = (case loaded of
       None \<Rightarrow> Inl (PlainErr (js ''Wallet connection is not configured''))
     | Some (Inl e) \<Rightarrow> Inl e
     | Some (Inr (Inl e)) \<Rightarrow> Inl e
     | Some (Inr (Inr answer)) \<Rightarrow> get_prop answer (js ''signatureMap''))"

definition finish_signing :: "js_error + jsval \<Rightarrow> proof_form \<Rightarrow> proof_form" where
  "finish_signing r p = (case r of
       Inr signature \<Rightarrow> p\<lparr>pf_signature := signature, pf_status := js ''Signed. Verifying wallet control'' @ [0x2026],
         pf_submitted := Suc (pf_submitted p)\<rparr>
     | Inl e \<Rightarrow> p\<lparr>pf_disabled := False,
         pf_status := if error_message e = [] then js ''The wallet could not sign this challenge'' else error_message e\<rparr>)"

definition sign_proof :: "(js_error + (js_error + jsval)) option \<Rightarrow> proof_form \<Rightarrow> proof_form" where
  "sign_proof loaded p = finish_signing (wallet_signature loaded) (begin_signing p)"

text \<open>The form is submitted exactly when there is a signature to submit; otherwise the button works
  again.\<close>

lemma sign_proof_submits:
  "pf_submitted (sign_proof loaded p) = pf_submitted p + (case wallet_signature loaded of Inr v \<Rightarrow> 1 | Inl e \<Rightarrow> 0)"
  "pf_disabled (sign_proof loaded p) = (\<exists>v. wallet_signature loaded = Inr v)"
  "wallet_signature loaded = Inr v \<Longrightarrow> pf_signature (sign_proof loaded p) = v"
  by (auto simp: sign_proof_def finish_signing_def begin_signing_def split: sum.split)

section \<open>The copy buttons\<close>

record copy_button =
  cb_text :: jsstr
  cb_timers :: "jsstr list"
  cb_copied :: "jsstr list"

definition copied_text :: jsstr where
  "copied_text = js ''copied '' @ [0x2713]"

text \<open>What is copied: the full value of the button, or else the trimmed text of the source.\<close>

definition copy_value :: "jsstr option \<Rightarrow> jsstr \<Rightarrow> jsstr" where
  "copy_value full source = (case full of Some (c # cs) \<Rightarrow> c # cs | _ \<Rightarrow> js_trim source)"

text \<open>The clipboard has taken the text.\<close>

definition copied :: "jsstr \<Rightarrow> copy_button \<Rightarrow> copy_button" where
  "copied v b = b\<lparr>cb_copied := cb_copied b @ [v], cb_timers := cb_timers b @ [cb_text b], cb_text := copied_text\<rparr>"

text \<open>All timers have the same delay, so that the oldest fires first.\<close>

definition restore :: "copy_button \<Rightarrow> copy_button" where
  "restore b = (case cb_timers b of [] \<Rightarrow> b | t # ts \<Rightarrow> b\<lparr>cb_text := t, cb_timers := ts\<rparr>)"

datatype copy_event = CopyDone jsstr | TimerFired

fun copy_next :: "copy_event \<Rightarrow> copy_button \<Rightarrow> copy_button" where
  "copy_next (CopyDone v) b = copied v b"
| "copy_next TimerFired b = restore b"

definition copy_run :: "copy_event list \<Rightarrow> copy_button \<Rightarrow> copy_button" where
  "copy_run evs b = foldl (\<lambda>b ev. copy_next ev b) b evs"

lemma replicate_snoc: "vs \<noteq> [] \<Longrightarrow> replicate (length vs - 1) x @ [x] = replicate (length vs) x"
  by (cases vs) (simp_all add: replicate_append_same)

lemma copies_run:
  "vs \<noteq> [] \<Longrightarrow> copy_run (map CopyDone vs) b = b\<lparr>cb_text := copied_text, cb_copied := cb_copied b @ vs,
     cb_timers := cb_timers b @ cb_text b # replicate (length vs - 1) copied_text\<rparr>"
proof (induction vs rule: rev_induct)
  case (snoc v vs)
  show ?case
  proof (cases vs)
    case (Cons w ws)
    then have n: "vs \<noteq> []" by simp
    have "copy_run (map CopyDone (vs @ [v])) b = copied v (copy_run (map CopyDone vs) b)" by (simp add: copy_run_def)
    also have "\<dots> = b\<lparr>cb_text := copied_text, cb_copied := cb_copied b @ vs @ [v],
        cb_timers := cb_timers b @ cb_text b # replicate (length vs) copied_text\<rparr>"
      by (simp add: snoc.IH [OF n] copied_def replicate_snoc [OF n, simplified])
    finally show ?thesis by simp
  qed (simp add: copy_run_def copied_def)
qed simp

lemma restores_run:
  "copy_run (replicate (length (cb_timers b)) TimerFired) b =
     b\<lparr>cb_timers := [], cb_text := (if cb_timers b = [] then cb_text b else last (cb_timers b))\<rparr>"
proof (induction "cb_timers b" arbitrary: b)
  case (Cons t ts)
  have "copy_run (replicate (length (cb_timers b)) TimerFired) b = copy_run (replicate (length (cb_timers (restore b))) TimerFired) (restore b)"
    by (simp add: copy_run_def restore_def Cons.hyps(2) [symmetric])
  then show ?case using Cons.hyps(1) [of "restore b"] Cons.hyps(2) [symmetric] by (simp add: restore_def)
qed (simp add: copy_run_def)

text \<open>Once a text has been copied and its timer has fired, a copy button has its label back. If
  further copies are done while the timer runs, all of them are made, but when every timer has
  fired the button goes on saying that it has copied.\<close>

theorem copy_label:
  assumes "cb_timers b = []" "vs \<noteq> []"
  shows "copy_run (map CopyDone vs @ replicate (length vs) TimerFired) b =
    b\<lparr>cb_text := (if length vs = 1 then cb_text b else copied_text), cb_copied := cb_copied b @ vs\<rparr>"
proof -
  let ?b = "copy_run (map CopyDone vs) b"
  have c: "?b = b\<lparr>cb_text := copied_text, cb_copied := cb_copied b @ vs,
      cb_timers := cb_text b # replicate (length vs - 1) copied_text\<rparr>"
    using copies_run [OF assms(2), of b] assms(1) by simp
  then have n: "length (cb_timers ?b) = length vs" using assms(2) by (cases vs) auto
  have "copy_run (map CopyDone vs @ replicate (length vs) TimerFired) b = copy_run (replicate (length (cb_timers ?b)) TimerFired) ?b"
    by (simp add: copy_run_def n [unfolded copy_run_def])
  also have "\<dots> = ?b\<lparr>cb_timers := [], cb_text := last (cb_timers ?b)\<rparr>" by (subst restores_run) (simp add: c)
  also have "\<dots> = b\<lparr>cb_text := (if length vs = 1 then cb_text b else copied_text), cb_copied := cb_copied b @ vs\<rparr>"
    unfolding c using assms by (cases vs; cases "tl vs") auto
  finally show ?thesis .
qed

theorem copy_label_witness:
  "cb_text (copy_run [CopyDone (js ''x''), CopyDone (js ''x''), TimerFired, TimerFired]
     \<lparr>cb_text = js ''copy'', cb_timers = [], cb_copied = []\<rparr>) = copied_text"
  using copy_label [of "\<lparr>cb_text = js ''copy'', cb_timers = [], cb_copied = []\<rparr>" "[js ''x'', js ''x'']"]
  by (simp add: numeral_2_eq_2)

section \<open>The sticky header\<close>

text \<open>The header as the page has it: its height, whether it is observed, the variable it sets, and what the
  pending frames and the anchor have done.\<close>

record sticky_header =
  sh_height :: nat
  sh_observed :: bool
  sh_variable :: "(jsstr \<times> jsstr) option"
  sh_frames :: nat
  sh_aligned :: bool

definition header_variable :: "nat \<Rightarrow> jsstr \<times> jsstr" where
  "header_variable height = (js ''--sticky-header-height'', dec_str height @ js ''px'')"

definition measure_header :: "sticky_header \<Rightarrow> sticky_header" where
  "measure_header h = h\<lparr>sh_variable := Some (header_variable (sh_height h))\<rparr>"

definition connect_header :: "sticky_header \<Rightarrow> sticky_header" where
  "connect_header h = (measure_header (h\<lparr>sh_observed := True\<rparr>))\<lparr>sh_frames := sh_frames h + 1\<rparr>"

definition disconnect_header :: "sticky_header \<Rightarrow> sticky_header" where
  "disconnect_header h = h\<lparr>sh_observed := False\<rparr>"

text \<open>The observer reports a change of the height.\<close>

definition resize_header :: "nat \<Rightarrow> sticky_header \<Rightarrow> sticky_header" where
  "resize_header n h = (let h1 = h\<lparr>sh_height := n\<rparr> in if sh_observed h then measure_header h1 else h1)"

text \<open>The models are scrolled into view in the next frame, once the header has its height.\<close>

definition aligns_anchor :: "jsstr \<Rightarrow> bool \<Rightarrow> bool" where
  "aligns_anchor hash has_models = (hash = js ''#models'' \<and> has_models)"

definition frame_header :: "jsstr \<Rightarrow> bool \<Rightarrow> sticky_header \<Rightarrow> sticky_header" where
  "frame_header hash has_models h = (if sh_frames h = 0 then h
     else h\<lparr>sh_frames := sh_frames h - 1, sh_aligned := sh_aligned h \<or> aligns_anchor hash has_models\<rparr>)"

text \<open>While the header is observed the variable is its height.\<close>

definition header_measured :: "sticky_header \<Rightarrow> bool" where
  "header_measured h = (sh_observed h \<longrightarrow> sh_variable h = Some (header_variable (sh_height h)))"

lemma header_stays_measured:
  "header_measured (connect_header h)"
  "header_measured h \<Longrightarrow> header_measured (resize_header n h)"
  "header_measured h \<Longrightarrow> header_measured (frame_header hash has_models h)"
  "header_measured (disconnect_header h)"
  by (auto simp: header_measured_def connect_header_def measure_header_def resize_header_def frame_header_def
      disconnect_header_def Let_def)

section \<open>The chat log\<close>

record chat_log =
  cl_scroll_top :: nat
  cl_scroll_height :: nat
  cl_observed :: bool
  cl_frames :: nat

definition scroll_to_latest :: "chat_log \<Rightarrow> chat_log" where
  "scroll_to_latest c = c\<lparr>cl_frames := cl_frames c + 1\<rparr>"

definition scroll_frame :: "chat_log \<Rightarrow> chat_log" where
  "scroll_frame c = (if cl_frames c = 0 then c else c\<lparr>cl_frames := cl_frames c - 1, cl_scroll_top := cl_scroll_height c\<rparr>)"

definition connect_chat :: "chat_log \<Rightarrow> chat_log" where
  "connect_chat c = (scroll_to_latest c)\<lparr>cl_observed := True\<rparr>"

definition disconnect_chat :: "chat_log \<Rightarrow> chat_log" where
  "disconnect_chat c = c\<lparr>cl_observed := False\<rparr>"

text \<open>A message is added or removed: the log has a new height, and the observer asks for a frame.\<close>

definition chat_grows :: "nat \<Rightarrow> chat_log \<Rightarrow> chat_log" where
  "chat_grows n c = (let c1 = c\<lparr>cl_scroll_height := n\<rparr> in if cl_observed c then scroll_to_latest c1 else c1)"

text \<open>While the log is observed it shows its end, or a frame that will show it is pending.\<close>

definition chat_follows :: "chat_log \<Rightarrow> bool" where
  "chat_follows c = (cl_observed c \<longrightarrow> cl_scroll_top c = cl_scroll_height c \<or> 0 < cl_frames c)"

lemma chat_stays_following:
  "chat_follows (connect_chat c)" "chat_follows (disconnect_chat c)"
  "chat_follows c \<Longrightarrow> chat_follows (chat_grows n c)" "chat_follows c \<Longrightarrow> chat_follows (scroll_frame c)"
  by (auto simp: chat_follows_def connect_chat_def disconnect_chat_def chat_grows_def scroll_frame_def
      scroll_to_latest_def Let_def)

section \<open>The chat prompts and the errors of a form\<close>

record chat_form =
  cf_input :: jsstr
  cf_submissions :: "jsstr list"

definition choose_prompt :: "jsstr \<Rightarrow> chat_form \<Rightarrow> chat_form" where
  "choose_prompt message f = f\<lparr>cf_input := message, cf_submissions := cf_submissions f @ [message]\<rparr>"

text \<open>The field that is focused when the form is shown again: the first that is marked invalid. A field is
  its name and the value of \<open>aria-invalid\<close>.\<close>

definition focused_field :: "(jsstr \<times> jsstr option) list \<Rightarrow> jsstr option" where
  "focused_field fs = map_option fst (List.find (\<lambda>(name, invalid). invalid = Some (js ''true'')) fs)"

lemma focused_field_invalid:
  "focused_field fs = Some name \<Longrightarrow> (name, Some (js ''true'')) \<in> set fs"
  by (auto simp: focused_field_def find_Some_iff) (metis nth_mem prod.collapse)

end
