(* ===== verification/SpikeServers.thy ===== *)
theory SpikeServers
  imports DemoWallet Mcp
begin

text \<open>
  The two servers of the wire spike (\<open>scripts/spike\<close>): the resource server with its one paid route
  (\<open>server.mjs\<close>), the logging proxy in front of the facilitator (\<open>facilitator-proxy.mjs\<close>), and the log
  both write (\<open>wirelog.mjs\<close>). The x402 resource server, the clock, the log file and URL parsing are
  parameters. The lemmas show that the paid resource is served only after a settlement.
\<close>

section \<open>The wire log\<close>

record 'w wire =
  wi_now :: "'w \<Rightarrow> jsstr \<times> 'w"
  wi_append :: "jsstr \<Rightarrow> jsstr \<Rightarrow> 'w \<Rightarrow> (js_error + unit) \<times> 'w"

definition append_call :: jsstr where
  "append_call = js ''appendFileSync''"

definition wire_line :: "jsstr \<Rightarrow> jsval \<Rightarrow> jsstr" where
  "wire_line ts entry = template (stringify (with_entries (Obj [(js ''ts'', Str ts)]) (spread entry))) @ newline"

text \<open>\<open>text.replace(part, "")\<close>: the first occurrence goes.\<close>

fun without_first :: "jsstr \<Rightarrow> jsstr \<Rightarrow> jsstr" where
  "without_first p [] = []"
| "without_first p (c # cs) = (if starts_with p (c # cs) then drop (length p) (c # cs) else c # without_first p cs)"

definition or_empty :: "jsval \<Rightarrow> js_error + jsstr" where
  "or_empty v = string_of (coalesce v (Str []))"

definition wire_summary :: "jsval \<Rightarrow> js_error + jsstr" where
  "wire_summary entry = (if \<not> nullish (opt_prop entry (js ''note'')) then string_of (opt_prop entry (js ''note''))
     else bindE (or_empty (opt_prop entry (js ''method''))) (\<lambda>m.
       bindE (or_empty (coalesce (opt_prop entry (js ''path'')) (opt_prop entry (js ''url'')))) (\<lambda>p.
       bindE (or_empty (opt_prop entry (js ''status''))) (\<lambda>st.
         Inr (m @ js '' '' @ p @ [32, 0x2192, 32] @ st)))))"

definition wire_log :: "'w wire \<Rightarrow> string \<Rightarrow> jsval \<Rightarrow> ('w, unit) prog" where
  "wire_log wi file entry =
     bindM (callM (\<lambda>_ w. case wi_now wi w of (t, w') \<Rightarrow> (Inr t, w')) (js ''Date'') []) (\<lambda>ts.
     bindM (callM (\<lambda>_. wi_append wi (js file) (wire_line ts entry)) append_call [Str (js file), Str (wire_line ts entry)]) (\<lambda>_.
     bindM (liftM (wire_summary entry)) (\<lambda>line.
       print_values [Str (js ''[wire:'' @ without_first (js ''.jsonl'') (js file) @ js ''] '' @ line)])))"

section \<open>The resource server\<close>

record spike_request =
  sq_method :: jsstr
  sq_url :: jsstr
  sq_headers :: "(jsstr \<times> jsstr) list"
  sq_chunks :: "js_error + bytes list"

record spike_url =
  su_pathname :: jsstr
  su_params :: "(jsstr \<times> jsstr) list"

record adapter =
  ad_header :: "jsstr \<Rightarrow> jsval"
  ad_method :: jsstr
  ad_path :: jsstr
  ad_url :: jsstr
  ad_accept :: jsstr
  ad_user_agent :: jsstr
  ad_params :: "(jsstr \<times> jsval) list"
  ad_param :: "jsstr \<Rightarrow> jsval"

text \<open>\<open>x402HTTPResourceServer\<close>, and \<open>new URL(path, base)\<close>.\<close>

record 'w resource_server =
  rs_url :: "jsstr \<Rightarrow> jsstr \<Rightarrow> js_error + spike_url"
  rs_process :: "adapter \<Rightarrow> jsstr \<Rightarrow> jsstr \<Rightarrow> 'w \<Rightarrow> (js_error + jsval) \<times> 'w"
  rs_settle :: "jsval list \<Rightarrow> 'w \<Rightarrow> (js_error + jsval) \<times> 'w"

record spike_settings =
  sp_port :: jsnum
  sp_facilitator :: jsstr
  sp_pay_to :: jsstr

definition spike_config :: "environment \<Rightarrow> js_error + spike_settings" where
  "spike_config env = (if \<not> env_set env ''TREASURY_ACCOUNT_ID''
     then Inl (PlainErr (js ''TREASURY_ACCOUNT_ID missing'' @ em_dash @ js ''run create-treasury.mjs first''))
     else Inr \<lparr>sp_port = number_of_str (env_or env ''SERVER_PORT'' (js ''4402'')),
       sp_facilitator = env_or env ''SERVER_FACILITATOR_URL'' (js ''http://127.0.0.1:4403''),
       sp_pay_to = env_or env ''TREASURY_ACCOUNT_ID'' []\<rparr>)"

definition price_tinybars :: jsstr where
  "price_tinybars = js ''10000000''"

definition paid_routes :: "spike_settings \<Rightarrow> jsval" where
  "paid_routes c = Obj [(js ''GET /premium'', Obj
     [(js ''accepts'', Obj [(js ''scheme'', Str (js ''exact'')), (js ''network'', Str (js ''hedera:testnet'')),
        (js ''payTo'', Str (sp_pay_to c)),
        (js ''price'', Obj [(js ''asset'', Str (js ''0.0.0'')), (js ''amount'', Str price_tinybars)]),
        (js ''maxTimeoutSeconds'', jnum 180)]),
      (js ''description'', Str (js ''Spike: premium JSON behind an x402 HBAR paywall'')),
      (js ''mimeType'', Str (js ''application/json''))])]"

definition request_header :: "spike_request \<Rightarrow> string \<Rightarrow> jsstr option" where
  "request_header req name = map_of (sq_headers req) (js name)"

definition header_or :: "spike_request \<Rightarrow> string \<Rightarrow> jsstr \<Rightarrow> jsstr" where
  "header_or req name other = (case request_header req name of Some (c # cs) \<Rightarrow> c # cs | _ \<Rightarrow> other)"

text \<open>\<open>Object.fromEntries\<close>: the last value of a name wins, at the place of the first.\<close>

definition from_entries :: "(jsstr \<times> jsstr) list \<Rightarrow> (jsstr \<times> jsval) list" where
  "from_entries ps = foldl (\<lambda>kvs (k, v). obj_put kvs k (Str v)) [] ps"

definition adapter_for :: "spike_request \<Rightarrow> spike_url \<Rightarrow> adapter" where
  "adapter_for req url = \<lparr>ad_header = (\<lambda>name. optional_text (map_of (sq_headers req) (ascii_lower name))),
     ad_method = sq_method req, ad_path = su_pathname url,
     ad_url = js ''http://'' @ template (request_header req ''host'') @ sq_url req,
     ad_accept = header_or req ''accept'' (js ''application/json''), ad_user_agent = header_or req ''user-agent'' [],
     ad_params = from_entries (su_params url), ad_param = (\<lambda>name. optional_text (map_of (su_params url) name))\<rparr>"

text \<open>A reply: status, headers and body.\<close>

type_synonym spike_reply = "jsval \<times> jsval \<times> jsstr option"

fun reply_text :: "jsval \<Rightarrow> jsstr option" where
  "reply_text (Str s) = Some s"
| "reply_text v = stringify_indent [] v"

definition respond :: "'w wire \<Rightarrow> spike_request \<Rightarrow> jsval \<Rightarrow> jsval \<Rightarrow> jsval \<Rightarrow> ('w, spike_reply) prog" where
  "respond wi req status headers body =
     bindM (wire_log wi ''server.jsonl'' (Obj [(js ''method'', Str (sq_method req)), (js ''path'', Str (sq_url req)),
        (js ''requestHeaders'', Obj (from_entries (sq_headers req))), (js ''status'', status), (js ''responseHeaders'', headers),
        (js ''responseBody'', optional_text (reply_text body))])) (\<lambda>_.
     retM (status, with_entries (Obj [(js ''content-type'', Str (js ''application/json''))]) (spread headers), reply_text body))"

text \<open>\<open>const { status, headers, body } = v.response\<close>, sent on.\<close>

definition relay :: "'w wire \<Rightarrow> spike_request \<Rightarrow> jsval \<Rightarrow> ('w, spike_reply) prog" where
  "relay wi req v = (let response = opt_prop v (js ''response'') in
     bindM (liftM (get_prop response (js ''status''))) (\<lambda>status.
       respond wi req status (opt_prop response (js ''headers'')) (coalesce (opt_prop response (js ''body'')) (Obj []))))"

definition premium :: "jsval \<Rightarrow> jsval" where
  "premium settled = Obj [(js ''premium'', Bool True), (js ''message'', Str (js ''x402 payment settled on Hedera testnet'')),
     (js ''transaction'', opt_prop settled (js ''transaction'')),
     (js ''transactionId'', coalesce (opt_prop settled (js ''transactionId'')) Null),
     (js ''payer'', opt_prop settled (js ''payer'')), (js ''network'', opt_prop settled (js ''network''))]"

definition settle_call :: jsstr where
  "settle_call = js ''processSettlement''"

definition settle_arguments :: "jsval \<Rightarrow> jsval list" where
  "settle_arguments result = [opt_prop result (js ''paymentPayload''), opt_prop result (js ''paymentRequirements''),
     opt_prop result (js ''declaredExtensions'')]"

definition serve_paid :: "'w resource_server \<Rightarrow> 'w wire \<Rightarrow> spike_request \<Rightarrow> jsval \<Rightarrow> ('w, spike_reply) prog" where
  "serve_paid rs wi req result =
     bindM (callM (rs_settle rs) settle_call (settle_arguments result)) (\<lambda>settled.
     bindM (liftM (get_prop settled (js ''success''))) (\<lambda>success.
       if \<not> truthy success then relay wi req settled
       else respond wi req (jnum 200) (opt_prop settled (js ''headers'')) (premium settled)))"

definition route_result :: "'w resource_server \<Rightarrow> 'w wire \<Rightarrow> spike_request \<Rightarrow> jsval \<Rightarrow> ('w, spike_reply) prog" where
  "route_result rs wi req result =
     bindM (liftM (get_prop result (js ''type''))) (\<lambda>t.
       if t = Str (js ''no-payment-required'') then respond wi req (jnum 200) (Obj []) (Obj [(js ''free'', Bool True)])
       else if t = Str (js ''payment-error'') then relay wi req result
       else serve_paid rs wi req result)"

text \<open>\<open>String(error)\<close>\<close>

definition error_string :: "js_error \<Rightarrow> jsstr" where
  "error_string e = (if error_message e = [] then error_name e else error_name e @ js '': '' @ error_message e)"

definition spike_server :: "'w resource_server \<Rightarrow> 'w wire \<Rightarrow> spike_request \<Rightarrow> ('w, spike_reply) prog" where
  "spike_server rs wi req =
     bindM (liftM (rs_url rs (sq_url req) (js ''http://'' @ template (request_header req ''host'')))) (\<lambda>url.
     catchM (bindM (callM (\<lambda>_. rs_process rs (adapter_for req url) (su_pathname url) (sq_method req)) (js ''processHTTPRequest'')
          [Str (su_pathname url), Str (sq_method req)]) (route_result rs wi req))
       (\<lambda>e. bindM (print_values [Str (error_string e)]) (\<lambda>_.
          respond wi req (jnum 500) (Obj []) (Obj [(js ''error'', Str (error_string e))]))))"

section \<open>The proxy\<close>

definition upstream_of :: "environment \<Rightarrow> jsstr" where
  "upstream_of env = env_or env ''FACILITATOR_URL'' (js ''https://api.testnet.blocky402.com'')"

definition proxy_port :: "environment \<Rightarrow> jsnum" where
  "proxy_port env = number_of_str (env_or env ''PROXY_PORT'' (js ''4403''))"

definition upstream_request :: "environment \<Rightarrow> spike_request \<Rightarrow> jsstr \<Rightarrow> http_request" where
  "upstream_request env req body = \<lparr>req_method = sq_method req, req_url = upstream_of env @ sq_url req,
     req_headers = [(js ''content-type'', header_or req ''content-type'' (js ''application/json''))],
     req_body = (if sq_method req \<in> {js ''GET'', js ''HEAD''} then None else Some body)\<rparr>"

definition content_type_of :: "http_response \<Rightarrow> jsval" where
  "content_type_of r = (case map_of (res_headers r) (js ''content-type'') of
     Some (c # cs) \<Rightarrow> Str (c # cs) | _ \<Rightarrow> Str (js ''application/json''))"

definition pass_on :: "'w fetcher \<Rightarrow> 'w wire \<Rightarrow> environment \<Rightarrow> spike_request \<Rightarrow> jsstr \<Rightarrow> ('w, spike_reply) prog" where
  "pass_on f wi env req body =
     bindM (fetchM f (upstream_request env req body)) (\<lambda>upstream.
     bindM (liftM (res_text upstream)) (\<lambda>answer.
     bindM (wire_log wi ''facilitator.jsonl'' (Obj [(js ''method'', Str (sq_method req)), (js ''path'', Str (sq_url req)),
        (js ''requestBody'', if body = [] then Null else Str body), (js ''status'', jnum (res_status upstream)),
        (js ''responseHeaders'', Obj (from_entries (res_headers upstream))), (js ''responseBody'', Str answer)])) (\<lambda>_.
     retM (jnum (res_status upstream), Obj [(js ''content-type'', content_type_of upstream)], Some answer))))"

definition facilitator_proxy :: "'w fetcher \<Rightarrow> 'w wire \<Rightarrow> environment \<Rightarrow> spike_request \<Rightarrow> ('w, spike_reply) prog" where
  "facilitator_proxy f wi env req =
     bindM (liftM (sq_chunks req)) (\<lambda>chunks.
     catchM (pass_on f wi env req (utf8_lossy (concat chunks)))
       (\<lambda>e. bindM (wire_log wi ''facilitator.jsonl'' (Obj [(js ''method'', Str (sq_method req)), (js ''path'', Str (sq_url req)),
            (js ''error'', Str (error_string e))])) (\<lambda>_.
          retM (jnum 502, Obj [(js ''content-type'', Str (js ''application/json''))],
            stringify (Obj [(js ''error'', Str (js ''facilitator_proxy_error'')), (js ''detail'', Str (error_string e))])))))"

section \<open>When a payment is settled\<close>

fun is_settlement :: "event \<Rightarrow> bool" where
  "is_settlement (Called name args) = (name = settle_call)"
| "is_settlement _ = False"

lemma quiet_wire: "emits (\<lambda>e. \<not> is_settlement e) (wire_log wi file entry)"
  unfolding wire_log_def print_values_def
  by (intro emits_bindM emits_callM trace_rules) (simp_all add: settle_call_def append_call_def print_call_def js_eval)

lemma quiet_respond: "emits (\<lambda>e. \<not> is_settlement e) (respond wi req status headers body)"
  "emits (\<lambda>e. \<not> is_settlement e) (relay wi req v)"
proof -
  show r: "emits (\<lambda>e. \<not> is_settlement e) (respond wi req status headers body)" for status headers body
    unfolding respond_def by (intro emits_bindM trace_rules quiet_wire)
  show "emits (\<lambda>e. \<not> is_settlement e) (relay wi req v)"
    unfolding relay_def Let_def by (intro emits_bindM trace_rules r)
qed

text \<open>A settlement is asked for at most once for a request, with the payment of a result that is neither
  free nor an error.\<close>

lemma route_result_settles:
  "emits (\<lambda>e. is_settlement e \<longrightarrow> opt_prop result (js ''type'') \<notin> {Str (js ''no-payment-required''), Str (js ''payment-error'')} \<and>
     e = Called settle_call (settle_arguments result)) (route_result rs wi req result)"
  "at_most is_settlement 1 (route_result rs wi req result)"
proof -
  let ?P = "\<lambda>e. is_settlement e \<longrightarrow> opt_prop result (js ''type'') \<notin> {Str (js ''no-payment-required''), Str (js ''payment-error'')} \<and>
     e = Called settle_call (settle_arguments result)"
  have q: "emits (\<lambda>e. is_settlement e \<longrightarrow> R e) (respond wi req status headers body)"
    "emits (\<lambda>e. is_settlement e \<longrightarrow> R e) (relay wi req v)" for R status headers body v
    by (rule emits_mono [OF quiet_respond(1)], blast) (rule emits_mono [OF quiet_respond(2)], blast)
  have serve: "emits ?P (serve_paid rs wi req result)"
    if "opt_prop result (js ''type'') \<notin> {Str (js ''no-payment-required''), Str (js ''payment-error'')}"
    unfolding serve_paid_def
    by (intro emits_bindM emits_callM trace_rules) (use that in \<open>auto intro!: q\<close>)
  show "emits ?P (route_result rs wi req result)"
    unfolding route_result_def
    by (rule emits_bindM, rule trace_rules) (auto intro!: q serve simp: run_iffs get_prop_Inr simp del: insert_iff)
  have "at_most is_settlement (1 + (0 + 0)) (serve_paid rs wi req result)"
    unfolding serve_paid_def
    by (intro at_most_bindM at_most_callM emits_at_most trace_rules) (auto intro: quiet_respond)
  then have "at_most is_settlement (0 + 1) (route_result rs wi req result)"
    unfolding route_result_def
    by (intro at_most_bindM emits_at_most trace_rules)
      (auto intro: at_most_mono [OF emits_at_most [OF quiet_respond(1)]] at_most_mono [OF emits_at_most [OF quiet_respond(2)]])
  then show "at_most is_settlement 1 (route_result rs wi req result)" by simp
qed

lemma spike_server_settles:
  "emits (\<lambda>e. is_settlement e \<longrightarrow> (\<exists>result. opt_prop result (js ''type'') \<notin> {Str (js ''no-payment-required''), Str (js ''payment-error'')} \<and>
     e = Called settle_call (settle_arguments result) \<and>
     (\<exists>url w w'. rs_process rs (adapter_for req url) (su_pathname url) (sq_method req) w = (Inr result, w')))) (spike_server rs wi req)"
    (is "emits (\<lambda>e. is_settlement e \<longrightarrow> ?R e) _")
  and "at_most is_settlement 1 (spike_server rs wi req)"
proof -
  have failure: "emits (\<lambda>e. \<not> is_settlement e) (bindM (print_values vs) (\<lambda>_. respond wi req status headers body))" for vs status headers body
    unfolding print_values_def
    by (intro emits_bindM emits_callM quiet_respond) (simp add: settle_call_def print_call_def js_eval)
  have fm: "emits (\<lambda>e. is_settlement e \<longrightarrow> ?R e) (bindM (print_values vs) (\<lambda>_. respond wi req status headers body))" for vs status headers body
    by (rule emits_mono [OF failure]) blast
  have body: "emits (\<lambda>e. is_settlement e \<longrightarrow> ?R e) (bindM (callM (\<lambda>_. rs_process rs (adapter_for req url) (su_pathname url) (sq_method req))
      (js ''processHTTPRequest'') [Str (su_pathname url), Str (sq_method req)]) (route_result rs wi req))" for url
  proof (rule emits_bindM)
    show "emits (\<lambda>e. is_settlement e \<longrightarrow> ?R e) (callM (\<lambda>_. rs_process rs (adapter_for req url) (su_pathname url) (sq_method req))
      (js ''processHTTPRequest'') [Str (su_pathname url), Str (sq_method req)])"
      by (rule emits_callM) (simp add: settle_call_def js_eval)
    fix result s s1
    assume "callM (\<lambda>_. rs_process rs (adapter_for req url) (su_pathname url) (sq_method req))
      (js ''processHTTPRequest'') [Str (su_pathname url), Str (sq_method req)] s = (Inr result, s1)"
    then have "\<exists>w w'. rs_process rs (adapter_for req url) (su_pathname url) (sq_method req) w = (Inr result, w')"
      by (auto simp: callM_def split: prod.splits)
    then show "emits (\<lambda>e. is_settlement e \<longrightarrow> ?R e) (route_result rs wi req result)"
      by (intro emits_mono [OF route_result_settles(1)]) blast
  qed
  show "emits (\<lambda>e. is_settlement e \<longrightarrow> ?R e) (spike_server rs wi req)"
    unfolding spike_server_def
    by (rule emits_bindM, rule trace_rules, rule emits_catchM, rule body, rule fm)
  have "at_most is_settlement (0 + ((0 + 1) + 0)) (spike_server rs wi req)"
    unfolding spike_server_def
    by (intro at_most_bindM at_most_catchM route_result_settles(2) emits_at_most failure trace_rules)
      (simp add: settle_call_def js_eval)
  then show "at_most is_settlement 1 (spike_server rs wi req)" by simp
qed

section \<open>What the proxy answers\<close>

text \<open>An answer of the proxy is what the facilitator answered, or its own 502.\<close>

lemma proxy_answers:
  assumes "facilitator_proxy f wi env req s = (Inr (status, headers, body), s')"
  shows "status = jnum 502 \<or> (\<exists>chunks upstream w w'. sq_chunks req = Inr chunks \<and>
     f (upstream_request env req (utf8_lossy (concat chunks))) w = (Inr upstream, w') \<and>
     status = jnum (res_status upstream) \<and> res_text upstream = Inr (the body) \<and> body \<noteq> None)"
  using assms
  by (auto simp: facilitator_proxy_def pass_on_def catchM_def bindM_run liftM_run retM_run fetchM_def split: sum.splits prod.splits)
    blast+

end
