(* ===== verification/SpikeClients.thy ===== *)
theory SpikeClients
  imports SpikeServers BuyerFunding
begin

text \<open>
  The two clients of the wire spike (\<open>scripts/spike\<close>): the reference buyer driven leg by leg
  (\<open>client.mjs\<close>), and the test whether the facilitator accepts a transfer with several recipients
  (\<open>multileg-verify.mjs\<close>). The x402 and Hedera libraries are parameters. The lemmas show when the buyer
  signs, and that the transfers of the test balance and are only sent to be verified.
\<close>

section \<open>The reference buyer\<close>

record 'w spike_buyer =
  sb_fetch :: "'w fetcher"
  sb_wire :: "'w wire"
  sb_key :: "jsval \<Rightarrow> js_error + jsval"
  sb_required :: "(jsstr \<times> jsstr) list \<Rightarrow> jsval \<Rightarrow> js_error + jsval"
  sb_create :: "jsval list \<Rightarrow> 'w \<Rightarrow> (js_error + jsval) \<times> 'w"
  sb_encode :: "jsval \<Rightarrow> js_error + (jsstr \<times> jsstr) list"
  sb_settled :: "(jsstr \<times> jsstr) list \<Rightarrow> js_error + jsval"

definition resource_of :: "environment \<Rightarrow> jsstr" where
  "resource_of env = env_or env ''RESOURCE_URL'' (js ''http://127.0.0.1:4402/premium'')"

definition logged_fetch ::
  "'w spike_buyer \<Rightarrow> string \<Rightarrow> jsstr \<Rightarrow> (jsstr \<times> jsstr) list \<Rightarrow> ('w, http_response \<times> jsstr) prog" where
  "logged_fetch sb what u headers =
     bindM (fetchM (sb_fetch sb) \<lparr>req_method = js ''GET'', req_url = u, req_headers = headers, req_body = None\<rparr>) (\<lambda>response.
     bindM (liftM (res_text response)) (\<lambda>body.
     bindM (wire_log (sb_wire sb) ''client.jsonl'' (Obj [(js ''note'', Str (js what)), (js ''url'', Str u),
        (js ''method'', Str (js ''GET'')), (js ''requestHeaders'', Obj (from_entries headers)),
        (js ''status'', jnum (res_status response)), (js ''responseHeaders'', Obj (from_entries (res_headers response))),
        (js ''responseBody'', Str body)])) (\<lambda>_. retM (response, body))))"

definition unexpected :: "nat \<Rightarrow> http_response \<Rightarrow> jsstr \<Rightarrow> js_error" where
  "unexpected wanted response body = PlainErr (js ''expected '' @ dec_str wanted @ js '', got '' @
     dec_str (res_status response) @ js '': '' @ body)"

definition spike_transaction_url :: "jsval \<Rightarrow> js_error + jsstr" where
  "spike_transaction_url v = (case v of
     Str t \<Rightarrow> fund_transaction_url (\<lambda>_. None) t
   | _ \<Rightarrow> Inl (TypeErr (js ''match is not a function'')))"

text \<open>Leg 1: the challenge.\<close>

definition spike_challenge :: "'w spike_buyer \<Rightarrow> environment \<Rightarrow> ('w, jsval) prog" where
  "spike_challenge sb env =
     bindM (logged_fetch sb ''leg1: bare GET, expecting 402'' (resource_of env) accept_json) (\<lambda>(response, body).
     if res_status response \<noteq> 402 then throwM (unexpected 402 response body)
     else liftM (bindE (ofOption SyntaxErr (json_parse body)) (sb_required sb (res_headers response))))"

text \<open>Leg 2: the payment.\<close>

definition spike_payment :: "'w spike_buyer \<Rightarrow> environment \<Rightarrow> jsval \<Rightarrow> jsval \<Rightarrow> ('w, (jsstr \<times> jsstr) list) prog" where
  "spike_payment sb env key required =
     bindM (callM (sb_create sb) create_call [optional_text (env (js ''HEDERA_ACCOUNT_ID'')), key, Str (js ''hedera:testnet''), required]) (\<lambda>payload.
     bindM (liftM (sb_encode sb payload)) (\<lambda>headers.
     bindM (wire_log (sb_wire sb) ''client.jsonl'' (Obj [(js ''note'', Str (js ''leg2: payment payload built'')),
        (js ''paymentPayload'', payload), (js ''headerNames'', Arr (map (\<lambda>(k, v). Str k) headers))])) (\<lambda>_.
     bindM (print_values [Str (newline @ js ''Payment header names emitted:''), Str (intersperse (js '', '') (map fst headers))]) (\<lambda>_.
       retM headers))))"

fun print_lines :: "jsval list list \<Rightarrow> ('w, unit) prog" where
  "print_lines [] = retM ()"
| "print_lines (l # ls) = bindM (print_values l) (\<lambda>_. print_lines ls)"

definition spike_summary :: "jsval \<Rightarrow> ('w, unit) prog" where
  "spike_summary settled =
     bindM (print_lines [[Str (newline @ js ''=== SETTLED ==='')], [Str (js ''payer:      ''), opt_prop settled (js ''payer'')],
       [Str (js ''network:    ''), opt_prop settled (js ''network'')],
       [Str (js ''transaction:''), opt_prop settled (js ''transaction'')]]) (\<lambda>_.
     bindM (liftM (spike_transaction_url (opt_prop settled (js ''transaction'')))) (\<lambda>u.
       print_values [Str (js ''mirror:     '' @ u)]))"

text \<open>Leg 3: the paid request.\<close>

definition spike_paid :: "'w spike_buyer \<Rightarrow> environment \<Rightarrow> (jsstr \<times> jsstr) list \<Rightarrow> ('w, unit) prog" where
  "spike_paid sb env headers =
     bindM (logged_fetch sb ''leg3: paid GET, expecting 200'' (resource_of env) (accept_json @ headers)) (\<lambda>(response, body).
     if res_status response \<noteq> 200 then throwM (unexpected 200 response body)
     else bindM (liftM (sb_settled sb (res_headers response))) (\<lambda>settled.
       bindM (wire_log (sb_wire sb) ''client.jsonl'' (Obj [(js ''note'', Str (js ''settle response decoded from PAYMENT-RESPONSE header'')),
          (js ''settle'', settled)])) (\<lambda>_. bindM (liftM (get_prop settled (js ''transaction''))) (\<lambda>_. spike_summary settled))))"

definition spike_client :: "'w spike_buyer \<Rightarrow> environment \<Rightarrow> ('w, unit) prog" where
  "spike_client sb env =
     bindM (liftM (sb_key sb (optional_text (env (js ''HEDERA_PRIVATE_KEY''))))) (\<lambda>key.
     bindM (spike_challenge sb env) (\<lambda>required.
     bindM (liftM (get_prop required (js ''accepts''))) (\<lambda>accepts.
     bindM (print_values [Str (newline @ js ''PaymentRequired accepts:''), optional_text (stringify_indent [] accepts)]) (\<lambda>_.
     bindM (spike_payment sb env key required) (spike_paid sb env)))))"

section \<open>The transfer with several recipients\<close>

record 'w leg_tester =
  lt_fetch :: "'w fetcher"
  lt_wire :: "'w wire"
  lt_key :: "jsstr \<Rightarrow> js_error + jsval"
  lt_sign :: "jsval \<Rightarrow> jsval \<Rightarrow> transfer_entry list \<Rightarrow> 'w \<Rightarrow> (js_error + jsstr) \<times> 'w"

definition ml_facilitator :: "environment \<Rightarrow> jsstr" where
  "ml_facilitator env = drop_slash (env_or env ''X402_FACILITATOR_URL'' (js ''https://api.testnet.blocky402.com''))"

definition ml_pay_to :: "environment \<Rightarrow> jsstr" where
  "ml_pay_to env = env_or env ''X402_PAY_TO'' (js ''0.0.9584959'')"

definition extra_recipient :: jsstr where
  "extra_recipient = js ''0.0.2''"

definition ml_token :: jsstr where
  "ml_token = js ''0.0.429274''"

fun find_testnet :: "jsval list \<Rightarrow> js_error + jsval" where
  "find_testnet [] = Inr Undef"
| "find_testnet (k # ks) = bindE (get_prop k (js ''network'')) (\<lambda>n.
     if n = Str (js ''hedera:testnet'') then Inr k else find_testnet ks)"

definition ml_fee_payer :: "jsval \<Rightarrow> js_error + jsval" where
  "ml_fee_payer body = bindE (get_prop body (js ''kinds'')) (\<lambda>kinds. bindE (listed kinds) (\<lambda>ks. bindE (find_testnet ks) (\<lambda>k.
     let payer = opt_prop (opt_prop k (js ''extra'')) (js ''feePayer'') in
     if truthy payer then Inr payer else Inl (PlainErr (js ''facilitator does not list a hedera:testnet feePayer'')))))"

definition ml_requirements :: "environment \<Rightarrow> jsval \<Rightarrow> jsval" where
  "ml_requirements env payer = Obj [(js ''scheme'', Str (js ''exact'')), (js ''network'', Str (js ''hedera:testnet'')),
     (js ''amount'', Str (js ''250000'')), (js ''asset'', Str ml_token), (js ''payTo'', Str (ml_pay_to env)),
     (js ''maxTimeoutSeconds'', jnum 180), (js ''extra'', Obj [(js ''feePayer'', payer)])]"

type_synonym variant = "jsstr \<times> (jsstr \<times> int) list"

definition ml_variants :: "jsstr \<Rightarrow> jsstr \<Rightarrow> variant list" where
  "ml_variants buyer pay_to =
     [(js ''A control single-leg'', [(buyer, -250000), (pay_to, 250000)]),
      (js ''B split 90/10'', [(buyer, -250000), (pay_to, 225000), (extra_recipient, 25000)]),
      (js ''C full amount + extra leg'', [(buyer, -275000), (pay_to, 250000), (extra_recipient, 25000)])]"

definition leg_entries :: "(jsstr \<times> int) list \<Rightarrow> transfer_entry list" where
  "leg_entries legs = map (\<lambda>(account, n). \<lparr>te_token = Some ml_token, te_account = account, te_amount = n\<rparr>) legs"

definition verify_payload :: "jsval \<Rightarrow> jsstr \<Rightarrow> jsval" where
  "verify_payload required transaction = Obj [(js ''x402Version'', jnum 2),
     (js ''paymentPayload'', Obj [(js ''x402Version'', jnum 2), (js ''payload'', Obj [(js ''transaction'', Str transaction)]),
        (js ''accepted'', required)]),
     (js ''paymentRequirements'', required)]"

definition verify_request :: "environment \<Rightarrow> jsval \<Rightarrow> http_request" where
  "verify_request env body = \<lparr>req_method = js ''POST'', req_url = ml_facilitator env @ js ''/verify'',
     req_headers = [(js ''content-type'', js ''application/json'')], req_body = stringify body\<rparr>"

definition test_variant ::
  "'w leg_tester \<Rightarrow> environment \<Rightarrow> jsval \<Rightarrow> jsval \<Rightarrow> variant \<Rightarrow> ('w, jsval) prog" where
  "test_variant lt env payer key v = (case v of (name, legs) \<Rightarrow>
     bindM (callM (\<lambda>_. lt_sign lt payer key (leg_entries legs)) (js ''sign'') (map entry_value (leg_entries legs))) (\<lambda>transaction.
     let body = verify_payload (ml_requirements env payer) transaction in
     bindM (fetchM (lt_fetch lt) (verify_request env body)) (\<lambda>res.
     bindM (liftM (body_json res)) (\<lambda>verdict.
     bindM (wire_log (lt_wire lt) ''multileg.jsonl'' (Obj
        [(js ''note'', Str (name @ js '' -> '' @ dec_str (res_status res) @ js '' '' @ template (stringify verdict))),
         (js ''variant'', Str name), (js ''legs'', Arr (map (\<lambda>(a, n). Str (a @ js '':'' @ int_str n)) legs)),
         (js ''requestBody'', body), (js ''status'', jnum (res_status res)), (js ''responseBody'', verdict)])) (\<lambda>_.
       retM (with_entries (Obj [(js ''variant'', Str name), (js ''status'', jnum (res_status res))]) (spread verdict)))))))"

fun test_variants :: "'w leg_tester \<Rightarrow> environment \<Rightarrow> jsval \<Rightarrow> jsval \<Rightarrow> variant list \<Rightarrow> ('w, jsval list) prog" where
  "test_variants lt env payer key [] = retM []"
| "test_variants lt env payer key (v # vs) =
     bindM (test_variant lt env payer key v) (\<lambda>r. bindM (test_variants lt env payer key vs) (\<lambda>rs. retM (r # rs)))"

definition result_line :: "jsval \<Rightarrow> js_error + jsstr" where
  "result_line r = (case opt_prop r (js ''variant'') of
     Str name \<Rightarrow> bindE (string_of (opt_prop r (js ''isValid''))) (\<lambda>valid.
       bindE (if truthy (opt_prop r (js ''invalidReason''))
         then bindE (string_of (opt_prop r (js ''invalidReason''))) (\<lambda>m. Inr (js ''  reason='' @ m)) else Inr []) (\<lambda>reason.
       Inr (pad_end 28 name @ js '' isValid='' @ valid @ reason)))
   | _ \<Rightarrow> Inl (TypeErr (js ''padEnd is not a function'')))"

fun print_results :: "jsval list \<Rightarrow> ('w, unit) prog" where
  "print_results [] = retM ()"
| "print_results (r # rs) = bindM (liftM (result_line r)) (\<lambda>l. bindM (print_values [Str l]) (\<lambda>_. print_results rs))"

definition facilitator_splits :: "jsval list \<Rightarrow> bool" where
  "facilitator_splits rs = list_ex (\<lambda>r. truthy (opt_prop r (js ''isValid'')))
     (filter (\<lambda>r. opt_prop r (js ''variant'') \<noteq> Str (js ''A control single-leg'')) rs)"

definition final_verdict :: "jsval list \<Rightarrow> jsstr" where
  "final_verdict rs = newline @ js ''verdict: '' @ (if facilitator_splits rs
     then js ''GO'' @ em_dash @ js ''facilitator accepts a multi-leg settle''
     else js ''NO-GO'' @ em_dash @ js ''single-recipient only; V7 falls back to the payout job'')"

definition multileg :: "'w leg_tester \<Rightarrow> environment \<Rightarrow> ('w, unit) prog" where
  "multileg lt env = (let buyer = env_or env ''HEDERA_ACCOUNT_ID'' [] in
     bindM (liftM (if \<not> env_set env ''HEDERA_ACCOUNT_ID'' \<or> \<not> env_set env ''HEDERA_PRIVATE_KEY''
       then Inl (PlainErr (js ''HEDERA_ACCOUNT_ID and HEDERA_PRIVATE_KEY are required'')) else Inr ())) (\<lambda>_.
     bindM (fetchM (lt_fetch lt) (plain_get (ml_facilitator env @ js ''/supported''))) (\<lambda>res.
     bindM (liftM (bindE (body_json res) ml_fee_payer)) (\<lambda>payer.
     bindM (liftM (lt_key lt (env_or env ''HEDERA_PRIVATE_KEY'' []))) (\<lambda>key.
     bindM (test_variants lt env payer key (ml_variants buyer (ml_pay_to env))) (\<lambda>rs.
     bindM (print_values [Str (newline @ js ''=== V1 multi-leg /verify kill-test ==='')]) (\<lambda>_.
     bindM (print_results rs) (\<lambda>_. print_values [Str (final_verdict rs)]))))))))"

section \<open>What they do\<close>

lemma variants_balance: "v \<in> set (ml_variants buyer pay_to) \<Longrightarrow> balanced (leg_entries (snd v))"
  by (auto simp: ml_variants_def leg_entries_def balanced_iff)

lemma quiet_wire_signature: "emits (\<lambda>e. \<not> is_signature e) (wire_log wi f entry)"
  unfolding wire_log_def
  by (intro emits_bindM emits_callM trace_rules quiet_print) (simp_all add: append_call_def create_call_def js_eval)

lemma quiet_print_lines: "emits (\<lambda>e. \<not> is_signature e) (print_lines ls)"
  by (induction ls) (auto intro!: emits_bindM trace_rules quiet_print)

lemma quiet_legs:
  "emits (\<lambda>e. \<not> is_signature e) (logged_fetch sb what u headers)"
  "emits (\<lambda>e. \<not> is_signature e) (spike_challenge sb env)"
  "emits (\<lambda>e. \<not> is_signature e) (spike_paid sb env hs)"
proof -
  show f: "emits (\<lambda>e. \<not> is_signature e) (logged_fetch sb what u headers)" for what u headers
    unfolding logged_fetch_def by (intro emits_bindM trace_rules quiet_wire_signature) simp
  show "emits (\<lambda>e. \<not> is_signature e) (spike_challenge sb env)"
    unfolding spike_challenge_def by (auto intro!: emits_bindM f trace_rules split: prod.splits)
  show "emits (\<lambda>e. \<not> is_signature e) (spike_paid sb env hs)"
    unfolding spike_paid_def spike_summary_def
    by (auto intro!: emits_bindM f trace_rules quiet_wire_signature quiet_print quiet_print_lines split: prod.splits simp del: print_lines.simps)
qed

text \<open>The reference buyer signs at most once, and only what a 402 asked for.\<close>

lemma spike_client_once: "at_most is_signature 1 (spike_client sb env)"
proof -
  have pay: "at_most is_signature (1 + (0 + (0 + (0 + 0)))) (spike_payment sb env key required)" for key required
    unfolding spike_payment_def
    by (intro at_most_bindM at_most_callM emits_at_most trace_rules quiet_wire_signature quiet_print)
  have "at_most is_signature (0 + (0 + (0 + (0 + (1 + 0))))) (spike_client sb env)"
    unfolding spike_client_def
    by (intro at_most_bindM emits_at_most trace_rules quiet_legs quiet_print) (use pay in simp)
  then show ?thesis by simp
qed

lemma spike_challenge_402:
  assumes "spike_challenge sb env s = (Inr required, s')"
  shows "\<exists>response w w'. sb_fetch sb \<lparr>req_method = js ''GET'', req_url = resource_of env, req_headers = accept_json, req_body = None\<rparr> w = (Inr response, w') \<and>
    res_status response = 402"
  using assms
  by (auto simp: spike_challenge_def logged_fetch_def fetchM_def run_simps split: sum.splits prod.splits if_splits)

text \<open>The test of the facilitator makes no other requests than for its kinds and for verifications.\<close>

definition only_verifies :: "environment \<Rightarrow> event \<Rightarrow> bool" where
  "only_verifies env e = (case e of
     Fetched req \<Rightarrow> req = plain_get (ml_facilitator env @ js ''/supported'') \<or> (\<exists>body. req = verify_request env body)
   | _ \<Rightarrow> True)"

lemma multileg_only_verifies: "emits (only_verifies env) (multileg lt env)"
proof -
  have p: "emits (only_verifies env) (print_values vs)" for vs
    unfolding print_values_def by (rule emits_callM) (simp add: only_verifies_def)
  have w: "emits (only_verifies env) (wire_log wi f entry)" for wi f entry
    unfolding wire_log_def by (intro emits_bindM emits_callM trace_rules p) (simp_all add: only_verifies_def)
  have v: "emits (only_verifies env) (test_variant lt env payer key v)" for payer key v
    unfolding test_variant_def Let_def
    by (auto intro!: emits_bindM emits_callM trace_rules w simp: only_verifies_def split: prod.splits)
  have vs: "emits (only_verifies env) (test_variants lt env payer key vs)" for payer key vs
    by (induction vs) (auto intro!: emits_bindM trace_rules v)
  have r: "emits (only_verifies env) (print_results rs)" for rs
    by (induction rs) (auto intro!: emits_bindM trace_rules p)
  show ?thesis
    unfolding multileg_def Let_def
    by (intro emits_bindM trace_rules p vs r) (auto simp: only_verifies_def)
qed

end
