(* ===== verification/Treasury.thy ===== *)
theory Treasury
  imports Script
begin

text \<open>
  The script that makes the treasury account (\<open>scripts/spike/create-treasury.mjs\<close>): a key is generated,
  an account with that key and one hbar is created, and when its receipt has come the account, the
  key and the transaction are printed. The Hedera SDK is the record \<open>treasury_sdk\<close>. The key is printed
  last: the lemmas show that a run either prints it or prints nothing at all, although the account may
  exist by then.
\<close>

record 'w treasury_sdk =
  ty_parse_key :: "jsval \<Rightarrow> js_error + jsval"
  ty_operator :: "jsval \<Rightarrow> jsval \<Rightarrow> js_error + unit"
  ty_generate :: "'w \<Rightarrow> (js_error + jsval) \<times> 'w"
  ty_public :: "jsval \<Rightarrow> jsval"
  ty_raw :: "jsval \<Rightarrow> jsstr"
  ty_without_alias :: bool
  ty_execute :: "jsval list \<Rightarrow> 'w \<Rightarrow> (js_error + jsval \<times> jsstr) \<times> 'w"
  ty_receipt :: "jsval list \<Rightarrow> 'w \<Rightarrow> (js_error + jsstr option) \<times> 'w"

definition env_value :: "environment \<Rightarrow> string \<Rightarrow> jsval" where
  "env_value env name = (case env (js name) of None \<Rightarrow> Undef | Some v \<Rightarrow> Str v)"

definition create_account_call :: jsstr where
  "create_account_call = js ''AccountCreateTransaction.execute''"

text \<open>\<open>tx.setKeyWithoutAlias ?? tx.setKey\<close>\<close>

definition key_setter :: "'w treasury_sdk \<Rightarrow> jsstr" where
  "key_setter ty = (if ty_without_alias ty then js ''setKeyWithoutAlias'' else js ''setKey'')"

definition account_transaction :: "'w treasury_sdk \<Rightarrow> jsval \<Rightarrow> jsval list" where
  "account_transaction ty key = [Obj [(js ''initialBalance'', jnum 1), (key_setter ty, ty_public ty key)]]"

definition key_line :: "'w treasury_sdk \<Rightarrow> jsval \<Rightarrow> jsstr" where
  "key_line ty key = js ''treasury private key (hex): '' @ ty_raw ty key"

text \<open>\<open>receipt.accountId.toString()\<close> throws when the receipt has no account.\<close>

definition print_account :: "'w treasury_sdk \<Rightarrow> jsval \<Rightarrow> jsstr \<Rightarrow> jsstr option \<Rightarrow> ('w, unit) script" where
  "print_account ty key t account = (case account of
       None \<Rightarrow> throwM (Threw (TypeErr []))
     | Some a \<Rightarrow>
         bindM (say (js ''treasury account id: '' @ a)) (\<lambda>_.
         bindM (say (key_line ty key)) (\<lambda>_.
           say (js ''creation tx: '' @ t))))"

definition create_treasury :: "'w treasury_sdk \<Rightarrow> environment \<Rightarrow> ('w, unit) script" where
  "create_treasury ty env =
     bindM (run_js (liftM (bindE (ty_parse_key ty (env_value env ''HEDERA_PRIVATE_KEY'')) (\<lambda>operator_key.
        ty_operator ty (env_value env ''HEDERA_ACCOUNT_ID'') operator_key)))) (\<lambda>_.
     bindM (run_js (callM (\<lambda>_. ty_generate ty) (js ''PrivateKey.generateECDSA'') [])) (\<lambda>key.
     bindM (run_js (callM (ty_execute ty) create_account_call (account_transaction ty key))) (\<lambda>(response, t).
     bindM (run_js (callM (ty_receipt ty) (js ''getReceipt'') [response])) (\<lambda>account.
       print_account ty key t account))))"

section \<open>What a run does\<close>

definition creates_account :: "event \<Rightarrow> bool" where
  "creates_account e = (\<exists>args. e = Called create_account_call args)"

definition is_line :: "event \<Rightarrow> bool" where
  "is_line e = (\<exists>l. e = Called log_call [Str l])"

lemma treasury_calls: "create_account_call \<noteq> log_call" "js ''getReceipt'' \<noteq> log_call" "js ''PrivateKey.generateECDSA'' \<noteq> log_call"
  "js ''getReceipt'' \<noteq> create_account_call" "js ''PrivateKey.generateECDSA'' \<noteq> create_account_call"
  by (simp_all add: create_account_call_def log_call_def)

lemma run_js_Inl: "run_js p s = (Inl st, s') \<longleftrightarrow> (\<exists>e. p s = (Inl e, s') \<and> st = Threw e)"
  by (auto simp: run_js_def split: prod.splits sum.splits)

text \<open>A run that succeeds has created one account and printed its key after that; a run that fails has
  printed nothing.\<close>

lemma treasury_outcome:
  assumes "create_treasury ty env s = (r, s')"
  shows "\<exists>evs. trace s' = trace s @ evs \<and> length (filter creates_account evs) \<le> 1 \<and>
    (case r of
       Inl _ \<Rightarrow> \<forall>e \<in> set evs. \<not> is_line e
     | Inr _ \<Rightarrow> \<exists>key pre. evs = pre @ [Called log_call [Str (key_line ty key)], last evs] \<and>
         Called create_account_call (account_transaction ty key) \<in> set pre)"
proof (cases r)
  case (Inl st)
  then show ?thesis
    using assms
    by (auto simp: create_treasury_def print_account_def run_iffs run_js_Inl say_def is_line_def creates_account_def
        treasury_calls treasury_calls [symmetric] dest!: callM_trace split: option.splits)
next
  case (Inr u)
  obtain key t a s1 s2 s3 x where k: "callM (\<lambda>_. ty_generate ty) (js ''PrivateKey.generateECDSA'') [] s = (Inr key, s1)"
    "callM (ty_execute ty) create_account_call (account_transaction ty key) s1 = (Inr (x, t), s2)"
    "callM (ty_receipt ty) (js ''getReceipt'') [x] s2 = (Inr (Some a), s3)"
    "s' = note_event (Called log_call [Str (js ''creation tx: '' @ t)]) (note_event (Called log_call [Str (key_line ty key)])
       (note_event (Called log_call [Str (js ''treasury account id: '' @ a)]) s3))"
    using assms Inr
    by (auto simp: create_treasury_def print_account_def run_iffs say_def split: option.splits)
  let ?pre = "[Called (js ''PrivateKey.generateECDSA'') [], Called create_account_call (account_transaction ty key),
    Called (js ''getReceipt'') [x], Called log_call [Str (js ''treasury account id: '' @ a)]]"
  have "trace s' = trace s @ ?pre @ [Called log_call [Str (key_line ty key)], Called log_call [Str (js ''creation tx: '' @ t)]]"
    using k by (auto dest!: callM_trace)
  then show ?thesis
    unfolding Inr sum.case
    by (intro exI [of _ "?pre @ [Called log_call [Str (key_line ty key)], Called log_call [Str (js ''creation tx: '' @ t)]]"]
        conjI exI [of _ key] exI [of _ ?pre]) (simp_all add: creates_account_def treasury_calls treasury_calls [symmetric])
qed

text \<open>When the account is created but its receipt does not come, the key that controls it is printed
  nowhere.\<close>

lemma treasury_key_lost:
  assumes "create_treasury ty env s = (r, s')" "\<And>args w. \<exists>e w'. ty_receipt ty args w = (Inl e, w')"
  shows "\<exists>evs. trace s' = trace s @ evs \<and> (\<forall>e \<in> set evs. \<not> is_line e)"
proof -
  have "\<exists>st. r = Inl st"
  proof (rule ccontr)
    assume "\<nexists>st. r = Inl st"
    then obtain u where "r = Inr u" by (cases r) auto
    have "callM (ty_receipt ty) name args w \<noteq> (Inr a, w')" for name args w a w'
      using assms(2) [of args "net w"] by (auto simp: callM_def split: prod.splits)
    then show False
      using assms(1) \<open>r = Inr u\<close> by (auto simp: create_treasury_def run_iffs)
  qed
  then show ?thesis using treasury_outcome [OF assms(1)] by auto
qed

end
