(* ===== verification/WalletBuild.thy ===== *)
theory WalletBuild
  imports Env
begin

text \<open>
  The build of the wallet module (\<open>wallet/build.mjs\<close>): esbuild writes the bundle, and blanks before the
  end of a line are then removed from it. esbuild and the file system are parameters. The lemmas show
  what the cleaning changes: nothing but blanks before line ends, and nothing the second time.
\<close>

section \<open>Trailing blanks\<close>

definition is_blank :: "jsunit \<Rightarrow> bool" where
  "is_blank c = (c = 32 \<or> c = 9)"

text \<open>The line terminators before which \<open>$\<close> matches with the flag \<open>m\<close>.\<close>

definition is_line_end :: "jsunit \<Rightarrow> bool" where
  "is_line_end c = (c = 10 \<or> c = 13 \<or> c = 0x2028 \<or> c = 0x2029)"

definition at_line_end :: "jsstr \<Rightarrow> bool" where
  "at_line_end s = (case s of [] \<Rightarrow> True | c # cs \<Rightarrow> is_line_end c)"

text \<open>\<open>bundle.replace(/[ \t]+$/gm, "")\<close>. From a blank on, the match is the longest run of blanks, and
  there is one only when a line end follows; a shorter match would be followed by a blank.\<close>

fun strip_trailing :: "jsstr \<Rightarrow> jsstr" where
  "strip_trailing [] = []"
| "strip_trailing (c # cs) =
     (if is_blank c \<and> at_line_end (dropWhile is_blank cs) then strip_trailing cs else c # strip_trailing cs)"

section \<open>The build\<close>

record 'w build_tools =
  bt_build :: "jsval list \<Rightarrow> 'w \<Rightarrow> (js_error + unit) \<times> 'w"
  bt_read :: "jsval list \<Rightarrow> 'w \<Rightarrow> (js_error + jsstr) \<times> 'w"
  bt_write :: "jsval list \<Rightarrow> 'w \<Rightarrow> (js_error + unit) \<times> 'w"

definition build_options :: "jsstr \<Rightarrow> jsstr \<Rightarrow> jsstr \<Rightarrow> jsval" where
  "build_options entry sdk out = Obj [(js ''entryPoints'', Arr [Str entry]), (js ''bundle'', Bool True),
     (js ''platform'', Str (js ''browser'')), (js ''format'', Str (js ''esm'')), (js ''minifyIdentifiers'', Bool True),
     (js ''minifyWhitespace'', Bool True), (js ''minifySyntax'', Bool False),
     (js ''alias'', Obj [(js ''@hiero-ledger/sdk'', Str sdk)]), (js ''outfile'', Str out)]"

definition build_wallet :: "'w build_tools \<Rightarrow> jsstr \<Rightarrow> jsstr \<Rightarrow> jsstr \<Rightarrow> ('w, unit) prog" where
  "build_wallet bt entry sdk out =
     bindM (callM (bt_build bt) (js ''build'') [build_options entry sdk out]) (\<lambda>_.
     bindM (callM (bt_read bt) (js ''readFile'') [Str out, Str (js ''utf8'')]) (\<lambda>bundle.
       callM (bt_write bt) (js ''writeFile'') [Str out, Str (strip_trailing bundle)]))"

section \<open>What the cleaning does\<close>

definition no_trailing :: "jsstr \<Rightarrow> bool" where
  "no_trailing s = (\<forall>p c q. s = p @ c # q \<longrightarrow> is_blank c \<longrightarrow> \<not> at_line_end (dropWhile is_blank q))"

lemma blank_not_line_end: "is_blank c \<Longrightarrow> \<not> is_line_end c"
  by (auto simp: is_blank_def is_line_end_def)

lemma no_trailing_Cons:
  "no_trailing (c # s) \<longleftrightarrow> (is_blank c \<longrightarrow> \<not> at_line_end (dropWhile is_blank s)) \<and> no_trailing s"
  unfolding no_trailing_def
  by (auto simp: Cons_eq_append_conv)

text \<open>What follows a run of blanks is a line end before the cleaning exactly when it is one after it.\<close>

lemma line_end_kept: "at_line_end (dropWhile is_blank (strip_trailing s)) \<longleftrightarrow> at_line_end (dropWhile is_blank s)"
  by (induction s) (auto simp: at_line_end_def blank_not_line_end)

lemma strip_trailing_clean: "no_trailing (strip_trailing s)"
  by (induction s) (auto simp: no_trailing_Cons line_end_kept, simp add: no_trailing_def)

lemma strip_trailing_id: "no_trailing s \<Longrightarrow> strip_trailing s = s"
  by (induction s) (auto simp: no_trailing_Cons)

text \<open>The cleaned bundle has no blank at the end of a line, the cleaning changes it no more, and all
  other characters, the line ends among them, are as they were.\<close>

lemma strip_trailing_spec:
  "no_trailing (strip_trailing s)" "strip_trailing (strip_trailing s) = strip_trailing s"
  "filter (\<lambda>c. \<not> is_blank c) (strip_trailing s) = filter (\<lambda>c. \<not> is_blank c) s"
  "strip_trailing s = s \<longleftrightarrow> no_trailing s"
proof -
  show "filter (\<lambda>c. \<not> is_blank c) (strip_trailing s) = filter (\<lambda>c. \<not> is_blank c) s" by (induction s) auto
qed (metis strip_trailing_clean strip_trailing_id)+

lemma build_writes_clean:
  assumes "build_wallet bt entry sdk out s = (Inr u, s')"
  shows "\<exists>bundle. trace s' = trace s @ [Called (js ''build'') [build_options entry sdk out],
      Called (js ''readFile'') [Str out, Str (js ''utf8'')], Called (js ''writeFile'') [Str out, Str bundle]] \<and> no_trailing bundle"
proof -
  obtain t where "trace s' = trace s @ [Called (js ''build'') [build_options entry sdk out],
      Called (js ''readFile'') [Str out, Str (js ''utf8'')],
      Called (js ''writeFile'') [Str out, Str (strip_trailing t)]]"
    using assms by (auto simp: build_wallet_def run_iffs dest!: callM_trace)
  then show ?thesis using strip_trailing_clean by blast
qed

end
